(* ===== verification/UBB_Prelude.thy ===== *)
theory UBB_Prelude
  imports Main "HOL-Library.AList" "HOL-Library.List_Lexorder" "HOL-Library.Char_ord"
begin

text \<open>
  What every component of the development shares: Python's effects as a state and exception
  monad over an explicit state, dictionaries as association lists in insertion order, the
  character classes and string operations of the standard library that the code uses, and the
  reasoning rules for them.

  A Python function that mutates objects and may raise is a value of \<open>('s, 'e, 'a) prog\<close>: it takes
  the state and returns an outcome together with the state it leaves behind. A raise keeps the
  mutations made before it, as in Python. \<open>NoFuel\<close> is the outcome of a recursion or a loop whose
  fuel ran out; no handler catches it, and every theorem that a function returns rules it out.
\<close>

named_theorems keeps_rules \<open>composition rules of the invariant triple\<close>
named_theorems triple_rules \<open>composition rules of the Hoare triple\<close>
named_theorems steady_rules \<open>composition rules of the programs that need no fuel\<close>
named_theorems prog_defs \<open>the definitions of the monad's operations\<close>

section \<open>Programs that mutate and raise\<close>

datatype ('e, 'a) outcome = Ret 'a | Raise 'e | NoFuel

type_synonym ('s, 'e, 'a) prog = "'s \<Rightarrow> ('e, 'a) outcome \<times> 's"

definition ret :: "'a \<Rightarrow> ('s, 'e, 'a) prog" where
  [prog_defs]: "ret x = (\<lambda>s. (Ret x, s))"

definition raise :: "'e \<Rightarrow> ('s, 'e, 'a) prog" where
  [prog_defs]: "raise e = (\<lambda>s. (Raise e, s))"

definition no_fuel :: "('s, 'e, 'a) prog" where
  [prog_defs]: "no_fuel = (\<lambda>s. (NoFuel, s))"

definition bind :: "('s, 'e, 'a) prog \<Rightarrow> ('a \<Rightarrow> ('s, 'e, 'b) prog) \<Rightarrow> ('s, 'e, 'b) prog" where
  [prog_defs]: "bind m f = (\<lambda>s. case m s of
      (Ret x, s') \<Rightarrow> f x s'
    | (Raise e, s') \<Rightarrow> (Raise e, s')
    | (NoFuel, s') \<Rightarrow> (NoFuel, s'))"

definition andThen :: "('s, 'e, 'a) prog \<Rightarrow> ('s, 'e, 'b) prog \<Rightarrow> ('s, 'e, 'b) prog" where
  [prog_defs]: "andThen m n = bind m (\<lambda>_. n)"

text \<open>\<open>try: m except Exception as e: h e\<close>\<close>

definition catch :: "('s, 'e, 'a) prog \<Rightarrow> ('e \<Rightarrow> ('s, 'e, 'a) prog) \<Rightarrow> ('s, 'e, 'a) prog" where
  [prog_defs]: "catch m h = (\<lambda>s. case m s of
      (Ret x, s') \<Rightarrow> (Ret x, s')
    | (Raise e, s') \<Rightarrow> h e s'
    | (NoFuel, s') \<Rightarrow> (NoFuel, s'))"

text \<open>The exception of a program as a value: \<open>None\<close> when it returned.\<close>

definition attempt :: "('s, 'e, 'a) prog \<Rightarrow> ('s, 'e, 'e + 'a) prog" where
  [prog_defs]: "attempt m = (\<lambda>s. case m s of
      (Ret x, s') \<Rightarrow> (Ret (Inr x), s')
    | (Raise e, s') \<Rightarrow> (Ret (Inl e), s')
    | (NoFuel, s') \<Rightarrow> (NoFuel, s'))"

definition gets :: "('s \<Rightarrow> 'a) \<Rightarrow> ('s, 'e, 'a) prog" where
  [prog_defs]: "gets f = (\<lambda>s. (Ret (f s), s))"

definition modify :: "('s \<Rightarrow> 's) \<Rightarrow> ('s, 'e, unit) prog" where
  [prog_defs]: "modify f = (\<lambda>s. (Ret (), f s))"

definition onlyif :: "bool \<Rightarrow> ('s, 'e, unit) prog \<Rightarrow> ('s, 'e, unit) prog" where
  [prog_defs]: "onlyif b m = (if b then m else ret ())"

definition raise_if :: "bool \<Rightarrow> 'e \<Rightarrow> ('s, 'e, unit) prog" where
  [prog_defs]: "raise_if b e = (if b then raise e else ret ())"

text \<open>A sequence of programs run in order, stopping at the first exception.\<close>

fun run_all :: "('s, 'e, unit) prog list \<Rightarrow> ('s, 'e, unit) prog" where
  "run_all [] = ret ()"
| "run_all (m # ms) = andThen m (run_all ms)"

text \<open>\<open>for x in xs: f(x)\<close>\<close>

definition for_each :: "'a list \<Rightarrow> ('a \<Rightarrow> ('s, 'e, unit) prog) \<Rightarrow> ('s, 'e, unit) prog" where
  [prog_defs]: "for_each xs f = run_all (map f xs)"

text \<open>\<open>try: ... finally: ...\<close>, where the cleanup raises nothing\<close>

definition finally_do :: "('s, 'e, 'a) prog \<Rightarrow> ('s \<Rightarrow> 's) \<Rightarrow> ('s, 'e, 'a) prog" where
  "finally_do m cleanup = (\<lambda>s. let (r, s') = m s in (r, cleanup s'))"

lemma bind_ret_left: "bind (ret x) f = f x"
  by (simp add: prog_defs)

lemma bind_gets: "bind (gets f) g s = g (f s) s"
  by (simp add: prog_defs)

lemma andThen_raise_if: "andThen (raise_if b e) m s = (if b then (Raise e, s) else m s)"
  by (simp add: prog_defs)

lemma andThen_modify: "andThen (modify f) m s = m (f s)"
  by (simp add: prog_defs)

lemma andThen_catch: "andThen (catch m h) n s = (case m s of
    (Ret x, s') \<Rightarrow> n s' | (Raise e, s') \<Rightarrow> andThen (h e) n s' | (NoFuel, s') \<Rightarrow> (NoFuel, s'))"
  by (simp add: prog_defs split: prod.split outcome.split)

lemma andThen_raising: "m s = (Raise e, s') \<Longrightarrow> andThen m n s = (Raise e, s')"
  by (simp add: prog_defs)

lemma andThen_returning: "m s = (Ret x, t) \<Longrightarrow> andThen m n s = n t"
  by (simp add: prog_defs)

lemma bind_returning: "m s = (Ret x, t) \<Longrightarrow> bind m f s = f x t"
  by (simp add: prog_defs)

lemma bind_assoc: "bind (bind m f) g = bind m (\<lambda>x. bind (f x) g)"
  by (auto simp: bind_def fun_eq_iff split: outcome.splits prod.splits)

section \<open>Invariants and triples\<close>

text \<open>
  \<open>keeps I m\<close>: the state invariant \<open>I\<close> survives \<open>m\<close> on every outcome, exceptions and exhausted
  fuel included. \<open>triple P m Q E\<close>: from a state satisfying \<open>P\<close>, a return satisfies \<open>Q\<close> and an
  exception satisfies \<open>E\<close>; \<open>total P m Q E\<close> says besides that the fuel does not run out. Both are
  \<open>hoare c P m Q E\<close>, where \<open>c\<close> is what an exhausted fuel counts as.
\<close>

definition keeps :: "('s \<Rightarrow> bool) \<Rightarrow> ('s, 'e, 'a) prog \<Rightarrow> bool" where
  "keeps I m \<longleftrightarrow> (\<forall>s. I s \<longrightarrow> I (snd (m s)))"

definition hoare :: "bool \<Rightarrow> ('s \<Rightarrow> bool) \<Rightarrow> ('s, 'e, 'a) prog \<Rightarrow> ('a \<Rightarrow> 's \<Rightarrow> bool) \<Rightarrow> ('e \<Rightarrow> 's \<Rightarrow> bool) \<Rightarrow> bool" where
  "hoare c P m Q E \<longleftrightarrow> (\<forall>s. P s \<longrightarrow> (case m s of
      (Ret x, s') \<Rightarrow> Q x s' | (Raise e, s') \<Rightarrow> E e s' | (NoFuel, s') \<Rightarrow> c))"

abbreviation triple :: "('s \<Rightarrow> bool) \<Rightarrow> ('s, 'e, 'a) prog \<Rightarrow> ('a \<Rightarrow> 's \<Rightarrow> bool) \<Rightarrow> ('e \<Rightarrow> 's \<Rightarrow> bool) \<Rightarrow> bool" where
  "triple \<equiv> hoare True"

abbreviation total :: "('s \<Rightarrow> bool) \<Rightarrow> ('s, 'e, 'a) prog \<Rightarrow> ('a \<Rightarrow> 's \<Rightarrow> bool) \<Rightarrow> ('e \<Rightarrow> 's \<Rightarrow> bool) \<Rightarrow> bool" where
  "total \<equiv> hoare False"

lemma keepsI: "(\<And>s. I s \<Longrightarrow> I (snd (m s))) \<Longrightarrow> keeps I m"
  by (simp add: keeps_def)

lemma keepsD: "keeps I m \<Longrightarrow> I s \<Longrightarrow> I (snd (m s))"
  by (simp add: keeps_def)

lemma keeps_state: "keeps I m \<Longrightarrow> I s \<Longrightarrow> m s = (r, s') \<Longrightarrow> I s'"
  by (drule (1) keepsD) simp

lemma keeps_ret [keeps_rules]: "keeps I (ret x)"
  and keeps_raise [keeps_rules]: "keeps I (raise e)"
  and keeps_no_fuel [keeps_rules]: "keeps I no_fuel"
  and keeps_gets [keeps_rules]: "keeps I (gets f)"
  and keeps_raise_if [keeps_rules]: "keeps I (raise_if b e)"
  by (simp_all add: keeps_def prog_defs)

lemma keeps_modify: "(\<And>s. I s \<Longrightarrow> I (f s)) \<Longrightarrow> keeps I (modify f)"
  by (simp add: keeps_def modify_def)

lemma keeps_bind [keeps_rules]: "keeps I m \<Longrightarrow> (\<And>x. keeps I (f x)) \<Longrightarrow> keeps I (bind m f)"
  by (fastforce simp: keeps_def bind_def split: outcome.splits prod.splits)

lemma keeps_andThen [keeps_rules]: "keeps I m \<Longrightarrow> keeps I n \<Longrightarrow> keeps I (andThen m n)"
  by (simp add: andThen_def keeps_bind)

lemma keeps_catch [keeps_rules]: "keeps I m \<Longrightarrow> (\<And>e. keeps I (h e)) \<Longrightarrow> keeps I (catch m h)"
  by (fastforce simp: keeps_def catch_def split: outcome.splits prod.splits)

lemma keeps_attempt [keeps_rules]: "keeps I m \<Longrightarrow> keeps I (attempt m)"
  by (fastforce simp: keeps_def attempt_def split: outcome.splits prod.splits)

lemma keeps_onlyif [keeps_rules]: "(b \<Longrightarrow> keeps I m) \<Longrightarrow> keeps I (onlyif b m)"
  by (simp add: onlyif_def keeps_ret)

lemma keeps_run_all: "(\<And>m. m \<in> set ms \<Longrightarrow> keeps I m) \<Longrightarrow> keeps I (run_all ms)"
  by (induction ms) (auto intro: keeps_ret keeps_andThen)

lemma keeps_for_each [keeps_rules]: "(\<And>x. x \<in> set xs \<Longrightarrow> keeps I (f x)) \<Longrightarrow> keeps I (for_each xs f)"
  unfolding for_each_def by (rule keeps_run_all) auto

lemma keeps_if [keeps_rules]: "(b \<Longrightarrow> keeps I m) \<Longrightarrow> (\<not> b \<Longrightarrow> keeps I n) \<Longrightarrow> keeps I (if b then m else n)"
  by simp

lemma keeps_case_option [keeps_rules]:
  "keeps I m \<Longrightarrow> (\<And>y. x = Some y \<Longrightarrow> keeps I (f y)) \<Longrightarrow> keeps I (case x of None \<Rightarrow> m | Some y \<Rightarrow> f y)"
  by (cases x) auto

lemma keeps_case_sum [keeps_rules]:
  "(\<And>y. x = Inl y \<Longrightarrow> keeps I (f y)) \<Longrightarrow> (\<And>y. x = Inr y \<Longrightarrow> keeps I (g y))
   \<Longrightarrow> keeps I (case x of Inl y \<Rightarrow> f y | Inr y \<Rightarrow> g y)"
  by (cases x) auto

lemma hoareI:
  "(\<And>s r s'. P s \<Longrightarrow> m s = (r, s') \<Longrightarrow>
      (case r of Ret x \<Rightarrow> Q x s' | Raise e \<Rightarrow> E e s' | NoFuel \<Rightarrow> c)) \<Longrightarrow> hoare c P m Q E"
  by (fastforce simp: hoare_def split: outcome.splits prod.splits)

lemma hoare_retD: "hoare c P m Q E \<Longrightarrow> P s \<Longrightarrow> m s = (Ret x, s') \<Longrightarrow> Q x s'"
  by (fastforce simp: hoare_def)

lemma hoare_raiseD: "hoare c P m Q E \<Longrightarrow> P s \<Longrightarrow> m s = (Raise e, s') \<Longrightarrow> E e s'"
  by (fastforce simp: hoare_def)

lemma total_fuelD: "total P m Q E \<Longrightarrow> P s \<Longrightarrow> fst (m s) \<noteq> NoFuel"
  by (cases "m s") (fastforce simp: hoare_def)

lemma triple_of_total: "total P m Q E \<Longrightarrow> triple P m Q E"
  by (fastforce simp: hoare_def split: outcome.splits prod.splits)

lemma hoare_conseq:
  "hoare c P m Q E \<Longrightarrow> (\<And>s. P' s \<Longrightarrow> P s) \<Longrightarrow> (\<And>x s. Q x s \<Longrightarrow> Q' x s) \<Longrightarrow> (\<And>e s. E e s \<Longrightarrow> E' e s)
   \<Longrightarrow> hoare c P' m Q' E'"
  by (fastforce simp: hoare_def split: outcome.splits prod.splits)

lemma hoare_pre: "hoare c P m Q E \<Longrightarrow> (\<And>s. P' s \<Longrightarrow> P s) \<Longrightarrow> hoare c P' m Q E"
  by (rule hoare_conseq)

lemma triple_of_keeps: "keeps I m \<Longrightarrow> triple I m (\<lambda>_. I) (\<lambda>_. I)"
  by (rule hoareI) (auto split: outcome.splits dest: keeps_state)

lemma hoare_bind [triple_rules]:
  "hoare c P m R E \<Longrightarrow> (\<And>x. hoare c (R x) (f x) Q E) \<Longrightarrow> hoare c P (bind m f) Q E"
  by (fastforce simp: hoare_def bind_def split: outcome.splits prod.splits)

lemma hoare_andThen [triple_rules]:
  "hoare c P m (\<lambda>_. R) E \<Longrightarrow> hoare c R n Q E \<Longrightarrow> hoare c P (andThen m n) Q E"
  unfolding andThen_def by (rule hoare_bind) auto

lemma hoare_catch [triple_rules]:
  "hoare c P m Q R \<Longrightarrow> (\<And>e. hoare c (R e) (h e) Q E) \<Longrightarrow> hoare c P (catch m h) Q E"
  by (fastforce simp: hoare_def catch_def split: outcome.splits prod.splits)

lemma hoare_ret: "(\<And>s. P s \<Longrightarrow> Q x s) \<Longrightarrow> hoare c P (ret x) Q E"
  by (simp add: hoare_def prog_defs)

lemma hoare_raise: "(\<And>s. P s \<Longrightarrow> E e s) \<Longrightarrow> hoare c P (raise e) Q E"
  by (simp add: hoare_def prog_defs)

lemma hoare_modify: "(\<And>s. P s \<Longrightarrow> Q () (f s)) \<Longrightarrow> hoare c P (modify f) Q E"
  by (simp add: hoare_def prog_defs)

lemma hoare_gets: "(\<And>s. P s \<Longrightarrow> Q (g s) s) \<Longrightarrow> hoare c P (gets g) Q E"
  by (simp add: hoare_def prog_defs)

lemma hoare_raise_if: "(\<And>s. P s \<Longrightarrow> if b then E e s else Q () s) \<Longrightarrow> hoare c P (raise_if b e) Q E"
  by (simp add: hoare_def prog_defs)

lemma triple_no_fuel: "triple P no_fuel Q E"
  by (simp add: hoare_def prog_defs)

lemma hoare_onlyif: "(b \<Longrightarrow> hoare c P m Q E) \<Longrightarrow> (\<And>s. \<not> b \<Longrightarrow> P s \<Longrightarrow> Q () s) \<Longrightarrow> hoare c P (onlyif b m) Q E"
  by (cases b) (simp_all add: hoare_def prog_defs)

lemma hoare_if: "(b \<Longrightarrow> hoare c P m Q E) \<Longrightarrow> (\<not> b \<Longrightarrow> hoare c P n Q E) \<Longrightarrow> hoare c P (if b then m else n) Q E"
  by simp

lemma hoare_attempt: "hoare c P m (\<lambda>x. Q (Inr x)) (\<lambda>e. Q (Inl e)) \<Longrightarrow> hoare c P (attempt m) Q E"
  by (fastforce simp: hoare_def attempt_def split: outcome.splits prod.splits)

lemma hoare_finally: "hoare c P m (\<lambda>x s. Q x (f s)) (\<lambda>e s. E e (f s)) \<Longrightarrow> hoare c P (finally_do m f) Q E"
  by (fastforce simp: hoare_def finally_do_def split: outcome.splits prod.splits)

text \<open>A loop whose invariant names the elements it has done.\<close>

lemma hoare_for_each:
  assumes "\<And>ys x zs. xs = ys @ x # zs \<Longrightarrow> hoare c (I ys) (f x) (\<lambda>_. I (ys @ [x])) E"
  shows "hoare c (I []) (for_each xs f) (\<lambda>_. I xs) E"
proof -
  have "hoare c (I ys) (for_each zs f) (\<lambda>_. I xs) E" if "xs = ys @ zs" for ys zs
    using that
  proof (induction zs arbitrary: ys)
    case Nil
    then show ?case by (auto simp: for_each_def intro: hoare_ret)
  next
    case (Cons z zs)
    have "hoare c (I ys) (andThen (f z) (for_each zs f)) (\<lambda>_. I xs) E"
      by (rule hoare_andThen[OF assms[OF Cons.prems] Cons.IH]) (use Cons.prems in simp)
    then show ?case by (simp add: for_each_def)
  qed
  from this[of "[]" xs] show ?thesis by simp
qed

lemma hoare_disj: "hoare c P m Q E \<Longrightarrow> hoare c P' m Q E \<Longrightarrow> hoare c (\<lambda>s. P s \<or> P' s) m Q E"
  by (auto simp: hoare_def)

lemma hoare_conj: "hoare c P m Q E \<Longrightarrow> hoare c P' m Q' E'
   \<Longrightarrow> hoare c (\<lambda>s. P s \<and> P' s) m (\<lambda>x s. Q x s \<and> Q' x s) (\<lambda>e s. E e s \<and> E' e s)"
  by (fastforce simp: hoare_def split: outcome.splits prod.splits)

lemma hoare_ex:
  assumes "\<And>x. hoare c (P x) m Q E"
  shows "hoare c (\<lambda>s. \<exists>x. P x s) m Q E"
  unfolding hoare_def
proof (intro allI impI)
  fix s assume "\<exists>x. P x s"
  then obtain x where "P x s" ..
  with assms[of x] show "case m s of (Ret x, s') \<Rightarrow> Q x s' | (Raise e, s') \<Rightarrow> E e s' | (NoFuel, s') \<Rightarrow> c"
    unfolding hoare_def by simp
qed

text \<open>A program that keeps \<open>I\<close> on every outcome and uses no fuel.\<close>

definition steady :: "('s \<Rightarrow> bool) \<Rightarrow> ('s, 'e, 'a) prog \<Rightarrow> bool" where
  "steady I m \<longleftrightarrow> total I m (\<lambda>_. I) (\<lambda>_. I)"

lemma steady_total: "steady I m \<Longrightarrow> total I m (\<lambda>_. I) (\<lambda>_. I)"
  by (simp add: steady_def)

lemma steady_bind [steady_rules]: "steady I m \<Longrightarrow> (\<And>x. steady I (f x)) \<Longrightarrow> steady I (bind m f)"
  unfolding steady_def by (rule hoare_bind)

lemma steady_andThen [steady_rules]: "steady I m \<Longrightarrow> steady I n \<Longrightarrow> steady I (andThen m n)"
  unfolding steady_def by (rule hoare_andThen)

lemma steady_catch [steady_rules]: "steady I m \<Longrightarrow> (\<And>e. steady I (h e)) \<Longrightarrow> steady I (catch m h)"
  unfolding steady_def by (rule hoare_catch)

lemma steady_attempt [steady_rules]: "steady I m \<Longrightarrow> steady I (attempt m)"
  unfolding steady_def by (rule hoare_attempt)

lemma steady_onlyif [steady_rules]: "steady I m \<Longrightarrow> steady I (onlyif b m)"
  unfolding steady_def by (rule hoare_onlyif)

lemma steady_ret [steady_rules]: "steady I (ret x)"
  and steady_raise [steady_rules]: "steady I (raise e)"
  and steady_raise_if [steady_rules]: "steady I (raise_if b e)"
  and steady_gets [steady_rules]: "steady I (gets g)"
  by (simp_all add: steady_def hoare_def prog_defs)

lemma steady_modify: "(\<And>s. I s \<Longrightarrow> I (f s)) \<Longrightarrow> steady I (modify f)"
  by (simp add: steady_def hoare_def prog_defs)

lemma steady_if [steady_rules]: "steady I m \<Longrightarrow> steady I n \<Longrightarrow> steady I (if b then m else n)"
  by simp

lemma hoare_false: "hoare c (\<lambda>_. False) m Q E"
  by (simp add: hoare_def)

section \<open>Checks that raise\<close>

text \<open>
  A validator (the \<open>__post_init__\<close> of a dataclass) is a sequence of \<open>if cond: raise error\<close>. The
  first condition that holds gives the error; the value is accepted when none does.
\<close>

fun first_error :: "(bool \<times> 'e) list \<Rightarrow> 'e + unit" where
  "first_error [] = Inr ()"
| "first_error ((bad, e) # cs) = (if bad then Inl e else first_error cs)"

lemma first_error_Inr [simp]: "first_error cs = Inr () \<longleftrightarrow> (\<forall>(bad, e) \<in> set cs. \<not> bad)"
  by (induction cs rule: first_error.induct) auto

lemma first_error_Inl: "first_error cs = Inl e \<Longrightarrow> (True, e) \<in> set cs"
  by (induction cs rule: first_error.induct) (auto split: if_splits)

lemma first_error_cases: "first_error cs = Inr () \<or> (\<exists>e. first_error cs = Inl e)"
  by (cases "first_error cs") auto

definition bindS :: "'e + 'a \<Rightarrow> ('a \<Rightarrow> 'e + 'b) \<Rightarrow> 'e + 'b" where
  "bindS x f = (case x of Inl e \<Rightarrow> Inl e | Inr a \<Rightarrow> f a)"

lemma bindS_simps [simp]: "bindS (Inl e) f = Inl e" "bindS (Inr a) f = f a"
  by (simp_all add: bindS_def)

lemma bindS_Inr [simp]: "bindS x f = Inr b \<longleftrightarrow> (\<exists>a. x = Inr a \<and> f a = Inr b)"
  by (cases x) auto

lemma bindS_Inl: "bindS x f = Inl e \<longleftrightarrow> x = Inl e \<or> (\<exists>a. x = Inr a \<and> f a = Inl e)"
  by (cases x) auto

text \<open>\<open>tuple(f(x) for x in xs)\<close> where \<open>f\<close> may raise.\<close>

fun mapS :: "('a \<Rightarrow> 'e + 'b) \<Rightarrow> 'a list \<Rightarrow> 'e + 'b list" where
  "mapS f [] = Inr []"
| "mapS f (x # xs) = bindS (f x) (\<lambda>y. bindS (mapS f xs) (\<lambda>ys. Inr (y # ys)))"

lemma mapS_Inr: "mapS f xs = Inr ys \<longleftrightarrow> list_all2 (\<lambda>x y. f x = Inr y) xs ys"
  by (induction xs arbitrary: ys) (auto simp: list_all2_Cons1)

lemma mapS_Inl: "mapS f xs = Inl e \<Longrightarrow> \<exists>x \<in> set xs. f x = Inl e"
  by (induction xs) (auto simp: bindS_Inl)

section \<open>Optional values\<close>

text \<open>The truth value of a \<open>str | None\<close>: neither \<open>None\<close> nor the empty string.\<close>

definition truthy :: "'a list option \<Rightarrow> bool" where
  "truthy x = (case x of None \<Rightarrow> False | Some s \<Rightarrow> s \<noteq> [])"

lemma truthy_simps [simp]: "\<not> truthy None" "truthy (Some s) \<longleftrightarrow> s \<noteq> []"
  by (simp_all add: truthy_def)

lemma truthyE: "truthy x \<Longrightarrow> (\<And>s. x = Some s \<Longrightarrow> s \<noteq> [] \<Longrightarrow> R) \<Longrightarrow> R"
  by (cases x) auto

text \<open>\<open>d.get(k, default)\<close> of a field that may be absent.\<close>

definition default :: "'a \<Rightarrow> 'a option \<Rightarrow> 'a" where
  "default a x = (case x of None \<Rightarrow> a | Some b \<Rightarrow> b)"

lemma default_simps [simp]: "default a None = a" "default a (Some b) = b"
  by (simp_all add: default_def)

text \<open>
  The message of an exception: its literal words and the values it interpolates, in order (an
  f-string is not rendered).
\<close>

type_synonym message = "string list"

section \<open>Dictionaries\<close>

text \<open>
  A Python dict is an association list in insertion order. \<open>d[k] = v\<close> keeps the place of a key
  that is there and appends a new one (\<open>AList.update\<close>), \<open>d.pop(k, None)\<close> is \<open>AList.delete\<close>,
  \<open>d.get(k)\<close> is \<open>map_of d k\<close> and \<open>k in d\<close> is \<open>has_key d k\<close>.
\<close>

type_synonym ('k, 'v) dict = "('k \<times> 'v) list"

definition has_key :: "('k, 'v) dict \<Rightarrow> 'k \<Rightarrow> bool" where
  "has_key d k \<longleftrightarrow> k \<in> fst ` set d"

definition wf_dict :: "('k, 'v) dict \<Rightarrow> bool" where
  "wf_dict d \<longleftrightarrow> distinct (map fst d)"

definition get_or :: "('k, 'v) dict \<Rightarrow> 'k \<Rightarrow> 'v \<Rightarrow> 'v" where
  "get_or d k dflt = (case map_of d k of None \<Rightarrow> dflt | Some v \<Rightarrow> v)"

lemma has_key_map_of: "has_key d k \<longleftrightarrow> map_of d k \<noteq> None"
  by (simp add: has_key_def map_of_eq_None_iff)

lemma map_of_update [simp]: "map_of (AList.update k v d) = (map_of d)(k \<mapsto> v)"
  by (rule ext) (simp add: update_conv)

lemma map_of_delete [simp]: "map_of (AList.delete k d) = (map_of d)(k := None)"
  by (rule ext) (simp add: delete_conv)

lemma wf_update [simp]: "wf_dict d \<Longrightarrow> wf_dict (AList.update k v d)"
  by (simp add: wf_dict_def distinct_update)

lemma wf_delete [simp]: "wf_dict d \<Longrightarrow> wf_dict (AList.delete k d)"
  by (simp add: wf_dict_def distinct_delete)

lemma wf_filter [simp]: "wf_dict d \<Longrightarrow> wf_dict (filter p d)"
  by (induction d) (auto simp: wf_dict_def)

lemma wf_Nil [simp]: "wf_dict []"
  by (simp add: wf_dict_def)

lemma keys_update: "fst ` set (AList.update k v d) = insert k (fst ` set d)"
  by (simp add: dom_update)

lemma keys_delete: "fst ` set (AList.delete k d) = fst ` set d - {k}"
  by (induction d) auto

lemma pop_fresh: "k \<notin> fst ` set d \<Longrightarrow> AList.delete k (AList.update k v d) = d"
  by (induction d) auto

lemma map_of_filter_key: "wf_dict d \<Longrightarrow>
  map_of (filter (\<lambda>(k, v). p k) d) k = (if p k then map_of d k else None)"
  by (induction d) (auto simp: wf_dict_def map_of_eq_None_iff)

lemma update_notin: "k \<notin> fst ` set d \<Longrightarrow> AList.update k v d = d @ [(k, v)]"
  by (induction d) auto

lemma length_update: "length (AList.update k v d) = (if k \<in> fst ` set d then length d else Suc (length d))"
  by (induction d) auto

lemma length_delete_wf: "wf_dict d \<Longrightarrow> k \<in> fst ` set d \<Longrightarrow> Suc (length (AList.delete k d)) = length d"
proof (induction d)
  case Nil then show ?case by simp
next
  case (Cons p d)
  show ?case
  proof (cases "fst p = k")
    case True
    with Cons.prems have "AList.delete k d = d"
      by (auto simp: wf_dict_def intro!: AList.delete_id)
    with True show ?thesis by (cases p) simp
  next
    case False
    with Cons show ?thesis by (cases p) (auto simp: wf_dict_def)
  qed
qed

text \<open>\<open>sum(d.values())\<close>\<close>

definition sum_values :: "('k, int) dict \<Rightarrow> int" where
  "sum_values d = sum_list (map snd d)"

lemma sum_values_update: "wf_dict d \<Longrightarrow> sum_values (AList.update k v d) = sum_values d - get_or d k 0 + v"
  by (induction d) (auto simp: sum_values_def wf_dict_def get_or_def map_of_eq_None_iff split: option.splits)

lemma sum_values_delete: "wf_dict d \<Longrightarrow> sum_values (AList.delete k d) = sum_values d - get_or d k 0"
proof (induction d)
  case Nil then show ?case by (simp add: sum_values_def get_or_def)
next
  case (Cons p d)
  show ?case
  proof (cases "fst p = k")
    case True
    with Cons.prems have "AList.delete k d = d"
      by (auto simp: wf_dict_def intro!: AList.delete_id)
    with True show ?thesis by (cases p) (simp add: sum_values_def get_or_def)
  next
    case False
    with Cons show ?thesis by (cases p) (auto simp: wf_dict_def sum_values_def get_or_def)
  qed
qed

lemma sum_values_pos: "(\<forall>(k, v) \<in> set d. 1 \<le> v) \<Longrightarrow> 0 \<le> sum_values d"
  by (induction d) (auto simp: sum_values_def)

lemma sum_values_zero: "(\<forall>(k, v) \<in> set d. 1 \<le> v) \<Longrightarrow> sum_values d = 0 \<Longrightarrow> d = []"
proof (cases d)
  case (Cons p d')
  assume pos: "\<forall>(k, v) \<in> set d. 1 \<le> v" and z: "sum_values d = 0"
  have "0 \<le> sum_values d'" by (rule sum_values_pos) (use pos Cons in auto)
  with pos z Cons show ?thesis by (cases p) (auto simp: sum_values_def)
qed simp

end
