(* ===== verification/Py_Strings.thy ===== *)
theory Py_Strings
  imports UBB_Prelude
begin

text \<open>
  The part of Python's \<open>str\<close> and \<open>re\<close> that the code uses. A \<open>str\<close> is a \<open>string\<close>: its characters
  are the code points below 256. \<open>rx\<close> is a regular expression without groups and \<open>fullmatch\<close>
  decides it by derivatives; \<open>matches\<close> is its declarative meaning and \<open>fullmatch_iff\<close> shows that
  the two agree. The lemmas after it give the closed form of every pattern shape the configuration
  modules use, so that validators are reasoned about without running the engine.
\<close>

named_theorems class_defs \<open>the character classes\<close>

section \<open>Character classes\<close>

definition code_point :: "char \<Rightarrow> nat" where
  [class_defs]: "code_point c = of_char c"

definition is_digit :: "char \<Rightarrow> bool" where
  [class_defs]: "is_digit c \<longleftrightarrow> 48 \<le> code_point c \<and> code_point c \<le> 57"

definition is_lower :: "char \<Rightarrow> bool" where
  [class_defs]: "is_lower c \<longleftrightarrow> 97 \<le> code_point c \<and> code_point c \<le> 122"

definition is_upper :: "char \<Rightarrow> bool" where
  [class_defs]: "is_upper c \<longleftrightarrow> 65 \<le> code_point c \<and> code_point c \<le> 90"

text \<open>\<open>[a-z0-9]\<close>, \<open>[a-z0-9._-]\<close>, \<open>[a-z0-9-]\<close>, \<open>[A-Za-z0-9]\<close>, \<open>[0-9a-fA-F]\<close>, \<open>[0-9a-f]\<close>\<close>

definition lower_alnum :: "char \<Rightarrow> bool" where
  [class_defs]: "lower_alnum c \<longleftrightarrow> is_lower c \<or> is_digit c"

definition id_char :: "char \<Rightarrow> bool" where
  [class_defs]: "id_char c \<longleftrightarrow> lower_alnum c \<or> c \<in> set ''._-''"

definition label_char :: "char \<Rightarrow> bool" where
  [class_defs]: "label_char c \<longleftrightarrow> lower_alnum c \<or> c = CHR ''-''"

definition alnum :: "char \<Rightarrow> bool" where
  [class_defs]: "alnum c \<longleftrightarrow> is_lower c \<or> is_upper c \<or> is_digit c"

definition hex_char :: "char \<Rightarrow> bool" where
  [class_defs]: "hex_char c \<longleftrightarrow> is_digit c \<or> 97 \<le> code_point c \<and> code_point c \<le> 102
                             \<or> 65 \<le> code_point c \<and> code_point c \<le> 70"

definition lower_hex_char :: "char \<Rightarrow> bool" where
  [class_defs]: "lower_hex_char c \<longleftrightarrow> is_digit c \<or> 97 \<le> code_point c \<and> code_point c \<le> 102"

text \<open>\<open>str.isspace\<close> and \<open>\s\<close> below 256.\<close>

definition is_space :: "char \<Rightarrow> bool" where
  [class_defs]: "is_space c \<longleftrightarrow> 9 \<le> code_point c \<and> code_point c \<le> 13 \<or> 28 \<le> code_point c \<and> code_point c \<le> 32
                            \<or> code_point c = 133 \<or> code_point c = 160"

section \<open>String operations\<close>

text \<open>
  \<open>c.lower()\<close> and \<open>c.upper()\<close> of a code point below 256. Above ASCII, the letters 192 to 222 but 215
  have their lower case 32 above; the few whose upper case is not one code point below 256 (181, 223,
  255) are left as they are, and no pattern of the code accepts them.
\<close>

definition lower_char :: "char \<Rightarrow> char" where
  "lower_char c = (let n = code_point c in
     if is_upper c \<or> (192 \<le> n \<and> n \<le> 222 \<and> n \<noteq> 215) then char_of (n + 32) else c)"

definition upper_char :: "char \<Rightarrow> char" where
  "upper_char c = (let n = code_point c in
     if is_lower c \<or> (224 \<le> n \<and> n \<le> 254 \<and> n \<noteq> 247) then char_of (n - 32) else c)"

definition lower :: "string \<Rightarrow> string" where
  "lower s = map lower_char s"

definition upper :: "string \<Rightarrow> string" where
  "upper s = map upper_char s"

definition rstrip_char :: "char \<Rightarrow> string \<Rightarrow> string" where
  "rstrip_char c s = rev (dropWhile ((=) c) (rev s))"

definition strip :: "string \<Rightarrow> string" where
  "strip s = rev (dropWhile is_space (rev (dropWhile is_space s)))"

text \<open>\<open>s.split(c)\<close> for a one-character separator: never empty, and \<open>''.split(c) == ['']\<close>.\<close>

fun split_on :: "char \<Rightarrow> string \<Rightarrow> string list" where
  "split_on c [] = [[]]"
| "split_on c (x # xs) = (if x = c then [] # split_on c xs
     else case split_on c xs of [] \<Rightarrow> [[x]] | p # ps \<Rightarrow> (x # p) # ps)"

definition join_with :: "char \<Rightarrow> string list \<Rightarrow> string" where
  "join_with c ps = (case ps of [] \<Rightarrow> [] | p # ps \<Rightarrow> p @ concat (map (\<lambda>q. c # q) ps))"

definition starts_with :: "string \<Rightarrow> string \<Rightarrow> bool" where
  "starts_with p s \<longleftrightarrow> take (length p) s = p"

definition ends_with :: "string \<Rightarrow> string \<Rightarrow> bool" where
  "ends_with p s \<longleftrightarrow> length p \<le> length s \<and> drop (length s - length p) s = p"

definition line_feed :: char where
  "line_feed = CHR 0x0A"

definition carriage_return :: char where
  "carriage_return = CHR 0x0D"

text \<open>\<open>int(s)\<close> of a string of decimal digits.\<close>

fun digits_value :: "nat \<Rightarrow> string \<Rightarrow> nat" where
  "digits_value acc [] = acc"
| "digits_value acc (c # cs) = digits_value (10 * acc + (code_point c - 48)) cs"

definition int_of_digits :: "string \<Rightarrow> nat" where
  "int_of_digits s = digits_value 0 s"

lemma split_on_nonempty [simp]: "split_on c s \<noteq> []"
  by (induction s) (auto split: list.splits)

lemma split_on_no_sep: "p \<in> set (split_on c s) \<Longrightarrow> c \<notin> set p"
  by (induction s arbitrary: p) (auto split: list.splits if_splits)

lemma join_split_on: "join_with c (split_on c s) = s"
proof (induction s)
  case Nil then show ?case by (simp add: join_with_def)
next
  case (Cons x xs)
  obtain p ps where ps: "split_on c xs = p # ps"
    by (cases "split_on c xs") auto
  with Cons show ?case by (auto simp: join_with_def)
qed

lemma split_on_chars: "p \<in> set (split_on c s) \<Longrightarrow> set p \<subseteq> set s"
  by (induction s arbitrary: p) (fastforce split: list.splits if_splits)+

lemma rstrip_char_idem: "rstrip_char c (rstrip_char c s) = rstrip_char c s"
  by (simp add: rstrip_char_def dropWhile_idem)

lemma rstrip_char_set: "set (rstrip_char c s) \<subseteq> set s"
  by (auto simp: rstrip_char_def dest: set_dropWhileD)

lemma code_point_char_of [simp]: "n < 256 \<Longrightarrow> code_point (char_of n) = n"
  by (simp add: code_point_def)

lemma code_point_less [simp]: "code_point c < 256"
  unfolding code_point_def by (metis mod_less_divisor of_char_mod_256 zero_less_numeral)

lemma lower_char_idem [simp]: "lower_char (lower_char c) = lower_char c"
  by (auto simp: lower_char_def Let_def is_upper_def)

lemma lower_idem [simp]: "lower (lower s) = lower s"
  by (simp add: lower_def)

lemma lower_char_fix: "lower_alnum c \<Longrightarrow> lower_char c = c"
  by (auto simp: lower_char_def Let_def class_defs)

lemma label_char_lower: "label_char c \<Longrightarrow> lower_char c = c"
  by (auto simp: lower_char_def Let_def class_defs)

lemma id_char_lower: "id_char c \<Longrightarrow> lower_char c = c"
  by (auto simp: lower_char_def Let_def class_defs)

lemma map_fix: "(\<And>x. x \<in> set xs \<Longrightarrow> f x = x) \<Longrightarrow> map f xs = xs"
  by (induction xs) auto

section \<open>Regular expressions\<close>

datatype rx = Eps | Cls "char \<Rightarrow> bool" | Cat rx rx | Alt rx rx | Star rx

inductive matches :: "rx \<Rightarrow> string \<Rightarrow> bool" where
  Eps: "matches Eps []"
| Cls: "p c \<Longrightarrow> matches (Cls p) [c]"
| Cat: "matches r s \<Longrightarrow> matches q t \<Longrightarrow> matches (Cat r q) (s @ t)"
| AltL: "matches r s \<Longrightarrow> matches (Alt r q) s"
| AltR: "matches q s \<Longrightarrow> matches (Alt r q) s"
| StarN: "matches (Star r) []"
| StarC: "matches r s \<Longrightarrow> matches (Star r) t \<Longrightarrow> matches (Star r) (s @ t)"

inductive_simps matches_Eps [simp]: "matches Eps s"
inductive_simps matches_Cls [simp]: "matches (Cls p) s"
inductive_simps matches_Cat: "matches (Cat r q) s"
inductive_simps matches_Alt [simp]: "matches (Alt r q) s"
inductive_cases matches_StarE: "matches (Star r) s"

fun nullable :: "rx \<Rightarrow> bool" where
  "nullable Eps = True"
| "nullable (Cls p) = False"
| "nullable (Cat r q) = (nullable r \<and> nullable q)"
| "nullable (Alt r q) = (nullable r \<or> nullable q)"
| "nullable (Star r) = True"

fun deriv :: "char \<Rightarrow> rx \<Rightarrow> rx" where
  "deriv c Eps = Cls (\<lambda>_. False)"
| "deriv c (Cls p) = (if p c then Eps else Cls (\<lambda>_. False))"
| "deriv c (Cat r q) = (if nullable r then Alt (Cat (deriv c r) q) (deriv c q) else Cat (deriv c r) q)"
| "deriv c (Alt r q) = Alt (deriv c r) (deriv c q)"
| "deriv c (Star r) = Cat (deriv c r) (Star r)"

definition fullmatch :: "rx \<Rightarrow> string \<Rightarrow> bool" where
  "fullmatch r s = nullable (fold deriv s r)"

definition Opt :: "rx \<Rightarrow> rx" where
  "Opt r = Alt Eps r"

definition Plus :: "rx \<Rightarrow> rx" where
  "Plus r = Cat r (Star r)"

text \<open>\<open>r{0,n}\<close>, \<open>r{n}\<close> and a literal character.\<close>

fun Upto :: "nat \<Rightarrow> rx \<Rightarrow> rx" where
  "Upto 0 r = Eps"
| "Upto (Suc n) r = Alt Eps (Cat r (Upto n r))"

fun Times :: "nat \<Rightarrow> rx \<Rightarrow> rx" where
  "Times 0 r = Eps"
| "Times (Suc n) r = Cat r (Times n r)"

definition Lit :: "char \<Rightarrow> rx" where
  "Lit c = Cls ((=) c)"

lemma nullable_iff: "nullable r \<longleftrightarrow> matches r []"
  by (induction r) (auto simp: matches_Cat intro: matches.intros)

lemma star_cons: "matches (Star r) s \<Longrightarrow> s = c # t
    \<Longrightarrow> \<exists>u v. t = u @ v \<and> matches r (c # u) \<and> matches (Star r) v"
proof (induction "Star r" s arbitrary: t rule: matches.induct)
  case (StarC s' t')
  then show ?case by (cases s') auto
qed simp

lemma deriv_iff: "matches (deriv c r) s \<longleftrightarrow> matches r (c # s)"
proof (induction r arbitrary: s)
  case (Cat r q)
  have "matches (Cat r q) (c # s) \<longleftrightarrow>
      (\<exists>u v. s = u @ v \<and> matches r (c # u) \<and> matches q v) \<or> matches r [] \<and> matches q (c # s)"
    by (auto simp: matches_Cat Cons_eq_append_conv)
  with Cat show ?case by (auto simp: matches_Cat nullable_iff)
next
  case (Star r)
  have "matches (Star r) (c # s) \<longleftrightarrow> (\<exists>u v. s = u @ v \<and> matches r (c # u) \<and> matches (Star r) v)"
    using star_cons matches.StarC[of r "c # _"] by fastforce
  with Star show ?case by (auto simp: matches_Cat)
qed auto

text \<open>The engine decides the declarative meaning.\<close>

lemma fullmatch_iff: "fullmatch r s \<longleftrightarrow> matches r s"
proof (induction s arbitrary: r)
  case Nil then show ?case by (simp add: fullmatch_def nullable_iff)
next
  case (Cons c s)
  have "fullmatch r (c # s) \<longleftrightarrow> fullmatch (deriv c r) s"
    by (simp add: fullmatch_def)
  with Cons show ?case by (simp add: deriv_iff)
qed

lemma matches_star_cls [simp]: "matches (Star (Cls p)) s \<longleftrightarrow> list_all p s"
proof
  assume "matches (Star (Cls p)) s"
  then show "list_all p s"
    by (induction "Star (Cls p)" s rule: matches.induct) auto
next
  assume "list_all p s"
  then show "matches (Star (Cls p)) s"
  proof (induction s)
    case Nil then show ?case by (auto intro: matches.intros)
  next
    case (Cons c s)
    then have "matches (Star (Cls p)) ([c] @ s)"
      by (intro matches.StarC) (auto intro: matches.intros)
    then show ?case by simp
  qed
qed

lemma matches_cls_cat [simp]:
  "matches (Cat (Cls p) r) s \<longleftrightarrow> (case s of [] \<Rightarrow> False | c # t \<Rightarrow> p c \<and> matches r t)"
proof (cases s)
  case (Cons c t)
  have "matches (Cat (Cls p) r) ([c] @ t)" if "p c" "matches r t"
    using that by (intro matches.Cat) (auto intro: matches.intros)
  with Cons show ?thesis by (auto simp: matches_Cat)
qed (auto simp: matches_Cat)

lemma matches_upto_cls [simp]: "matches (Upto n (Cls p)) s \<longleftrightarrow> length s \<le> n \<and> list_all p s"
proof (induction n arbitrary: s)
  case (Suc n)
  then show ?case by (cases s) auto
qed auto

lemma matches_times_cls [simp]: "matches (Times n (Cls p)) s \<longleftrightarrow> length s = n \<and> list_all p s"
proof (induction n arbitrary: s)
  case (Suc n)
  then show ?case by (cases s) auto
qed auto

lemma matches_plus_cls [simp]: "matches (Plus (Cls p)) s \<longleftrightarrow> s \<noteq> [] \<and> list_all p s"
  by (cases s) (auto simp: Plus_def)

lemma matches_opt [simp]: "matches (Opt r) s \<longleftrightarrow> s = [] \<or> matches r s"
  by (simp add: Opt_def)

lemma matches_snoc_cls: "matches (Cat r (Cls p)) s \<longleftrightarrow> (s \<noteq> [] \<and> p (last s) \<and> matches r (butlast s))"
  by (cases s rule: rev_cases) (auto simp: matches_Cat)

subsection \<open>The patterns the modules share\<close>

text \<open>\<open>^[a-z0-9][a-z0-9._-]*$\<close>\<close>

definition ident_rx :: rx where
  "ident_rx = Cat (Cls lower_alnum) (Star (Cls id_char))"

text \<open>\<open>^[a-z0-9](?:[a-z0-9-]{0,61}[a-z0-9])?$\<close>\<close>

definition label_rx :: rx where
  "label_rx = Cat (Cls lower_alnum) (Opt (Cat (Upto 61 (Cls label_char)) (Cls lower_alnum)))"

lemma ident_rx_iff: "fullmatch ident_rx s \<longleftrightarrow> s \<noteq> [] \<and> lower_alnum (hd s) \<and> list_all id_char (tl s)"
  by (cases s) (auto simp: fullmatch_iff ident_rx_def)

lemma label_rx_iff: "fullmatch label_rx s \<longleftrightarrow>
  s \<noteq> [] \<and> length s \<le> 63 \<and> lower_alnum (hd s) \<and> lower_alnum (last s) \<and> list_all label_char s"
proof (cases s)
  case Nil then show ?thesis by (simp add: fullmatch_iff label_rx_def)
next
  case (Cons c t)
  show ?thesis
  proof (cases t rule: rev_cases)
    case Nil
    with Cons show ?thesis by (auto simp: fullmatch_iff label_rx_def label_char_def matches_snoc_cls)
  next
    case (snoc u d)
    with Cons show ?thesis
      by (auto simp: fullmatch_iff label_rx_def label_char_def matches_snoc_cls)
  qed
qed

lemma ident_not_empty: "fullmatch ident_rx s \<Longrightarrow> s \<noteq> []"
  by (simp add: ident_rx_iff)

lemma ident_chars: "fullmatch ident_rx s \<Longrightarrow> list_all id_char s"
  by (cases s) (auto simp: ident_rx_iff id_char_def)

lemma id_char_no_slash: "id_char c \<Longrightarrow> c \<noteq> CHR ''/''"
  by (auto simp: class_defs)

text \<open>An identifier names one path component: it holds no slash and is neither \<open>.\<close> nor \<open>..\<close>.\<close>

lemma ident_safe_component:
  assumes "fullmatch ident_rx s"
  shows "CHR ''/'' \<notin> set s" and "s \<noteq> ''.''" and "s \<noteq> ''..''"
  using assms ident_chars[OF assms] by (auto simp: ident_rx_iff list_all_iff class_defs)

end
