(* ===== verification/Registry.thy ===== *)
theory Registry
  imports Py_Strings
begin

text \<open>
  The metadata registry (M2): \<open>scripts/ubb_registry\<close>. Documents are those that passed the JSON
  schemas, so each kind is a record of the fields its schema declares, an optional field being an
  \<open>option\<close>. The schema validator and the YAML parser are third-party code: \<open>load_registry\<close> takes
  their results as the functions \<open>validation_errors\<close> and \<open>load_document\<close>.
\<close>

section \<open>Documents\<close>

record readiness =
  rd_type :: "string option"
  rd_command :: "string list option"
  rd_host :: "string option"
  rd_port :: "int option"
  rd_path :: "string option"

record lifecycle =
  lc_mode :: string
  lc_sharing :: string
  lc_idle_timeout_seconds :: "int option"
  lc_startup_timeout_seconds :: "int option"
  lc_restart :: "string option"
  lc_max_restarts :: "int option"
  lc_restart_window_seconds :: "int option"
  lc_restart_backoff_us :: "int option"   \<comment> \<open>a number of seconds, here in microseconds\<close>
  lc_readiness :: "readiness option"

record job =
  jb_name :: string
  jb_schedule :: string
  jb_action :: string
  jb_command :: "string list option"
  jb_wake_if_stopped :: "bool option"
  jb_shutdown_after :: "bool option"
  jb_timeout_seconds :: "int option"

record service =
  sv_id :: string
  sv_type :: string
  sv_title :: string
  sv_endpoint_id :: string
  sv_integration_id :: "string option"
  sv_main_menu :: bool
  sv_via_bbs :: "string list option"
  sv_admin_only :: "bool option"
  sv_direct_allowed :: "bool option"
  sv_lifecycle :: lifecycle
  sv_jobs :: "job list"
  sv_source :: "string list"

record endpoint =
  ep_id :: string
  ep_type :: string
  ep_host :: "string option"
  ep_port :: "int option"
  ep_connect_timeout_us :: "int option"
  ep_protocol :: "string option"
  ep_device :: "string option"
  ep_baud :: "int option"
  ep_command :: "string list option"
  ep_remote_service_id :: "string option"
  ep_network_zone :: "string option"
  ep_source :: "string list"

record endpoint_view = endpoint +
  ep_location :: string

record stream_config =
  st_type :: "string option"
  st_host :: "string option"
  st_port :: "int option"
  st_connect_timeout_us :: "int option"

record runtime_config =
  rc_executable :: "string option"
  rc_argv :: "string list option"
  rc_config_file :: "string option"
  rc_working_directory :: "string option"
  rc_environment :: "(string, string) dict"
  rc_inherit_environment :: "string list"
  rc_pty :: bool
  rc_stop_timeout_us :: "int option"
  rc_graceful_stop_command :: "string list option"
  rc_readiness :: "readiness option"
  rc_stream :: "stream_config option"

record integration =
  ig_id :: string
  ig_target :: string
  ig_runtime :: string
  ig_recommended_lifecycle :: "string option"
  ig_runtime_config :: "runtime_config option"
  ig_source :: "string list"

datatype document =
    ServiceDoc service
  | EndpointDoc endpoint
  | IntegrationDoc integration
  | ArtifactDoc string   \<comment> \<open>a preservation artifact: validated, but not a registry kind\<close>

fun doc_kind :: "document \<Rightarrow> string" where
  "doc_kind (ServiceDoc s) = ''service''"
| "doc_kind (EndpointDoc e) = ''endpoint''"
| "doc_kind (IntegrationDoc i) = ''integration''"
| "doc_kind (ArtifactDoc a) = ''artifact''"

fun doc_id :: "document \<Rightarrow> string" where
  "doc_id (ServiceDoc s) = sv_id s"
| "doc_id (EndpointDoc e) = ep_id e"
| "doc_id (IntegrationDoc i) = ig_id i"
| "doc_id (ArtifactDoc a) = a"

text \<open>\<open>Endpoint.normalized\<close>\<close>

definition normalized :: "endpoint \<Rightarrow> endpoint_view" where
  "normalized e = endpoint.extend
     (e\<lparr>ep_type := (if ep_type e = ''supervisor'' then ''remote_supervisor'' else ep_type e)\<rparr>)
     (endpoint_view.fields
       (let local_host = (case ep_host e of None \<Rightarrow> True
              | Some h \<Rightarrow> h \<in> {''localhost'', ''127.0.0.1'', ''::1''})
        in if ep_type e \<in> {''local_process'', ''serial''} \<or> (ep_type e \<in> {''tcp'', ''udp''} \<and> local_host)
           then ''local'' else ''remote''))"

section \<open>The registry and its queries\<close>

datatype registry_error =
    DuplicateIdError message
  | UnknownReferenceError message
  | InvalidManifestError message
  | UnsupportedEndpointTypeError message

record registry =
  services :: "(string, service) dict"
  endpoints :: "(string, endpoint) dict"
  integrations :: "(string, integration) dict"

definition ENDPOINT_TYPES :: "string set" where
  "ENDPOINT_TYPES = {''local_process'', ''tcp'', ''udp'', ''ssh'', ''serial'', ''supervisor'', ''remote_supervisor''}"

definition create :: "(string, service) dict \<Rightarrow> (string, endpoint) dict \<Rightarrow> (string, integration) dict \<Rightarrow> registry" where
  "create ss es is = \<lparr>services = sort_key fst ss, endpoints = sort_key fst es, integrations = sort_key fst is\<rparr>"

definition get_service :: "registry \<Rightarrow> string \<Rightarrow> registry_error + service" where
  "get_service r i = (case map_of (services r) i of
      None \<Rightarrow> Inl (UnknownReferenceError [''unknown service: '', i])
    | Some s \<Rightarrow> Inr s)"

definition get_endpoint :: "registry \<Rightarrow> string \<Rightarrow> registry_error + endpoint" where
  "get_endpoint r i = (case map_of (endpoints r) i of
      None \<Rightarrow> Inl (UnknownReferenceError [''unknown endpoint: '', i])
    | Some e \<Rightarrow> if ep_type e \<notin> ENDPOINT_TYPES
                then Inl (UnsupportedEndpointTypeError [''unsupported endpoint type: '', ep_type e])
                else Inr e)"

definition get_integration :: "registry \<Rightarrow> string \<Rightarrow> registry_error + integration" where
  "get_integration r i = (case map_of (integrations r) i of
      None \<Rightarrow> Inl (UnknownReferenceError [''unknown integration: '', i])
    | Some g \<Rightarrow> Inr g)"

text \<open>\<open>self.integration(service.integration_id) if service.integration_id else None\<close>\<close>

definition service_integration :: "registry \<Rightarrow> service \<Rightarrow> registry_error + integration option" where
  "service_integration r s = (case sv_integration_id s of
      None \<Rightarrow> Inr None
    | Some i \<Rightarrow> if i = [] then Inr None else bindS (get_integration r i) (\<lambda>g. Inr (Some g)))"

record resolution =
  rs_service :: service
  rs_endpoint :: endpoint_view
  rs_integration :: "integration option"

definition resolve :: "registry \<Rightarrow> string \<Rightarrow> registry_error + resolution" where
  "resolve r i =
     bindS (get_service r i) (\<lambda>s.
     bindS (get_endpoint r (sv_endpoint_id s)) (\<lambda>e.
     bindS (service_integration r s) (\<lambda>g.
     Inr \<lparr>rs_service = s, rs_endpoint = normalized e, rs_integration = g\<rparr>)))"

record service_query =
  q_service_type :: "string option"
  q_main_menu :: "bool option"
  q_via_bbs :: "string option"
  q_bbs_only :: bool
  q_endpoint_type :: "string option"
  q_runtime :: "string option"

definition any_query :: service_query where
  "any_query = \<lparr>q_service_type = None, q_main_menu = None, q_via_bbs = None, q_bbs_only = False,
                q_endpoint_type = None, q_runtime = None\<rparr>"

text \<open>The body of \<open>list_services\<close>' loop after the two lookups: the filters, each a \<open>continue\<close>.\<close>

definition query_accepts :: "service_query \<Rightarrow> service \<Rightarrow> endpoint \<Rightarrow> integration option \<Rightarrow> bool" where
  "query_accepts q s e g \<longleftrightarrow>
     \<not> (truthy (q_service_type q) \<and> Some (sv_type s) \<noteq> q_service_type q) \<and>
     \<not> (q_main_menu q \<noteq> None \<and> Some (sv_main_menu s) \<noteq> q_main_menu q) \<and>
     \<not> (truthy (q_via_bbs q) \<and> the (q_via_bbs q) \<notin> set (default [] (sv_via_bbs s))) \<and>
     \<not> (q_bbs_only q \<and> (sv_main_menu s \<or> \<not> truthy (sv_via_bbs s))) \<and>
     \<not> (truthy (q_endpoint_type q) \<and> Some (ep_type (normalized e)) \<noteq> q_endpoint_type q) \<and>
     \<not> (truthy (q_runtime q) \<and> (case g of None \<Rightarrow> True | Some i \<Rightarrow> Some (ig_runtime i) \<noteq> q_runtime q))"

fun list_loop :: "registry \<Rightarrow> service_query \<Rightarrow> service list \<Rightarrow> registry_error + service list" where
  "list_loop r q [] = Inr []"
| "list_loop r q (s # ss) =
     bindS (get_endpoint r (sv_endpoint_id s)) (\<lambda>e.
     bindS (service_integration r s) (\<lambda>g.
     bindS (list_loop r q ss) (\<lambda>rest.
     Inr (if query_accepts q s e g then s # rest else rest))))"

definition list_services :: "registry \<Rightarrow> service_query \<Rightarrow> registry_error + service list" where
  "list_services r q = list_loop r q (map snd (services r))"

section \<open>Loading\<close>

type_synonym path = "string list"

definition kind_directory :: "string \<Rightarrow> string option" where
  "kind_directory = map_of [(''service'', ''services''), (''endpoint'', ''endpoints''),
                            (''integration'', ''integrations'')]"

text \<open>
  \<open>_paths\<close>: the files below the three directories whose name ends in \<open>.yml\<close> or \<open>.yaml\<close>, sorted. A
  path is its list of components below the catalog root; \<open>files\<close> is what the file system holds.
\<close>

definition manifest_paths :: "path list \<Rightarrow> path list" where
  "manifest_paths files = sort (filter (\<lambda>p. 2 \<le> length p \<and> hd p \<in> {''services'', ''endpoints'', ''integrations''}
      \<and> (ends_with ''.yml'' (last p) \<or> ends_with ''.yaml'' (last p))) files)"

record indexes =
  ix_service :: "(string, service) dict"
  ix_endpoint :: "(string, endpoint) dict"
  ix_integration :: "(string, integration) dict"

definition no_indexes :: indexes where
  "no_indexes = \<lparr>ix_service = [], ix_endpoint = [], ix_integration = []\<rparr>"

text \<open>
  \<open>document_id in indexes[kind]\<close> gives the source of the first one; \<open>index_document\<close> is
  \<open>indexes[kind][document_id] = MODEL_TYPES[kind](document_id, document, path)\<close>.
\<close>

fun indexed_source :: "indexes \<Rightarrow> document \<Rightarrow> path option" where
  "indexed_source ix (ServiceDoc s) = map_option sv_source (map_of (ix_service ix) (sv_id s))"
| "indexed_source ix (EndpointDoc e) = map_option ep_source (map_of (ix_endpoint ix) (ep_id e))"
| "indexed_source ix (IntegrationDoc g) = map_option ig_source (map_of (ix_integration ix) (ig_id g))"
| "indexed_source ix (ArtifactDoc a) = None"

fun index_document :: "indexes \<Rightarrow> document \<Rightarrow> path \<Rightarrow> indexes" where
  "index_document ix (ServiceDoc s) p = ix\<lparr>ix_service := AList.update (sv_id s) (s\<lparr>sv_source := p\<rparr>) (ix_service ix)\<rparr>"
| "index_document ix (EndpointDoc e) p = ix\<lparr>ix_endpoint := AList.update (ep_id e) (e\<lparr>ep_source := p\<rparr>) (ix_endpoint ix)\<rparr>"
| "index_document ix (IntegrationDoc g) p = ix\<lparr>ix_integration := AList.update (ig_id g) (g\<lparr>ig_source := p\<rparr>) (ix_integration ix)\<rparr>"
| "index_document ix (ArtifactDoc a) p = ix"

definition load_one :: "(path \<Rightarrow> string list) \<Rightarrow> (path \<Rightarrow> document) \<Rightarrow> path \<Rightarrow> indexes \<Rightarrow> registry_error + indexes" where
  "load_one validation_errors load_document p ix =
     (if validation_errors p \<noteq> [] then Inl (InvalidManifestError (p @ validation_errors p))
      else let d = load_document p in
        case kind_directory (doc_kind d) of
          None \<Rightarrow> Inl (InvalidManifestError (p @ [doc_kind d, '' is not a registry kind'']))
        | Some dir \<Rightarrow>
            if \<not> (2 \<le> length p \<and> hd p = dir)
            then Inl (InvalidManifestError (p @ [doc_kind d, '' belongs under '', dir]))
            else case indexed_source ix d of
              Some first \<Rightarrow> Inl (DuplicateIdError ([doc_kind d, doc_id d] @ first @ p))
            | None \<Rightarrow> Inr (index_document ix d p))"

fun load_all :: "(path \<Rightarrow> string list) \<Rightarrow> (path \<Rightarrow> document) \<Rightarrow> path list \<Rightarrow> indexes \<Rightarrow> registry_error + indexes" where
  "load_all ve ld [] ix = Inr ix"
| "load_all ve ld (p # ps) ix = bindS (load_one ve ld p ix) (\<lambda>ix'. load_all ve ld ps ix')"

fun check_via :: "registry \<Rightarrow> service \<Rightarrow> string list \<Rightarrow> registry_error + unit" where
  "check_via r s [] = Inr ()"
| "check_via r s (b # bs) = (case map_of (services r) b of
      None \<Rightarrow> Inl (UnknownReferenceError [''service '', sv_id s, '' has unknown via_bbs reference '', b])
    | Some t \<Rightarrow> if sv_type t \<noteq> ''bbs''
        then Inl (UnknownReferenceError [''service '', sv_id s, '' via_bbs reference '', b, '' is not a BBS''])
        else check_via r s bs)"

definition check_service :: "registry \<Rightarrow> service \<Rightarrow> registry_error + unit" where
  "check_service r s =
     (if \<not> has_key (endpoints r) (sv_endpoint_id s)
      then Inl (UnknownReferenceError [''service '', sv_id s, '' references unknown endpoint '', sv_endpoint_id s])
      else bindS
        (if truthy (sv_integration_id s) then
           (case map_of (integrations r) (the (sv_integration_id s)) of
              None \<Rightarrow> Inl (UnknownReferenceError [''service '', sv_id s, '' references unknown integration '', the (sv_integration_id s)])
            | Some g \<Rightarrow> if ig_target g \<noteq> sv_id s
                then Inl (UnknownReferenceError [''service '', sv_id s, '' references integration '', ig_id g, '' targeting '', ig_target g])
                else Inr ())
         else Inr ())
        (\<lambda>_. check_via r s (default [] (sv_via_bbs s))))"

definition check_integration :: "registry \<Rightarrow> integration \<Rightarrow> registry_error + unit" where
  "check_integration r g = (if \<not> has_key (services r) (ig_target g)
     then Inl (UnknownReferenceError [''integration '', ig_id g, '' targets unknown service '', ig_target g])
     else Inr ())"

definition validate_references :: "registry \<Rightarrow> registry_error + unit" where
  "validate_references r =
     bindS (mapS (check_service r) (map snd (services r))) (\<lambda>_.
     bindS (mapS (check_integration r) (map snd (integrations r))) (\<lambda>_. Inr ()))"

definition load_registry :: "(path \<Rightarrow> string list) \<Rightarrow> (path \<Rightarrow> document) \<Rightarrow> path list \<Rightarrow> registry_error + registry" where
  "load_registry ve ld files = (let paths = manifest_paths files in
     if paths = [] then Inl (InvalidManifestError [''no registry manifests found beneath ''])
     else bindS (load_all ve ld paths no_indexes) (\<lambda>ix.
          let r = create (ix_service ix) (ix_endpoint ix) (ix_integration ix) in
          bindS (validate_references r) (\<lambda>_. Inr r)))"

end
