(* ===== verification/Registry_Facts.thy ===== *)
theory Registry_Facts
  imports Registry
begin

text \<open>
  What the registry promises: what a successful load puts into its indexes, that a loaded registry
  has no dangling reference (so \<open>resolve\<close> fails only for an unsupported endpoint type), what the
  queries return, and that the catalog linter's cross-reference pass (\<open>ubb_schema\<close>) and the loader
  accept the same catalogs.
\<close>

section \<open>The linter's cross-reference pass\<close>

text \<open>
  \<open>cross_reference_errors\<close>: the first loop records the first declaration of every kind and id (the
  nested dictionaries keyed by kind, then id, are one dictionary keyed by the pair) and reports the
  later ones; the second reports the references of each document that name nothing.
\<close>

definition doc_key :: "document \<Rightarrow> string \<times> string" where
  "doc_key d = (doc_kind d, doc_id d)"

type_synonym declared = "(string \<times> string, path \<times> document) dict"

fun scan :: "(path \<times> document) list \<Rightarrow> message list \<times> declared \<Rightarrow> message list \<times> declared" where
  "scan [] acc = acc"
| "scan ((p, d) # pds) (errors, ids) = (case map_of ids (doc_key d) of
      Some first \<Rightarrow> scan pds (errors @ [p @ ['': duplicate '', doc_kind d, '' id '', doc_id d] @ fst first], ids)
    | None \<Rightarrow> scan pds (errors, AList.update (doc_key d) (p, d) ids))"

definition via_errors :: "declared \<Rightarrow> path \<Rightarrow> string \<Rightarrow> message list" where
  "via_errors ids p b = (case map_of ids (''service'', b) of
      None \<Rightarrow> [p @ ['': via_bbs target '', b, '' is not declared'']]
    | Some (_, ServiceDoc t) \<Rightarrow> if sv_type t \<noteq> ''bbs'' then [p @ ['': via_bbs target '', b, '' is not a BBS service'']] else []
    | Some _ \<Rightarrow> [p @ ['': via_bbs target '', b, '' is not a BBS service'']])"

fun document_errors :: "declared \<Rightarrow> path \<times> document \<Rightarrow> message list" where
  "document_errors ids (p, ServiceDoc s) =
     (if map_of ids (''endpoint'', sv_endpoint_id s) = None
      then [p @ ['': endpoint '', sv_endpoint_id s, '' is not declared'']] else [])
     @ (if truthy (sv_integration_id s) then
          (let i = the (sv_integration_id s) in case map_of ids (''integration'', i) of
             None \<Rightarrow> [p @ ['': integration '', i, '' is not declared'']]
           | Some (_, IntegrationDoc g) \<Rightarrow> if ig_target g \<noteq> sv_id s
               then [p @ ['': integration '', i, '' targets '', ig_target g, '', not this service'']] else []
           | Some _ \<Rightarrow> [p @ ['': integration '', i, '' targets None, not this service'']])
        else [])
     @ concat (map (via_errors ids p) (default [] (sv_via_bbs s)))"
| "document_errors ids (p, IntegrationDoc g) =
     (if map_of ids (''service'', ig_target g) = None
      then [p @ ['': integration target '', ig_target g, '' is not a declared service'']] else [])"
| "document_errors ids (p, EndpointDoc e) = []"
| "document_errors ids (p, ArtifactDoc a) = []"

definition cross_reference_errors :: "(path \<times> document) list \<Rightarrow> message list" where
  "cross_reference_errors pds = (let (errors, ids) = scan pds ([], []) in
     errors @ concat (map (document_errors ids) pds))"

section \<open>What a load indexes\<close>

lemma kind_directory_simps [simp]:
  "kind_directory ''service'' = Some ''services''"
  "kind_directory ''endpoint'' = Some ''endpoints''"
  "kind_directory ''integration'' = Some ''integrations''"
  "kind_directory ''artifact'' = None"
  by (simp_all add: kind_directory_def)

definition wf_indexes :: "indexes \<Rightarrow> bool" where
  "wf_indexes ix \<longleftrightarrow> wf_dict (ix_service ix) \<and> wf_dict (ix_endpoint ix) \<and> wf_dict (ix_integration ix)"

definition holds_documents :: "(path \<Rightarrow> document) \<Rightarrow> path set \<Rightarrow> indexes \<Rightarrow> bool" where
  "holds_documents ld P ix \<longleftrightarrow>
     set (ix_service ix) = {(sv_id s, s\<lparr>sv_source := p\<rparr>) | p s. p \<in> P \<and> ld p = ServiceDoc s} \<and>
     set (ix_endpoint ix) = {(ep_id e, e\<lparr>ep_source := p\<rparr>) | p e. p \<in> P \<and> ld p = EndpointDoc e} \<and>
     set (ix_integration ix) = {(ig_id g, g\<lparr>ig_source := p\<rparr>) | p g. p \<in> P \<and> ld p = IntegrationDoc g}"

lemma set_update_new: "map_of d k = None \<Longrightarrow> set (AList.update k v d) = insert (k, v) (set d)"
  by (simp add: map_of_eq_None_iff update_notin)

lemma load_one_Inr: "load_one ve ld p ix = Inr ix' \<longleftrightarrow>
  ve p = [] \<and> 2 \<le> length p \<and> kind_directory (doc_kind (ld p)) = Some (hd p) \<and>
  indexed_source ix (ld p) = None \<and> ix' = index_document ix (ld p) p"
  by (auto simp: load_one_def Let_def split: option.splits)

lemma index_document_step:
  assumes "indexed_source ix (ld p) = None" and "wf_indexes ix" and "holds_documents ld P ix"
  shows "wf_indexes (index_document ix (ld p) p) \<and> holds_documents ld (insert p P) (index_document ix (ld p) p)"
  using assms
  by (cases "ld p") (auto simp: wf_indexes_def holds_documents_def set_update_new)

lemma load_all_indexes:
  "load_all ve ld ps ix = Inr ix' \<Longrightarrow> wf_indexes ix \<Longrightarrow> holds_documents ld P ix
   \<Longrightarrow> wf_indexes ix' \<and> holds_documents ld (set ps \<union> P) ix'"
proof (induction ps arbitrary: ix P)
  case Nil then show ?case by simp
next
  case (Cons p ps)
  from Cons.prems obtain ix1 where one: "load_one ve ld p ix = Inr ix1" and rest: "load_all ve ld ps ix1 = Inr ix'"
    by auto
  have "wf_indexes ix1 \<and> holds_documents ld (insert p P) ix1"
    using one Cons.prems(2,3) index_document_step[of ix ld p P] by (auto simp: load_one_Inr)
  with Cons.IH[OF rest, of "insert p P"] show ?case by simp
qed

lemma no_indexes_holds: "wf_indexes no_indexes" "holds_documents ld {} no_indexes"
  by (simp_all add: wf_indexes_def holds_documents_def no_indexes_def)

lemma indexed_source_update:
  "doc_kind d \<noteq> ''artifact'' \<Longrightarrow> indexed_source (index_document ix d p) d' = None \<longleftrightarrow>
     indexed_source ix d' = None \<and> doc_key d \<noteq> doc_key d'"
  by (cases d; cases d') (auto simp: doc_key_def)

lemma indexed_source_empty [simp]: "indexed_source no_indexes d = None"
  by (cases d) (auto simp: no_indexes_def)

text \<open>On valid documents in the right directories, a load succeeds exactly when no id is declared twice.\<close>

lemma load_all_succeeds:
  assumes "\<forall>p \<in> set ps. ve p = [] \<and> 2 \<le> length p \<and> kind_directory (doc_kind (ld p)) = Some (hd p)"
  shows "(\<exists>ix'. load_all ve ld ps ix = Inr ix') \<longleftrightarrow>
     distinct (map (doc_key \<circ> ld) ps) \<and> (\<forall>p \<in> set ps. indexed_source ix (ld p) = None)"
  using assms
proof (induction ps arbitrary: ix)
  case Nil then show ?case by simp
next
  case (Cons p ps)
  have one: "load_one ve ld p ix = Inr ix1 \<longleftrightarrow> indexed_source ix (ld p) = None \<and> ix1 = index_document ix (ld p) p" for ix1
    using Cons.prems by (auto simp: load_one_Inr)
  have "doc_kind (ld p) \<noteq> ''artifact''"
    using Cons.prems by auto
  note upd = indexed_source_update[OF this]
  have "(\<exists>ix'. load_all ve ld (p # ps) ix = Inr ix') \<longleftrightarrow> indexed_source ix (ld p) = None \<and>
      (\<exists>ix'. load_all ve ld ps (index_document ix (ld p) p) = Inr ix')"
    by (auto simp: one)
  also have "\<dots> \<longleftrightarrow> indexed_source ix (ld p) = None \<and> distinct (map (doc_key \<circ> ld) ps) \<and>
      (\<forall>q \<in> set ps. indexed_source ix (ld q) = None \<and> doc_key (ld p) \<noteq> doc_key (ld q))"
    using Cons.IH[of "index_document ix (ld p) p"] Cons.prems by (simp add: upd comp_def)
  also have "\<dots> \<longleftrightarrow> distinct (map (doc_key \<circ> ld) (p # ps)) \<and> (\<forall>q \<in> set (p # ps). indexed_source ix (ld q) = None)"
    by auto
  finally show ?case .
qed

lemma map_of_sort_key: "wf_dict d \<Longrightarrow> map_of (sort_key fst d) = map_of d"
proof -
  assume wf: "wf_dict d"
  have "distinct (map fst (sort_key fst d))"
    using wf by (simp add: wf_dict_def distinct_map)
  with wf show ?thesis
    by (intro map_of_inject_set[THEN iffD2]) (auto simp: wf_dict_def)
qed

lemma loaded_registry_cases:
  assumes "load_registry ve ld files = Inr r"
  obtains ix where "load_all ve ld (manifest_paths files) no_indexes = Inr ix"
    and "r = create (ix_service ix) (ix_endpoint ix) (ix_integration ix)"
    and "validate_references r = Inr ()"
    and "wf_indexes ix" and "holds_documents ld (set (manifest_paths files)) ix"
proof -
  from assms obtain ix where ix: "load_all ve ld (manifest_paths files) no_indexes = Inr ix"
    and r: "r = create (ix_service ix) (ix_endpoint ix) (ix_integration ix)"
    and v: "validate_references r = Inr ()"
    by (auto simp: load_registry_def Let_def split: if_splits)
  from load_all_indexes[OF ix no_indexes_holds] ix r v show thesis
    by (intro that) auto
qed

definition wf_registry :: "registry \<Rightarrow> bool" where
  "wf_registry r \<longleftrightarrow>
     wf_dict (services r) \<and> wf_dict (endpoints r) \<and> wf_dict (integrations r) \<and>
     (\<forall>(i, s) \<in> set (services r). sv_id s = i) \<and>
     (\<forall>(i, e) \<in> set (endpoints r). ep_id e = i) \<and>
     (\<forall>(i, g) \<in> set (integrations r). ig_id g = i)"

lemma wf_dict_sort_key [simp]: "wf_dict (sort_key fst d) \<longleftrightarrow> wf_dict d"
  by (simp add: wf_dict_def distinct_map)

lemma loaded_registry_wf: "load_registry ve ld files = Inr r \<Longrightarrow> wf_registry r"
  by (erule loaded_registry_cases) (auto simp: wf_registry_def create_def wf_indexes_def holds_documents_def)

lemma validate_services: "validate_references r = Inr () \<Longrightarrow> (i, s) \<in> set (services r) \<Longrightarrow> check_service r s = Inr ()"
  by (force simp: validate_references_def mapS_Inr list_all2_conv_all_nth in_set_conv_nth)

lemma mapS_unit: "(\<exists>us. mapS f xs = Inr us) \<longleftrightarrow> (\<forall>x \<in> set xs. f x = Inr ())" for f :: "'a \<Rightarrow> 'e + unit"
  by (induction xs) auto

lemma validate_references_iff: "validate_references r = Inr () \<longleftrightarrow>
  (\<forall>s \<in> snd ` set (services r). check_service r s = Inr ()) \<and>
  (\<forall>g \<in> snd ` set (integrations r). check_integration r g = Inr ())"
  using mapS_unit[of "check_service r" "map snd (services r)"]
    mapS_unit[of "check_integration r" "map snd (integrations r)"]
  by (auto simp: validate_references_def)

lemma check_via_iff: "check_via r s bs = Inr () \<longleftrightarrow>
  (\<forall>b \<in> set bs. \<exists>t. map_of (services r) b = Some t \<and> sv_type t = ''bbs'')"
  by (induction bs) (auto split: option.splits)

lemma check_service_iff: "check_service r s = Inr () \<longleftrightarrow>
  has_key (endpoints r) (sv_endpoint_id s) \<and>
  (truthy (sv_integration_id s) \<longrightarrow>
     (\<exists>g. map_of (integrations r) (the (sv_integration_id s)) = Some g \<and> ig_target g = sv_id s)) \<and>
  (\<forall>b \<in> set (default [] (sv_via_bbs s)). \<exists>t. map_of (services r) b = Some t \<and> sv_type t = ''bbs'')"
  by (auto simp: check_service_def check_via_iff split: option.splits if_splits)

section \<open>The linter and the loader agree\<close>

lemma scan_errors: "errors_of = fst (scan pds (errors, ids)) \<Longrightarrow> errors_of = [] \<longleftrightarrow>
   errors = [] \<and> distinct (map (doc_key \<circ> snd) pds) \<and> (\<forall>x \<in> set pds. map_of ids (doc_key (snd x)) = None)"
proof (induction pds "(errors, ids)" arbitrary: errors ids rule: scan.induct)
  case 1 then show ?case by simp
next
  case (2 p d pds errors ids)
  show ?case
  proof (cases "map_of ids (doc_key d)")
    case None
    then have "errors_of = fst (scan pds (errors, AList.update (doc_key d) (p, d) ids))"
      using 2(3) by simp
    then have "errors_of = [] \<longleftrightarrow> errors = [] \<and> distinct (map (doc_key \<circ> snd) pds) \<and>
        (\<forall>x \<in> set pds. map_of (AList.update (doc_key d) (p, d) ids) (doc_key (snd x)) = None)"
      using 2(1)[OF None] by simp
    also have "(\<forall>x \<in> set pds. map_of (AList.update (doc_key d) (p, d) ids) (doc_key (snd x)) = None) \<longleftrightarrow>
        (\<forall>x \<in> set pds. doc_key (snd x) \<noteq> doc_key d \<and> map_of ids (doc_key (snd x)) = None)"
      by auto
    finally show ?thesis using None by (auto simp: comp_def image_iff)
  next
    case (Some first)
    with 2(2)[OF Some] 2(3) show ?thesis by (cases first) simp
  qed
qed

abbreviation keyed :: "(path \<times> document) list \<Rightarrow> declared" where
  "keyed pds \<equiv> map (\<lambda>x. (doc_key (snd x), x)) pds"

lemma scan_declared:
  "distinct (map (doc_key \<circ> snd) pds) \<Longrightarrow> \<forall>x \<in> set pds. map_of ids (doc_key (snd x)) = None
   \<Longrightarrow> map_of (snd (scan pds (errors, ids))) k = (case map_of (keyed pds) k of None \<Rightarrow> map_of ids k | Some x \<Rightarrow> Some x)"
proof (induction pds "(errors, ids)" arbitrary: errors ids rule: scan.induct)
  case 1 then show ?case by simp
next
  case (2 p d pds errors ids)
  have none: "map_of ids (doc_key d) = None"
    using 2(4) by simp
  have fresh: "doc_key d \<notin> (doc_key \<circ> snd) ` set pds"
    using 2(3) by (simp add: comp_def)
  then have notin: "map_of (keyed pds) (doc_key d) = None"
    by (auto simp: map_of_eq_None_iff image_iff)
  have later: "\<forall>x \<in> set pds. map_of (AList.update (doc_key d) (p, d) ids) (doc_key (snd x)) = None"
    using 2(4) fresh by (auto simp: image_iff)
  have "map_of (snd (scan ((p, d) # pds) (errors, ids))) k =
      (case map_of (keyed pds) k of None \<Rightarrow> map_of (AList.update (doc_key d) (p, d) ids) k | Some x \<Rightarrow> Some x)"
    using 2(1)[OF none _ later] 2(3) none by simp
  with notin show ?case by (auto split: option.splits)
qed

text \<open>The declarations the linter sees are the entries the registry holds.\<close>

definition agrees :: "declared \<Rightarrow> registry \<Rightarrow> bool" where
  "agrees ids r \<longleftrightarrow>
     (\<forall>i s. map_of (services r) i = Some s \<longrightarrow>
        (\<exists>p t. map_of ids (''service'', i) = Some (p, ServiceDoc t) \<and> sv_type t = sv_type s)) \<and>
     (\<forall>i. map_of (services r) i = None \<longrightarrow> map_of ids (''service'', i) = None) \<and>
     (\<forall>i. (map_of (endpoints r) i = None) = (map_of ids (''endpoint'', i) = None)) \<and>
     (\<forall>i g. map_of (integrations r) i = Some g \<longrightarrow>
        (\<exists>p h. map_of ids (''integration'', i) = Some (p, IntegrationDoc h) \<and> ig_target h = ig_target g)) \<and>
     (\<forall>i. map_of (integrations r) i = None \<longrightarrow> map_of ids (''integration'', i) = None)"

lemma agrees_service: "agrees ids r \<Longrightarrow> map_of (services r) i = Some s
    \<Longrightarrow> \<exists>p t. map_of ids (''service'', i) = Some (p, ServiceDoc t) \<and> sv_type t = sv_type s"
  unfolding agrees_def by blast

lemma agrees_no_service: "agrees ids r \<Longrightarrow> map_of (services r) i = None \<Longrightarrow> map_of ids (''service'', i) = None"
  unfolding agrees_def by blast

lemma agrees_endpoint: "agrees ids r \<Longrightarrow> (map_of ids (''endpoint'', i) = None) = (map_of (endpoints r) i = None)"
  unfolding agrees_def by blast

lemma agrees_integration: "agrees ids r \<Longrightarrow> map_of (integrations r) i = Some g
    \<Longrightarrow> \<exists>p h. map_of ids (''integration'', i) = Some (p, IntegrationDoc h) \<and> ig_target h = ig_target g"
  unfolding agrees_def by blast

lemma agrees_no_integration: "agrees ids r \<Longrightarrow> map_of (integrations r) i = None \<Longrightarrow> map_of ids (''integration'', i) = None"
  unfolding agrees_def by blast

lemma via_errors_iff:
  assumes "agrees ids r"
  shows "via_errors ids p b = [] \<longleftrightarrow> (\<exists>t. map_of (services r) b = Some t \<and> sv_type t = ''bbs'')"
proof (cases "map_of (services r) b")
  case None
  with agrees_no_service[OF assms] show ?thesis by (simp add: via_errors_def)
next
  case (Some s)
  then obtain q t where "map_of ids (''service'', b) = Some (q, ServiceDoc t)" "sv_type t = sv_type s"
    using agrees_service[OF assms] by blast
  with Some show ?thesis by (simp add: via_errors_def)
qed

lemma document_errors_service:
  assumes a: "agrees ids r"
  shows "document_errors ids (p, ServiceDoc s) = [] \<longleftrightarrow> check_service r s = Inr ()"
proof -
  show ?thesis
  proof (cases "map_of (integrations r) (the (sv_integration_id s))")
    case None
    with agrees_no_integration[OF a None] show ?thesis
      by (auto simp: check_service_iff via_errors_iff[OF a] has_key_map_of agrees_endpoint[OF a] Let_def)
  next
    case (Some g)
    then obtain q h where "map_of ids (''integration'', the (sv_integration_id s)) = Some (q, IntegrationDoc h)"
      "ig_target h = ig_target g"
      using agrees_integration[OF a] by blast
    with Some show ?thesis
      by (auto simp: check_service_iff via_errors_iff[OF a] has_key_map_of agrees_endpoint[OF a] Let_def)
  qed
qed

lemma document_errors_integration:
  assumes a: "agrees ids r"
  shows "document_errors ids (p, IntegrationDoc g) = [] \<longleftrightarrow> check_integration r g = Inr ()"
proof (cases "map_of (services r) (ig_target g)")
  case None
  with agrees_no_service[OF a] show ?thesis by (simp add: check_integration_def has_key_map_of)
next
  case (Some s)
  with agrees_service[OF a] show ?thesis by (fastforce simp: check_integration_def has_key_map_of)
qed

text \<open>On a load without duplicates, both passes look the same declarations up.\<close>

lemma map_of_in_set: "wf_dict d \<Longrightarrow> map_of d k = Some v \<longleftrightarrow> (k, v) \<in> set d"
  by (simp add: wf_dict_def map_of_eq_Some_iff)

lemma loaded_service_lookup:
  assumes "wf_indexes ix" and "holds_documents ld P ix"
  shows "map_of (ix_service ix) i = Some s \<longleftrightarrow> (\<exists>p t. p \<in> P \<and> ld p = ServiceDoc t \<and> i = sv_id t \<and> s = t\<lparr>sv_source := p\<rparr>)"
    and "map_of (ix_endpoint ix) i = Some e \<longleftrightarrow> (\<exists>p t. p \<in> P \<and> ld p = EndpointDoc t \<and> i = ep_id t \<and> e = t\<lparr>ep_source := p\<rparr>)"
    and "map_of (ix_integration ix) i = Some g \<longleftrightarrow> (\<exists>p t. p \<in> P \<and> ld p = IntegrationDoc t \<and> i = ig_id t \<and> g = t\<lparr>ig_source := p\<rparr>)"
  using assms by (auto simp: wf_indexes_def holds_documents_def map_of_in_set)

lemma doc_key_service: "doc_key d = (''service'', i) \<longleftrightarrow> (\<exists>t. d = ServiceDoc t \<and> i = sv_id t)"
  and doc_key_endpoint: "doc_key d = (''endpoint'', i) \<longleftrightarrow> (\<exists>t. d = EndpointDoc t \<and> i = ep_id t)"
  and doc_key_integration: "doc_key d = (''integration'', i) \<longleftrightarrow> (\<exists>t. d = IntegrationDoc t \<and> i = ig_id t)"
  by (cases d; auto simp: doc_key_def)+

lemma registry_agrees:
  assumes ix: "wf_indexes ix" "holds_documents ld (set ps) ix"
    and dist: "distinct (map (doc_key \<circ> ld) ps)"
    and ids: "\<And>k. map_of ids k = map_of (map (\<lambda>p. (doc_key (ld p), p, ld p)) ps) k"
  shows "agrees ids (create (ix_service ix) (ix_endpoint ix) (ix_integration ix))"
proof -
  have wf: "wf_dict (map (\<lambda>p. (doc_key (ld p), p, ld p)) ps)"
    using dist by (simp add: wf_dict_def comp_def)
  have look: "map_of ids k = Some (p, d) \<longleftrightarrow> p \<in> set ps \<and> k = doc_key (ld p) \<and> d = ld p" for k p d
    by (auto simp: ids map_of_in_set[OF wf] image_iff)
  have none: "map_of ids k = None \<longleftrightarrow> (\<forall>p \<in> set ps. doc_key (ld p) \<noteq> k)" for k
    by (auto simp: ids map_of_eq_None_iff image_iff)
  note lk = loaded_service_lookup[OF ix]
  have sorted: "map_of (sort_key fst (ix_service ix)) = map_of (ix_service ix)"
    "map_of (sort_key fst (ix_endpoint ix)) = map_of (ix_endpoint ix)"
    "map_of (sort_key fst (ix_integration ix)) = map_of (ix_integration ix)"
    using ix(1) by (simp_all add: map_of_sort_key wf_indexes_def)
  have "map_of ids (''service'', i) = None" if "map_of (ix_service ix) i = None" for i
    using that lk(1)[of i] by (auto simp: none doc_key_service)
  moreover have "map_of ids (''integration'', i) = None" if "map_of (ix_integration ix) i = None" for i
    using that lk(3)[of i] by (auto simp: none doc_key_integration)
  moreover have "(map_of (ix_endpoint ix) i = None) = (map_of ids (''endpoint'', i) = None)" for i
  proof (cases "map_of (ix_endpoint ix) i")
    case None
    with lk(2)[of i] show ?thesis by (auto simp: none doc_key_endpoint)
  next
    case (Some e)
    then obtain p t where "p \<in> set ps" "ld p = EndpointDoc t" "i = ep_id t"
      by (auto simp: lk(2))
    then have "map_of ids (''endpoint'', i) = Some (p, ld p)"
      by (simp add: look doc_key_def)
    with Some show ?thesis by simp
  qed
  moreover have "\<exists>p t. map_of ids (''service'', i) = Some (p, ServiceDoc t) \<and> sv_type t = sv_type s"
    if "map_of (ix_service ix) i = Some s" for i s
    using that by (auto simp: lk(1) look doc_key_def)
  moreover have "\<exists>p t. map_of ids (''integration'', i) = Some (p, IntegrationDoc t) \<and> ig_target t = ig_target g"
    if "map_of (ix_integration ix) i = Some g" for i g
    using that by (auto simp: lk(3) look doc_key_def)
  ultimately show ?thesis
    unfolding agrees_def create_def by (simp add: sorted)
qed

lemma check_service_source: "check_service r (s\<lparr>sv_source := p\<rparr>) = check_service r s"
  and check_integration_source: "check_integration r (g\<lparr>ig_source := q\<rparr>) = check_integration r g"
proof -
  have "check_via r (s\<lparr>sv_source := p\<rparr>) bs = check_via r s bs" for bs
    by (induction bs) (auto split: option.splits)
  then show "check_service r (s\<lparr>sv_source := p\<rparr>) = check_service r s"
    by (simp add: check_service_def cong: if_cong option.case_cong)
  show "check_integration r (g\<lparr>ig_source := q\<rparr>) = check_integration r g"
    by (simp add: check_integration_def)
qed

lemma ball_snd_collect:
  "A = {(k s, f p s) | p s. p \<in> P \<and> R p s} \<Longrightarrow> (\<forall>x \<in> snd ` A. Q x) \<longleftrightarrow> (\<forall>p \<in> P. \<forall>s. R p s \<longrightarrow> Q (f p s))"
  by fastforce

lemma references_ok_iff:
  assumes ix: "wf_indexes ix" "holds_documents ld (set ps) ix"
    and ids: "agrees ids r" and r: "r = create (ix_service ix) (ix_endpoint ix) (ix_integration ix)"
  shows "validate_references r = Inr () \<longleftrightarrow> (\<forall>p \<in> set ps. document_errors ids (p, ld p) = [])"
proof -
  have one: "document_errors ids (p, ld p) = [] \<longleftrightarrow>
      (\<forall>s. ld p = ServiceDoc s \<longrightarrow> check_service r s = Inr ()) \<and>
      (\<forall>g. ld p = IntegrationDoc g \<longrightarrow> check_integration r g = Inr ())" for p
    by (cases "ld p") (simp_all add: document_errors_service[OF ids] document_errors_integration[OF ids]
        del: document_errors.simps(1,2))
  have "validate_references r = Inr () \<longleftrightarrow>
      (\<forall>p \<in> set ps. \<forall>s. ld p = ServiceDoc s \<longrightarrow> check_service r s = Inr ()) \<and>
      (\<forall>p \<in> set ps. \<forall>g. ld p = IntegrationDoc g \<longrightarrow> check_integration r g = Inr ())"
  proof -
    have ss: "set (services r) = {(sv_id s, s\<lparr>sv_source := p\<rparr>) | p s. p \<in> set ps \<and> ld p = ServiceDoc s}"
      and gs: "set (integrations r) = {(ig_id g, g\<lparr>ig_source := p\<rparr>) | p g. p \<in> set ps \<and> ld p = IntegrationDoc g}"
      using ix(2) by (simp_all add: r create_def holds_documents_def)
    show ?thesis
      unfolding validate_references_iff ball_snd_collect[OF ss] ball_snd_collect[OF gs]
        check_service_source check_integration_source ..
  qed
  then show ?thesis by (auto simp: one)
qed

lemma cross_reference_errors_iff:
  "cross_reference_errors (map (\<lambda>p. (p, ld p)) ps) = [] \<longleftrightarrow>
     distinct (map (doc_key \<circ> ld) ps) \<and>
     (\<forall>p \<in> set ps. document_errors (snd (scan (map (\<lambda>p. (p, ld p)) ps) ([], []))) (p, ld p) = [])"
  using scan_errors[OF refl, of "map (\<lambda>p. (p, ld p)) ps" "[]" "[]"]
  by (auto simp: cross_reference_errors_def comp_def split: prod.splits)

section \<open>Properties\<close>

lemma map_of_registry_wf:
  "wf_registry r \<Longrightarrow> map_of (services r) i = Some s \<Longrightarrow> sv_id s = i"
  by (auto simp: wf_registry_def dest!: map_of_SomeD)

lemma map_of_integration_wf:
  "wf_registry r \<Longrightarrow> map_of (integrations r) i = Some g \<Longrightarrow> ig_id g = i"
  by (auto simp: wf_registry_def dest!: map_of_SomeD)

text \<open>A small catalog: a BBS with its integration, and a door that is reachable through it.\<close>

definition demo_lifecycle :: lifecycle where
  "demo_lifecycle = \<lparr>lc_mode = ''on_demand'', lc_sharing = ''multiuser'', lc_idle_timeout_seconds = Some 10,
     lc_startup_timeout_seconds = Some 2, lc_restart = Some ''never'', lc_max_restarts = None,
     lc_restart_window_seconds = None, lc_restart_backoff_us = None, lc_readiness = None\<rparr>"

definition demo_bbs :: service where
  "demo_bbs = \<lparr>sv_id = ''bbs'', sv_type = ''bbs'', sv_title = ''BBS'', sv_endpoint_id = ''ep'',
     sv_integration_id = Some ''ig'', sv_main_menu = True, sv_via_bbs = None, sv_admin_only = None,
     sv_direct_allowed = None, sv_lifecycle = demo_lifecycle, sv_jobs = [], sv_source = []\<rparr>"

definition demo_door :: service where
  "demo_door = demo_bbs\<lparr>sv_id := ''door'', sv_type := ''door'', sv_integration_id := None,
     sv_main_menu := False, sv_via_bbs := Some [''bbs'']\<rparr>"

definition demo_endpoint :: endpoint where
  "demo_endpoint = \<lparr>ep_id = ''ep'', ep_type = ''tcp'', ep_host = Some ''localhost'', ep_port = Some 23,
     ep_connect_timeout_us = None, ep_protocol = Some ''raw_tcp'', ep_device = None, ep_baud = None,
     ep_command = None, ep_remote_service_id = None, ep_network_zone = None, ep_source = []\<rparr>"

definition demo_integration :: integration where
  "demo_integration = \<lparr>ig_id = ''ig'', ig_target = ''bbs'', ig_runtime = ''native'',
     ig_recommended_lifecycle = None, ig_runtime_config = None, ig_source = []\<rparr>"

definition demo_files :: "path list" where
  "demo_files = [[''services'', ''b.yml''], [''services'', ''d.yml''], [''endpoints'', ''e.yml''],
                 [''integrations'', ''i.yaml''], [''README.md'']]"

definition demo_document :: "path \<Rightarrow> document" where
  "demo_document p = (if p = [''services'', ''b.yml''] then ServiceDoc demo_bbs
     else if p = [''services'', ''d.yml''] then ServiceDoc demo_door
     else if p = [''endpoints'', ''e.yml''] then EndpointDoc demo_endpoint
     else IntegrationDoc demo_integration)"

definition demo_registry :: registry where
  "demo_registry = \<lparr>
     services = [(''bbs'', demo_bbs\<lparr>sv_source := [''services'', ''b.yml'']\<rparr>),
                 (''door'', demo_door\<lparr>sv_source := [''services'', ''d.yml'']\<rparr>)],
     endpoints = [(''ep'', demo_endpoint\<lparr>ep_source := [''endpoints'', ''e.yml'']\<rparr>)],
     integrations = [(''ig'', demo_integration\<lparr>ig_source := [''integrations'', ''i.yaml'']\<rparr>)]\<rparr>"

lemma demo_paths: "manifest_paths demo_files =
  [[''endpoints'', ''e.yml''], [''integrations'', ''i.yaml''], [''services'', ''b.yml''], [''services'', ''d.yml'']]"
  by code_simp

lemma demo_loads: "load_registry (\<lambda>_. []) demo_document demo_files = Inr demo_registry"
  unfolding load_registry_def demo_paths Let_def by code_simp

text \<open>C1: a loaded registry has no dangling reference: every service it holds resolves, under its own
  id, to its endpoint and (if it names one) to an integration that targets it, unless the endpoint's
  type is unsupported; and every service it is offered through exists and is a BBS.\<close>

theorem loaded_registry_resolves:
  assumes load: "load_registry ve ld files = Inr r" and i: "map_of (services r) i = Some s"
  shows "sv_id s = i \<and>
    ((\<exists>e g. resolve r i = Inr \<lparr>rs_service = s, rs_endpoint = normalized e, rs_integration = g\<rparr> \<and>
        map_of (endpoints r) (sv_endpoint_id s) = Some e \<and>
        (\<forall>h. g = Some h \<longrightarrow> ig_target h = i \<and> Some (ig_id h) = sv_integration_id s)) \<or>
     (\<exists>m. resolve r i = Inl (UnsupportedEndpointTypeError m))) \<and>
    (\<forall>b \<in> set (default [] (sv_via_bbs s)). \<exists>t. map_of (services r) b = Some t \<and> sv_type t = ''bbs'')"
proof -
  have wf: "wf_registry r" using load by (rule loaded_registry_wf)
  have v: "validate_references r = Inr ()" using load by (rule loaded_registry_cases)
  have id: "sv_id s = i" using wf i by (rule map_of_registry_wf)
  have "check_service r s = Inr ()"
    using validate_services[OF v] i by (auto dest: map_of_SomeD)
  with id i wf show ?thesis
    by (auto simp: check_service_iff resolve_def get_service_def get_endpoint_def get_integration_def
        service_integration_def has_key_map_of split: option.splits dest: map_of_integration_wf)
qed

theorem loaded_registry_resolves_witness:
  "\<exists>e g. resolve demo_registry ''bbs'' =
     Inr \<lparr>rs_service = demo_bbs\<lparr>sv_source := [''services'', ''b.yml'']\<rparr>, rs_endpoint = normalized e, rs_integration = g\<rparr>"
proof -
  have "map_of (services demo_registry) ''bbs'' = Some (demo_bbs\<lparr>sv_source := [''services'', ''b.yml'']\<rparr>)"
    by (simp add: demo_registry_def)
  moreover have "\<not> (\<exists>m. resolve demo_registry ''bbs'' = Inl (UnsupportedEndpointTypeError m))"
  proof -
    have "isl (resolve demo_registry ''bbs'') = False" by code_simp
    then show ?thesis by auto
  qed
  ultimately show ?thesis
    using loaded_registry_resolves[OF demo_loads] by blast
qed

text \<open>C2: the catalog linter and the loader accept the same catalogs. On manifests that pass their
  schemas and lie in the directory of their kind, \<open>load_registry\<close> returns a registry exactly when
  \<open>cross_reference_errors\<close> of the same documents reports nothing.\<close>

theorem linter_agrees_with_loader:
  assumes "manifest_paths files \<noteq> []"
    and "\<forall>p \<in> set (manifest_paths files). ve p = [] \<and> 2 \<le> length p \<and> kind_directory (doc_kind (ld p)) = Some (hd p)"
  shows "(\<exists>r. load_registry ve ld files = Inr r) \<longleftrightarrow>
    cross_reference_errors (map (\<lambda>p. (p, ld p)) (manifest_paths files)) = []"
proof -
  define ps where "ps = manifest_paths files"
  define ids where "ids = snd (scan (map (\<lambda>p. (p, ld p)) ps) ([], []))"
  have loads: "(\<exists>ix. load_all ve ld ps no_indexes = Inr ix) \<longleftrightarrow> distinct (map (doc_key \<circ> ld) ps)"
    using load_all_succeeds[of ps ve ld no_indexes] assms(2) by (simp add: ps_def)
  have agree: "validate_references r = Inr () \<longleftrightarrow> (\<forall>p \<in> set ps. document_errors ids (p, ld p) = [])"
    if ix: "load_all ve ld ps no_indexes = Inr ix"
      and r: "r = create (ix_service ix) (ix_endpoint ix) (ix_integration ix)" for ix r
  proof -
    have holds: "wf_indexes ix" "holds_documents ld (set ps) ix"
      using load_all_indexes[OF ix no_indexes_holds] by simp_all
    have dist: "distinct (map (doc_key \<circ> ld) ps)"
      using loads ix by blast
    have "map_of ids k = map_of (map (\<lambda>p. (doc_key (ld p), p, ld p)) ps) k" for k
      using scan_declared[of "map (\<lambda>p. (p, ld p)) ps" "[]" "[]" k] dist
      by (simp add: ids_def comp_def split: option.splits)
    with holds dist have "agrees ids r"
      unfolding r by (rule registry_agrees)
    then show ?thesis using references_ok_iff[OF holds _ r] by blast
  qed
  have "(\<exists>r. load_registry ve ld files = Inr r) \<longleftrightarrow>
      (\<exists>ix. load_all ve ld ps no_indexes = Inr ix \<and>
        validate_references (create (ix_service ix) (ix_endpoint ix) (ix_integration ix)) = Inr ())"
    using assms(1) by (auto simp: load_registry_def Let_def ps_def)
  also have "\<dots> \<longleftrightarrow> distinct (map (doc_key \<circ> ld) ps) \<and> (\<forall>p \<in> set ps. document_errors ids (p, ld p) = [])"
    using agree loads by blast
  also have "\<dots> \<longleftrightarrow> cross_reference_errors (map (\<lambda>p. (p, ld p)) ps) = []"
    by (simp add: cross_reference_errors_iff ids_def)
  finally show ?thesis by (simp add: ps_def)
qed

theorem linter_agrees_with_loader_witness:
  "cross_reference_errors (map (\<lambda>p. (p, demo_document p)) (manifest_paths demo_files)) = []"
proof -
  have "manifest_paths demo_files \<noteq> []"
    by (simp add: demo_paths)
  moreover have "\<forall>p \<in> set (manifest_paths demo_files).
      2 \<le> length p \<and> kind_directory (doc_kind (demo_document p)) = Some (hd p)"
    unfolding demo_paths by code_simp
  ultimately show ?thesis
    using linter_agrees_with_loader[of demo_files "\<lambda>_. []" demo_document] demo_loads by auto
qed

text \<open>The integration a query sees for a service.\<close>

definition integration_of :: "registry \<Rightarrow> service \<Rightarrow> integration option" where
  "integration_of r s = (if truthy (sv_integration_id s) then map_of (integrations r) (the (sv_integration_id s)) else None)"

lemma list_loop_filter:
  assumes "\<And>i e. map_of (endpoints r) i = Some e \<Longrightarrow> ep_type e \<in> ENDPOINT_TYPES"
    and "\<forall>s \<in> set ss. check_service r s = Inr ()"
  shows "list_loop r q ss = Inr (filter (\<lambda>s. query_accepts q s (the (map_of (endpoints r) (sv_endpoint_id s))) (integration_of r s)) ss)"
  using assms(2)
proof (induction ss)
  case Nil then show ?case by simp
next
  case (Cons s ss)
  from Cons.prems have ok: "check_service r s = Inr ()" by simp
  then obtain e where e: "map_of (endpoints r) (sv_endpoint_id s) = Some e"
    by (auto simp: check_service_iff has_key_map_of)
  from assms(1)[OF e] e have "get_endpoint r (sv_endpoint_id s) = Inr e"
    by (simp add: get_endpoint_def)
  moreover have "service_integration r s = Inr (integration_of r s)"
    using ok by (auto simp: check_service_iff service_integration_def integration_of_def get_integration_def
        split: option.splits)
  ultimately show ?case using Cons e by simp
qed

lemma validated_services:
  "validate_references r = Inr () \<Longrightarrow> \<forall>s \<in> set (map snd (services r)). check_service r s = Inr ()"
  by (auto simp: validate_references_iff)

text \<open>A query over a loaded registry whose endpoint types are supported never fails. It returns
  exactly the services that pass its filters, each once, in increasing order of their ids.\<close>

theorem list_services_loaded:
  assumes load: "load_registry ve ld files = Inr r"
    and types: "\<And>i e. map_of (endpoints r) i = Some e \<Longrightarrow> ep_type e \<in> ENDPOINT_TYPES"
  shows "\<exists>ss. list_services r q = Inr ss \<and> sorted (map sv_id ss) \<and> distinct (map sv_id ss) \<and>
    (\<forall>s. s \<in> set ss \<longleftrightarrow> map_of (services r) (sv_id s) = Some s \<and>
       query_accepts q s (the (map_of (endpoints r) (sv_endpoint_id s))) (integration_of r s))"
proof -
  have wf: "wf_registry r" using load by (rule loaded_registry_wf)
  have v: "validate_references r = Inr ()" using load by (rule loaded_registry_cases)
  have srt: "sorted (map fst (services r))" using load by (rule loaded_registry_cases) (simp add: create_def)
  have ids: "map fst (services r) = map sv_id (map snd (services r))"
    using wf by (auto simp: wf_registry_def)
  define P where "P s = query_accepts q s (the (map_of (endpoints r) (sv_endpoint_id s))) (integration_of r s)" for s
  have member: "s \<in> set (map snd (services r)) \<longleftrightarrow> map_of (services r) (sv_id s) = Some s" for s
  proof -
    have "s \<in> set (map snd (services r)) \<longleftrightarrow> (sv_id s, s) \<in> set (services r)"
      using wf unfolding wf_registry_def by (auto intro!: image_eqI[of _ snd "(sv_id s, s)"])
    with wf show ?thesis by (simp add: wf_registry_def map_of_in_set)
  qed
  have "list_services r q = Inr (filter P (map snd (services r)))"
    unfolding list_services_def P_def using types validated_services[OF v] by (rule list_loop_filter)
  moreover have "sorted (map sv_id (filter P (map snd (services r))))"
    using srt unfolding ids by (rule sorted_filter)
  moreover have "distinct (map sv_id (filter P (map snd (services r))))"
    using wf ids by (simp add: wf_registry_def wf_dict_def distinct_map_filter)
  ultimately show ?thesis
    using member by (auto simp: P_def)
qed

theorem list_services_loaded_witness:
  "\<exists>ss. list_services demo_registry (any_query\<lparr>q_main_menu := Some True\<rparr>) = Inr ss \<and> sorted (map sv_id ss)"
proof -
  have "ep_type e \<in> ENDPOINT_TYPES" if "map_of (endpoints demo_registry) i = Some e" for i e
  proof -
    have "\<forall>e \<in> snd ` set (endpoints demo_registry). ep_type e \<in> ENDPOINT_TYPES" by code_simp
    with that show ?thesis by (force dest: map_of_SomeD)
  qed
  then show ?thesis
    using list_services_loaded[OF demo_loads, of "any_query\<lparr>q_main_menu := Some True\<rparr>"] by blast
qed

end
