(* ===== verification/Json.thy ===== *)
theory Json
  imports Py_Strings
begin

text \<open>
  JSON values, as the components read them from files, keep them in dictionaries and write them back.
  Floating-point numbers do not occur in the documents that are modelled.
\<close>

datatype json = JNull | JBool bool | JInt int | JStr string | JList "json list" | JDict "(string \<times> json) list"

text \<open>\<open>bool(value)\<close>\<close>

fun truth :: "json \<Rightarrow> bool" where
  "truth JNull = False"
| "truth (JBool b) = b"
| "truth (JInt n) = (n \<noteq> 0)"
| "truth (JStr s) = (s \<noteq> [])"
| "truth (JList vs) = (vs \<noteq> [])"
| "truth (JDict d) = (d \<noteq> [])"

type_synonym fields = "(string, json) dict"

end
