(* ===== verification/Lifecycle.thy ===== *)
theory Lifecycle
  imports Registry Json
begin

text \<open>
  The data of the lifecycle supervisor (\<open>scripts/ubb_supervisor\<close>): its exceptions, timestamps, the
  state graph of \<open>state_machine.py\<close>, the runtime record of \<open>models.py\<close> with its persisted form, and
  the state store of \<open>persistence.py\<close>.
\<close>

section \<open>Values and exceptions\<close>

datatype supervisor_error =
    SupervisorError message
  | InvalidTransitionError message
  | ServiceNotFoundError message
  | ServiceBusyError message
  | ReadinessTimeoutError message
  | RestartLimitExceededError message
  | MaintenanceError message
  | DriverError message
  | RegistryFailure registry_error   \<comment> \<open>raised by \<open>registry.resolve\<close>\<close>
  | BuiltinError string message      \<comment> \<open>\<open>TypeError\<close>, \<open>ValueError\<close>, \<open>AttributeError\<close>, \<open>OSError\<close>\<close>

fun registry_text :: "registry_error \<Rightarrow> message" where
  "registry_text (DuplicateIdError m) = m"
| "registry_text (UnknownReferenceError m) = m"
| "registry_text (InvalidManifestError m) = m"
| "registry_text (UnsupportedEndpointTypeError m) = m"

text \<open>\<open>str(exc)\<close>\<close>

fun error_text :: "supervisor_error \<Rightarrow> message" where
  "error_text (SupervisorError m) = m"
| "error_text (InvalidTransitionError m) = m"
| "error_text (ServiceNotFoundError m) = m"
| "error_text (ServiceBusyError m) = m"
| "error_text (ReadinessTimeoutError m) = m"
| "error_text (RestartLimitExceededError m) = m"
| "error_text (MaintenanceError m) = m"
| "error_text (DriverError m) = m"
| "error_text (RegistryFailure e) = registry_text e"
| "error_text (BuiltinError n m) = m"

section \<open>Timestamps\<close>

text \<open>
  A \<open>datetime\<close>: wall-clock microseconds since 1970 and the UTC offset, \<open>None\<close> for a naive one. The
  ISO strings the code stores are exactly these values (\<open>fromisoformat\<close> inverts \<open>isoformat\<close>), so a
  stored timestamp is a \<open>datetime\<close> and \<open>parse_timestamp\<close> is the identity. Years are unbounded.
\<close>

record datetime =
  wall :: int
  utc_offset :: "int option"

definition utc :: "datetime \<Rightarrow> int" where
  "utc d = wall d - (case utc_offset d of None \<Rightarrow> 0 | Some k \<Rightarrow> k)"

definition aware :: "datetime \<Rightarrow> bool" where
  "aware d \<longleftrightarrow> utc_offset d \<noteq> None"

text \<open>\<open>a - b\<close>, \<open>a >= b\<close> and \<open>a < b\<close>; a naive and an aware datetime cannot be compared.\<close>

definition time_between :: "datetime \<Rightarrow> datetime \<Rightarrow> supervisor_error + int" where
  "time_between a b = (if aware a \<noteq> aware b
     then Inl (BuiltinError ''TypeError'' [''can't compare offset-naive and offset-aware datetimes''])
     else Inr (utc a - utc b))"

definition at_least :: "datetime \<Rightarrow> datetime \<Rightarrow> supervisor_error + bool" where
  "at_least a b = bindS (time_between a b) (\<lambda>d. Inr (0 \<le> d))"

definition before :: "datetime \<Rightarrow> datetime \<Rightarrow> supervisor_error + bool" where
  "before a b = bindS (time_between a b) (\<lambda>d. Inr (d < 0))"

definition seconds :: "int \<Rightarrow> int" where
  "seconds n = n * 1000000"

definition plus_time :: "datetime \<Rightarrow> int \<Rightarrow> datetime" where
  "plus_time d us = d\<lparr>wall := wall d + us\<rparr>"

lemma plus_time_simps [simp]:
  "wall (plus_time d us) = wall d + us" "utc_offset (plus_time d us) = utc_offset d"
  "utc (plus_time d us) = utc d + us" "aware (plus_time d us) = aware d"
  by (simp_all add: plus_time_def utc_def aware_def)

lemma aware_compare:
  assumes "aware a" "aware b"
  shows "time_between a b = Inr (utc a - utc b)" "at_least a b = Inr (utc b \<le> utc a)" "before a b = Inr (utc a < utc b)"
  using assms by (simp_all add: time_between_def at_least_def before_def)

section \<open>The transition graph\<close>

datatype lifecycle_state = STOPPED | STARTING | READY | RUNNING | MAINTENANCE | STOPPING | FAILED

fun state_value :: "lifecycle_state \<Rightarrow> string" where
  "state_value STOPPED = ''stopped''"
| "state_value STARTING = ''starting''"
| "state_value READY = ''ready''"
| "state_value RUNNING = ''running''"
| "state_value MAINTENANCE = ''maintenance''"
| "state_value STOPPING = ''stopping''"
| "state_value FAILED = ''failed''"

definition all_states :: "lifecycle_state list" where
  "all_states = [STOPPED, STARTING, READY, RUNNING, MAINTENANCE, STOPPING, FAILED]"

text \<open>\<open>LifecycleState(value)\<close>\<close>

definition state_of_value :: "string \<Rightarrow> supervisor_error + lifecycle_state" where
  "state_of_value v = (case find (\<lambda>s. state_value s = v) all_states of
      None \<Rightarrow> Inl (BuiltinError ''ValueError'' [v, '' is not a valid LifecycleState''])
    | Some s \<Rightarrow> Inr s)"

fun TRANSITIONS :: "lifecycle_state \<Rightarrow> lifecycle_state set" where
  "TRANSITIONS STOPPED = {STARTING}"
| "TRANSITIONS STARTING = {READY, FAILED}"
| "TRANSITIONS READY = {RUNNING, MAINTENANCE, STOPPING, FAILED}"
| "TRANSITIONS RUNNING = {MAINTENANCE, STOPPING, FAILED}"
| "TRANSITIONS MAINTENANCE = {RUNNING, STOPPING, FAILED}"
| "TRANSITIONS STOPPING = {STOPPED, FAILED}"
| "TRANSITIONS FAILED = {STARTING, STOPPED}"

definition validate_transition :: "lifecycle_state \<Rightarrow> lifecycle_state \<Rightarrow> supervisor_error + unit" where
  "validate_transition old new = (if new \<notin> TRANSITIONS old
     then Inl (InvalidTransitionError [''invalid lifecycle transition: '', state_value old, '' -> '', state_value new])
     else Inr ())"

definition ACTIVE_STATES :: "lifecycle_state set" where
  "ACTIVE_STATES = {READY, RUNNING, MAINTENANCE}"

definition STALE_STATES :: "lifecycle_state set" where
  "STALE_STATES = {STARTING, READY, STOPPING}"

text \<open>The graph as a relation, for the statements about histories.\<close>

inductive edge :: "lifecycle_state \<Rightarrow> lifecycle_state \<Rightarrow> bool" where
  edge: "new \<in> TRANSITIONS old \<Longrightarrow> edge old new"

inductive_simps edge_iff [simp]: "edge old new"

lemma validate_transition_Inr [simp]: "validate_transition old new = Inr () \<longleftrightarrow> edge old new"
  by (simp add: validate_transition_def)

lemma validate_transition_cases: "validate_transition old new = Inr () \<or>
   (\<exists>m. validate_transition old new = Inl (InvalidTransitionError m))"
  by (simp add: validate_transition_def)

lemma state_of_value_inverse [simp]: "state_of_value (state_value s) = Inr s"
  by (cases s) (simp_all add: state_of_value_def all_states_def)

section \<open>Instances and their persisted form\<close>

record instance_state =
  in_service :: string
  in_instance :: string
  in_state :: lifecycle_state
  in_holds :: "(string, int) dict"
  in_sessions :: "(string, datetime) dict"
  in_admin_intent :: bool
  in_idle_deadline :: "datetime option"
  in_last_start_at :: "datetime option"
  in_last_stop_at :: "datetime option"
  in_last_failure :: "message option"
  in_restart_times :: "datetime list"
  in_next_restart_at :: "datetime option"
  in_restart_exhausted :: bool
  in_maintenance_results :: "(string, datetime \<times> fields) dict"
  in_schedule_last_run :: "(string, datetime) dict"
  in_runtime :: fields

text \<open>\<open>InstanceState(service_id, f"{service_id}:shared")\<close> with the defaults of its fields.\<close>

definition new_instance :: "string \<Rightarrow> instance_state" where
  "new_instance i = \<lparr>in_service = i, in_instance = i @ '':shared'', in_state = STOPPED, in_holds = [],
     in_sessions = [], in_admin_intent = False, in_idle_deadline = None, in_last_start_at = None,
     in_last_stop_at = None, in_last_failure = None, in_restart_times = [], in_next_restart_at = None,
     in_restart_exhausted = False, in_maintenance_results = [], in_schedule_last_run = [], in_runtime = []\<rparr>"

definition active_holds :: "instance_state \<Rightarrow> int" where
  "active_holds i = sum_values (in_holds i)"

text \<open>The dictionary that \<open>to_dict\<close> returns.\<close>

record snapshot =
  sn_service_id :: string
  sn_instance_id :: string
  sn_state :: string
  sn_holds :: "(string, int) dict"
  sn_sessions :: "(string, datetime) dict"
  sn_active_session_count :: nat
  sn_admin_intent :: bool
  sn_idle_deadline :: "datetime option"
  sn_last_start_at :: "datetime option"
  sn_last_stop_at :: "datetime option"
  sn_last_failure :: "message option"
  sn_restart_times :: "datetime list"
  sn_next_restart_at :: "datetime option"
  sn_restart_exhausted :: bool
  sn_maintenance_results :: "(string, datetime \<times> fields) dict"
  sn_schedule_last_run :: "(string, datetime) dict"
  sn_runtime :: fields

definition durable_hold :: "string \<Rightarrow> bool" where
  "durable_hold k \<longleftrightarrow> k \<in> {''admin'', ''always_on''}"

definition to_dict :: "bool \<Rightarrow> instance_state \<Rightarrow> snapshot" where
  "to_dict persist i = \<lparr>
     sn_service_id = in_service i, sn_instance_id = in_instance i, sn_state = state_value (in_state i),
     sn_holds = (if persist then filter (\<lambda>(k, v). durable_hold k) (in_holds i) else in_holds i),
     sn_sessions = (if persist then [] else in_sessions i),
     sn_active_session_count = length (in_sessions i),
     sn_admin_intent = in_admin_intent i, sn_idle_deadline = in_idle_deadline i,
     sn_last_start_at = in_last_start_at i, sn_last_stop_at = in_last_stop_at i,
     sn_last_failure = in_last_failure i, sn_restart_times = in_restart_times i,
     sn_next_restart_at = in_next_restart_at i, sn_restart_exhausted = in_restart_exhausted i,
     sn_maintenance_results = in_maintenance_results i,
     sn_schedule_last_run = in_schedule_last_run i, sn_runtime = in_runtime i\<rparr>"

definition from_dict :: "snapshot \<Rightarrow> supervisor_error + instance_state" where
  "from_dict v = bindS (state_of_value (sn_state v)) (\<lambda>st. Inr \<lparr>
     in_service = sn_service_id v, in_instance = sn_instance_id v, in_state = st,
     in_holds = filter (\<lambda>(k, n). durable_hold k) (sn_holds v), in_sessions = [],
     in_admin_intent = sn_admin_intent v, in_idle_deadline = sn_idle_deadline v,
     in_last_start_at = sn_last_start_at v, in_last_stop_at = sn_last_stop_at v,
     in_last_failure = sn_last_failure v, in_restart_times = sn_restart_times v,
     in_next_restart_at = sn_next_restart_at v, in_restart_exhausted = sn_restart_exhausted v,
     in_maintenance_results = sn_maintenance_results v,
     in_schedule_last_run = sn_schedule_last_run v, in_runtime = sn_runtime v\<rparr>)"

text \<open>What survives a restart of the supervisor process.\<close>

definition durable :: "instance_state \<Rightarrow> instance_state" where
  "durable i = i\<lparr>in_holds := filter (\<lambda>(k, n). durable_hold k) (in_holds i), in_sessions := []\<rparr>"

lemma from_to_dict: "from_dict (to_dict p i) = Inr (durable i)"
  by (cases p) (simp_all add: from_dict_def to_dict_def durable_def)

lemma durable_idem [simp]: "durable (durable i) = durable i"
  by (simp add: durable_def)

section \<open>The state store\<close>

text \<open>
  \<open>StateStore\<close>: the instance files, one per service id and replaced atomically, and the append-only
  journal. The file operations themselves succeed (an \<open>OSError\<close> of the disk is not modelled).
\<close>

record event =
  ev_service :: string
  ev_old :: lifecycle_state
  ev_new :: lifecycle_state
  ev_timestamp :: datetime
  ev_reason :: message
  ev_instance :: string
  ev_error :: "message option"

record state_store =
  st_instances :: "(string, snapshot) dict"
  st_journal :: "event list"

definition store_load :: "state_store \<Rightarrow> string \<Rightarrow> supervisor_error + instance_state option" where
  "store_load st i = (case map_of (st_instances st) i of
      None \<Rightarrow> Inr None
    | Some v \<Rightarrow> bindS (from_dict v) (\<lambda>x. Inr (Some x)))"

definition store_save :: "instance_state \<Rightarrow> state_store \<Rightarrow> state_store" where
  "store_save i st = st\<lparr>st_instances := AList.update (in_service i) (to_dict True i) (st_instances st)\<rparr>"

definition append_event :: "event \<Rightarrow> state_store \<Rightarrow> state_store" where
  "append_event e st = st\<lparr>st_journal := st_journal st @ [e]\<rparr>"

lemma store_load_save: "store_load (store_save i st) k =
  (if k = in_service i then Inr (Some (durable i)) else store_load st k)"
  by (simp add: store_load_def store_save_def from_to_dict)

lemma store_load_append [simp]: "store_load (append_event e st) k = store_load st k"
  by (simp add: store_load_def append_event_def)

text \<open>What the supervisor writes it reads back. Loading a service's file after a save gives the
  instance as it was, except that its sessions and its transient holds are gone; saving the loaded
  instance again changes nothing, and no other service's file is touched.\<close>

theorem save_load_roundtrip:
  "store_load (store_save i st) (in_service i) =
     Inr (Some (i\<lparr>in_holds := filter (\<lambda>(k, n). k = ''admin'' \<or> k = ''always_on'') (in_holds i), in_sessions := []\<rparr>)) \<and>
   store_load (store_save (durable i) st) (in_service i) = store_load (store_save i st) (in_service i) \<and>
   (k = in_service i \<or> store_load (store_save i st) k = store_load st k)"
proof -
  have "durable_hold k \<longleftrightarrow> k = ''admin'' \<or> k = ''always_on''" for k
    by (simp add: durable_hold_def)
  then show ?thesis
    by (simp add: store_load_save) (simp add: durable_def)
qed

end
