(* ===== verification/Scheduler.thy ===== *)
theory Scheduler
  imports Lifecycle
begin

text \<open>
  Maintenance schedules: \<open>scripts/ubb_supervisor/scheduler.py\<close>. \<open>is_due\<close> follows the source; the
  abstract schedule of a string (\<open>schedule_of\<close>) and its rule (\<open>due\<close>) are what it implements.
\<close>

section \<open>The schedule patterns\<close>

definition any_case :: "char \<Rightarrow> rx" where
  "any_case c = Cls (\<lambda>x. lower_char x = c)"

definition word_rx :: "string \<Rightarrow> rx" where
  "word_rx w = foldr (\<lambda>c r. Cat (any_case c) r) w Eps"

definition spaces_rx :: rx where
  "spaces_rx = Star (Cls is_space)"

text \<open>\<open>^every\s+(\d+)\s*([mhd])$\<close> and \<open>^daily(?:\s+at)?\s+(\d{1,2}):(\d{2})$\<close>, ignoring case\<close>

definition INTERVAL :: rx where
  "INTERVAL = Cat (word_rx ''every'') (Cat (Plus (Cls is_space)) (Cat (Plus (Cls is_digit))
     (Cat spaces_rx (Cls (\<lambda>c. lower_char c \<in> set ''mhd'')))))"

definition DAILY :: rx where
  "DAILY = Cat (word_rx ''daily'') (Cat (Opt (Cat (Plus (Cls is_space)) (word_rx ''at'')))
     (Cat (Plus (Cls is_space)) (Cat (Cls is_digit) (Cat (Upto 1 (Cls is_digit))
       (Cat (Lit (CHR '':'')) (Times 2 (Cls is_digit)))))))"

text \<open>
  The groups of a match. Both patterns fix them: the count is the digits after \<open>every\<close> and its
  white space, the unit is the last character; the minute is the last two characters and the hour
  the digits before the colon that precedes them.
\<close>

definition interval_count :: "string \<Rightarrow> string" where
  "interval_count s = takeWhile is_digit (dropWhile is_space (drop 5 s))"

definition interval_unit :: "string \<Rightarrow> int" where
  "interval_unit s = (case lower_char (last s) of CHR ''m'' \<Rightarrow> 60 | CHR ''h'' \<Rightarrow> 3600 | _ \<Rightarrow> 86400)"

definition daily_hour :: "string \<Rightarrow> string" where
  "daily_hour s = rev (takeWhile is_digit (drop 3 (rev s)))"

definition daily_minute :: "string \<Rightarrow> string" where
  "daily_minute s = drop (length s - 2) s"

definition day :: int where
  "day = seconds 86400"

text \<open>\<open>now.replace(hour=h, minute=m, second=0, microsecond=0)\<close>\<close>

definition at_time :: "datetime \<Rightarrow> nat \<Rightarrow> nat \<Rightarrow> datetime" where
  "at_time d h m = d\<lparr>wall := wall d div day * day + seconds (int h * 3600 + int m * 60)\<rparr>"

definition is_due :: "string \<Rightarrow> datetime \<Rightarrow> datetime option \<Rightarrow> supervisor_error + bool" where
  "is_due schedule now last_run =
    (if \<not> aware now then Inl (SupervisorError [''scheduler requires timezone-aware timestamps''])
     else let s = strip schedule in
       if fullmatch INTERVAL s then
         let count = int_of_digits (interval_count s) in
         if count < 1 then Inl (SupervisorError [''invalid interval schedule: '', schedule])
         else (case last_run of None \<Rightarrow> Inr True
                | Some previous \<Rightarrow> at_least now (plus_time previous (seconds (int count * interval_unit s))))
       else if fullmatch DAILY s then
         let hour = int_of_digits (daily_hour s); minute = int_of_digits (daily_minute s) in
         if hour > 23 \<or> minute > 59 then Inl (SupervisorError [''invalid daily schedule: '', schedule])
         else let scheduled = at_time now hour minute in
           bindS (at_least now scheduled) (\<lambda>reached.
             if \<not> reached then Inr False
             else (case last_run of None \<Rightarrow> Inr True | Some previous \<Rightarrow> before previous scheduled))
       else Inl (SupervisorError [''unsupported maintenance schedule: '', schedule]))"

section \<open>The abstract schedule\<close>

datatype schedule = Every int | Daily nat nat

definition schedule_of :: "string \<Rightarrow> schedule option" where
  "schedule_of spec = (let s = strip spec in
     if fullmatch INTERVAL s then
       (let n = int_of_digits (interval_count s) in
        if n < 1 then None else Some (Every (seconds (int n * interval_unit s))))
     else if fullmatch DAILY s then
       (let h = int_of_digits (daily_hour s); m = int_of_digits (daily_minute s) in
        if h > 23 \<or> m > 59 then None else Some (Daily h m))
     else None)"

text \<open>An interval has passed since the last run, or today's time has passed and the last run was before it.\<close>

fun due :: "schedule \<Rightarrow> datetime \<Rightarrow> datetime option \<Rightarrow> bool" where
  "due sch now None = (case sch of Every us \<Rightarrow> True | Daily h m \<Rightarrow> utc (at_time now h m) \<le> utc now)"
| "due sch now (Some previous) = (case sch of
      Every us \<Rightarrow> utc previous + us \<le> utc now
    | Daily h m \<Rightarrow> utc (at_time now h m) \<le> utc now \<and> utc previous < utc (at_time now h m))"

lemma at_time_aware [simp]: "aware (at_time d h m) = aware d" "utc_offset (at_time d h m) = utc_offset d"
  by (simp_all add: at_time_def aware_def)

lemma utc_at_time: "utc (at_time d h m) = utc d - wall d mod day + seconds (int h * 3600 + int m * 60)"
proof -
  have "wall d div day * day = wall d - wall d mod day"
    by (simp add: minus_mod_eq_div_mult)
  then show ?thesis by (simp add: at_time_def utc_def)
qed

lemma interval_unit_pos: "0 < interval_unit s"
  by (simp add: interval_unit_def split: char.split bool.split)

lemma schedule_of_every_pos: "schedule_of spec = Some (Every us) \<Longrightarrow> 0 < us"
  using interval_unit_pos[of "strip spec"]
  by (auto simp: schedule_of_def Let_def seconds_def split: if_splits)

lemma schedule_of_daily_bounds: "schedule_of spec = Some (Daily h m) \<Longrightarrow> h \<le> 23 \<and> m \<le> 59"
  by (auto simp: schedule_of_def Let_def split: if_splits)

lemma is_due_schedule:
  assumes now: "aware now" and prev: "\<And>p. lr = Some p \<Longrightarrow> aware p"
  shows "case schedule_of spec of
      None \<Rightarrow> \<exists>m. is_due spec now lr = Inl (SupervisorError m)
    | Some sch \<Rightarrow> is_due spec now lr = Inr (due sch now lr)"
proof (cases lr)
  case None
  with now show ?thesis
    by (simp add: is_due_def schedule_of_def Let_def aware_compare)
next
  case (Some p)
  with now prev show ?thesis
    by (simp add: is_due_def schedule_of_def Let_def aware_compare)
qed

text \<open>A daily time of a day lies within that day.\<close>

lemma daily_within: "h \<le> 23 \<Longrightarrow> m \<le> 59 \<Longrightarrow> 0 \<le> seconds (int h * 3600 + int m * 60) \<and> seconds (int h * 3600 + int m * 60) < day"
  by (simp add: seconds_def day_def)

lemma day_pos [simp]: "0 < day"
  by (simp add: day_def seconds_def)

lemma daily_once_a_day:
  assumes "due (Daily h m) first lr" and "h \<le> 23" "m \<le> 59"
    and "utc_offset later = utc_offset first" and "wall first div day = wall later div day"
  shows "\<not> due (Daily h m) later (Some first)"
proof -
  have "utc (at_time later h m) = utc (at_time first h m)"
    using assms(4,5) by (simp add: at_time_def utc_def)
  moreover have "utc (at_time first h m) \<le> utc first"
    using assms(1) by (cases lr) auto
  ultimately show ?thesis by simp
qed

lemma due_not_after_run: "schedule_of spec = Some sch \<Longrightarrow> \<not> due sch now (Some now)"
proof (cases sch)
  case (Every us)
  assume "schedule_of spec = Some sch"
  with Every have "0 < us" by (simp add: schedule_of_every_pos)
  with Every show ?thesis by simp
qed auto


text \<open>Thursday 2026-01-01 12:00 UTC and 04:30 the same day.\<close>

definition noon :: datetime where
  "noon = \<lparr>wall = 1767268800000000, utc_offset = Some 0\<rparr>"

definition early :: datetime where
  "early = plus_time noon (- seconds 27000)"


text \<open>A job is not due again right after it ran. Whatever the schedule, a check at the time of the
  last run answers no; an interval job stays quiet for its whole interval, and a daily job that was
  due stays quiet for the rest of that local day.\<close>

theorem is_due_once:
  assumes "aware now" and "schedule_of spec = Some sch"
  shows "is_due spec now (Some now) = Inr False \<and>
    (case sch of
       Every us \<Rightarrow> \<forall>d. 0 \<le> d \<and> d < us \<longrightarrow> is_due spec (plus_time now d) (Some now) = Inr False
     | Daily h m \<Rightarrow> \<forall>d. is_due spec now None = Inr True \<and> wall (plus_time now d) div day = wall now div day
         \<longrightarrow> is_due spec (plus_time now d) (Some now) = Inr False)"
proof -
  have due: "is_due spec t (Some now) = Inr (due sch t (Some now))" if "aware t" for t
    using is_due_schedule[OF that, of "Some now" spec] assms by simp
  have due0: "is_due spec now None = Inr (due sch now None)"
    using is_due_schedule[OF assms(1), of None spec] assms(2) by simp
  show ?thesis
  proof (cases sch)
    case (Every us)
    with assms due_not_after_run[OF assms(2), of now] show ?thesis by (auto simp: due)
  next
    case (Daily h m)
    then have "h \<le> 23 \<and> m \<le> 59" using assms(2) by (simp add: schedule_of_daily_bounds)
    have "\<not> due sch (plus_time now d) (Some now)"
      if "due sch now None" "wall (plus_time now d) div day = wall now div day" for d
      using daily_once_a_day[of h m now None "plus_time now d"] that Daily \<open>h \<le> 23 \<and> m \<le> 59\<close> by simp
    with Daily assms due_not_after_run[OF assms(2), of now]
    show ?thesis by (auto simp: due due0 simp del: due.simps)
  qed
qed

theorem is_due_once_witness: "is_due ''every 2h'' noon (Some noon) = Inr False"
proof -
  have "schedule_of ''every 2h'' = Some (Every (seconds 7200))" by code_simp
  moreover have "aware noon" by (simp add: noon_def aware_def)
  ultimately show ?thesis using is_due_once by blast
qed

end
