(* ===== verification/Supervisor.thy ===== *)
theory Supervisor
  imports Scheduler
begin

text \<open>
  The lifecycle supervisor: \<open>scripts/ubb_supervisor/supervisor.py\<close>. Its methods are programs over the
  supervisor's state. The clock, the drivers and the source of session ids are the fields of an
  \<open>env\<close>: functions of a world \<open>'w\<close> that they may change. Whatever runs inside one \<open>with lock\<close> block is
  one program; \<open>run_maintenance\<close>, whose driver call happens outside the lock, is three.
\<close>

section \<open>Environment and state\<close>

text \<open>
  A driver method gets the instance and the declaration; it may change the instance's \<open>runtime\<close>
  dictionary and the world, and it may raise.
\<close>

type_synonym ('w, 'a) driver_call = "instance_state \<Rightarrow> resolution \<Rightarrow> 'w \<Rightarrow> (supervisor_error + 'a) \<times> fields \<times> 'w"

record 'w driver =
  d_start :: "('w, unit) driver_call"
  d_stop :: "('w, unit) driver_call"
  d_status :: "('w, bool) driver_call"   \<comment> \<open>the truth of \<open>status(...).get("alive")\<close>\<close>
  d_is_ready :: "readiness \<Rightarrow> ('w, bool) driver_call"
  d_run_maintenance :: "job \<Rightarrow> ('w, fields) driver_call"

text \<open>Durations and the monotonic clock are in microseconds.\<close>

record 'w env =
  registry_of :: registry
  poll_interval :: int
  driver_resolver :: "service \<Rightarrow> supervisor_error + 'w driver"
  clock_now :: "'w \<Rightarrow> datetime \<times> 'w"
  clock_monotonic :: "'w \<Rightarrow> int \<times> 'w"
  clock_sleep :: "int \<Rightarrow> 'w \<Rightarrow> 'w"
  new_session_id :: "'w \<Rightarrow> string \<times> 'w"

text \<open>\<open>instances\<close> has an entry for every service of the registry, from construction on.\<close>

record 'w sup =
  instances :: "string \<Rightarrow> instance_state"
  overrides :: "(string, string) dict"
  jobs_running :: "(string \<times> string) set"
  store :: state_store
  world :: "'w"

type_synonym ('w, 'a) sprog = "('w sup, supervisor_error, 'a) prog"

definition liftS :: "supervisor_error + 'a \<Rightarrow> ('w, 'a) sprog" where
  "liftS x = (case x of Inl e \<Rightarrow> raise e | Inr a \<Rightarrow> ret a)"

definition instance_of :: "string \<Rightarrow> ('w, instance_state) sprog" where
  "instance_of k = gets (\<lambda>s. instances s k)"

definition upd :: "string \<Rightarrow> (instance_state \<Rightarrow> instance_state) \<Rightarrow> ('w, unit) sprog" where
  "upd k f = modify (\<lambda>s. s\<lparr>instances := (instances s)(k := f (instances s k))\<rparr>)"

definition now :: "'w env \<Rightarrow> ('w, datetime) sprog" where
  "now env = (\<lambda>s. let (t, w) = clock_now env (world s) in (Ret t, s\<lparr>world := w\<rparr>))"

definition monotonic :: "'w env \<Rightarrow> ('w, int) sprog" where
  "monotonic env = (\<lambda>s. let (t, w) = clock_monotonic env (world s) in (Ret t, s\<lparr>world := w\<rparr>))"

definition sleep :: "'w env \<Rightarrow> int \<Rightarrow> ('w, unit) sprog" where
  "sleep env d = modify (\<lambda>s. s\<lparr>world := clock_sleep env d (world s)\<rparr>)"

definition fresh_session_id :: "'w env \<Rightarrow> ('w, string) sprog" where
  "fresh_session_id env = (\<lambda>s. let (i, w) = new_session_id env (world s) in (Ret i, s\<lparr>world := w\<rparr>))"

text \<open>A call of a driver method on the instance of service \<open>k\<close>.\<close>

definition driver_call :: "string \<Rightarrow> ('w, 'a) driver_call \<Rightarrow> resolution \<Rightarrow> ('w, 'a) sprog" where
  "driver_call k f decl = (\<lambda>s. let (r, rt, w) = f (instances s k) decl (world s) in
     (case r of Inl e \<Rightarrow> Raise e | Inr x \<Rightarrow> Ret x,
      s\<lparr>instances := (instances s)(k := (instances s k)\<lparr>in_runtime := rt\<rparr>), world := w\<rparr>))"

section \<open>Helpers\<close>

definition find_service :: "'w env \<Rightarrow> string \<Rightarrow> ('w, service) sprog" where
  "find_service env k = (case map_of (services (registry_of env)) k of
      None \<Rightarrow> raise (ServiceNotFoundError [''unknown service: '', k])
    | Some sv \<Rightarrow> ret sv)"

definition declaration_of :: "'w env \<Rightarrow> service \<Rightarrow> ('w, resolution) sprog" where
  "declaration_of env sv = (case resolve (registry_of env) (sv_id sv) of
      Inl e \<Rightarrow> raise (RegistryFailure e) | Inr d \<Rightarrow> ret d)"

definition driver_of :: "'w env \<Rightarrow> service \<Rightarrow> ('w, 'w driver) sprog" where
  "driver_of env sv = liftS (driver_resolver env sv)"

definition lifecycle_of :: "service \<Rightarrow> ('w, lifecycle) sprog" where
  "lifecycle_of sv = gets (\<lambda>s. case map_of (overrides s) (sv_id sv) of
      None \<Rightarrow> sv_lifecycle sv | Some mode \<Rightarrow> (sv_lifecycle sv)\<lparr>lc_mode := mode\<rparr>)"

definition persist :: "string \<Rightarrow> ('w, unit) sprog" where
  "persist k = modify (\<lambda>s. s\<lparr>store := store_save (instances s k) (store s)\<rparr>)"

definition transition_locked :: "'w env \<Rightarrow> string \<Rightarrow> lifecycle_state \<Rightarrow> message \<Rightarrow> supervisor_error option \<Rightarrow> ('w, unit) sprog" where
  "transition_locked env k new reason err =
     bind (instance_of k) (\<lambda>i.
     andThen (liftS (validate_transition (in_state i) new))
    (andThen (upd k (\<lambda>x. x\<lparr>in_state := new\<rparr>))
    (bind (now env) (\<lambda>t.
     andThen (modify (\<lambda>s. s\<lparr>store := append_event
        \<lparr>ev_service = in_service i, ev_old = in_state i, ev_new = new, ev_timestamp = t, ev_reason = reason,
         ev_instance = in_instance i, ev_error = map_option error_text err\<rparr> (store s)\<rparr>))
     (persist k)))))"

definition transition :: "'w env \<Rightarrow> string \<Rightarrow> string \<Rightarrow> message \<Rightarrow> ('w, unit) sprog" where
  "transition env k new_state reason =
     bind (find_service env k) (\<lambda>sv.
     bind (liftS (state_of_value new_state)) (\<lambda>new.
     transition_locked env (sv_id sv) new reason None))"

definition add_hold :: "string \<Rightarrow> string \<Rightarrow> ('w, unit) sprog" where
  "add_hold k reason = andThen
     (upd k (\<lambda>i. i\<lparr>in_holds := AList.update reason (get_or (in_holds i) reason 0 + 1) (in_holds i), in_idle_deadline := None\<rparr>))
     (persist k)"

definition remove_hold :: "string \<Rightarrow> string \<Rightarrow> ('w, unit) sprog" where
  "remove_hold k reason = andThen
     (upd k (\<lambda>i. let count = get_or (in_holds i) reason 0 in
        if count \<le> 1 then i\<lparr>in_holds := AList.delete reason (in_holds i)\<rparr>
        else i\<lparr>in_holds := AList.update reason (count - 1) (in_holds i)\<rparr>))
     (persist k)"

text \<open>\<open>holds[reason] = 1\<close> and \<open>holds.pop(reason, None)\<close>\<close>

definition put_hold :: "string \<Rightarrow> string \<Rightarrow> ('w, unit) sprog" where
  "put_hold k reason = upd k (\<lambda>i. i\<lparr>in_holds := AList.update reason 1 (in_holds i)\<rparr>)"

definition pop_hold :: "string \<Rightarrow> string \<Rightarrow> ('w, unit) sprog" where
  "pop_hold k reason = upd k (\<lambda>i. i\<lparr>in_holds := AList.delete reason (in_holds i)\<rparr>)"

definition mark_failed_locked :: "'w env \<Rightarrow> service \<Rightarrow> supervisor_error \<Rightarrow> message \<Rightarrow> ('w, unit) sprog" where
  "mark_failed_locked env sv err reason =
     bind (instance_of (sv_id sv)) (\<lambda>i.
     andThen (onlyif (in_state i \<noteq> FAILED) (transition_locked env (sv_id sv) FAILED reason (Some err)))
    (andThen (upd (sv_id sv) (\<lambda>x. x\<lparr>in_last_failure := Some (error_text err)\<rparr>))
     (persist (sv_id sv))))"

definition schedule_idle_locked :: "'w env \<Rightarrow> service \<Rightarrow> ('w, unit) sprog" where
  "schedule_idle_locked env sv =
     bind (lifecycle_of sv) (\<lambda>lc.
     bind (instance_of (sv_id sv)) (\<lambda>i.
     if lc_mode lc \<noteq> ''on_demand'' \<or> active_holds i \<noteq> 0 \<or> in_state i \<noteq> RUNNING then ret ()
     else if in_idle_deadline i \<noteq> None then ret ()
     else bind (now env) (\<lambda>t.
       andThen (upd (sv_id sv) (\<lambda>x. x\<lparr>in_idle_deadline := Some (plus_time t (seconds (default 0 (lc_idle_timeout_seconds lc))))\<rparr>))
       (persist (sv_id sv)))))"

section \<open>Starting and restarting\<close>

text \<open>\<open>while not driver.is_ready(...)\<close>: the poll loop, with fuel.\<close>

fun wait_ready :: "'w env \<Rightarrow> service \<Rightarrow> 'w driver \<Rightarrow> resolution \<Rightarrow> readiness \<Rightarrow> int \<Rightarrow> int \<Rightarrow> nat \<Rightarrow> ('w, unit) sprog" where
  "wait_ready env sv drv decl rd timeout deadline 0 = no_fuel"
| "wait_ready env sv drv decl rd timeout deadline (Suc n) =
     bind (driver_call (sv_id sv) (d_is_ready drv rd) decl) (\<lambda>ready.
     if ready then ret ()
     else bind (monotonic env) (\<lambda>t.
       if deadline \<le> t then raise (ReadinessTimeoutError [sv_id sv, '' readiness timed out''])
       else bind (monotonic env) (\<lambda>t'.
         andThen (sleep env (min (poll_interval env) (max 0 (deadline - t'))))
         (wait_ready env sv drv decl rd timeout deadline n))))"

definition default_readiness :: readiness where
  "default_readiness = \<lparr>rd_type = Some ''process_alive'', rd_command = None, rd_host = None, rd_port = None, rd_path = None\<rparr>"

text \<open>The body of the \<open>try\<close> in \<open>_ensure_running_locked\<close>.\<close>

definition start_up :: "'w env \<Rightarrow> nat \<Rightarrow> service \<Rightarrow> 'w driver \<Rightarrow> resolution \<Rightarrow> message \<Rightarrow> ('w, unit) sprog" where
  "start_up env n sv drv decl reason = (let k = sv_id sv in
     andThen (driver_call k (d_start drv) decl)
    (bind (lifecycle_of sv) (\<lambda>lc.
     let timeout = seconds (default 60 (lc_startup_timeout_seconds lc));
         rd = default default_readiness (lc_readiness lc) in
     bind (monotonic env) (\<lambda>t.
     andThen (wait_ready env sv drv decl rd timeout (t + timeout) n)
    (andThen (transition_locked env k READY reason None)
    (andThen (transition_locked env k RUNNING reason None)
    (bind (now env) (\<lambda>t.
     andThen (upd k (\<lambda>i. i\<lparr>in_last_start_at := Some t, in_last_failure := None, in_next_restart_at := None,
                             in_restart_exhausted := False\<rparr>))
     (persist k)))))))))"

text \<open>\<open>[item for item in restart_times if now - item <= window]\<close>\<close>

fun recent :: "datetime \<Rightarrow> int \<Rightarrow> datetime list \<Rightarrow> supervisor_error + datetime list" where
  "recent t window [] = Inr []"
| "recent t window (x # xs) = bindS (time_between t x) (\<lambda>d. bindS (recent t window xs) (\<lambda>ys.
     Inr (if d \<le> window then x # ys else ys)))"

text \<open>
  \<open>_restart_after_failure_locked\<close>, given the call of \<open>_ensure_running_locked\<close> it ends with. What
  follows the computation of \<open>prior\<close> is \<open>restart_decision\<close>.
\<close>

definition restart_decision :: "service \<Rightarrow> int \<Rightarrow> int \<Rightarrow> datetime \<Rightarrow> datetime list \<Rightarrow> ('w, unit) sprog \<Rightarrow> ('w, unit) sprog" where
  "restart_decision sv maximum backoff t prior again = (let k = sv_id sv in
     andThen (upd k (\<lambda>x. x\<lparr>in_restart_times := prior\<rparr>))
     (if maximum \<le> int (length prior) then
        andThen (upd k (\<lambda>x. x\<lparr>in_last_failure := Some [''restart limit exhausted''], in_restart_exhausted := True, in_next_restart_at := None\<rparr>))
       (andThen (pop_hold k ''recovery'')
       (andThen (persist k)
        (raise (RestartLimitExceededError [''restart limit exhausted'']))))
      else
        andThen (upd k (\<lambda>x. x\<lparr>in_restart_times := in_restart_times x @ [t], in_restart_exhausted := False\<rparr>))
       (andThen (put_hold k ''recovery'')
       (andThen (upd k (\<lambda>x. x\<lparr>in_next_restart_at := Some (plus_time t backoff)\<rparr>))
       (andThen (persist k)
        (if backoff = 0 then
           andThen again
          (bind (instance_of k) (\<lambda>j.
           onlyif (in_state j = RUNNING) (andThen (pop_hold k ''recovery'') (persist k))))
         else ret ()))))))"

definition restart_with :: "'w env \<Rightarrow> service \<Rightarrow> ('w, unit) sprog \<Rightarrow> ('w, unit) sprog" where
  "restart_with env sv again =
     bind (lifecycle_of sv) (\<lambda>lc.
     if default ''never'' (lc_restart lc) \<notin> {''on_failure'', ''always''} then ret ()
     else bind (now env) (\<lambda>t.
     let window = default 60 (lc_restart_window_seconds lc); maximum = default 3 (lc_max_restarts lc);
         backoff = default 0 (lc_restart_backoff_us lc) in
     bind (instance_of (sv_id sv)) (\<lambda>i.
     bind (liftS (recent t (seconds window) (in_restart_times i))) (\<lambda>prior.
     restart_decision sv maximum backoff t prior again))))"

text \<open>
  \<open>try: if driver.status(...).get("alive"): driver.stop(...)\<close> with \<open>except Exception: pass\<close>
\<close>

definition clean_up :: "service \<Rightarrow> 'w driver \<Rightarrow> resolution \<Rightarrow> ('w, unit) sprog" where
  "clean_up sv drv decl = bind
     (attempt (bind (driver_call (sv_id sv) (d_status drv) decl) (\<lambda>alive.
        onlyif alive (driver_call (sv_id sv) (d_stop drv) decl))))
     (\<lambda>_. ret ())"

text \<open>
  \<open>_ensure_running_locked\<close> calls \<open>_restart_after_failure_locked\<close>, which calls it again: the fuel
  bounds the depth of that recursion and the length of each poll loop.
\<close>

fun ensure_running_locked :: "'w env \<Rightarrow> nat \<Rightarrow> service \<Rightarrow> message \<Rightarrow> ('w, unit) sprog" where
  "ensure_running_locked env 0 sv reason = no_fuel"
| "ensure_running_locked env (Suc n) sv reason = (let k = sv_id sv in
     bind (instance_of k) (\<lambda>i.
     if in_state i \<in> ACTIVE_STATES then ret ()
     else if in_state i \<in> {STARTING, STOPPING}
       then raise (ServiceBusyError [''service '', k, '' is '', state_value (in_state i)])
     else bind (declaration_of env sv) (\<lambda>decl.
       bind (driver_of env sv) (\<lambda>drv.
       andThen (transition_locked env k STARTING reason None)
      (catch (start_up env n sv drv decl reason) (\<lambda>exc.
         andThen (clean_up sv drv decl)
        (andThen (mark_failed_locked env sv exc [''start_failure''])
        (andThen (restart_with env sv (ensure_running_locked env n sv [''recovery'']))
        (bind (instance_of k) (\<lambda>j. raise_if (in_state j = FAILED) exc))))))))))"

definition restart_after_failure_locked :: "'w env \<Rightarrow> nat \<Rightarrow> service \<Rightarrow> ('w, unit) sprog" where
  "restart_after_failure_locked env n sv = restart_with env sv (ensure_running_locked env n sv [''recovery''])"

section \<open>Operations\<close>

text \<open>What most operations return: \<open>instance.to_dict()\<close>.\<close>

definition view :: "string \<Rightarrow> ('w, snapshot) sprog" where
  "view k = gets (\<lambda>s. to_dict False (instances s k))"

definition start :: "'w env \<Rightarrow> nat \<Rightarrow> string \<Rightarrow> string \<Rightarrow> ('w, snapshot) sprog" where
  "start env n sid reason =
     bind (find_service env sid) (\<lambda>sv. let k = sv_id sv in
     andThen
       (if reason = ''admin'' then
          andThen (upd k (\<lambda>i. i\<lparr>in_admin_intent := True\<rparr>))
         (andThen (upd k (\<lambda>i. if in_state i = FAILED then i\<lparr>in_restart_exhausted := False, in_restart_times := []\<rparr> else i))
         (bind (instance_of k) (\<lambda>i. onlyif (get_or (in_holds i) ''admin'' 0 = 0) (add_hold k ''admin''))))
        else bind (instance_of k) (\<lambda>i. onlyif (get_or (in_holds i) reason 0 = 0) (add_hold k reason)))
    (andThen (ensure_running_locked env n sv [reason])
     (view k)))"

definition ensure_running :: "'w env \<Rightarrow> nat \<Rightarrow> string \<Rightarrow> string \<Rightarrow> ('w, snapshot) sprog" where
  "ensure_running env n sid reason = start env n sid reason"

definition stop_locked :: "'w env \<Rightarrow> service \<Rightarrow> message \<Rightarrow> ('w, unit) sprog" where
  "stop_locked env sv reason = (let k = sv_id sv in
     bind (instance_of k) (\<lambda>i.
     if in_state i = STOPPED then persist k
     else if in_state i = FAILED then transition_locked env k STOPPED reason None
     else if in_state i \<notin> ACTIVE_STATES
       then raise (ServiceBusyError [''cannot stop '', k, '' while '', state_value (in_state i)])
     else andThen (transition_locked env k STOPPING reason None)
       (catch
         (bind (driver_of env sv) (\<lambda>drv.
          bind (declaration_of env sv) (\<lambda>decl.
          andThen (driver_call k (d_stop drv) decl)
         (andThen (transition_locked env k STOPPED reason None)
         (bind (now env) (\<lambda>t.
          andThen (upd k (\<lambda>x. x\<lparr>in_last_stop_at := Some t, in_idle_deadline := None\<rparr>))
          (persist k)))))))
         (\<lambda>exc. andThen (mark_failed_locked env sv exc [''stop_failure'']) (raise exc)))))"

definition stop :: "'w env \<Rightarrow> string \<Rightarrow> bool \<Rightarrow> string \<Rightarrow> ('w, snapshot) sprog" where
  "stop env sid force reason =
     bind (find_service env sid) (\<lambda>sv. let k = sv_id sv in
     andThen (onlyif (reason = ''admin'')
       (upd k (\<lambda>i. i\<lparr>in_admin_intent := False, in_holds := AList.delete ''admin'' (in_holds i)\<rparr>)))
    (andThen (onlyif force (upd k (\<lambda>i. i\<lparr>in_holds := [], in_sessions := []\<rparr>)))
    (bind (instance_of k) (\<lambda>i.
     andThen (raise_if (active_holds i \<noteq> 0 \<and> \<not> force) (ServiceBusyError [''service '', k, '' has active holds'']))
    (andThen (stop_locked env sv [reason])
     (view k))))))"

definition restart :: "'w env \<Rightarrow> nat \<Rightarrow> string \<Rightarrow> ('w, snapshot) sprog" where
  "restart env n sid = bind (stop env sid True ''restart'') (\<lambda>_. start env n sid ''admin'')"

text \<open>The statements of \<open>acquire_session\<close> that record a session, and those that undo it.\<close>

definition add_session :: "'w env \<Rightarrow> string \<Rightarrow> ('w, string) sprog" where
  "add_session env k =
     bind (fresh_session_id env) (\<lambda>session_id.
     bind (now env) (\<lambda>t.
     andThen (upd k (\<lambda>i. i\<lparr>in_sessions := AList.update session_id t (in_sessions i)\<rparr>))
    (andThen (add_hold k ''sessions'')
     (ret session_id))))"

definition drop_session :: "string \<Rightarrow> string \<Rightarrow> ('w, unit) sprog" where
  "drop_session k session_id = andThen
     (upd k (\<lambda>i. i\<lparr>in_sessions := AList.delete session_id (in_sessions i)\<rparr>))
     (remove_hold k ''sessions'')"

definition acquire_session :: "'w env \<Rightarrow> nat \<Rightarrow> string \<Rightarrow> ('w, string) sprog" where
  "acquire_session env n sid =
     bind (find_service env sid) (\<lambda>sv. let k = sv_id sv in
     bind (instance_of k) (\<lambda>i.
     bind (lifecycle_of sv) (\<lambda>lc.
     andThen (raise_if (lc_sharing lc = ''single_session'' \<and> in_sessions i \<noteq> [])
        (ServiceBusyError [''single_session service '', k, '' already has an active session'']))
    (bind (add_session env k) (\<lambda>session_id.
     andThen (catch (ensure_running_locked env n sv [''session''])
        (\<lambda>exc. andThen (drop_session k session_id) (raise exc)))
     (ret session_id))))))"

definition release_session :: "'w env \<Rightarrow> string \<Rightarrow> string \<Rightarrow> ('w, snapshot) sprog" where
  "release_session env sid session_id =
     bind (find_service env sid) (\<lambda>sv. let k = sv_id sv in
     bind (instance_of k) (\<lambda>i.
     andThen (raise_if (\<not> has_key (in_sessions i) session_id) (SupervisorError [''unknown session '', session_id, '' for '', k]))
    (andThen (drop_session k session_id)
    (andThen (schedule_idle_locked env sv)
     (view k)))))"

definition notify_failure :: "'w env \<Rightarrow> nat \<Rightarrow> string \<Rightarrow> message \<Rightarrow> ('w, snapshot) sprog" where
  "notify_failure env n sid err =
     bind (find_service env sid) (\<lambda>sv.
     andThen (mark_failed_locked env sv (DriverError err) [''runtime_failure''])
    (andThen (restart_after_failure_locked env n sv)
     (view (sv_id sv))))"

definition set_lifecycle_mode :: "'w env \<Rightarrow> string \<Rightarrow> string \<Rightarrow> ('w, string \<times> string \<times> string option) sprog" where
  "set_lifecycle_mode env sid mode =
     bind (find_service env sid) (\<lambda>sv.
     andThen (raise_if (mode \<notin> {''always_on'', ''on_demand''}) (BuiltinError ''ValueError'' [''invalid lifecycle mode'']))
    (andThen (modify (\<lambda>s. s\<lparr>overrides := AList.update sid mode (overrides s)\<rparr>))
    (bind (case resolve (registry_of env) sid of Inl e \<Rightarrow> raise (RegistryFailure e) | Inr d \<Rightarrow> ret d) (\<lambda>d.
     case rs_integration d of
       None \<Rightarrow> raise (BuiltinError ''AttributeError'' [''NoneType object has no attribute get''])
     | Some g \<Rightarrow> ret (sid, mode, ig_recommended_lifecycle g)))))"

section \<open>Maintenance\<close>

text \<open>\<open>{job["name"]: job for job in ...}\<close>: of two jobs with a name, the later one.\<close>

definition find_job :: "service \<Rightarrow> string \<Rightarrow> job option" where
  "find_job sv j = map_of (map (\<lambda>x. (jb_name x, x)) (rev (sv_jobs sv))) j"

definition discard_job :: "string \<times> string \<Rightarrow> ('w, unit) sprog" where
  "discard_job key = modify (\<lambda>s. s\<lparr>jobs_running := jobs_running s - {key}\<rparr>)"

text \<open>The first \<open>with lock\<close> block; it returns \<open>was_active\<close>.\<close>

definition begin_maintenance :: "'w env \<Rightarrow> nat \<Rightarrow> service \<Rightarrow> job \<Rightarrow> ('w, bool) sprog" where
  "begin_maintenance env n sv jb = (let k = sv_id sv; key = (k, jb_name jb) in
     bind (gets jobs_running) (\<lambda>running.
     andThen (raise_if (key \<in> running) (ServiceBusyError [''maintenance job already running: '', k, jb_name jb]))
    (andThen (modify (\<lambda>s. s\<lparr>jobs_running := insert key (jobs_running s)\<rparr>))
    (bind (instance_of k) (\<lambda>i.
     let was_active = in_state i \<in> ACTIVE_STATES in
     andThen (onlyif (\<not> was_active \<and> \<not> default True (jb_wake_if_stopped jb))
        (andThen (discard_job key)
         (raise (MaintenanceError [''maintenance job '', k, jb_name jb, '' is not allowed to wake a stopped service'']))))
    (andThen (add_hold k ''maintenance'')
    (andThen (catch
        (andThen (ensure_running_locked env n sv [''maintenance''])
                 (transition_locked env k MAINTENANCE [''maintenance:'', jb_name jb] None))
        (\<lambda>exc. andThen (remove_hold k ''maintenance'') (andThen (discard_job key) (raise exc))))
     (ret was_active))))))))"

text \<open>The driver call, outside the lock: \<open>result\<close> and \<open>error\<close>.\<close>

definition run_job :: "'w env \<Rightarrow> service \<Rightarrow> job \<Rightarrow> ('w, fields \<times> supervisor_error option) sprog" where
  "run_job env sv jb = catch
     (bind (driver_of env sv) (\<lambda>drv.
      bind (declaration_of env sv) (\<lambda>decl.
      bind (driver_call (sv_id sv) (d_run_maintenance drv jb) decl) (\<lambda>result. ret (result, None)))))
     (\<lambda>exc. ret ([(''ok'', JBool False), (''error'', JStr (concat (error_text exc)))], Some exc))"

text \<open>The second \<open>with lock\<close> block.\<close>

definition finish_maintenance :: "'w env \<Rightarrow> nat \<Rightarrow> service \<Rightarrow> job \<Rightarrow> bool \<Rightarrow> fields \<times> supervisor_error option \<Rightarrow> ('w, fields) sprog" where
  "finish_maintenance env n sv jb was_active outcome = (let k = sv_id sv; key = (k, jb_name jb); (result, err) = outcome in
     bind (now env) (\<lambda>t.
     andThen (upd k (\<lambda>i. i\<lparr>in_maintenance_results := AList.update (jb_name jb) (t, result) (in_maintenance_results i),
                             in_schedule_last_run := AList.update (jb_name jb) t (in_schedule_last_run i)\<rparr>))
    (andThen (case err of
        Some e \<Rightarrow> mark_failed_locked env sv e [''maintenance_failure:'', jb_name jb]
      | None \<Rightarrow> transition_locked env k RUNNING [''maintenance_complete:'', jb_name jb] None)
    (andThen (remove_hold k ''maintenance'')
    (andThen (discard_job key)
    (bind (instance_of k) (\<lambda>i.
     andThen (if err = None \<and> \<not> was_active \<and> default True (jb_shutdown_after jb) \<and> active_holds i = 0
              then stop_locked env sv [''maintenance_complete:'', jb_name jb]
              else onlyif (err = None) (schedule_idle_locked env sv))
     (case err of
        Some e \<Rightarrow> andThen (restart_after_failure_locked env n sv)
                  (raise (MaintenanceError ([''maintenance '', k, jb_name jb, '' failed: ''] @ error_text e)))
      | None \<Rightarrow> ret result))))))))"

definition run_maintenance :: "'w env \<Rightarrow> nat \<Rightarrow> string \<Rightarrow> string \<Rightarrow> ('w, fields) sprog" where
  "run_maintenance env n sid job_id =
     bind (find_service env sid) (\<lambda>sv.
     case find_job sv job_id of
       None \<Rightarrow> raise (MaintenanceError [''unknown maintenance job '', job_id, '' for '', sv_id sv])
     | Some jb \<Rightarrow>
         bind (begin_maintenance env n sv jb) (\<lambda>was_active.
         bind (run_job env sv jb) (\<lambda>outcome.
         finish_maintenance env n sv jb was_active outcome)))"

section \<open>Reconciliation and the tick\<close>

text \<open>\<open>for sv in services: acc.extend(f(sv))\<close>\<close>

fun collect :: "('a \<Rightarrow> ('s, 'e, 'b list) prog) \<Rightarrow> 'a list \<Rightarrow> ('s, 'e, 'b list) prog" where
  "collect f [] = ret []"
| "collect f (x # xs) = bind (f x) (\<lambda>ys. bind (collect f xs) (\<lambda>zs. ret (ys @ zs)))"

definition all_services :: "'w env \<Rightarrow> service list" where
  "all_services env = map snd (services (registry_of env))"

text \<open>
  \<open>_reconcile_locked\<close> in four parts: the declared holds, the comparison with the driver, the
  adoption of a live runtime, and the convergence towards running.
\<close>

definition reconcile_holds :: "service \<Rightarrow> ('w, unit) sprog" where
  "reconcile_holds sv = (let k = sv_id sv in
     bind (lifecycle_of sv) (\<lambda>lc.
     andThen (if lc_mode lc = ''always_on'' then put_hold k ''always_on'' else pop_hold k ''always_on'')
    (bind (instance_of k) (\<lambda>i. onlyif (in_admin_intent i) (put_hold k ''admin'')))))"

definition adopt :: "'w env \<Rightarrow> string \<Rightarrow> ('w, unit) sprog" where
  "adopt env k = run_all
     [transition_locked env k STARTING [''reconcile_adopt''] None,
      transition_locked env k READY [''reconcile_adopt''] None,
      transition_locked env k RUNNING [''reconcile_adopt''] None]"

definition reconcile_state :: "'w env \<Rightarrow> nat \<Rightarrow> service \<Rightarrow> bool \<Rightarrow> ('w, unit) sprog" where
  "reconcile_state env n sv alive = (let k = sv_id sv in
     bind (instance_of k) (\<lambda>i.
     if in_state i \<in> STALE_STATES then
       (if in_state i = STOPPING then
          transition_locked env k (if alive then FAILED else STOPPED) [''reconcile_stale''] None
        else if alive then
          andThen (onlyif (in_state i = STARTING) (transition_locked env k READY [''reconcile_adopt''] None))
            (transition_locked env k RUNNING [''reconcile_adopt''] None)
        else
          andThen (mark_failed_locked env sv (DriverError [''stale transient state with no live runtime'']) [''reconcile_stale''])
            (transition_locked env k STOPPED [''reconcile_reset''] None))
     else if in_state i \<in> {RUNNING, MAINTENANCE} \<and> \<not> alive then
       andThen (mark_failed_locked env sv (DriverError [''runtime is not alive'']) [''reconcile_failure''])
      (bind (instance_of k) (\<lambda>j.
       if active_holds j \<noteq> 0 then restart_after_failure_locked env n sv
       else transition_locked env k STOPPED [''reconcile_no_holds''] None))
     else if in_state i = MAINTENANCE \<and> alive then
       transition_locked env k RUNNING [''reconcile_abandoned_maintenance''] None
     else if in_state i = STOPPED \<and> alive then adopt env k
     else ret ()))"

definition converge :: "'w env \<Rightarrow> nat \<Rightarrow> service \<Rightarrow> ('w, unit) sprog" where
  "converge env n sv =
     bind (instance_of (sv_id sv)) (\<lambda>i.
     if active_holds i \<noteq> 0 \<and> in_state i = STOPPED then ensure_running_locked env n sv [''reconcile'']
     else if active_holds i \<noteq> 0 \<and> in_state i = FAILED \<and> \<not> in_restart_exhausted i then
       (case in_next_restart_at i of
          None \<Rightarrow> ensure_running_locked env n sv [''reconcile'']
        | Some eligible \<Rightarrow>
            bind (now env) (\<lambda>t.
            bind (liftS (at_least t eligible)) (\<lambda>go.
            onlyif go (ensure_running_locked env n sv [''reconcile'']))))
     else ret ())"

definition reconcile_locked :: "'w env \<Rightarrow> nat \<Rightarrow> service \<Rightarrow> ('w, unit) sprog" where
  "reconcile_locked env n sv = (let k = sv_id sv in
     andThen (reconcile_holds sv)
    (bind (driver_of env sv) (\<lambda>drv.
     bind (declaration_of env sv) (\<lambda>decl.
     bind (driver_call k (d_status drv) decl) (\<lambda>alive.
     andThen (reconcile_state env n sv alive)
    (andThen (bind (instance_of k) (\<lambda>i. onlyif (in_state i = FAILED \<and> alive) (adopt env k)))
    (andThen (converge env n sv)
    (andThen (schedule_idle_locked env sv)
     (persist k)))))))))"

definition status :: "'w env \<Rightarrow> string \<Rightarrow> ('w, snapshot) sprog" where
  "status env sid = bind (find_service env sid) (\<lambda>sv. view (sv_id sv))"

definition list_status :: "'w env \<Rightarrow> ('w, snapshot list) sprog" where
  "list_status env = collect (\<lambda>sid. bind (status env sid) (\<lambda>v. ret [v])) (sort (map fst (services (registry_of env))))"

definition reconcile :: "'w env \<Rightarrow> nat \<Rightarrow> ('w, snapshot list) sprog" where
  "reconcile env n = andThen (for_each (all_services env) (reconcile_locked env n)) (list_status env)"

text \<open>The \<open>with lock\<close> block of \<open>tick\<close> for one service; it returns the jobs that fell due.\<close>

definition tick_idle :: "'w env \<Rightarrow> datetime \<Rightarrow> service \<Rightarrow> ('w, unit) sprog" where
  "tick_idle env t sv =
     bind (instance_of (sv_id sv)) (\<lambda>i.
     case in_idle_deadline i of
       None \<Rightarrow> ret ()
     | Some deadline \<Rightarrow> bind (liftS (at_least t deadline)) (\<lambda>expired.
         onlyif (expired \<and> active_holds i = 0 \<and> in_state i = RUNNING) (stop_locked env sv [''idle_timeout''])))"

definition tick_recover :: "'w env \<Rightarrow> nat \<Rightarrow> datetime \<Rightarrow> service \<Rightarrow> ('w, unit) sprog" where
  "tick_recover env n t sv = (let k = sv_id sv in
     bind (instance_of k) (\<lambda>i.
     case in_next_restart_at i of
       None \<Rightarrow> ret ()
     | Some eligible \<Rightarrow> onlyif (in_state i = FAILED)
         (bind (liftS (at_least t eligible)) (\<lambda>go.
          onlyif go
            (andThen (ensure_running_locked env n sv [''recovery''])
            (bind (instance_of k) (\<lambda>j.
             onlyif (in_state j = RUNNING) (andThen (pop_hold k ''recovery'') (persist k)))))))))"

definition tick_job :: "'w env \<Rightarrow> datetime \<Rightarrow> service \<Rightarrow> job \<Rightarrow> ('w, (string \<times> string) list) sprog" where
  "tick_job env t sv jb = (let k = sv_id sv; key = (k, jb_name jb) in
     bind (gets jobs_running) (\<lambda>running.
     if key \<in> running then ret []
     else bind (instance_of k) (\<lambda>i.
       bind (liftS (is_due (jb_schedule jb) t (map_of (in_schedule_last_run i) (jb_name jb)))) (\<lambda>due_now.
       if \<not> due_now then ret []
       else andThen (upd k (\<lambda>x. x\<lparr>in_schedule_last_run := AList.update (jb_name jb) t (in_schedule_last_run x)\<rparr>))
           (andThen (persist k) (ret [key]))))))"

definition tick_service :: "'w env \<Rightarrow> nat \<Rightarrow> datetime \<Rightarrow> service \<Rightarrow> ('w, (string \<times> string) list) sprog" where
  "tick_service env n t sv =
     andThen (tick_idle env t sv)
    (andThen (tick_recover env n t sv)
     (collect (tick_job env t sv) (sv_jobs sv)))"

definition tick :: "'w env \<Rightarrow> nat \<Rightarrow> ('w, snapshot list) sprog" where
  "tick env n =
     bind (reconcile env n) (\<lambda>_.
     bind (now env) (\<lambda>t.
     bind (collect (tick_service env n t) (all_services env)) (\<lambda>due_jobs.
     andThen (for_each due_jobs (\<lambda>(sid, job_id). bind (run_maintenance env n sid job_id) (\<lambda>_. ret ())))
     (list_status env))))"

section \<open>Construction\<close>

text \<open>\<open>_validate_jobs\<close>: duplicate names and unusable schedules are refused.\<close>

fun validate_service_jobs :: "'w env \<Rightarrow> service \<Rightarrow> string list \<Rightarrow> job list \<Rightarrow> ('w, unit) sprog" where
  "validate_service_jobs env sv names [] = ret ()"
| "validate_service_jobs env sv names (jb # jbs) =
     andThen (raise_if (jb_name jb \<in> set names) (SupervisorError [''duplicate maintenance job '', sv_id sv, jb_name jb]))
    (bind (now env) (\<lambda>t. bind (now env) (\<lambda>t'.
     bind (liftS (is_due (jb_schedule jb) t (Some t'))) (\<lambda>_.
     validate_service_jobs env sv (jb_name jb # names) jbs))))"

definition validate_jobs :: "'w env \<Rightarrow> ('w, unit) sprog" where
  "validate_jobs env = for_each (all_services env) (\<lambda>sv. validate_service_jobs env sv [] (sv_jobs sv))"

text \<open>The loaded state of one service, or a new one.\<close>

definition loaded_instance :: "state_store \<Rightarrow> string \<Rightarrow> supervisor_error + instance_state" where
  "loaded_instance st k = bindS (store_load st k) (\<lambda>x. Inr (case x of None \<Rightarrow> new_instance k | Some i \<Rightarrow> i))"

definition initial :: "state_store \<Rightarrow> (string, string) dict \<Rightarrow> 'w \<Rightarrow> 'w sup" where
  "initial st ov w = \<lparr>instances = (\<lambda>k. case loaded_instance st k of Inl e \<Rightarrow> new_instance k | Inr i \<Rightarrow> i),
     overrides = ov, jobs_running = {}, store = st, world = w\<rparr>"

definition construct :: "'w env \<Rightarrow> state_store \<Rightarrow> (string, string) dict \<Rightarrow> ('w, unit) sprog" where
  "construct env st ov =
     bind (liftS (mapS (loaded_instance st) (map fst (services (registry_of env))))) (\<lambda>_.
     andThen (modify (\<lambda>s. initial st ov (world s)))
     (validate_jobs env))"

end
