(* ===== verification/Supervisor_Facts.thy ===== *)
theory Supervisor_Facts
  imports Supervisor
begin

text \<open>
  Invariants of the supervisor. Between any two of its critical sections, whatever the drivers did:
  the journal of a service is a walk through the transition graph that ends in its current state,
  the instance file holds that state, holds are positive and the session hold counts the sessions.
  The environment is the locale \<open>supervisor_env\<close>: ids are fresh, nothing forgets an issued one.
\<close>

named_theorems sup_keeps \<open>the operations that keep the supervisor's invariant\<close>

section \<open>The invariant\<close>

text \<open>The events lead from the first state to the second along edges of the graph.\<close>

fun history :: "lifecycle_state \<Rightarrow> event list \<Rightarrow> lifecycle_state \<Rightarrow> bool" where
  "history a [] b \<longleftrightarrow> a = b"
| "history a (e # es) b \<longleftrightarrow> ev_old e = a \<and> edge a (ev_new e) \<and> history (ev_new e) es b"

lemma history_snoc: "history a (es @ [e]) b \<longleftrightarrow> (\<exists>c. history a es c \<and> ev_old e = c \<and> edge c (ev_new e) \<and> ev_new e = b)"
  by (induction es arbitrary: a) auto

lemma history_reachable: "history a es b \<Longrightarrow> edge\<^sup>*\<^sup>* a b"
  by (induction es arbitrary: a) (auto intro: converse_rtranclp_into_rtranclp)

definition events_of :: "string \<Rightarrow> state_store \<Rightarrow> event list" where
  "events_of k st = filter (\<lambda>e. ev_service e = k) (st_journal st)"

lemma events_of_instances [simp]: "events_of k (st\<lparr>st_instances := d\<rparr>) = events_of k st"
  and events_of_journal [simp]: "events_of k (st\<lparr>st_journal := es @ [e]\<rparr>) =
    events_of k (st\<lparr>st_journal := es\<rparr>) @ (if ev_service e = k then [e] else [])"
  and events_of_same [simp]: "events_of k (st\<lparr>st_journal := st_journal st\<rparr>) = events_of k st"
  by (simp_all add: events_of_def)

definition positive :: "(string, int) dict \<Rightarrow> bool" where
  "positive d \<longleftrightarrow> (\<forall>(r, v) \<in> set d. 1 \<le> v)"

definition holds_ok :: "instance_state \<Rightarrow> bool" where
  "holds_ok i \<longleftrightarrow> wf_dict (in_holds i) \<and> positive (in_holds i) \<and> wf_dict (in_sessions i) \<and>
     get_or (in_holds i) ''sessions'' 0 = int (length (in_sessions i))"

text \<open>
  The instance file of a service in state \<open>x\<close>: it records that state, under the service's id. A
  service without a file has no events.
\<close>

definition snapshot_ok :: "string \<Rightarrow> lifecycle_state \<Rightarrow> snapshot \<Rightarrow> bool" where
  "snapshot_ok k x v \<longleftrightarrow> sn_service_id v = k \<and> sn_state v = state_value x \<and> wf_dict (sn_holds v) \<and> positive (sn_holds v)"

definition persisted_ok :: "state_store \<Rightarrow> string \<Rightarrow> lifecycle_state \<Rightarrow> bool" where
  "persisted_ok st k x \<longleftrightarrow> (case map_of (st_instances st) k of None \<Rightarrow> events_of k st = [] | Some v \<Rightarrow> snapshot_ok k x v)"

definition service_ok :: "(string \<Rightarrow> lifecycle_state) \<Rightarrow> state_store \<Rightarrow> string \<Rightarrow> instance_state \<Rightarrow> bool" where
  "service_ok init st k i \<longleftrightarrow> in_service i = k \<and> history (init k) (events_of k st) (in_state i) \<and>
     persisted_ok st k (in_state i) \<and> holds_ok i"

text \<open>The sessions of every service are the given ones, and their ids were issued.\<close>

definition sup_inv :: "(string \<Rightarrow> lifecycle_state) \<Rightarrow> ('w \<Rightarrow> string set) \<Rightarrow> (string \<Rightarrow> (string, datetime) dict) \<Rightarrow> 'w sup \<Rightarrow> bool" where
  "sup_inv init issued F s \<longleftrightarrow> (\<forall>k. service_ok init (store s) k (instances s k) \<and>
     in_sessions (instances s k) = F k \<and> fst ` set (F k) \<subseteq> issued (world s))"

section \<open>Updates of the holds\<close>

lemma set_update: "wf_dict d \<Longrightarrow> set (AList.update k v d) \<subseteq> insert (k, v) (set d)"
  by (induction d) (auto simp: wf_dict_def)

lemma set_delete_subset: "set (AList.delete k d) \<subseteq> set d"
  by (induction d) auto

lemma positive_Nil [simp]: "positive []"
  by (simp add: positive_def)

lemma positive_update [simp]: "positive d \<Longrightarrow> wf_dict d \<Longrightarrow> 1 \<le> n \<Longrightarrow> positive (AList.update k n d)"
  unfolding positive_def using set_update[of d k n] by blast

lemma positive_delete [simp]: "positive d \<Longrightarrow> positive (AList.delete k d)"
  unfolding positive_def using set_delete_subset[of k d] by blast

lemma get_or_update: "get_or (AList.update k v d) k' x = (if k' = k then v else get_or d k' x)"
  and get_or_delete: "get_or (AList.delete k d) k' x = (if k' = k then x else get_or d k' x)"
  by (simp_all add: get_or_def)

lemma get_or_positive: "positive d \<Longrightarrow> 0 \<le> get_or d k 0"
  unfolding positive_def get_or_def by (fastforce split: option.splits dest!: map_of_SomeD)

lemma holds_ok_update:
  "holds_ok i \<Longrightarrow> r \<noteq> ''sessions'' \<Longrightarrow> 1 \<le> n \<Longrightarrow> holds_ok (i\<lparr>in_holds := AList.update r n (in_holds i)\<rparr>)"
  by (simp add: holds_ok_def positive_update get_or_update)

lemma holds_ok_delete: "holds_ok i \<Longrightarrow> r \<noteq> ''sessions'' \<Longrightarrow> holds_ok (i\<lparr>in_holds := AList.delete r (in_holds i)\<rparr>)"
  by (simp add: holds_ok_def positive_delete get_or_delete)

lemma holds_ok_clear: "holds_ok (i\<lparr>in_holds := [], in_sessions := []\<rparr>)"
  by (simp add: holds_ok_def get_or_def)

lemma length_update_fresh: "k \<notin> fst ` set d \<Longrightarrow> length (AList.update k v d) = Suc (length d)"
  by (simp add: length_update)

lemma holds_ok_session:
  assumes "holds_ok i" and "x \<notin> fst ` set (in_sessions i)"
  shows "holds_ok (i\<lparr>in_sessions := AList.update x t (in_sessions i),
     in_holds := AList.update ''sessions'' (get_or (in_holds i) ''sessions'' 0 + 1) (in_holds i), in_idle_deadline := None\<rparr>)"
  using assms by (simp add: holds_ok_def get_or_update length_update_fresh)

lemma holds_ok_drop:
  assumes "holds_ok i" and "x \<in> fst ` set (in_sessions i)"
  defines "n \<equiv> get_or (in_holds i) ''sessions'' 0"
  shows "holds_ok (if n \<le> 1 then i\<lparr>in_sessions := AList.delete x (in_sessions i), in_holds := AList.delete ''sessions'' (in_holds i)\<rparr>
     else i\<lparr>in_sessions := AList.delete x (in_sessions i), in_holds := AList.update ''sessions'' (n - 1) (in_holds i)\<rparr>)"
proof -
  have "Suc (length (AList.delete x (in_sessions i))) = length (in_sessions i)"
    using assms(1,2) by (simp add: holds_ok_def length_delete_wf)
  moreover from this have "n = 1 + int (length (AList.delete x (in_sessions i)))"
    using assms(1) by (simp add: holds_ok_def n_def)
  ultimately show ?thesis
    using assms(1) positive_update[of "in_holds i" "n - 1" "''sessions''"]
    by (auto simp: holds_ok_def get_or_update get_or_delete Suc_le_eq simp del: positive_update)
qed

lemma positive_filter: "positive d \<Longrightarrow> positive (filter p d)"
  by (auto simp: positive_def)

lemma snapshot_ok_to_dict: "holds_ok i \<Longrightarrow> in_service i = k \<Longrightarrow> in_state i = x \<Longrightarrow> snapshot_ok k x (to_dict p i)"
  by (simp add: snapshot_ok_def to_dict_def holds_ok_def positive_filter)

lemma persisted_ok_save:
  assumes "holds_ok i"
  shows "persisted_ok (store_save i st) k x =
    (if k = in_service i then x = in_state i else persisted_ok st k x)"
proof -
  have "snapshot_ok (in_service i) x (to_dict True i) \<longleftrightarrow> x = in_state i"
  proof
    assume "snapshot_ok (in_service i) x (to_dict True i)"
    then have "state_value (in_state i) = state_value x"
      by (simp add: snapshot_ok_def to_dict_def)
    then show "x = in_state i" by (metis state_of_value_inverse sum.inject(2))
  qed (use assms snapshot_ok_to_dict in blast)
  then show ?thesis
    by (simp add: persisted_ok_def store_save_def split: option.split)
qed

lemma persisted_ok_append: "ev_service e \<noteq> k \<Longrightarrow> persisted_ok (append_event e st) k x = persisted_ok st k x"
  by (simp add: persisted_ok_def append_event_def split: option.split)

section \<open>Environments\<close>

definition grows :: "('w \<Rightarrow> string set) \<Rightarrow> ('w, 'a) driver_call \<Rightarrow> bool" where
  "grows issued f \<longleftrightarrow> (\<forall>i decl w r rt w'. f i decl w = (r, rt, w') \<longrightarrow> issued w \<subseteq> issued w')"

definition driver_grows :: "('w \<Rightarrow> string set) \<Rightarrow> 'w driver \<Rightarrow> bool" where
  "driver_grows issued d \<longleftrightarrow> grows issued (d_start d) \<and> grows issued (d_stop d) \<and> grows issued (d_status d) \<and>
     (\<forall>rd. grows issued (d_is_ready d rd)) \<and> (\<forall>jb. grows issued (d_run_maintenance d jb))"

locale supervisor_env =
  fixes env :: "'w env" and issued :: "'w \<Rightarrow> string set"
  assumes now_grows: "clock_now env w = (t, w') \<Longrightarrow> issued w \<subseteq> issued w'"
    and monotonic_grows: "clock_monotonic env w = (u, w') \<Longrightarrow> issued w \<subseteq> issued w'"
    and sleep_grows: "issued w \<subseteq> issued (clock_sleep env d w)"
    and id_fresh: "new_session_id env w = (x, w') \<Longrightarrow> x \<notin> issued w \<and> insert x (issued w) \<subseteq> issued w'"
    and drivers_grow: "driver_resolver env sv = Inr drv \<Longrightarrow> driver_grows issued drv"

text \<open>The small programs keep the invariant.\<close>

lemma sup_inv_upd:
  assumes "sup_inv init issued F s" and "in_service (f (instances s k)) = in_service (instances s k)"
    and "in_state (f (instances s k)) = in_state (instances s k)"
    and "holds_ok (instances s k) \<Longrightarrow> holds_ok (f (instances s k))"
    and "in_sessions (f (instances s k)) = in_sessions (instances s k)"
  shows "sup_inv init issued F (s\<lparr>instances := (instances s)(k := f (instances s k))\<rparr>)"
  using assms by (simp add: sup_inv_def service_ok_def)

lemma keeps_upd:
  assumes "\<And>i. in_service (f i) = in_service i" "\<And>i. in_state (f i) = in_state i"
    and "\<And>i. holds_ok i \<Longrightarrow> holds_ok (f i)" and "\<And>i. in_sessions (f i) = in_sessions i"
  shows "keeps (sup_inv init issued F) (upd k f)"
  unfolding upd_def by (intro keeps_modify sup_inv_upd assms)

lemma holds_ok_same: "in_holds j = in_holds i \<Longrightarrow> in_sessions j = in_sessions i \<Longrightarrow> holds_ok i \<Longrightarrow> holds_ok j"
  by (simp add: holds_ok_def)

lemma keeps_upd_other:
  assumes "\<And>i. in_service (f i) = in_service i" "\<And>i. in_state (f i) = in_state i"
    and "\<And>i. in_holds (f i) = in_holds i" and "\<And>i. in_sessions (f i) = in_sessions i"
  shows "keeps (sup_inv init issued F) (upd k f)"
  by (rule keeps_upd) (simp_all add: assms holds_ok_def)

lemma sup_inv_persist: "sup_inv init issued F s \<Longrightarrow> sup_inv init issued F (s\<lparr>store := store_save (instances s k) (store s)\<rparr>)"
  by (auto simp: sup_inv_def service_ok_def persisted_ok_save) (simp_all add: store_save_def events_of_def)

lemma keeps_persist [sup_keeps]: "keeps (sup_inv init issued F) (persist k)"
  unfolding persist_def by (rule keeps_modify) (rule sup_inv_persist)

lemma keeps_liftS [sup_keeps]: "keeps I (liftS x)"
  by (simp add: liftS_def keeps_rules split: sum.split)

lemma keeps_find_service [sup_keeps]: "keeps I (find_service env k)"
  and keeps_declaration_of [sup_keeps]: "keeps I (declaration_of env sv)"
  and keeps_driver_of [sup_keeps]: "keeps I (driver_of env sv)"
  and keeps_lifecycle_of [sup_keeps]: "keeps I (lifecycle_of sv)"
  and keeps_instance_of [sup_keeps]: "keeps I (instance_of k)"
  and keeps_view [sup_keeps]: "keeps I (view k)"
  by (simp_all add: find_service_def declaration_of_def driver_of_def lifecycle_of_def instance_of_def view_def
      keeps_liftS keeps_rules split: option.split sum.split)

lemma sup_inv_world: "sup_inv init issued F s \<Longrightarrow> issued (world s) \<subseteq> issued w \<Longrightarrow> sup_inv init issued F (s\<lparr>world := w\<rparr>)"
  unfolding sup_inv_def by (simp, meson subset_trans)

lemma keeps_put_hold: "r \<noteq> ''sessions'' \<Longrightarrow> keeps (sup_inv init issued F) (put_hold k r)"
  and keeps_pop_hold: "r \<noteq> ''sessions'' \<Longrightarrow> keeps (sup_inv init issued F) (pop_hold k r)"
  unfolding put_hold_def pop_hold_def by (rule keeps_upd; simp add: holds_ok_update holds_ok_delete)+

lemma keeps_add_hold: "r \<noteq> ''sessions'' \<Longrightarrow> keeps (sup_inv init issued F) (add_hold k r)"
proof -
  assume r: "r \<noteq> ''sessions''"
  have "holds_ok (i\<lparr>in_holds := AList.update r (get_or (in_holds i) r 0 + 1) (in_holds i), in_idle_deadline := None\<rparr>)"
    if "holds_ok i" for i
    using that r get_or_positive[of "in_holds i" r]
    by (simp add: holds_ok_def positive_update get_or_update)
  then show ?thesis
    unfolding add_hold_def by (intro keeps_andThen keeps_persist keeps_upd) simp_all
qed

lemma keeps_remove_hold: "r \<noteq> ''sessions'' \<Longrightarrow> keeps (sup_inv init issued F) (remove_hold k r)"
  unfolding remove_hold_def Let_def
  by (intro keeps_andThen keeps_persist keeps_upd) (auto simp: holds_ok_update holds_ok_delete)

lemma sup_inv_holds: "sup_inv init issued F s \<Longrightarrow> holds_ok (instances s k)"
  by (simp add: sup_inv_def service_ok_def)

lemma sup_inv_transition:
  assumes inv: "sup_inv init issued F s" and e: "edge (in_state (instances s k)) new" and w: "issued (world s) \<subseteq> issued w"
    and ev: "ev_service ev = in_service (instances s k)" "ev_old ev = in_state (instances s k)" "ev_new ev = new"
  defines "i \<equiv> (instances s k)\<lparr>in_state := new\<rparr>"
  shows "sup_inv init issued F (s\<lparr>instances := (instances s)(k := i), world := w, store := store_save i (append_event ev (store s))\<rparr>)"
proof -
  have k: "in_service (instances s k) = k" and hist: "history (init k) (events_of k (store s)) (in_state (instances s k))"
    using inv by (simp_all add: sup_inv_def service_ok_def)
  let ?st = "store_save i (append_event ev (store s))"
  have "events_of k ?st = events_of k (store s) @ [ev]"
    using ev k by (simp add: events_of_def store_save_def append_event_def)
  then have "history (init k) (events_of k ?st) new"
    using hist ev e by (simp add: history_snoc)
  moreover have "events_of j ?st = events_of j (store s)" if "j \<noteq> k" for j
    using ev k that by (simp add: events_of_def store_save_def append_event_def)
  moreover have ok: "holds_ok i"
    using sup_inv_holds[OF inv, of k] by (simp add: i_def holds_ok_def)
  moreover have "persisted_ok ?st j x = (if j = k then x = new else persisted_ok (store s) j x)" for j x
    using k ev by (simp add: persisted_ok_save[OF ok] persisted_ok_append) (simp add: i_def)
  moreover have "in_sessions i = in_sessions (instances s k)"
    by (simp add: i_def)
  ultimately show ?thesis
    using inv w k subset_trans[OF _ w] unfolding sup_inv_def service_ok_def by (simp add: i_def)
qed

lemma sup_inv_sessions: "sup_inv init issued F s \<Longrightarrow> in_sessions (instances s k) = F k"
  and sup_inv_known: "sup_inv init issued F s \<Longrightarrow> fst ` set (F k) \<subseteq> issued (world s)"
  by (simp_all add: sup_inv_def)

lemma sup_inv_self: "sup_inv init issued F s \<Longrightarrow> sup_inv init issued (\<lambda>k. in_sessions (instances s k)) s"
  by (simp add: sup_inv_def)

section \<open>Every operation keeps the invariant\<close>

lemma keeps_modify_other: "(\<And>s. instances (f s) = instances s) \<Longrightarrow> (\<And>s. store (f s) = store s) \<Longrightarrow> (\<And>s. world (f s) = world s)
    \<Longrightarrow> keeps (sup_inv init issued F) (modify f)"
  by (rule keeps_modify) (simp add: sup_inv_def)

lemma keeps_discard_job [sup_keeps]: "keeps (sup_inv init issued F) (discard_job key)"
  unfolding discard_job_def by (rule keeps_modify_other) simp_all

lemma keeps_mark_job [sup_keeps]: "keeps (sup_inv init issued F) (modify (\<lambda>s. s\<lparr>jobs_running := insert key (jobs_running s)\<rparr>))"
  by (rule keeps_modify_other) simp_all

lemma keeps_set_override [sup_keeps]: "keeps (sup_inv init issued F) (modify (\<lambda>s. s\<lparr>overrides := f (overrides s)\<rparr>))"
  by (rule keeps_modify_other) simp_all

lemma keeps_collect [sup_keeps]: "(\<And>x. x \<in> set xs \<Longrightarrow> keeps I (f x)) \<Longrightarrow> keeps I (collect f xs)"
  by (induction xs) (auto intro!: keeps_rules)

text \<open>The session operations change the sessions of one service and its session hold together.\<close>

lemma sup_inv_set_sessions:
  assumes "sup_inv init issued F s" and "in_service i = in_service (instances s k)" and "in_state i = in_state (instances s k)"
    and "holds_ok i" and "fst ` set (in_sessions i) \<subseteq> issued (world s)"
  shows "sup_inv init issued (F(k := in_sessions i)) (s\<lparr>instances := (instances s)(k := i), store := store_save i (store s)\<rparr>)"
proof -
  have "sup_inv init issued (F(k := in_sessions i)) (s\<lparr>instances := (instances s)(k := i)\<rparr>)"
    using assms by (simp add: sup_inv_def service_ok_def)
  from sup_inv_persist[OF this, of k] show ?thesis by simp
qed

lemma drop_session_ret: "drop_session k x s = (Ret (), snd (drop_session k x s))"
  by (simp add: drop_session_def remove_hold_def upd_def persist_def prog_defs)

lemma drop_session_inv:
  assumes inv: "sup_inv init issued F s" and x: "x \<in> fst ` set (F k)"
  shows "sup_inv init issued (F(k := AList.delete x (F k))) (snd (drop_session k x s))"
proof -
  let ?n = "get_or (in_holds (instances s k)) ''sessions'' 0"
  define i where "i = (if ?n \<le> 1
    then (instances s k)\<lparr>in_sessions := AList.delete x (F k), in_holds := AList.delete ''sessions'' (in_holds (instances s k))\<rparr>
    else (instances s k)\<lparr>in_sessions := AList.delete x (F k), in_holds := AList.update ''sessions'' (?n - 1) (in_holds (instances s k))\<rparr>)"
  have F: "in_sessions (instances s k) = F k" using inv by (rule sup_inv_sessions)
  have "holds_ok i"
    unfolding i_def F[symmetric] using sup_inv_holds[OF inv, of k] x F by (intro holds_ok_drop) simp_all
  moreover have "fst ` set (AList.delete x (F k)) \<subseteq> issued (world s)"
    using sup_inv_known[OF inv, of k] set_delete_subset[of x "F k"] by (meson image_mono subset_trans)
  ultimately have "sup_inv init issued (F(k := in_sessions i)) (s\<lparr>instances := (instances s)(k := i), store := store_save i (store s)\<rparr>)"
    by (intro sup_inv_set_sessions[OF inv]) (simp_all add: i_def)
  then show ?thesis
    by (cases "?n \<le> 1") (simp_all add: i_def drop_session_def remove_hold_def upd_def persist_def Let_def prog_defs F)
qed

context supervisor_env
begin

lemma keeps_now [sup_keeps]: "keeps (sup_inv init issued F) (now env)"
  and keeps_monotonic [sup_keeps]: "keeps (sup_inv init issued F) (monotonic env)"
  and keeps_sleep [sup_keeps]: "keeps (sup_inv init issued F) (sleep env d)"
  and keeps_fresh_session_id [sup_keeps]: "keeps (sup_inv init issued F) (fresh_session_id env)"
proof -
  have id_grows: "issued w \<subseteq> issued w'" if "new_session_id env w = (x, w')" for w x w'
    using id_fresh[OF that] by simp
  show "keeps (sup_inv init issued F) (now env)"
    by (rule keepsI) (simp add: now_def Let_def sup_inv_world now_grows split: prod.split)
  show "keeps (sup_inv init issued F) (monotonic env)"
    by (rule keepsI) (simp add: monotonic_def Let_def sup_inv_world monotonic_grows split: prod.split)
  show "keeps (sup_inv init issued F) (sleep env d)"
    by (rule keepsI) (simp add: sleep_def modify_def sup_inv_world sleep_grows)
  show "keeps (sup_inv init issued F) (fresh_session_id env)"
    by (rule keepsI) (simp add: fresh_session_id_def Let_def sup_inv_world id_grows split: prod.split)
qed

lemma keeps_driver_call: "grows issued f \<Longrightarrow> keeps (sup_inv init issued F) (driver_call k f decl)"
proof (rule keepsI)
  fix s assume g: "grows issued f" and inv: "sup_inv init issued F s"
  obtain r rt w where f: "f (instances s k) decl (world s) = (r, rt, w)"
    by (metis prod.exhaust)
  have "sup_inv init issued F (s\<lparr>instances := (instances s)(k := (instances s k)\<lparr>in_runtime := rt\<rparr>)\<rparr>)"
    using inv by (intro sup_inv_upd[where f = "\<lambda>i. i\<lparr>in_runtime := rt\<rparr>"]) (simp_all add: holds_ok_def)
  then have "sup_inv init issued F (s\<lparr>instances := (instances s)(k := (instances s k)\<lparr>in_runtime := rt\<rparr>), world := w\<rparr>)"
    by (rule sup_inv_world) (use g f in \<open>simp add: grows_def\<close>)
  then show "sup_inv init issued F (snd (driver_call k f decl s))"
    by (simp add: driver_call_def f Let_def)
qed

lemma keeps_driver [sup_keeps]:
  "driver_grows issued drv \<Longrightarrow> keeps (sup_inv init issued F) (driver_call k (d_start drv) decl)"
  "driver_grows issued drv \<Longrightarrow> keeps (sup_inv init issued F) (driver_call k (d_stop drv) decl)"
  "driver_grows issued drv \<Longrightarrow> keeps (sup_inv init issued F) (driver_call k (d_status drv) decl)"
  "driver_grows issued drv \<Longrightarrow> keeps (sup_inv init issued F) (driver_call k (d_is_ready drv rd) decl)"
  "driver_grows issued drv \<Longrightarrow> keeps (sup_inv init issued F) (driver_call k (d_run_maintenance drv jb) decl)"
  by (rule keeps_driver_call, simp add: driver_grows_def)+

lemma keeps_with_driver:
  "(\<And>drv. driver_grows issued drv \<Longrightarrow> keeps I (f drv)) \<Longrightarrow> keeps I (bind (driver_of env sv) f)"
  using drivers_grow[of sv]
  by (cases "driver_resolver env sv") (auto simp: driver_of_def liftS_def keeps_def prog_defs)

lemma keeps_transition_locked [sup_keeps]: "keeps (sup_inv init issued F) (transition_locked env k new reason err)"
proof (rule keepsI)
  fix s assume inv: "sup_inv init issued F s"
  obtain t w where t: "clock_now env (world s) = (t, w)" by fastforce
  show "sup_inv init issued F (snd (transition_locked env k new reason err s))"
  proof (cases "edge (in_state (instances s k)) new")
    case True
    define ev where "ev = \<lparr>ev_service = in_service (instances s k), ev_old = in_state (instances s k), ev_new = new,
      ev_timestamp = t, ev_reason = reason, ev_instance = in_instance (instances s k), ev_error = map_option error_text err\<rparr>"
    have "sup_inv init issued F (s\<lparr>instances := (instances s)(k := (instances s k)\<lparr>in_state := new\<rparr>), world := w,
        store := store_save ((instances s k)\<lparr>in_state := new\<rparr>) (append_event ev (store s))\<rparr>)"
      using inv True now_grows[OF t] by (rule sup_inv_transition) (simp_all add: ev_def)
    with True t show ?thesis
      by (simp add: transition_locked_def validate_transition_def instance_of_def liftS_def upd_def now_def persist_def prog_defs ev_def)
  next
    case False
    with inv show ?thesis
      by (simp add: transition_locked_def validate_transition_def instance_of_def liftS_def prog_defs)
  qed
qed

lemma keeps_mark_failed_locked [sup_keeps]: "keeps (sup_inv init issued F) (mark_failed_locked env sv err reason)"
  unfolding mark_failed_locked_def by (intro keeps_rules sup_keeps keeps_upd_other) simp_all

lemma keeps_schedule_idle_locked [sup_keeps]: "keeps (sup_inv init issued F) (schedule_idle_locked env sv)"
  unfolding schedule_idle_locked_def by (intro keeps_rules sup_keeps keeps_upd_other) simp_all

lemma keeps_wait_ready [sup_keeps]:
  "driver_grows issued drv \<Longrightarrow> keeps (sup_inv init issued F) (wait_ready env sv drv decl rd timeout deadline n)"
  by (induction n) (auto intro!: keeps_rules sup_keeps)

lemma keeps_start_up [sup_keeps]:
  "driver_grows issued drv \<Longrightarrow> keeps (sup_inv init issued F) (start_up env n sv drv decl reason)"
  unfolding start_up_def Let_def by (intro keeps_rules sup_keeps keeps_upd_other) simp_all

lemma keeps_restart_with:
  "keeps (sup_inv init issued F) again \<Longrightarrow> keeps (sup_inv init issued F) (restart_with env sv again)"
  unfolding restart_with_def restart_decision_def Let_def
  by (intro keeps_rules sup_keeps keeps_put_hold keeps_pop_hold keeps_upd_other) simp_all

lemma keeps_clean_up [sup_keeps]: "driver_grows issued drv \<Longrightarrow> keeps (sup_inv init issued F) (clean_up sv drv decl)"
  unfolding clean_up_def by (intro keeps_rules sup_keeps)

lemma keeps_ensure_running_locked [sup_keeps]: "keeps (sup_inv init issued F) (ensure_running_locked env n sv reason)"
proof (induction n arbitrary: reason)
  case 0 then show ?case by (simp add: keeps_no_fuel)
next
  case (Suc n)
  show ?case
    unfolding ensure_running_locked.simps Let_def
    by (rule keeps_with_driver keeps_restart_with Suc.IH sup_keeps keeps_rules | assumption)+
qed

lemma keeps_restart_after_failure_locked [sup_keeps]: "keeps (sup_inv init issued F) (restart_after_failure_locked env n sv)"
  unfolding restart_after_failure_locked_def by (intro keeps_restart_with sup_keeps)

lemma keeps_stop_locked [sup_keeps]: "keeps (sup_inv init issued F) (stop_locked env sv reason)"
  unfolding stop_locked_def Let_def
  by (rule keeps_with_driver keeps_upd_other sup_keeps keeps_rules | assumption | simp)+

lemma keeps_start: "reason \<noteq> ''sessions'' \<Longrightarrow> keeps (sup_inv init issued F) (start env n sid reason)"
proof -
  assume r: "reason \<noteq> ''sessions''"
  have reset: "keeps (sup_inv init issued F)
      (upd k (\<lambda>i. if in_state i = FAILED then i\<lparr>in_restart_exhausted := False, in_restart_times := []\<rparr> else i))" for k
    by (rule keeps_upd_other) simp_all
  show ?thesis
    unfolding start_def Let_def
    by (rule reset keeps_add_hold[OF r] keeps_add_hold keeps_upd_other sup_keeps keeps_rules | simp)+
qed

lemma keeps_notify_failure: "keeps (sup_inv init issued F) (notify_failure env n sid err)"
  unfolding notify_failure_def by (intro keeps_rules sup_keeps)

lemma keeps_set_lifecycle_mode: "keeps (sup_inv init issued F) (set_lifecycle_mode env sid mode)"
  unfolding set_lifecycle_mode_def by (intro keeps_rules sup_keeps)

lemma keeps_transition: "keeps (sup_inv init issued F) (transition env k new reason)"
  unfolding transition_def by (intro keeps_rules sup_keeps)

lemma keeps_begin_maintenance [sup_keeps]: "keeps (sup_inv init issued F) (begin_maintenance env n sv jb)"
  unfolding begin_maintenance_def Let_def
  by (intro keeps_rules sup_keeps keeps_add_hold keeps_remove_hold) simp_all

lemma keeps_run_job [sup_keeps]: "keeps (sup_inv init issued F) (run_job env sv jb)"
  unfolding run_job_def by (rule keeps_with_driver sup_keeps keeps_rules | assumption)+

lemma keeps_finish_maintenance [sup_keeps]: "keeps (sup_inv init issued F) (finish_maintenance env n sv jb was_active outcome)"
  unfolding finish_maintenance_def Let_def case_prod_beta
  by (intro keeps_rules sup_keeps keeps_remove_hold keeps_upd_other) simp_all

lemma keeps_run_maintenance [sup_keeps]: "keeps (sup_inv init issued F) (run_maintenance env n sid job_id)"
  unfolding run_maintenance_def by (intro keeps_rules sup_keeps)

lemma keeps_adopt [sup_keeps]: "keeps (sup_inv init issued F) (adopt env k)"
  unfolding adopt_def by (rule keeps_run_all) (auto intro: sup_keeps)

lemma keeps_reconcile_holds [sup_keeps]: "keeps (sup_inv init issued F) (reconcile_holds sv)"
  unfolding reconcile_holds_def Let_def by (intro keeps_rules sup_keeps keeps_put_hold keeps_pop_hold) simp_all

lemma keeps_reconcile_state [sup_keeps]: "keeps (sup_inv init issued F) (reconcile_state env n sv alive)"
  unfolding reconcile_state_def Let_def by (intro keeps_rules sup_keeps)

lemma keeps_converge [sup_keeps]: "keeps (sup_inv init issued F) (converge env n sv)"
  unfolding converge_def by (intro keeps_rules sup_keeps)

lemma keeps_reconcile_locked [sup_keeps]: "keeps (sup_inv init issued F) (reconcile_locked env n sv)"
  unfolding reconcile_locked_def Let_def by (rule keeps_with_driver sup_keeps keeps_rules | assumption)+

lemma keeps_list_status [sup_keeps]: "keeps (sup_inv init issued F) (list_status env)"
  unfolding list_status_def status_def by (intro keeps_rules sup_keeps)

lemma keeps_reconcile [sup_keeps]: "keeps (sup_inv init issued F) (reconcile env n)"
  unfolding reconcile_def by (intro keeps_rules sup_keeps)

lemma keeps_tick_service [sup_keeps]: "keeps (sup_inv init issued F) (tick_service env n t sv)"
  unfolding tick_service_def tick_idle_def tick_recover_def tick_job_def Let_def
  by (intro keeps_rules sup_keeps keeps_pop_hold keeps_upd_other) simp_all

lemma keeps_tick: "keeps (sup_inv init issued F) (tick env n)"
proof -
  have "keeps (sup_inv init issued F) (case d of (sid, job_id) \<Rightarrow> bind (run_maintenance env n sid job_id) (\<lambda>_. ret ()))" for d
    by (cases d) (auto intro!: keeps_rules sup_keeps)
  then show ?thesis
    unfolding tick_def by (intro keeps_rules sup_keeps)
qed

end

text \<open>The invariant without naming the sessions, which is what survives the session operations too.\<close>

definition sup_ok :: "(string \<Rightarrow> lifecycle_state) \<Rightarrow> ('w \<Rightarrow> string set) \<Rightarrow> 'w sup \<Rightarrow> bool" where
  "sup_ok init issued s \<longleftrightarrow> sup_inv init issued (\<lambda>k. in_sessions (instances s k)) s"

lemma sup_okI: "sup_inv init issued F s \<Longrightarrow> sup_ok init issued s"
  unfolding sup_ok_def by (rule sup_inv_self)

lemma keeps_sup_ok: "(\<And>F. keeps (sup_inv init issued F) m) \<Longrightarrow> keeps (sup_ok init issued) m"
  unfolding keeps_def using sup_okI sup_ok_def by blast

context supervisor_env
begin

lemma add_session_inv:
  assumes inv: "sup_inv init issued F s" and add: "add_session env k s = (r, s')"
  obtains x t where "r = Ret x" and "x \<notin> fst ` set (F k)" and "sup_inv init issued (F(k := AList.update x t (F k))) s'"
proof -
  obtain x w where x: "new_session_id env (world s) = (x, w)" by fastforce
  obtain t w' where t: "clock_now env w = (t, w')" by fastforce
  let ?i = "(instances s k)\<lparr>in_sessions := AList.update x t (F k), in_holds := AList.update ''sessions''
     (get_or (in_holds (instances s k)) ''sessions'' 0 + 1) (in_holds (instances s k)), in_idle_deadline := None\<rparr>"
  have F: "in_sessions (instances s k) = F k" using inv by (rule sup_inv_sessions)
  have fresh: "x \<notin> fst ` set (F k)"
    using id_fresh[OF x] sup_inv_known[OF inv, of k] by auto
  have w: "insert x (issued (world s)) \<subseteq> issued w'"
    using id_fresh[OF x] now_grows[OF t] by auto
  have "sup_inv init issued F (s\<lparr>world := w'\<rparr>)"
    using inv w by (intro sup_inv_world) auto
  moreover have "holds_ok ?i"
    using holds_ok_session[OF sup_inv_holds[OF inv], of x k t] fresh by (simp add: F)
  moreover have "fst ` set (AList.update x t (F k)) \<subseteq> issued w'"
    using sup_inv_known[OF inv, of k] w by (auto simp: keys_update)
  ultimately have "sup_inv init issued (F(k := in_sessions ?i))
      (s\<lparr>world := w', instances := (instances s)(k := ?i), store := store_save ?i (store s)\<rparr>)"
    using sup_inv_set_sessions[of init issued F "s\<lparr>world := w'\<rparr>" ?i k] by simp
  moreover have "add_session env k s =
      (Ret x, s\<lparr>world := w', instances := (instances s)(k := ?i), store := store_save ?i (store s)\<rparr>)"
    by (simp add: add_session_def fresh_session_id_def x now_def t add_hold_def upd_def persist_def prog_defs F)
  ultimately show thesis
    using add fresh by (intro that[of x t]) simp_all
qed

text \<open>After a session is dropped, whatever follows runs under the invariant for the remaining sessions.\<close>

lemma after_drop:
  assumes inv: "sup_inv init issued F s" and x: "x \<in> fst ` set (F k)"
    and rest: "keeps (sup_inv init issued (F(k := AList.delete x (F k)))) rest"
  shows "sup_inv init issued (F(k := AList.delete x (F k))) (snd (andThen (drop_session k x) rest s))"
proof -
  have "andThen (drop_session k x) rest s = rest (snd (drop_session k x s))"
    by (subst andThen_def, subst bind_def, subst drop_session_ret) simp
  then show ?thesis
    using keepsD[OF rest drop_session_inv[OF inv x]] by (simp only:)
qed

lemma keeps_release_session: "keeps (sup_ok init issued) (release_session env sid x)"
proof (rule keepsI)
  fix s assume "sup_ok init issued s"
  then have inv: "sup_inv init issued (\<lambda>k. in_sessions (instances s k)) s"
    by (simp add: sup_ok_def)
  show "sup_ok init issued (snd (release_session env sid x s))"
  proof (cases "map_of (services (registry_of env)) sid")
    case None
    with inv show ?thesis by (auto simp: release_session_def find_service_def prog_defs intro: sup_okI)
  next
    case (Some sv)
    let ?k = "sv_id sv"
    let ?rest = "andThen (schedule_idle_locked env sv) (view ?k)"
    show ?thesis
    proof (cases "has_key (in_sessions (instances s ?k)) x")
      case False
      with inv Some show ?thesis
        by (auto simp: release_session_def find_service_def instance_of_def Let_def prog_defs intro: sup_okI)
    next
      case True
      have "release_session env sid x s = andThen (drop_session ?k x) ?rest s"
        using Some True by (simp add: release_session_def find_service_def instance_of_def Let_def prog_defs)
      moreover have "sup_ok init issued (snd (andThen (drop_session ?k x) ?rest s))"
        using True by (intro sup_okI[OF after_drop[OF inv]] keeps_rules sup_keeps) (simp add: has_key_def)
      ultimately show ?thesis by simp
    qed
  qed
qed

lemma keeps_acquire_session: "keeps (sup_ok init issued) (acquire_session env n sid)"
proof (rule keepsI)
  fix s assume "sup_ok init issued s"
  then have inv: "sup_inv init issued (\<lambda>k. in_sessions (instances s k)) s" (is "sup_inv _ _ ?F _")
    by (simp add: sup_ok_def)
  show "sup_ok init issued (snd (acquire_session env n sid s))"
  proof (cases "map_of (services (registry_of env)) sid")
    case None
    with inv show ?thesis by (auto simp: acquire_session_def find_service_def prog_defs intro: sup_okI)
  next
    case (Some sv)
    let ?k = "sv_id sv"
    obtain r s1 where add: "add_session env ?k s = (r, s1)" by fastforce
    obtain x t where r: "r = Ret x" and fresh: "x \<notin> fst ` set (?F ?k)"
      and s1: "sup_inv init issued (?F(?k := AList.update x t (?F ?k))) s1"
      using add_session_inv[OF inv add] .
    obtain q s2 where ens: "ensure_running_locked env n sv [''session''] s1 = (q, s2)" by fastforce
    have s2: "sup_inv init issued (?F(?k := AList.update x t (?F ?k))) s2"
      using keeps_state[OF keeps_ensure_running_locked s1 ens] .
    have drop: "sup_ok init issued (snd (andThen (drop_session ?k x) (raise e) s2))" for e :: supervisor_error
      by (rule sup_okI, rule after_drop[OF s2]) (simp_all add: keys_update keeps_rules)
    have "sup_ok init issued s" "sup_ok init issued s2"
      using inv s2 by (auto intro: sup_okI)
    with Some add r ens drop show ?thesis
      by (auto simp: acquire_session_def find_service_def instance_of_def lifecycle_of_def Let_def raise_if_def
          catch_def bind_def andThen_def ret_def raise_def gets_def split: outcome.splits prod.splits)
  qed
qed

lemma keeps_stop: "keeps (sup_ok init issued) (stop env sid force reason)"
proof -
  have clear: "keeps (sup_ok init issued) (upd k (\<lambda>i. i\<lparr>in_holds := [], in_sessions := []\<rparr>))" for k
  proof (rule keepsI)
    fix s assume ok: "sup_ok init issued s"
    have "sup_inv init issued ((\<lambda>k. in_sessions (instances s k))(k := []))
       (s\<lparr>instances := (instances s)(k := (instances s k)\<lparr>in_holds := [], in_sessions := []\<rparr>)\<rparr>)"
      using ok holds_ok_clear[of "instances s k"] by (simp add: sup_ok_def sup_inv_def service_ok_def)
    then show "sup_ok init issued (snd (upd k (\<lambda>i. i\<lparr>in_holds := [], in_sessions := []\<rparr>) s))"
      by (simp add: upd_def modify_def sup_okI)
  qed
  have revoke: "keeps (sup_inv init issued F) (upd k (\<lambda>i. i\<lparr>in_admin_intent := False, in_holds := AList.delete ''admin'' (in_holds i)\<rparr>))" for F k
    by (rule keeps_upd) (simp_all add: holds_ok_def get_or_delete)
  have locked: "keeps (sup_ok init issued) (stop_locked env sv reason)" for sv reason
    by (rule keeps_sup_ok) (rule sup_keeps)
  have "keeps (sup_ok init issued) (find_service env k)" "keeps (sup_ok init issued) (instance_of k)"
    "keeps (sup_ok init issued) (view k)" for k
    by (rule sup_keeps)+
  then show ?thesis
    unfolding stop_def Let_def by (intro keeps_rules locked clear keeps_sup_ok[OF revoke])
qed

lemma keeps_restart: "keeps (sup_ok init issued) (restart env n sid)"
  unfolding restart_def by (intro keeps_rules keeps_stop keeps_sup_ok[OF keeps_start]) simp

end

end
