(* ===== verification/Drivers.thy ===== *)
theory Drivers
  imports Supervisor_Facts Registry_Facts
begin

text \<open>
  The drivers and the clock that the supervisor's package brings along:
  \<open>scripts/ubb_supervisor/drivers.py\<close> and \<open>clock.py\<close>. \<open>FakeClock\<close> with \<open>FakeDriver\<close> is a complete
  environment, on which the locale \<open>supervisor_env\<close> is interpreted; \<open>LocalProcessDriver\<close> is modelled
  over the operating system calls it makes, which are the fields of \<open>os\<close>.
\<close>

section \<open>FakeClock and FakeDriver\<close>

record fake_world =
  fk_current :: datetime
  fk_elapsed :: int
  fk_alive :: "string set"
  fk_start_calls :: nat
  fk_stop_calls :: nat
  fk_maintenance_calls :: "string list"
  fk_start_failures :: nat
  fk_ready_after_checks :: nat
  fk_readiness_checks :: nat
  fk_next_id :: nat

definition fake_now :: "fake_world \<Rightarrow> datetime \<times> fake_world" where
  "fake_now w = (fk_current w, w)"

definition fake_monotonic :: "fake_world \<Rightarrow> int \<times> fake_world" where
  "fake_monotonic w = (fk_elapsed w, w)"

definition fake_advance :: "int \<Rightarrow> fake_world \<Rightarrow> fake_world" where
  "fake_advance us w = w\<lparr>fk_elapsed := fk_elapsed w + us, fk_current := plus_time (fk_current w) us\<rparr>"

text \<open>Fresh session ids: \<open>x\<close>, \<open>xx\<close>, ...\<close>

definition fake_id :: "fake_world \<Rightarrow> string \<times> fake_world" where
  "fake_id w = (replicate (Suc (fk_next_id w)) (CHR ''x''), w\<lparr>fk_next_id := Suc (fk_next_id w)\<rparr>)"

definition fake_start :: "(fake_world, unit) driver_call" where
  "fake_start i decl w = (let w1 = w\<lparr>fk_start_calls := Suc (fk_start_calls w)\<rparr> in
     if fk_start_failures w1 \<noteq> 0
     then (Inl (DriverError [''injected start failure'']), in_runtime i, w1\<lparr>fk_start_failures := fk_start_failures w1 - 1\<rparr>)
     else (Inr (), in_runtime i, w1\<lparr>fk_alive := insert (in_instance i) (fk_alive w1)\<rparr>))"

definition fake_stop :: "(fake_world, unit) driver_call" where
  "fake_stop i decl w = (Inr (), in_runtime i,
     w\<lparr>fk_stop_calls := Suc (fk_stop_calls w), fk_alive := fk_alive w - {in_instance i}\<rparr>)"

definition fake_status :: "(fake_world, bool) driver_call" where
  "fake_status i decl w = (Inr (in_instance i \<in> fk_alive w), in_runtime i, w)"

definition fake_is_ready :: "readiness \<Rightarrow> (fake_world, bool) driver_call" where
  "fake_is_ready rd i decl w = (let w1 = w\<lparr>fk_readiness_checks := Suc (fk_readiness_checks w)\<rparr> in
     (Inr (in_instance i \<in> fk_alive w1 \<and> fk_ready_after_checks w1 < fk_readiness_checks w1), in_runtime i, w1))"

definition fake_run_maintenance :: "job \<Rightarrow> (fake_world, fields) driver_call" where
  "fake_run_maintenance jb i decl w =
     (Inr [(''ok'', JBool True), (''action'', JStr (jb_action jb))], in_runtime i,
      w\<lparr>fk_maintenance_calls := fk_maintenance_calls w @ [jb_name jb]\<rparr>)"

definition fake_driver :: "fake_world driver" where
  "fake_driver = \<lparr>d_start = fake_start, d_stop = fake_stop, d_status = fake_status,
                  d_is_ready = fake_is_ready, d_run_maintenance = fake_run_maintenance\<rparr>"

definition fake_env :: "registry \<Rightarrow> int \<Rightarrow> fake_world env" where
  "fake_env r poll = \<lparr>registry_of = r, poll_interval = poll, driver_resolver = (\<lambda>_. Inr fake_driver),
     clock_now = fake_now, clock_monotonic = fake_monotonic, clock_sleep = fake_advance, new_session_id = fake_id\<rparr>"

definition fake_issued :: "fake_world \<Rightarrow> string set" where
  "fake_issued w = {replicate n (CHR ''x'') | n. n \<le> fk_next_id w}"

definition fake_start_world :: fake_world where
  "fake_start_world = \<lparr>fk_current = noon, fk_elapsed = 0, fk_alive = {}, fk_start_calls = 0, fk_stop_calls = 0,
     fk_maintenance_calls = [], fk_start_failures = 0, fk_ready_after_checks = 0, fk_readiness_checks = 0, fk_next_id = 0\<rparr>"

lemmas fake_defs = fake_now_def fake_monotonic_def fake_advance_def fake_id_def fake_start_def fake_stop_def
  fake_status_def fake_is_ready_def fake_run_maintenance_def fake_driver_def fake_env_def

lemma fake_env_simps [simp]:
  "registry_of (fake_env r p) = r" "poll_interval (fake_env r p) = p" "driver_resolver (fake_env r p) sv = Inr fake_driver"
  by (simp_all add: fake_env_def)

lemma replicate_char_inj: "replicate m c = replicate n c \<longleftrightarrow> m = n"
  by (metis length_replicate)

interpretation fake: supervisor_env "fake_env r poll" fake_issued for r poll
proof
  show "x \<notin> fake_issued w \<and> insert x (fake_issued w) \<subseteq> fake_issued w'" if "new_session_id (fake_env r poll) w = (x, w')" for w x w'
    using that by (auto simp: fake_defs fake_issued_def replicate_char_inj intro: exI[of _ "Suc (fk_next_id w)"] simp flip: replicate_Suc)
  show "driver_grows fake_issued drv" if "driver_resolver (fake_env r poll) sv = Inr drv" for sv drv
    using that by (auto simp: driver_grows_def grows_def fake_issued_def fake_defs Let_def split: if_splits)
qed (auto simp: fake_defs fake_issued_def)

section \<open>LocalProcessDriver\<close>

datatype probe = Signalled | NoSuchProcess | NotPermitted

text \<open>\<open>subprocess.Popen\<close>, \<open>os.kill(pid, 0)\<close>, \<open>os.killpg(pid, SIGTERM)\<close> and \<open>subprocess.run\<close>.\<close>

record 'w os =
  popen :: "string list \<Rightarrow> 'w \<Rightarrow> (supervisor_error + int) \<times> 'w"
  kill_zero :: "int \<Rightarrow> 'w \<Rightarrow> probe \<times> 'w"
  kill_group :: "int \<Rightarrow> 'w \<Rightarrow> probe \<times> 'w"
  run_command :: "string list \<Rightarrow> int \<Rightarrow> 'w \<Rightarrow> (supervisor_error + int) \<times> 'w"

text \<open>\<open>isinstance(pid, int)\<close> holds of a bool too; neither \<open>False\<close> nor \<open>True\<close> is above one.\<close>

definition usable_pid :: "fields \<Rightarrow> int option" where
  "usable_pid rt = (case map_of rt ''pid'' of Some (JInt p) \<Rightarrow> if p \<le> 1 then None else Some p | _ \<Rightarrow> None)"

definition local_start :: "'w os \<Rightarrow> ('w, unit) driver_call" where
  "local_start os i decl w = (case ep_command (rs_endpoint decl) of
      None \<Rightarrow> (Inl (DriverError [''local process endpoint has no command'']), in_runtime i, w)
    | Some command \<Rightarrow> if command = [] then (Inl (DriverError [''local process endpoint has no command'']), in_runtime i, w)
        else (case popen os command w of
            (Inl e, w') \<Rightarrow> (Inl e, in_runtime i, w')
          | (Inr pid, w') \<Rightarrow> (Inr (), AList.update ''pid'' (JInt pid) (in_runtime i), w')))"

definition local_status :: "'w os \<Rightarrow> ('w, bool) driver_call" where
  "local_status os i decl w = (case usable_pid (in_runtime i) of
      None \<Rightarrow> (Inr False, in_runtime i, w)
    | Some pid \<Rightarrow> (case kill_zero os pid w of (p, w') \<Rightarrow> (Inr (p \<noteq> NoSuchProcess), in_runtime i, w')))"

definition local_stop :: "'w os \<Rightarrow> ('w, unit) driver_call" where
  "local_stop os i decl w = (case local_status os i decl w of
      (Inl e, rt, w1) \<Rightarrow> (Inl e, rt, w1)
    | (Inr alive, rt, w1) \<Rightarrow>
        if alive then
          (case usable_pid rt of
             None \<Rightarrow> (Inr (), AList.delete ''pid'' rt, w1)
           | Some pid \<Rightarrow> (case kill_group os pid w1 of
               (NotPermitted, w2) \<Rightarrow> (Inl (BuiltinError ''PermissionError'' [''operation not permitted'']), rt, w2)
             | (_, w2) \<Rightarrow> (Inr (), AList.delete ''pid'' rt, w2)))
        else (Inr (), AList.delete ''pid'' rt, w1))"

definition local_is_ready :: "'w os \<Rightarrow> readiness \<Rightarrow> ('w, bool) driver_call" where
  "local_is_ready os rd i decl w = (let kind = default ''process_alive'' (rd_type rd) in
     if kind = ''immediate'' then (Inr True, in_runtime i, w)
     else if kind = ''process_alive'' then local_status os i decl w
     else if kind = ''command_probe'' then
       (case rd_command rd of
          None \<Rightarrow> (Inl (DriverError [''command_probe has no command'']), in_runtime i, w)
        | Some command \<Rightarrow> if command = [] then (Inl (DriverError [''command_probe has no command'']), in_runtime i, w)
            else (case run_command os command 5 w of
                (Inl e, w') \<Rightarrow> (Inl e, in_runtime i, w')
              | (Inr code, w') \<Rightarrow> (Inr (code = 0), in_runtime i, w')))
     else (Inl (DriverError [''driver_specific readiness requires another runtime driver'']), in_runtime i, w))"

definition local_run_maintenance :: "'w os \<Rightarrow> job \<Rightarrow> ('w, fields) driver_call" where
  "local_run_maintenance os jb i decl w = (case jb_command jb of
      None \<Rightarrow> (Inl (DriverError [''local maintenance requires an explicit command argument vector'']), in_runtime i, w)
    | Some command \<Rightarrow> if command = [] then (Inl (DriverError [''local maintenance requires an explicit command argument vector'']), in_runtime i, w)
        else (case run_command os command (default 300 (jb_timeout_seconds jb)) w of
            (Inl e, w') \<Rightarrow> (Inl e, in_runtime i, w')
          | (Inr code, w') \<Rightarrow> if code \<noteq> 0 then (Inl (DriverError [''maintenance command exited'']), in_runtime i, w')
              else (Inr [(''ok'', JBool True), (''returncode'', JInt code)], in_runtime i, w')))"

definition local_driver :: "'w os \<Rightarrow> 'w driver" where
  "local_driver os = \<lparr>d_start = local_start os, d_stop = local_stop os, d_status = local_status os,
                      d_is_ready = local_is_ready os, d_run_maintenance = local_run_maintenance os\<rparr>"

section \<open>UnsupportedDriver\<close>

definition unsupported :: "('w, 'a) driver_call" where
  "unsupported i decl w = (Inl (DriverError [''no M3 runtime driver is available for this endpoint'']), in_runtime i, w)"

definition unsupported_driver :: "'w driver" where
  "unsupported_driver = \<lparr>d_start = unsupported, d_stop = unsupported,
     d_status = (\<lambda>i decl w. (Inr False, in_runtime i, w)),
     d_is_ready = (\<lambda>rd i decl w. (Inr False, in_runtime i, w)), d_run_maintenance = (\<lambda>jb. unsupported)\<rparr>"

section \<open>What the local driver does to its process\<close>

lemma usable_pid_update [simp]: "usable_pid (AList.update ''pid'' (JInt p) rt) = (if p \<le> 1 then None else Some p)"
  and usable_pid_delete [simp]: "usable_pid (AList.delete ''pid'' rt) = None"
  by (simp_all add: usable_pid_def)

lemma local_stop_pid:
  "local_stop os i decl w = (Inr (), rt, w') \<Longrightarrow> usable_pid rt = None"
  by (auto simp: local_stop_def split: prod.splits sum.splits option.splits if_splits probe.splits)

text \<open>No driver method touches a key of the runtime dictionary other than \<open>pid\<close>.\<close>

lemma local_driver_frame:
  "d_start (local_driver os) i decl w = (r, rt, w') \<or> d_stop (local_driver os) i decl w = (q, rt, w')
   \<Longrightarrow> key \<noteq> ''pid'' \<Longrightarrow> map_of rt key = map_of (in_runtime i) key"
  by (auto simp: local_driver_def local_start_def local_stop_def local_status_def
      split: option.splits prod.splits sum.splits if_splits probe.splits)

text \<open>The local process driver follows the pid it recorded. A start that returns has created a process
  from the endpoint's command and recorded its pid; after a stop that returns no pid is recorded and
  status answers that nothing is alive; a failure changes no record; and a stop without a usable pid
  (above one) touches no process.\<close>

theorem local_driver_pid:
  assumes "\<forall>command pid w'. popen os command w = (Inr pid, w') \<longrightarrow> 1 < pid"
  shows "(case local_start os i decl w of
            (Inr _, rt, w1) \<Rightarrow> \<exists>command pid. ep_command (rs_endpoint decl) = Some command \<and> command \<noteq> [] \<and>
               popen os command w = (Inr pid, w1) \<and> usable_pid rt = Some pid
          | (Inl e, rt, w1) \<Rightarrow> rt = in_runtime i) \<and>
         (case local_stop os i decl w of
            (Inr _, rt, w1) \<Rightarrow> local_status os (i\<lparr>in_runtime := rt\<rparr>) decl w1 = (Inr False, rt, w1)
          | (Inl e, rt, w1) \<Rightarrow> rt = in_runtime i) \<and>
         (usable_pid (in_runtime i) = None \<longrightarrow> snd (snd (local_stop os i decl w)) = w)"
proof (intro conjI impI)
  show "case local_start os i decl w of
            (Inr _, rt, w1) \<Rightarrow> \<exists>command pid. ep_command (rs_endpoint decl) = Some command \<and> command \<noteq> [] \<and>
               popen os command w = (Inr pid, w1) \<and> usable_pid rt = Some pid
          | (Inl e, rt, w1) \<Rightarrow> rt = in_runtime i"
  proof (cases "ep_command (rs_endpoint decl)")
    case (Some command)
    obtain r w1 where p: "popen os command w = (r, w1)" by fastforce
    show ?thesis
    proof (cases r)
      case (Inr pid)
      with p assms have "1 < pid" by blast
      with Some p Inr show ?thesis by (simp add: local_start_def)
    qed (use Some p in \<open>simp add: local_start_def\<close>)
  qed (simp add: local_start_def)
  show "case local_stop os i decl w of
            (Inr _, rt, w1) \<Rightarrow> local_status os (i\<lparr>in_runtime := rt\<rparr>) decl w1 = (Inr False, rt, w1)
          | (Inl e, rt, w1) \<Rightarrow> rt = in_runtime i"
    by (auto simp: local_status_def local_stop_def split: prod.splits sum.splits option.splits if_splits probe.splits)
  show "snd (snd (local_stop os i decl w)) = w" if "usable_pid (in_runtime i) = None"
    using that by (simp add: local_stop_def local_status_def)
qed

text \<open>An operating system that numbers its processes from 100 up; \<open>w\<close> is the next pid.\<close>

definition demo_os :: "nat os" where
  "demo_os = \<lparr>popen = (\<lambda>c w. (Inr (100 + int w), Suc w)), kill_zero = (\<lambda>p w. (Signalled, w)),
     kill_group = (\<lambda>p w. (Signalled, w)), run_command = (\<lambda>c t w. (Inr 0, w))\<rparr>"

definition demo_declaration :: resolution where
  "demo_declaration = \<lparr>rs_service = demo_bbs,
     rs_endpoint = normalized (demo_endpoint\<lparr>ep_command := Some [''run'']\<rparr>), rs_integration = None\<rparr>"

theorem local_driver_pid_witness:
  "\<exists>rt. local_start demo_os (new_instance ''bbs'') demo_declaration 0 = (Inr (), rt, 1) \<and> usable_pid rt = Some 100"
proof -
  have "\<forall>command pid w'. popen demo_os command 0 = (Inr pid, w') \<longrightarrow> 1 < pid"
    by (simp add: demo_os_def)
  note p = local_driver_pid[where os = demo_os and w = 0 and i = "new_instance ''bbs''" and decl = demo_declaration, OF this]
  have "fst (local_start demo_os (new_instance ''bbs'') demo_declaration 0) = Inr ()"
    "snd (snd (local_start demo_os (new_instance ''bbs'') demo_declaration 0)) = 1"
    by code_simp+
  then obtain rt where rt: "local_start demo_os (new_instance ''bbs'') demo_declaration 0 = (Inr (), rt, 1)"
    by (metis prod.collapse)
  then obtain command pid where "popen demo_os command 0 = (Inr pid, 1)" "usable_pid rt = Some pid"
    using conjunct1[OF p] by auto
  with rt show ?thesis by (auto simp: demo_os_def)
qed

end
