(* ===== verification/Supervisor_Steps.thy ===== *)
theory Supervisor_Steps
  imports Drivers
begin

text \<open>
  The supervisor as a system: every interleaving of its critical sections, from any number of
  threads, with crashes of the process in between, is a sequence of \<open>sup_step\<close>s.
\<close>

section \<open>The step relation\<close>

text \<open>
  One step is one \<open>with lock\<close> block (or a whole operation that holds the lock throughout), on any
  outcome; \<open>finish\<close> may come with any result and after anything that happened since \<open>begin\<close>. A
  crash keeps the store, forgets the rest and constructs a new supervisor. Callers choose the reason
  of a start; \<open>sessions\<close> is the supervisor's own.
\<close>

inductive sup_step :: "'w env \<Rightarrow> 'w sup \<Rightarrow> 'w sup \<Rightarrow> bool" for env where
  step_start: "reason \<noteq> ''sessions'' \<Longrightarrow> sup_step env s (snd (start env n sid reason s))"
| step_stop: "sup_step env s (snd (stop env sid force reason s))"
| step_acquire: "sup_step env s (snd (acquire_session env n sid s))"
| step_release: "sup_step env s (snd (release_session env sid x s))"
| step_failure: "sup_step env s (snd (notify_failure env n sid err s))"
| step_transition: "sup_step env s (snd (transition env sid v reason s))"
| step_mode: "sup_step env s (snd (set_lifecycle_mode env sid mode s))"
| step_begin: "sup_step env s (snd (begin_maintenance env n sv jb s))"
| step_run: "sup_step env s (snd (run_job env sv jb s))"
| step_finish: "sup_step env s (snd (finish_maintenance env n sv jb was_active outcome s))"
| step_reconcile: "sup_step env s (snd (reconcile_locked env n sv s))"
| step_tick: "sup_step env s (snd (tick_service env n t sv s))"
| step_crash: "sup_step env s (initial (store s) ov w)"

inductive_cases sup_stepE: "sup_step env s s'"

section \<open>Crashes\<close>

lemma get_or_durable: "get_or (filter (\<lambda>(k, n). durable_hold k) d) ''sessions'' 0 = 0"
proof -
  have "map_of (filter (\<lambda>(k, n). durable_hold k) d) ''sessions'' = None"
    by (auto simp: map_of_eq_None_iff durable_hold_def)
  then show ?thesis by (simp add: get_or_def)
qed

lemma loaded_instance_ok:
  assumes "persisted_ok st k x" and "events_of k st = [] \<Longrightarrow> x = STOPPED"
  shows "\<exists>i. loaded_instance st k = Inr i \<and> in_service i = k \<and> in_state i = x \<and> holds_ok i \<and> in_sessions i = []"
proof (cases "map_of (st_instances st) k")
  case None
  with assms have "x = STOPPED" by (simp add: persisted_ok_def)
  with None show ?thesis
    by (simp add: loaded_instance_def store_load_def new_instance_def holds_ok_def get_or_def)
next
  case (Some v)
  with assms have v: "snapshot_ok k x v" by (simp add: persisted_ok_def)
  define i where "i = (case from_dict v of Inr i \<Rightarrow> i | Inl e \<Rightarrow> new_instance k)"
  have "from_dict v = Inr i" "in_service i = k" "in_state i = x" "in_sessions i = []"
    and holds: "in_holds i = filter (\<lambda>(k, n). durable_hold k) (sn_holds v)"
    using v by (simp_all add: i_def from_dict_def snapshot_ok_def)
  moreover from this v have "holds_ok i"
    by (simp add: holds_ok_def get_or_durable snapshot_ok_def positive_filter)
  ultimately show ?thesis
    using Some by (simp add: loaded_instance_def store_load_def)
qed

lemma crash_ok: "sup_ok (\<lambda>_. STOPPED) issued s \<Longrightarrow> sup_ok (\<lambda>_. STOPPED) issued (initial (store s) ov w)"
proof -
  assume "sup_ok (\<lambda>_. STOPPED) issued s"
  then have ok: "service_ok (\<lambda>_. STOPPED) (store s) k (instances s k)" for k
    by (simp add: sup_ok_def sup_inv_def)
  have "\<exists>i. loaded_instance (store s) k = Inr i \<and> in_service i = k \<and> in_state i = in_state (instances s k) \<and> holds_ok i \<and> in_sessions i = []" for k
    using ok[of k] by (intro loaded_instance_ok) (auto simp: service_ok_def)
  moreover have "instances (initial (store s) ov w) k = i" if "loaded_instance (store s) k = Inr i" for k i
    using that by (simp add: initial_def)
  ultimately have "service_ok (\<lambda>_. STOPPED) (store s) k (instances (initial (store s) ov w) k) \<and>
      in_sessions (instances (initial (store s) ov w) k) = []" for k
    using ok[of k] unfolding service_ok_def by metis
  then show ?thesis by (simp add: sup_ok_def sup_inv_def initial_def)
qed

section \<open>The invariant of every run\<close>

context supervisor_env
begin

lemmas sup_ok_keeps = keeps_stop keeps_acquire_session keeps_release_session
  keeps_sup_ok[OF keeps_start] keeps_sup_ok[OF keeps_notify_failure] keeps_sup_ok[OF keeps_transition]
  keeps_sup_ok[OF keeps_set_lifecycle_mode] keeps_sup_ok[OF keeps_begin_maintenance] keeps_sup_ok[OF keeps_run_job]
  keeps_sup_ok[OF keeps_finish_maintenance] keeps_sup_ok[OF keeps_reconcile_locked] keeps_sup_ok[OF keeps_tick_service]

lemma step_ok: "sup_step env s s' \<Longrightarrow> sup_ok (\<lambda>_. STOPPED) issued s \<Longrightarrow> sup_ok (\<lambda>_. STOPPED) issued s'"
  by (erule sup_stepE) (simp_all add: crash_ok sup_ok_keeps[THEN keepsD])

lemma steps_ok: "(sup_step env)\<^sup>*\<^sup>* s s' \<Longrightarrow> sup_ok (\<lambda>_. STOPPED) issued s \<Longrightarrow> sup_ok (\<lambda>_. STOPPED) issued s'"
  by (induction rule: rtranclp_induct) (auto intro: step_ok)

end

text \<open>A new installation: no files, no events.\<close>

definition empty_store :: state_store where
  "empty_store = \<lparr>st_instances = [], st_journal = []\<rparr>"

lemma new_supervisor_ok: "sup_ok (\<lambda>_. STOPPED) issued (initial empty_store ov w)"
  by (simp add: sup_ok_def sup_inv_def service_ok_def initial_def loaded_instance_def store_load_def empty_store_def
      new_instance_def persisted_ok_def events_of_def holds_ok_def get_or_def)

lemma holds_zero: "holds_ok i \<Longrightarrow> active_holds i = 0 \<longleftrightarrow> in_holds i = []"
  using sum_values_zero[of "in_holds i"] by (auto simp: holds_ok_def positive_def active_holds_def sum_values_def)

lemma holds_nonneg: "holds_ok i \<Longrightarrow> 0 \<le> active_holds i"
  using sum_values_pos[of "in_holds i"] by (auto simp: holds_ok_def positive_def active_holds_def)

text \<open>C3: in every run of the supervisor (any interleaving of its critical sections, any behaviour of the
  drivers and any crashes between sections) the journal of each service is one walk through the transition
  graph from stopped to its current state, the state in its instance file is the current one, every
  hold is positive, and the session hold is exactly the number of sessions.\<close>

theorem supervisor_runs:
  assumes "supervisor_env env issued" and "(sup_step env)\<^sup>*\<^sup>* (initial empty_store ov w) s"
  shows "history STOPPED (events_of k (store s)) (in_state (instances s k)) \<and>
    (case map_of (st_instances (store s)) k of
       None \<Rightarrow> events_of k (store s) = []
     | Some v \<Rightarrow> state_of_value (sn_state v) = Inr (in_state (instances s k))) \<and>
    (\<forall>(r, n) \<in> set (in_holds (instances s k)). 1 \<le> n) \<and>
    get_or (in_holds (instances s k)) ''sessions'' 0 = int (length (in_sessions (instances s k))) \<and>
    (active_holds (instances s k) = 0 \<longleftrightarrow> in_holds (instances s k) = [])"
proof -
  have "sup_ok (\<lambda>_. STOPPED) issued s"
    by (rule supervisor_env.steps_ok[OF assms new_supervisor_ok])
  then have ok: "service_ok (\<lambda>_. STOPPED) (store s) k (instances s k)"
    by (simp add: sup_ok_def sup_inv_def)
  then have "holds_ok (instances s k)" and "persisted_ok (store s) k (in_state (instances s k))"
    by (simp_all add: service_ok_def)
  moreover from this(1) have "active_holds (instances s k) = 0 \<longleftrightarrow> in_holds (instances s k) = []"
    by (rule holds_zero)
  ultimately show ?thesis
    using ok by (auto simp: service_ok_def holds_ok_def positive_def persisted_ok_def snapshot_ok_def split: option.splits)
qed

text \<open>The demo catalog under the fake clock and driver.\<close>

definition demo_env :: "fake_world env" where
  "demo_env = fake_env demo_registry 1000000"

definition demo_start :: "fake_world sup" where
  "demo_start = initial empty_store [] fake_start_world"

lemma demo_env_ok: "supervisor_env demo_env fake_issued"
  unfolding demo_env_def by (rule fake.supervisor_env_axioms)

text \<open>What evaluates a program on the demo state.\<close>

lemmas demo_defs = demo_env_def demo_start_def initial_def loaded_instance_def store_load_def empty_store_def
  new_instance_def demo_registry_def demo_bbs_def demo_door_def demo_lifecycle_def demo_endpoint_def demo_integration_def
  fake_start_world_def noon_def fake_defs

lemmas registry_eval = resolve_def get_service_def get_endpoint_def get_integration_def service_integration_def ENDPOINT_TYPES_def

lemmas sup_eval = prog_defs Let_def find_service_def instance_of_def lifecycle_of_def now_def monotonic_def sleep_def
  fresh_session_id_def upd_def persist_def liftS_def driver_call_def driver_of_def declaration_of_def
  add_hold_def remove_hold_def put_hold_def pop_hold_def get_or_def active_holds_def sum_values_def
  validate_transition_def transition_locked_def mark_failed_locked_def schedule_idle_locked_def
  start_up_def clean_up_def restart_with_def restart_decision_def restart_after_failure_locked_def stop_locked_def
  start_def stop_def add_session_def drop_session_def acquire_session_def release_session_def view_def
  store_save_def append_event_def to_dict_def durable_hold_def plus_time_def seconds_def default_readiness_def
  ACTIVE_STATES_def STALE_STATES_def has_key_def

theorem supervisor_runs_witness:
  "\<exists>s. (sup_step demo_env)\<^sup>*\<^sup>* demo_start s \<and> in_state (instances s ''bbs'') = RUNNING \<and>
     length (events_of ''bbs'' (store s)) = 3 \<and> history STOPPED (events_of ''bbs'' (store s)) RUNNING"
proof -
  let ?s = "snd (acquire_session demo_env (Suc (Suc 0)) ''bbs'' demo_start)"
  have run: "(sup_step demo_env)\<^sup>*\<^sup>* (initial empty_store [] fake_start_world) ?s"
    unfolding demo_start_def by (rule r_into_rtranclp) (rule step_acquire)
  have "in_state (instances ?s ''bbs'') = RUNNING \<and> length (events_of ''bbs'' (store ?s)) = 3"
    by (simp add: sup_eval registry_eval demo_defs events_of_def)
  with supervisor_runs[OF demo_env_ok run, of "''bbs''"] run show ?thesis
    unfolding demo_start_def by auto
qed

end
