(* ===== verification/Supervisor_Contract.thy ===== *)
theory Supervisor_Contract
  imports Supervisor_Steps
begin

text \<open>
  What the supervisor's operations promise their callers: the states they leave a service in on
  return and on an exception, what a failed acquire undoes, when a stop is refused, and what
  reconciliation settles.
\<close>

named_theorems calm_rules \<open>programs that leave the lifecycle states alone\<close>

section \<open>Programs that change no lifecycle state\<close>

definition states :: "'w sup \<Rightarrow> string \<Rightarrow> lifecycle_state" where
  "states s k = in_state (instances s k)"

definition calm :: "('w, 'a) sprog \<Rightarrow> bool" where
  "calm m \<longleftrightarrow> (\<forall>G. keeps (\<lambda>s. states s = G) m)"

lemma calmI: "(\<And>s k. in_state (instances (snd (m s)) k) = in_state (instances s k)) \<Longrightarrow> calm m"
  by (simp add: calm_def keeps_def states_def fun_eq_iff)

lemma calm_bind [calm_rules]: "calm m \<Longrightarrow> (\<And>x. calm (f x)) \<Longrightarrow> calm (bind m f)"
  by (simp add: calm_def keeps_rules)

lemma calm_andThen [calm_rules]: "calm m \<Longrightarrow> calm n \<Longrightarrow> calm (andThen m n)"
  by (simp add: calm_def keeps_rules)

lemma calm_attempt [calm_rules]: "calm m \<Longrightarrow> calm (attempt m)"
  by (simp add: calm_def keeps_rules)

lemma calm_onlyif [calm_rules]: "calm m \<Longrightarrow> calm (onlyif b m)"
  by (simp add: calm_def keeps_rules)

lemma calm_ret [calm_rules]: "calm (ret x)"
  and calm_raise [calm_rules]: "calm (raise e)"
  and calm_raise_if [calm_rules]: "calm (raise_if b e)"
  and calm_no_fuel [calm_rules]: "calm no_fuel"
  by (simp_all add: calm_def keeps_rules)

lemma calm_if [calm_rules]: "(b \<Longrightarrow> calm m) \<Longrightarrow> (\<not> b \<Longrightarrow> calm n) \<Longrightarrow> calm (if b then m else n)"
  by simp

lemma calm_instance_of [calm_rules]: "calm (instance_of k)"
  and calm_view [calm_rules]: "calm (view k)"
  and calm_lifecycle_of [calm_rules]: "calm (lifecycle_of sv)"
  and calm_find_service [calm_rules]: "calm (find_service env k)"
  and calm_declaration_of [calm_rules]: "calm (declaration_of env sv)"
  and calm_driver_of [calm_rules]: "calm (driver_of env sv)"
  and calm_liftS [calm_rules]: "calm (liftS x)"
  and calm_now [calm_rules]: "calm (now env)"
  and calm_monotonic [calm_rules]: "calm (monotonic env)"
  and calm_sleep [calm_rules]: "calm (sleep env d)"
  and calm_fresh_session_id [calm_rules]: "calm (fresh_session_id env)"
  and calm_persist [calm_rules]: "calm (persist k)"
  and calm_discard_job [calm_rules]: "calm (discard_job key)"
  and calm_driver_call [calm_rules]: "calm (driver_call k f decl)"
  by (rule calmI, simp add: instance_of_def view_def lifecycle_of_def find_service_def declaration_of_def driver_of_def
      liftS_def now_def monotonic_def sleep_def fresh_session_id_def persist_def discard_job_def driver_call_def prog_defs Let_def
      split: option.splits sum.splits prod.splits)+

lemma calm_upd: "(\<And>i. in_state (f i) = in_state i) \<Longrightarrow> calm (upd k f)"
  by (rule calmI) (simp add: upd_def prog_defs)

lemma calm_holds [calm_rules]: "calm (add_hold k r)" "calm (remove_hold k r)" "calm (put_hold k r)" "calm (pop_hold k r)"
    "calm (drop_session k x)"
  unfolding add_hold_def remove_hold_def put_hold_def pop_hold_def drop_session_def Let_def
  by (intro calm_rules calm_upd; simp)+

lemma calm_add_session [calm_rules]: "calm (add_session env k)"
  unfolding add_session_def by (intro calm_rules calm_upd) simp

lemma calm_wait_ready [calm_rules]: "calm (wait_ready env sv drv decl rd timeout deadline n)"
  by (induction n) (auto intro!: calm_rules)

lemma calm_clean_up [calm_rules]: "calm (clean_up sv drv decl)"
  unfolding clean_up_def by (intro calm_rules)

lemma calm_schedule_idle_locked [calm_rules]: "calm (schedule_idle_locked env sv)"
  unfolding schedule_idle_locked_def by (intro calm_rules calm_upd) simp

lemma calm_reconcile_holds [calm_rules]: "calm (reconcile_holds sv)"
  unfolding reconcile_holds_def Let_def by (intro calm_rules)

lemma triple_calm: "calm m \<Longrightarrow> triple (\<lambda>s. P (states s)) m (\<lambda>_ s. P (states s)) (\<lambda>_ s. P (states s))"
proof (rule hoareI)
  fix s r s' assume "calm m" "P (states s)" "m s = (r, s')"
  then have "P (states s')"
    unfolding calm_def keeps_def by (metis snd_conv)
  then show "case r of Ret x \<Rightarrow> P (states s') | Raise e \<Rightarrow> P (states s') | NoFuel \<Rightarrow> True"
    by (cases r) simp_all
qed

section \<open>Transitions\<close>

lemma hoare_instance:
  "(\<And>i. hoare c (\<lambda>s. P s \<and> i = instances s k) (f i) Q E) \<Longrightarrow> hoare c P (bind (instance_of k) f) Q E"
  by (simp add: hoare_def instance_of_def prog_defs)

lemma transition_locked_eq: "transition_locked env k new reason err s =
  (let i = instances s k; (t, w) = clock_now env (world s); j = i\<lparr>in_state := new\<rparr>;
       ev = \<lparr>ev_service = in_service i, ev_old = in_state i, ev_new = new, ev_timestamp = t, ev_reason = reason,
             ev_instance = in_instance i, ev_error = map_option error_text err\<rparr>
   in case validate_transition (in_state i) new of
        Inl e \<Rightarrow> (Raise e, s)
      | Inr _ \<Rightarrow> (Ret (), s\<lparr>instances := (instances s)(k := j), world := w, store := store_save j (append_event ev (store s))\<rparr>))"
  by (simp add: transition_locked_def instance_of_def liftS_def upd_def now_def persist_def prog_defs Let_def
      validate_transition_def split: prod.split)

lemma triple_transition:
  "triple (\<lambda>s. states s k \<in> X) (transition_locked env k new reason err)
     (\<lambda>_ s. states s k = new \<and> (\<exists>x \<in> X. edge x new)) (\<lambda>_ s. states s k \<in> X \<and> \<not> edge (states s k) new)"
  by (rule hoareI) (auto simp: transition_locked_eq validate_transition_def states_def Let_def split: prod.splits if_splits sum.splits)

text \<open>A transition that the graph allows from every state the service may be in does not raise.\<close>

lemma transition_ok:
  assumes "\<And>x. x \<in> X \<Longrightarrow> edge x new"
  shows "triple (\<lambda>s. states s k \<in> X) (transition_locked env k new reason err) (\<lambda>_ s. states s k = new) E"
  by (rule hoare_conseq[OF triple_transition]) (use assms in auto)

lemma mark_failed_ok:
  "triple (\<lambda>s. states s (sv_id sv) \<in> {STARTING, READY, RUNNING, MAINTENANCE, STOPPING, FAILED})
     (mark_failed_locked env sv err reason) (\<lambda>_ s. states s (sv_id sv) = FAILED) E"
proof -
  let ?k = "sv_id sv"
  have tr: "triple (\<lambda>s. states s ?k \<in> {STARTING, READY, RUNNING, MAINTENANCE, STOPPING})
      (transition_locked env ?k FAILED reason (Some err)) (\<lambda>_ s. states s ?k = FAILED) E"
    by (rule transition_ok) auto
  have rest: "triple (\<lambda>s. states s ?k = FAILED)
      (andThen (upd ?k (\<lambda>x. x\<lparr>in_last_failure := Some (error_text err)\<rparr>)) (persist ?k)) (\<lambda>_ s. states s ?k = FAILED) E"
    by (rule hoareI) (simp add: upd_def persist_def prog_defs states_def split: outcome.splits, auto)
  have "triple (\<lambda>s. states s ?k \<in> {STARTING, READY, RUNNING, MAINTENANCE, STOPPING, FAILED} \<and> i = instances s ?k)
     (andThen (onlyif (in_state i \<noteq> FAILED) (transition_locked env ?k FAILED reason (Some err)))
       (andThen (upd ?k (\<lambda>x. x\<lparr>in_last_failure := Some (error_text err)\<rparr>)) (persist ?k)))
     (\<lambda>_ s. states s ?k = FAILED) E" for i
    by (rule hoare_andThen[OF _ rest], rule hoare_onlyif)
      (rule hoare_pre[OF tr], auto simp: states_def)
  then show ?thesis
    unfolding mark_failed_locked_def by (intro hoare_instance) (rule hoare_pre, blast, simp)
qed

lemma mark_failed_triple:
  "triple (\<lambda>s. states s (sv_id sv) \<noteq> STOPPED) (mark_failed_locked env sv err reason) (\<lambda>_ s. states s (sv_id sv) = FAILED) E"
proof (rule hoare_pre[OF mark_failed_ok])
  show "states s (sv_id sv) \<in> {STARTING, READY, RUNNING, MAINTENANCE, STOPPING, FAILED}" if "states s (sv_id sv) \<noteq> STOPPED" for s
    using that by (cases "states s (sv_id sv)") simp_all
qed

section \<open>Starting\<close>

lemma triple_calm_at:
  "calm m \<Longrightarrow> triple (\<lambda>s. states s k \<in> X) m (\<lambda>_ s. states s k \<in> X) (\<lambda>_ s. states s k \<in> X)"
  using triple_calm[of m "\<lambda>g. g k \<in> X"] .

lemma calm_step:
  assumes "calm m" and "X \<subseteq> Y" and "\<And>x. triple (\<lambda>s. states s k \<in> X) (f x) Q (\<lambda>_ s. states s k \<in> Y)"
  shows "triple (\<lambda>s. states s k \<in> X) (bind m f) Q (\<lambda>_ s. states s k \<in> Y)"
proof (rule hoare_bind)
  show "triple (\<lambda>s. states s k \<in> X) m (\<lambda>_ s. states s k \<in> X) (\<lambda>_ s. states s k \<in> Y)"
    using assms(2) by (intro hoare_conseq[OF triple_calm_at[OF assms(1), of k X]]) auto
qed (rule assms(3))

lemma calm_then:
  assumes "calm m" and "X \<subseteq> Y" and "triple (\<lambda>s. states s k \<in> X) n Q (\<lambda>_ s. states s k \<in> Y)"
  shows "triple (\<lambda>s. states s k \<in> X) (andThen m n) Q (\<lambda>_ s. states s k \<in> Y)"
  unfolding andThen_def by (rule calm_step[OF assms])

lemma transition_then:
  assumes "\<And>x. x \<in> X \<Longrightarrow> edge x new" and "triple (\<lambda>s. states s k \<in> {new}) n Q E"
  shows "triple (\<lambda>s. states s k \<in> X) (andThen (transition_locked env k new reason err) n) Q E"
  by (rule hoare_andThen[OF transition_ok assms(2)[unfolded singleton_iff]]) (use assms(1) in auto)

lemma calm_done: "calm m \<Longrightarrow> X \<subseteq> Y \<Longrightarrow> X \<subseteq> Z \<Longrightarrow> triple (\<lambda>s. states s k \<in> X) m (\<lambda>_ s. states s k \<in> Y) (\<lambda>_ s. states s k \<in> Z)"
  by (rule hoare_conseq[OF triple_calm_at[of m k X]]) auto

lemma start_up_triple:
  "triple (\<lambda>s. states s (sv_id sv) \<in> {STARTING}) (start_up env n sv drv decl reason)
     (\<lambda>_ s. states s (sv_id sv) \<in> {RUNNING}) (\<lambda>_ s. states s (sv_id sv) \<in> - {STOPPED})"
  unfolding start_up_def Let_def
  by (intro calm_then calm_step transition_then calm_done calm_rules calm_upd) auto

lemma restart_with_triple:
  assumes again: "triple (\<lambda>s. states s (sv_id sv) \<in> {FAILED}) again (\<lambda>_ s. states s (sv_id sv) \<in> {RUNNING})
      (\<lambda>_ s. states s (sv_id sv) \<in> - ACTIVE_STATES)"
  shows "triple (\<lambda>s. states s (sv_id sv) \<in> {FAILED}) (restart_with env sv again)
     (\<lambda>_ s. states s (sv_id sv) \<in> {FAILED, RUNNING}) (\<lambda>_ s. states s (sv_id sv) \<in> - ACTIVE_STATES)"
proof -
  have last: "triple (\<lambda>s. states s (sv_id sv) \<in> {RUNNING})
      (bind (instance_of (sv_id sv)) (\<lambda>j. onlyif (in_state j = RUNNING) (andThen (pop_hold (sv_id sv) ''recovery'') (persist (sv_id sv)))))
      (\<lambda>_ s. states s (sv_id sv) \<in> {FAILED, RUNNING}) (\<lambda>_ s. states s (sv_id sv) \<in> - ACTIVE_STATES)"
    by (rule hoareI) (auto simp: instance_of_def pop_hold_def upd_def persist_def prog_defs states_def split: if_splits outcome.splits)
  show ?thesis
    unfolding restart_with_def restart_decision_def Let_def
    by (intro calm_step calm_then hoare_if hoare_andThen[OF again last] calm_done calm_rules calm_upd) (auto simp: ACTIVE_STATES_def)
qed

lemma ensure_triple:
  "triple (\<lambda>s. states s (sv_id sv) \<in> - ACTIVE_STATES) (ensure_running_locked env n sv reason)
     (\<lambda>_ s. states s (sv_id sv) \<in> {RUNNING}) (\<lambda>_ s. states s (sv_id sv) \<in> - ACTIVE_STATES)"
proof (induction n arbitrary: reason)
  case 0 then show ?case by (simp add: triple_no_fuel)
next
  case (Suc n)
  let ?k = "sv_id sv" and ?inactive = "- ACTIVE_STATES"
  have again: "triple (\<lambda>s. states s ?k \<in> {FAILED}) (ensure_running_locked env n sv r)
     (\<lambda>_ s. states s ?k \<in> {RUNNING}) (\<lambda>_ s. states s ?k \<in> ?inactive)" for r
    by (rule hoare_pre[OF Suc.IH]) (simp add: ACTIVE_STATES_def)
  have final: "triple (\<lambda>s. states s ?k \<in> {FAILED, RUNNING}) (bind (instance_of ?k) (\<lambda>j. raise_if (in_state j = FAILED) exc))
     (\<lambda>_ s. states s ?k \<in> {RUNNING}) (\<lambda>_ s. states s ?k \<in> ?inactive)" for exc
    by (intro hoare_instance hoare_raise_if) (auto simp: states_def ACTIVE_STATES_def)
  have handler: "triple (\<lambda>s. states s ?k \<in> - {STOPPED})
     (andThen (clean_up sv drv decl)
     (andThen (mark_failed_locked env sv exc r)
     (andThen (restart_with env sv (ensure_running_locked env n sv r'))
     (bind (instance_of ?k) (\<lambda>j. raise_if (in_state j = FAILED) exc)))))
     (\<lambda>_ s. states s ?k \<in> {RUNNING}) (\<lambda>_ s. states s ?k \<in> ?inactive)" for drv decl exc r r'
  proof (rule hoare_andThen)
    show "triple (\<lambda>s. states s ?k \<in> - {STOPPED}) (clean_up sv drv decl) (\<lambda>_ s. states s ?k \<in> - {STOPPED}) (\<lambda>_ s. states s ?k \<in> ?inactive)"
      by (rule hoareI) (auto simp: clean_up_def attempt_def bind_def ret_def states_def driver_call_def onlyif_def Let_def
          split: outcome.splits prod.splits sum.splits if_splits)
    show "triple (\<lambda>s. states s ?k \<in> - {STOPPED})
       (andThen (mark_failed_locked env sv exc r)
       (andThen (restart_with env sv (ensure_running_locked env n sv r'))
       (bind (instance_of ?k) (\<lambda>j. raise_if (in_state j = FAILED) exc))))
       (\<lambda>_ s. states s ?k \<in> {RUNNING}) (\<lambda>_ s. states s ?k \<in> ?inactive)"
      by (rule hoare_andThen[OF hoare_conseq[OF mark_failed_triple] hoare_andThen[OF restart_with_triple[OF again] final]]) auto
  qed
  have busy: "triple (\<lambda>s. states s ?k \<in> {STOPPED, FAILED})
      (bind (declaration_of env sv) (\<lambda>decl. bind (driver_of env sv) (\<lambda>drv.
       andThen (transition_locked env ?k STARTING reason None)
      (catch (start_up env n sv drv decl reason) (\<lambda>exc.
         andThen (clean_up sv drv decl)
        (andThen (mark_failed_locked env sv exc [''start_failure''])
        (andThen (restart_with env sv (ensure_running_locked env n sv [''recovery'']))
        (bind (instance_of ?k) (\<lambda>j. raise_if (in_state j = FAILED) exc)))))))))
      (\<lambda>_ s. states s ?k \<in> {RUNNING}) (\<lambda>_ s. states s ?k \<in> ?inactive)"
    by (intro calm_step calm_rules transition_then hoare_catch[OF start_up_triple handler]) (auto simp: ACTIVE_STATES_def)
  show ?case
    unfolding ensure_running_locked.simps Let_def
  proof (intro hoare_instance hoare_if)
    fix i :: instance_state
    show "triple (\<lambda>s. states s ?k \<in> ?inactive \<and> i = instances s ?k) (ret ())
       (\<lambda>_ s. states s ?k \<in> {RUNNING}) (\<lambda>_ s. states s ?k \<in> ?inactive)" if "in_state i \<in> ACTIVE_STATES"
      using that by (intro hoare_ret) (auto simp: states_def)
    show "triple (\<lambda>s. states s ?k \<in> ?inactive \<and> i = instances s ?k)
       (raise (ServiceBusyError [''service '', ?k, '' is '', state_value (in_state i)]))
       (\<lambda>_ s. states s ?k \<in> {RUNNING}) (\<lambda>_ s. states s ?k \<in> ?inactive)"
      by (rule hoare_raise) auto
  next
    fix i :: instance_state assume "in_state i \<notin> ACTIVE_STATES" "in_state i \<notin> {STARTING, STOPPING}"
    then show "triple (\<lambda>s. states s ?k \<in> ?inactive \<and> i = instances s ?k) (bind (declaration_of env sv) (\<lambda>decl. bind (driver_of env sv) (\<lambda>drv.
       andThen (transition_locked env ?k STARTING reason None)
      (catch (start_up env n sv drv decl reason) (\<lambda>exc.
         andThen (clean_up sv drv decl)
        (andThen (mark_failed_locked env sv exc [''start_failure''])
        (andThen (restart_with env sv (ensure_running_locked env n sv [''recovery'']))
        (bind (instance_of ?k) (\<lambda>j. raise_if (in_state j = FAILED) exc)))))))))
      (\<lambda>_ s. states s ?k \<in> {RUNNING}) (\<lambda>_ s. states s ?k \<in> ?inactive)"
      by (intro hoare_pre[OF busy]) (cases "in_state i", auto simp: states_def ACTIVE_STATES_def)
  qed
qed

text \<open>The instance is active already, or the call makes it run; an exception leaves it inactive.\<close>

lemma ensure_active_noop: "states s (sv_id sv) \<in> ACTIVE_STATES \<Longrightarrow> ensure_running_locked env (Suc n) sv reason s = (Ret (), s)"
  by (simp add: states_def instance_of_def prog_defs Let_def)

lemma ensure_outcome:
  assumes "ensure_running_locked env n sv reason s = (r, s')"
  shows "case r of
      Ret x \<Rightarrow> if states s (sv_id sv) \<in> ACTIVE_STATES then s' = s else states s' (sv_id sv) = RUNNING
    | Raise e \<Rightarrow> states s' (sv_id sv) \<notin> ACTIVE_STATES
    | NoFuel \<Rightarrow> True"
proof (cases "states s (sv_id sv) \<in> ACTIVE_STATES")
  case True
  show ?thesis
  proof (cases n)
    case 0
    with assms show ?thesis by (auto simp: no_fuel_def)
  next
    case (Suc m)
    with assms ensure_active_noop[OF True] True show ?thesis by auto
  qed
next
  case False
  with assms hoare_retD[OF ensure_triple, of s sv env n reason] hoare_raiseD[OF ensure_triple, of s sv env n reason]
  show ?thesis by (cases r) auto
qed

lemma start_prefix_calm:
  "calm (if reason = ''admin'' then
          andThen (upd k (\<lambda>i. i\<lparr>in_admin_intent := True\<rparr>))
         (andThen (upd k (\<lambda>i. if in_state i = FAILED then i\<lparr>in_restart_exhausted := False, in_restart_times := []\<rparr> else i))
         (bind (instance_of k) (\<lambda>i. onlyif (get_or (in_holds i) ''admin'' 0 = 0) (add_hold k ''admin''))))
        else bind (instance_of k) (\<lambda>i. onlyif (get_or (in_holds i) reason 0 = 0) (add_hold k reason)))"
  by (intro calm_rules calm_upd) auto

lemma bind_outcome: "bind m f s = (r, s') \<Longrightarrow>
   (\<exists>x t. m s = (Ret x, t) \<and> f x t = (r, s')) \<or> (\<exists>e. m s = (Raise e, s') \<and> r = Raise e) \<or> (m s = (NoFuel, s') \<and> r = NoFuel)"
  by (auto simp: bind_def split: prod.splits outcome.splits)

lemma andThen_outcome: "andThen m n s = (r, s') \<Longrightarrow>
   (\<exists>x t. m s = (Ret x, t) \<and> n t = (r, s')) \<or> (\<exists>e. m s = (Raise e, s') \<and> r = Raise e) \<or> (m s = (NoFuel, s') \<and> r = NoFuel)"
  unfolding andThen_def by (rule bind_outcome)

lemma calmD: "calm m \<Longrightarrow> m s = (r, s') \<Longrightarrow> states s' = states s"
  unfolding calm_def keeps_def by (metis snd_conv)

text \<open>C8: starting a service of the registry. When \<open>start\<close> (or \<open>ensure_running\<close>) returns, the service is
  active: it runs, unless it was active before, and then its state is untouched. When it raises, the
  service is not active, whatever the drivers did and however many restarts were tried.\<close>

theorem start_outcome:
  assumes "map_of (services (registry_of env)) sid = Some sv" and "start env n sid reason s = (r, s')"
  shows "case r of
      Ret v \<Rightarrow> v = to_dict False (instances s' (sv_id sv)) \<and>
        in_state (instances s' (sv_id sv)) =
          (if in_state (instances s (sv_id sv)) \<in> {READY, RUNNING, MAINTENANCE} then in_state (instances s (sv_id sv)) else RUNNING)
    | Raise e \<Rightarrow> in_state (instances s' (sv_id sv)) \<notin> {READY, RUNNING, MAINTENANCE}
    | NoFuel \<Rightarrow> True"
proof -
  let ?k = "sv_id sv"
  let ?pre = "if reason = ''admin'' then
          andThen (upd ?k (\<lambda>i. i\<lparr>in_admin_intent := True\<rparr>))
         (andThen (upd ?k (\<lambda>i. if in_state i = FAILED then i\<lparr>in_restart_exhausted := False, in_restart_times := []\<rparr> else i))
         (bind (instance_of ?k) (\<lambda>i. onlyif (get_or (in_holds i) ''admin'' 0 = 0) (add_hold ?k ''admin''))))
        else bind (instance_of ?k) (\<lambda>i. onlyif (get_or (in_holds i) reason 0 = 0) (add_hold ?k reason))"
  obtain q t where pre: "?pre s = (q, t)" by fastforce
  have q: "q = Ret ()"
    using pre by (auto simp: upd_def instance_of_def add_hold_def persist_def prog_defs split: if_splits)
  have t: "states t = states s"
    using calmD[OF start_prefix_calm pre] .
  obtain e u where ens: "ensure_running_locked env n sv [reason] t = (e, u)" by fastforce
  have "start env n sid reason s = (case e of Ret _ \<Rightarrow> (Ret (to_dict False (instances u ?k)), u) | Raise x \<Rightarrow> (Raise x, u) | NoFuel \<Rightarrow> (NoFuel, u))"
    using pre ens assms(1) unfolding q start_def find_service_def Let_def
    by (simp add: bind_def andThen_def ret_def view_def gets_def split: outcome.splits)
  with assms(2) ensure_outcome[OF ens] t show ?thesis
    by (cases e) (auto simp: states_def fun_eq_iff ACTIVE_STATES_def split: if_splits)
qed

theorem start_outcome_witness:
  "\<exists>s'. start demo_env (Suc (Suc 0)) ''bbs'' ''admin'' demo_start = (Ret (to_dict False (instances s' ''bbs'')), s') \<and>
     in_state (instances s' ''bbs'') = RUNNING"
proof -
  let ?sv = "demo_bbs\<lparr>sv_source := [''services'', ''b.yml'']\<rparr>"
  have sv: "map_of (services (registry_of demo_env)) ''bbs'' = Some ?sv"
    by (simp add: demo_env_def demo_registry_def)
  obtain r s' where run: "start demo_env (Suc (Suc 0)) ''bbs'' ''admin'' demo_start = (r, s')" by fastforce
  then have "r \<noteq> NoFuel \<and> (\<forall>e. r \<noteq> Raise e)"
    by (auto simp: sup_eval registry_eval demo_defs)
  then obtain v where v: "r = Ret v" by (cases r) auto
  have "in_state (instances demo_start ''bbs'') = STOPPED"
    by (simp add: demo_defs)
  with start_outcome[OF sv run] v run show ?thesis
    by (simp add: demo_bbs_def)
qed

section \<open>Stopping\<close>

lemma stop_locked_triple:
  "triple (\<lambda>s. True) (stop_locked env sv reason) (\<lambda>_ s. states s (sv_id sv) = STOPPED)
     (\<lambda>_ s. states s (sv_id sv) \<in> {FAILED, STARTING, STOPPING})"
proof -
  let ?k = "sv_id sv" and ?E = "\<lambda>_ s. states s (sv_id sv) \<in> {FAILED, STARTING, STOPPING}"
  have tail: "triple (\<lambda>s. states s ?k \<in> {STOPPED})
      (bind (now env) (\<lambda>t. andThen (upd ?k (\<lambda>x. x\<lparr>in_last_stop_at := Some t, in_idle_deadline := None\<rparr>)) (persist ?k)))
      (\<lambda>_ s. states s ?k = STOPPED) (\<lambda>_ s. states s ?k \<in> {STOPPING})"
    by (rule hoareI) (auto simp: now_def upd_def persist_def prog_defs states_def Let_def split: prod.splits outcome.splits)
  have body: "triple (\<lambda>s. states s ?k \<in> {STOPPING})
      (bind (driver_of env sv) (\<lambda>drv. bind (declaration_of env sv) (\<lambda>decl.
          andThen (driver_call ?k (d_stop drv) decl)
         (andThen (transition_locked env ?k STOPPED reason None)
         (bind (now env) (\<lambda>t.
          andThen (upd ?k (\<lambda>x. x\<lparr>in_last_stop_at := Some t, in_idle_deadline := None\<rparr>))
          (persist ?k)))))))
      (\<lambda>_ s. states s ?k = STOPPED) (\<lambda>_ s. states s ?k \<in> {STOPPING})"
    by (rule calm_step[OF calm_driver_of subset_refl], rule calm_step[OF calm_declaration_of subset_refl],
        rule calm_then[OF calm_driver_call subset_refl], rule transition_then[OF _ tail]) simp
  have handler: "triple (\<lambda>s. states s ?k \<in> {STOPPING}) (andThen (mark_failed_locked env sv exc [''stop_failure'']) (raise exc))
     (\<lambda>_ s. states s ?k = STOPPED) ?E" for exc
    by (rule hoare_andThen[OF hoare_pre[OF mark_failed_triple]]) (auto intro: hoare_raise)
  have active: "triple (\<lambda>s. states s ?k \<in> ACTIVE_STATES) (andThen (transition_locked env ?k STOPPING reason None)
      (catch (bind (driver_of env sv) (\<lambda>drv. bind (declaration_of env sv) (\<lambda>decl.
          andThen (driver_call ?k (d_stop drv) decl)
         (andThen (transition_locked env ?k STOPPED reason None)
         (bind (now env) (\<lambda>t.
          andThen (upd ?k (\<lambda>x. x\<lparr>in_last_stop_at := Some t, in_idle_deadline := None\<rparr>))
          (persist ?k)))))))
       (\<lambda>exc. andThen (mark_failed_locked env sv exc [''stop_failure'']) (raise exc))))
     (\<lambda>_ s. states s ?k = STOPPED) ?E"
    by (rule transition_then[OF _ hoare_catch[OF body handler]]) (auto simp: ACTIVE_STATES_def)
  have failed: "triple (\<lambda>s. states s ?k \<in> {FAILED}) (transition_locked env ?k STOPPED reason None) (\<lambda>_ s. states s ?k = STOPPED) ?E"
    by (rule transition_ok) simp
  show ?thesis
    unfolding stop_locked_def Let_def
  proof (intro hoare_instance hoare_if)
    fix i :: instance_state
    show "triple (\<lambda>s. True \<and> i = instances s ?k) (persist ?k) (\<lambda>_ s. states s ?k = STOPPED) ?E" if "in_state i = STOPPED"
      unfolding persist_def using that by (intro hoare_modify) (auto simp: states_def)
    show "triple (\<lambda>s. True \<and> i = instances s ?k) (transition_locked env ?k STOPPED reason None) (\<lambda>_ s. states s ?k = STOPPED) ?E"
      if "in_state i = FAILED"
      using that by (intro hoare_pre[OF failed]) (auto simp: states_def)
    show "triple (\<lambda>s. True \<and> i = instances s ?k) (raise (ServiceBusyError [''cannot stop '', ?k, '' while '', state_value (in_state i)]))
      (\<lambda>_ s. states s ?k = STOPPED) ?E" if "in_state i \<noteq> STOPPED" "in_state i \<noteq> FAILED" "in_state i \<notin> ACTIVE_STATES"
      using that by (intro hoare_raise) (cases "in_state i", auto simp: states_def ACTIVE_STATES_def)
  qed (rule hoare_pre[OF active], auto simp: states_def)
qed



end
