(* ===== verification/Supervisor_Promises.thy ===== *)
theory Supervisor_Promises
  imports Supervisor_Contract
begin

text \<open>
  The promises that concern sessions, reconciliation, the tick and maintenance jobs.
\<close>

named_theorems hold_keeps \<open>programs that keep the holds other than recovery\<close>

section \<open>Sessions\<close>

context supervisor_env
begin

lemma acquire_locked:
  assumes inv: "sup_inv init issued F s" and add: "add_session env (sv_id sv) s = (r1, s1)"
    and ens: "ensure_running_locked env n sv reason s1 = (q, s2)"
  obtains x t where "r1 = Ret x" and "x \<notin> fst ` set (F (sv_id sv))"
    and "in_sessions (instances s2 (sv_id sv)) = F (sv_id sv) @ [(x, t)]"
    and "sup_inv init issued F (snd (drop_session (sv_id sv) x s2))"
    and "states (snd (drop_session (sv_id sv) x s2)) = states s2"
proof -
  let ?k = "sv_id sv"
  obtain x t where r: "r1 = Ret x" and fresh: "x \<notin> fst ` set (F ?k)"
    and s1: "sup_inv init issued (F(?k := AList.update x t (F ?k))) s1"
    using add_session_inv[OF inv add] .
  have s2: "sup_inv init issued (F(?k := AList.update x t (F ?k))) s2"
    using keeps_state[OF keeps_ensure_running_locked s1 ens] .
  have "in_sessions (instances s2 ?k) = F ?k @ [(x, t)]"
    using sup_inv_sessions[OF s2, of ?k] fresh by (simp add: update_notin)
  moreover have "sup_inv init issued F (snd (drop_session ?k x s2))"
    using drop_session_inv[OF s2, of x ?k] fresh by (simp add: keys_update pop_fresh)
  moreover have "states (snd (drop_session ?k x s2)) = states s2"
    using calmD[OF calm_holds(5) drop_session_ret[of ?k x s2]] .
  ultimately show thesis using r fresh by (rule that[rotated 2])
qed

end

lemma acquire_session_eq:
  assumes "map_of (services (registry_of env)) sid = Some sv"
  shows "acquire_session env n sid s =
    (if lc_sharing (sv_lifecycle sv) = ''single_session'' \<and> in_sessions (instances s (sv_id sv)) \<noteq> []
     then (Raise (ServiceBusyError [''single_session service '', sv_id sv, '' already has an active session'']), s)
     else (case add_session env (sv_id sv) s of
         (Ret x, s1) \<Rightarrow> (case ensure_running_locked env n sv [''session''] s1 of
             (Ret _, s2) \<Rightarrow> (Ret x, s2)
           | (Raise e, s2) \<Rightarrow> (Raise e, snd (drop_session (sv_id sv) x s2))
           | (NoFuel, s2) \<Rightarrow> (NoFuel, s2))
       | (Raise e, s1) \<Rightarrow> (Raise e, s1)
       | (NoFuel, s1) \<Rightarrow> (NoFuel, s1)))"
proof -
  have undo: "andThen (drop_session k x) (raise e) s2 = (Raise e, snd (drop_session k x s2))" for k x e and s2 :: "'a sup"
    by (subst andThen_def, subst bind_def, subst drop_session_ret) (simp add: raise_def)
  have tail: "andThen (catch (ensure_running_locked env n sv [''session''])
        (\<lambda>exc. andThen (drop_session (sv_id sv) x) (raise exc))) (ret x) s1 =
      (case ensure_running_locked env n sv [''session''] s1 of
         (Ret _, s2) \<Rightarrow> (Ret x, s2)
       | (Raise e, s2) \<Rightarrow> (Raise e, snd (drop_session (sv_id sv) x s2))
       | (NoFuel, s2) \<Rightarrow> (NoFuel, s2))" for x s1
    by (simp add: andThen_catch andThen_raising[OF undo] ret_def split: prod.split outcome.split)
  have sharing: "lc_sharing (case x of None \<Rightarrow> lc | Some mode \<Rightarrow> lc\<lparr>lc_mode := mode\<rparr>) = lc_sharing lc" for x lc
    by (cases x) simp_all
  show ?thesis
    unfolding acquire_session_def find_service_def assms option.case bind_ret_left Let_def instance_of_def lifecycle_of_def
      bind_gets andThen_raise_if sharing bind_def[of "add_session env k" for k] tail by (rule refl)
qed



section \<open>Reconciliation\<close>

text \<open>Starting and restarting touch no hold but \<open>recovery\<close>.\<close>

definition hold_is :: "string \<Rightarrow> string \<Rightarrow> int option \<Rightarrow> 'w sup \<Rightarrow> bool" where
  "hold_is k r c s \<longleftrightarrow> map_of (in_holds (instances s k)) r = c"

lemma hold_upd: "(\<And>i. map_of (in_holds (f i)) r = map_of (in_holds i) r) \<Longrightarrow> keeps (hold_is k r c) (upd j f)"
  unfolding upd_def by (rule keeps_modify) (auto simp: hold_is_def)

lemma hold_transition [hold_keeps]: "keeps (hold_is k r c) (transition_locked env j new reason err)"
  by (rule keepsI) (auto simp: transition_locked_eq hold_is_def Let_def split: prod.split sum.split)

lemma hold_simple [hold_keeps]: "keeps (hold_is k r c) (instance_of j)" "keeps (hold_is k r c) (lifecycle_of sv)"
    "keeps (hold_is k r c) (declaration_of env sv)" "keeps (hold_is k r c) (driver_of env sv)" "keeps (hold_is k r c) (liftS x)"
  by (rule sup_keeps)+

lemma hold_effects [hold_keeps]: "keeps (hold_is k r c) (now env)" "keeps (hold_is k r c) (monotonic env)"
    "keeps (hold_is k r c) (sleep env d)" "keeps (hold_is k r c) (persist j)" "keeps (hold_is k r c) (driver_call j f decl)"
  by (rule keepsI, auto simp: hold_is_def now_def monotonic_def sleep_def persist_def modify_def driver_call_def Let_def split: prod.split)+

lemma hold_recovery [hold_keeps]: "r \<noteq> ''recovery'' \<Longrightarrow> keeps (hold_is k r c) (put_hold j ''recovery'')"
    "r \<noteq> ''recovery'' \<Longrightarrow> keeps (hold_is k r c) (pop_hold j ''recovery'')"
  unfolding put_hold_def pop_hold_def by (rule hold_upd, simp)+

lemma hold_mark_failed [hold_keeps]: "keeps (hold_is k r c) (mark_failed_locked env sv err reason)"
  unfolding mark_failed_locked_def by (intro keeps_rules hold_keeps hold_upd) simp

lemma hold_wait_ready [hold_keeps]: "keeps (hold_is k r c) (wait_ready env sv drv decl rd timeout deadline n)"
  by (induction n) (auto intro!: keeps_rules hold_keeps)

lemma hold_start_up [hold_keeps]: "keeps (hold_is k r c) (start_up env n sv drv decl reason)"
  unfolding start_up_def Let_def by (intro keeps_rules hold_keeps hold_upd) simp

lemma hold_clean_up [hold_keeps]: "keeps (hold_is k r c) (clean_up sv drv decl)"
  unfolding clean_up_def by (intro keeps_rules hold_keeps)

lemma hold_restart_with: "r \<noteq> ''recovery'' \<Longrightarrow> keeps (hold_is k r c) again \<Longrightarrow> keeps (hold_is k r c) (restart_with env sv again)"
  unfolding restart_with_def restart_decision_def Let_def by (intro keeps_rules hold_keeps hold_upd) simp_all

lemma hold_ensure [hold_keeps]: "r \<noteq> ''recovery'' \<Longrightarrow> keeps (hold_is k r c) (ensure_running_locked env n sv reason)"
proof (induction n arbitrary: reason)
  case 0 then show ?case by (simp add: keeps_no_fuel)
next
  case (Suc n)
  then show ?case
    unfolding ensure_running_locked.simps Let_def
    by (intro keeps_rules hold_keeps hold_restart_with) simp_all
qed

lemma hold_reconcile_state [hold_keeps]: "r \<noteq> ''recovery'' \<Longrightarrow> keeps (hold_is k r c) (reconcile_state env n sv alive)"
  unfolding reconcile_state_def adopt_def restart_after_failure_locked_def Let_def run_all.simps
  by (intro keeps_rules hold_keeps hold_restart_with) simp_all

lemma hold_converge [hold_keeps]: "r \<noteq> ''recovery'' \<Longrightarrow> keeps (hold_is k r c) (converge env n sv)"
  unfolding converge_def by (intro keeps_rules hold_keeps) simp_all

lemma hold_adopt [hold_keeps]: "keeps (hold_is k r c) (adopt env j)"
  unfolding adopt_def run_all.simps by (intro keeps_rules hold_keeps)

lemma hold_schedule_idle [hold_keeps]: "keeps (hold_is k r c) (schedule_idle_locked env sv)"
  unfolding schedule_idle_locked_def by (intro keeps_rules hold_keeps hold_upd) simp

text \<open>The states the comparison with the driver and the convergence lead to.\<close>

abbreviation anything :: "string \<Rightarrow> 'e \<Rightarrow> 'w sup \<Rightarrow> bool" where
  "anything k e s \<equiv> states s k \<in> UNIV"

lemma to_any: "hoare c P m Q E \<Longrightarrow> hoare c P m Q (anything k)"
  by (erule hoare_conseq) simp_all

lemma adopt_triple: "triple (\<lambda>s. states s k \<in> {STOPPED, FAILED}) (adopt env k) (\<lambda>_ s. states s k \<in> {RUNNING}) (anything k)"
proof -
  have last: "triple (\<lambda>s. states s k \<in> {READY}) (andThen (transition_locked env k RUNNING r None) (ret ()))
      (\<lambda>_ s. states s k \<in> {RUNNING}) (anything k)" for r
    by (rule transition_then) (auto intro: hoare_ret)
  show ?thesis
    unfolding adopt_def run_all.simps by (rule transition_then[OF _ transition_then[OF _ last]]) auto
qed

lemma mark_failed_any: "triple (\<lambda>s. states s (sv_id sv) \<in> - {STOPPED}) (mark_failed_locked env sv err reason)
   (\<lambda>_ s. states s (sv_id sv) \<in> {FAILED}) (anything (sv_id sv))"
  by (rule hoare_conseq[OF mark_failed_triple]) simp_all

lemma restart_triple: "triple (\<lambda>s. states s (sv_id sv) \<in> {FAILED}) (restart_after_failure_locked env n sv)
   (\<lambda>_ s. states s (sv_id sv) \<in> {FAILED, RUNNING}) (anything (sv_id sv))"
  unfolding restart_after_failure_locked_def
  by (rule to_any[OF restart_with_triple], rule hoare_pre[OF ensure_triple]) (simp add: ACTIVE_STATES_def)

lemma transition_to: "(\<And>x. x \<in> X \<Longrightarrow> edge x new) \<Longrightarrow> new \<in> Y
    \<Longrightarrow> triple (\<lambda>s. states s k \<in> X) (transition_locked env k new reason err) (\<lambda>_ s. states s k \<in> Y) (anything k)"
  by (rule hoare_conseq[OF transition_ok[of X new k env reason err "anything k"]]) simp_all

lemma reconcile_state_triple:
  "triple (\<lambda>_. True) (reconcile_state env n sv alive)
     (\<lambda>_ s. states s (sv_id sv) \<in> {STOPPED, FAILED, RUNNING}) (anything (sv_id sv))"
proof -
  let ?k = "sv_id sv" and ?Q = "\<lambda>_ s. states s (sv_id sv) \<in> {STOPPED, FAILED, RUNNING}"
  have adoption: "triple (\<lambda>s. states s ?k \<in> {STARTING, READY} \<and> i = instances s ?k)
      (andThen (onlyif (in_state i = STARTING) (transition_locked env ?k READY r None)) (transition_locked env ?k RUNNING q None))
      ?Q (anything ?k)" for i r q
  proof (rule hoare_andThen)
    show "triple (\<lambda>s. states s ?k \<in> {STARTING, READY} \<and> i = instances s ?k)
        (onlyif (in_state i = STARTING) (transition_locked env ?k READY r None)) (\<lambda>_ s. states s ?k \<in> {READY}) (anything ?k)"
      by (rule hoare_onlyif, rule hoare_pre[OF transition_to[of "{STARTING}"]]) (auto simp: states_def)
  qed (rule transition_to, auto)
  have reset: "triple (\<lambda>s. states s ?k \<in> - {STOPPED}) (andThen (mark_failed_locked env sv e r) (transition_locked env ?k STOPPED q None)) ?Q (anything ?k)" for e r q
    by (rule hoare_andThen[OF mark_failed_any transition_to]) auto
  have lost: "triple (\<lambda>s. states s ?k \<in> - {STOPPED}) (andThen (mark_failed_locked env sv e r)
      (bind (instance_of ?k) (\<lambda>j. if active_holds j \<noteq> 0 then restart_after_failure_locked env n sv
         else transition_locked env ?k STOPPED q None))) ?Q (anything ?k)" for e r q
  proof (rule hoare_andThen[OF mark_failed_any], intro hoare_instance hoare_if)
    show "triple (\<lambda>s. states s ?k \<in> {FAILED} \<and> j = instances s ?k) (restart_after_failure_locked env n sv) ?Q (anything ?k)" for j
      by (rule hoare_conseq[OF restart_triple]) auto
    show "triple (\<lambda>s. states s ?k \<in> {FAILED} \<and> j = instances s ?k) (transition_locked env ?k STOPPED q None) ?Q (anything ?k)" for j
      by (rule hoare_pre[OF transition_to[of "{FAILED}"]]) auto
  qed
  show ?thesis
    unfolding reconcile_state_def Let_def
  proof (intro hoare_instance hoare_if, goal_cases)
    case (1 i) then show ?case by (intro hoare_pre[OF transition_to[of "{STOPPING}"]]) (auto simp: states_def)
  next
    case (2 i) then show ?case by (intro hoare_pre[OF adoption]) (auto simp: states_def STALE_STATES_def)
  next
    case (3 i) then show ?case by (intro hoare_pre[OF reset]) (auto simp: states_def STALE_STATES_def)
  next
    case (4 i) then show ?case by (intro hoare_pre[OF lost]) (auto simp: states_def)
  next
    case (5 i) then show ?case by (intro hoare_pre[OF transition_to[of "{MAINTENANCE}"]]) (auto simp: states_def)
  next
    case (6 i) then show ?case by (intro hoare_conseq[OF adopt_triple]) (auto simp: states_def)
  next
    case (7 i) then show ?case by (intro hoare_ret) (cases "in_state i"; auto simp: states_def STALE_STATES_def)
  qed
qed

definition settled :: "string \<Rightarrow> 'w sup \<Rightarrow> bool" where
  "settled k s \<longleftrightarrow> states s k \<in> {FAILED, RUNNING} \<or> states s k = STOPPED \<and> active_holds (instances s k) = 0"

lemma converge_triple:
  "triple (\<lambda>s. states s (sv_id sv) \<in> {STOPPED, FAILED, RUNNING}) (converge env n sv) (\<lambda>_. settled (sv_id sv)) (anything (sv_id sv))"
proof -
  let ?k = "sv_id sv"
  have run: "triple (\<lambda>s. states s ?k \<in> {STOPPED, FAILED} \<and> i = instances s ?k) (ensure_running_locked env n sv r) (\<lambda>_. settled ?k) (anything ?k)" for i r
    by (rule hoare_conseq[OF ensure_triple]) (auto simp: settled_def ACTIVE_STATES_def)
  have wait: "triple (\<lambda>s. states s ?k \<in> {FAILED}) (bind (now env) (\<lambda>t. bind (liftS (at_least t d)) (\<lambda>go.
      onlyif go (ensure_running_locked env n sv r)))) (\<lambda>_. settled ?k) (anything ?k)" for d r
  proof (intro calm_step calm_rules hoare_onlyif)
    show "triple (\<lambda>s. states s ?k \<in> {FAILED}) (ensure_running_locked env n sv r) (\<lambda>_. settled ?k) (anything ?k)"
      by (rule hoare_conseq[OF ensure_triple]) (auto simp: settled_def ACTIVE_STATES_def)
  qed (auto simp: settled_def)
  show ?thesis
    unfolding converge_def
  proof (intro hoare_instance hoare_if, goal_cases)
    case (1 i) then show ?case by (intro hoare_pre[OF run]) (auto simp: states_def)
  next
    case (2 i)
    show ?case
    proof (cases "in_next_restart_at i")
      case None
      show ?thesis unfolding None option.case by (rule hoare_pre[OF run]) (use 2 in \<open>auto simp: states_def\<close>)
    next
      case (Some d)
      show ?thesis unfolding Some option.case by (rule hoare_pre[OF wait]) (use 2 in \<open>auto simp: states_def\<close>)
    qed
  next
    case (3 i) then show ?case by (intro hoare_ret) (auto simp: states_def settled_def)
  qed
qed

lemma settled_after: "keeps (settled k) (schedule_idle_locked env sv)" "keeps (settled k) (persist k)"
proof -
  have idle: "keeps (settled k) (upd j (\<lambda>x. x\<lparr>in_idle_deadline := d\<rparr>))" for d j
    unfolding upd_def by (rule keeps_modify) (auto simp: settled_def states_def active_holds_def)
  have p: "keeps (settled k) (persist j)" and n: "keeps (settled k) (now env)" for j
    by (rule keepsI, auto simp: settled_def states_def persist_def now_def modify_def Let_def split: prod.split)+
  show "keeps (settled k) (schedule_idle_locked env sv)"
    unfolding schedule_idle_locked_def by (intro keeps_rules sup_keeps idle p n)
  show "keeps (settled k) (persist k)" by (rule p)
qed

lemma reconcile_triple: "triple (\<lambda>_. True) (reconcile_locked env n sv) (\<lambda>_. settled (sv_id sv)) (anything (sv_id sv))"
proof -
  let ?k = "sv_id sv" and ?three = "\<lambda>s. states s (sv_id sv) \<in> {STOPPED, FAILED, RUNNING}"
  have any: "triple (\<lambda>_. True) m (\<lambda>_ _. True) (anything ?k)" for m :: "('w, 'b) sprog"
    by (simp add: hoare_def split: prod.split outcome.split)
  have adopt_failed: "triple ?three (bind (instance_of ?k) (\<lambda>i. onlyif (in_state i = FAILED \<and> alive) (adopt env ?k)))
      (\<lambda>_. ?three) (anything ?k)" for alive
    by (intro hoare_instance hoare_onlyif) (rule hoare_conseq[OF adopt_triple], auto simp: states_def)
  have rest: "triple (settled ?k) (andThen (schedule_idle_locked env sv) (persist ?k)) (\<lambda>_. settled ?k) (anything ?k)"
    by (rule to_any[OF triple_of_keeps]) (intro keeps_rules settled_after)
  show ?thesis
    unfolding reconcile_locked_def Let_def
    by (rule hoare_andThen[OF any hoare_bind[OF any hoare_bind[OF any hoare_bind[OF any
        hoare_andThen[OF reconcile_state_triple hoare_andThen[OF adopt_failed hoare_andThen[OF converge_triple rest]]]]]]])
qed

lemma reconcile_holds_result:
  "\<exists>t. reconcile_holds sv s = (Ret (), t) \<and>
     ((case map_of (overrides s) (sv_id sv) of None \<Rightarrow> lc_mode (sv_lifecycle sv) | Some m \<Rightarrow> m) = ''always_on''
        \<longrightarrow> hold_is (sv_id sv) ''always_on'' (Some 1) t) \<and>
     (in_admin_intent (instances s (sv_id sv)) \<longrightarrow> hold_is (sv_id sv) ''admin'' (Some 1) t)"
  by (simp add: reconcile_holds_def lifecycle_of_def put_hold_def pop_hold_def upd_def instance_of_def hold_is_def prog_defs Let_def
      split: option.split)

lemma hold_kept: "r \<noteq> ''recovery'' \<Longrightarrow> keeps (hold_is k r c)
   (bind (driver_of env sv) (\<lambda>drv. bind (declaration_of env sv) (\<lambda>decl.
     bind (driver_call (sv_id sv) (d_status drv) decl) (\<lambda>alive.
     andThen (reconcile_state env n sv alive)
    (andThen (bind (instance_of (sv_id sv)) (\<lambda>i. onlyif (in_state i = FAILED \<and> alive) (adopt env (sv_id sv))))
    (andThen (converge env n sv)
    (andThen (schedule_idle_locked env sv)
     (persist (sv_id sv)))))))))"
  by (intro keeps_rules hold_keeps)

lemma hold_nonempty: "hold_is k r (Some c) s \<Longrightarrow> in_holds (instances s k) \<noteq> []"
  by (auto simp: hold_is_def)

text \<open>C5: reconciliation settles a service. In any run, when reconciling a service returns, it runs or has
  failed, or it is stopped with no hold left; transient states are gone. A service whose effective mode is
  always-on, or that an administrator asked for, is never left stopped.\<close>

theorem reconcile_outcome:
  assumes env: "supervisor_env env issued" and reach: "(sup_step env)\<^sup>*\<^sup>* (initial empty_store ov w) s"
    and run: "reconcile_locked env n sv s = (Ret (), s')"
  defines "mode \<equiv> case map_of (overrides s) (sv_id sv) of None \<Rightarrow> lc_mode (sv_lifecycle sv) | Some m \<Rightarrow> m"
  shows "(in_state (instances s' (sv_id sv)) \<in> {RUNNING, FAILED} \<or>
      in_state (instances s' (sv_id sv)) = STOPPED \<and> in_holds (instances s' (sv_id sv)) = []) \<and>
    (mode = ''always_on'' \<or> in_admin_intent (instances s (sv_id sv)) \<longrightarrow> in_state (instances s' (sv_id sv)) \<in> {RUNNING, FAILED})"
proof -
  let ?k = "sv_id sv"
  have inv: "sup_inv (\<lambda>_. STOPPED) issued (\<lambda>k. in_sessions (instances s k)) s"
    using supervisor_env.steps_ok[OF env reach new_supervisor_ok] by (simp add: sup_ok_def)
  have "holds_ok (instances s' ?k)"
    using sup_inv_holds[OF keeps_state[OF supervisor_env.keeps_reconcile_locked[OF env] inv run]] .
  moreover have "settled ?k s'"
    using hoare_retD[OF reconcile_triple TrueI run] .
  ultimately have settled: "in_state (instances s' ?k) \<in> {RUNNING, FAILED} \<or>
      in_state (instances s' ?k) = STOPPED \<and> in_holds (instances s' ?k) = []"
    by (auto simp: settled_def states_def holds_zero)
  obtain t where t: "reconcile_holds sv s = (Ret (), t)"
    and holds: "mode = ''always_on'' \<Longrightarrow> hold_is ?k ''always_on'' (Some 1) t"
      "in_admin_intent (instances s ?k) \<Longrightarrow> hold_is ?k ''admin'' (Some 1) t"
    using reconcile_holds_result[of sv s] unfolding mode_def by blast
  have kept: "hold_is ?k r c t \<Longrightarrow> hold_is ?k r c s'" if "r \<noteq> ''recovery''" for r c
    using keeps_state[OF hold_kept[OF that] _ run[unfolded reconcile_locked_def Let_def andThen_returning[of "reconcile_holds sv" s "()" t, OF t]]] .
  have "in_holds (instances s' ?k) \<noteq> []" if "mode = ''always_on'' \<or> in_admin_intent (instances s ?k)"
    using that
  proof
    assume "mode = ''always_on''"
    then have "hold_is ?k ''always_on'' (Some 1) s'"
      by (intro kept holds) simp_all
    then show ?thesis by (rule hold_nonempty)
  next
    assume "in_admin_intent (instances s ?k)"
    then have "hold_is ?k ''admin'' (Some 1) s'"
      by (intro kept holds) simp_all
    then show ?thesis by (rule hold_nonempty)
  qed
  with settled show ?thesis by auto
qed

theorem reconcile_outcome_witness:
  "\<exists>s'. reconcile_locked demo_env (Suc (Suc 0)) (demo_bbs\<lparr>sv_source := [''services'', ''b.yml'']\<rparr>)
     (snd (set_lifecycle_mode demo_env ''bbs'' ''always_on'' demo_start)) = (Ret (), s') \<and>
     in_state (instances s' ''bbs'') \<in> {RUNNING, FAILED}"
proof -
  let ?sv = "demo_bbs\<lparr>sv_source := [''services'', ''b.yml'']\<rparr>"
  let ?s = "snd (set_lifecycle_mode demo_env ''bbs'' ''always_on'' demo_start)"
  have reach: "(sup_step demo_env)\<^sup>*\<^sup>* (initial empty_store [] fake_start_world) ?s"
    unfolding demo_start_def by (rule r_into_rtranclp) (rule step_mode)
  obtain r s' where run: "reconcile_locked demo_env (Suc (Suc 0)) ?sv ?s = (r, s')" by fastforce
  then have r: "r = Ret ()"
    by (auto simp: reconcile_locked_def reconcile_holds_def reconcile_state_def converge_def adopt_def set_lifecycle_mode_def
        sup_eval registry_eval demo_defs)
  have "overrides ?s = [(''bbs'', ''always_on'')]"
    by (simp add: set_lifecycle_mode_def sup_eval registry_eval demo_defs)
  with reconcile_outcome[OF demo_env_ok reach run[unfolded r]] run r show ?thesis
    by (simp add: demo_bbs_def)
qed

end
