(* ===== verification/Supervisor_Restarts.thy ===== *)
theory Supervisor_Restarts
  imports Supervisor_Hazards
begin

text \<open>
  The recursion between \<open>_ensure_running_locked\<close> and \<open>_restart_after_failure_locked\<close>, and the poll loop
  inside it, on a clock that only sleeping advances. The restart budget bounds the recursion when
  all the restarts it allows fit into its window; when a single startup takes longer than the
  window, no number of restarts ever exhausts it.
\<close>

named_theorems clock_steady \<open>programs that take no time and leave the restart times alone\<close>

section \<open>Clocks that only sleeping advances\<close>

definition instant :: "('w \<Rightarrow> bool) \<Rightarrow> ('w \<Rightarrow> int) \<Rightarrow> ('w, 'a) driver_call \<Rightarrow> bool" where
  "instant sync elapsed f \<longleftrightarrow> (\<forall>i decl w r rt w'. f i decl w = (r, rt, w') \<longrightarrow> sync w \<longrightarrow> sync w' \<and> elapsed w' = elapsed w)"

definition driver_instant :: "('w \<Rightarrow> bool) \<Rightarrow> ('w \<Rightarrow> int) \<Rightarrow> 'w driver \<Rightarrow> bool" where
  "driver_instant sync elapsed d \<longleftrightarrow> instant sync elapsed (d_start d) \<and> instant sync elapsed (d_stop d) \<and> instant sync elapsed (d_status d) \<and>
     (\<forall>rd. instant sync elapsed (d_is_ready d rd)) \<and> (\<forall>jb. instant sync elapsed (d_run_maintenance d jb))"

text \<open>The startup timeout, the restart limit and the restart window of a service, with their defaults.\<close>

definition startup_time :: "service \<Rightarrow> int" where
  "startup_time sv = seconds (default 60 (lc_startup_timeout_seconds (sv_lifecycle sv)))"

definition restart_limit :: "service \<Rightarrow> int" where
  "restart_limit sv = default 3 (lc_max_restarts (sv_lifecycle sv))"

definition restart_window :: "service \<Rightarrow> int" where
  "restart_window sv = seconds (default 60 (lc_restart_window_seconds (sv_lifecycle sv)))"

text \<open>Any outcome will do.\<close>

abbreviation whatever :: "'x \<Rightarrow> 'w sup \<Rightarrow> bool" where
  "whatever x s \<equiv> True"

locale timed_env =
  fixes env :: "'w env" and sync :: "'w \<Rightarrow> bool" and elapsed :: "'w \<Rightarrow> int" and origin :: int
  assumes now_time: "clock_now env w = (t, w') \<Longrightarrow> sync w \<Longrightarrow> aware t \<and> utc t = origin + elapsed w \<and> sync w' \<and> elapsed w' = elapsed w"
    and monotonic_time: "clock_monotonic env w = (u, w') \<Longrightarrow> sync w \<Longrightarrow> u = elapsed w \<and> sync w' \<and> elapsed w' = elapsed w"
    and sleep_time: "0 \<le> d \<Longrightarrow> sync w \<Longrightarrow> sync (clock_sleep env d w) \<and> elapsed (clock_sleep env d w) = elapsed w + d"
    and drivers_instant: "driver_resolver env sv = Inr drv \<Longrightarrow> driver_instant sync elapsed drv"
    and poll_positive: "0 < poll_interval env"

text \<open>The restart times of service \<open>k\<close>, and the time, in a world whose two clocks agree.\<close>

definition clk :: "('w \<Rightarrow> bool) \<Rightarrow> ('w \<Rightarrow> int) \<Rightarrow> string \<Rightarrow> datetime list \<Rightarrow> int \<Rightarrow> 'w sup \<Rightarrow> bool" where
  "clk sync elapsed k R e s \<longleftrightarrow> in_restart_times (instances s k) = R \<and> elapsed (world s) = e \<and> sync (world s)"

lemma clk_upd: "(\<And>i. in_restart_times (f i) = in_restart_times i) \<Longrightarrow> steady (clk sync elapsed k R e) (upd j f)"
  unfolding upd_def by (rule steady_modify) (auto simp: clk_def)

lemma clk_pure [clock_steady]: "steady I (instance_of j)" "steady I (lifecycle_of sv)"
    "steady I (find_service env k)" "steady I (view j)"
  by (auto simp: steady_def hoare_def instance_of_def lifecycle_of_def find_service_def view_def prog_defs split: option.splits)

lemma clk_lookups [clock_steady]: "steady I (declaration_of env sv)" "steady I (driver_of env sv)" "steady I (liftS x)"
  by (auto simp: steady_def hoare_def declaration_of_def driver_of_def liftS_def prog_defs split: sum.splits)

lemma clk_persist [clock_steady]: "steady (clk sync elapsed k R e) (persist j)"
  unfolding persist_def by (rule steady_modify) (simp add: clk_def)

lemma clk_holds [clock_steady]: "steady (clk sync elapsed k R e) (put_hold j r)" "steady (clk sync elapsed k R e) (pop_hold j r)"
  unfolding put_hold_def pop_hold_def by (rule clk_upd, simp)+

lemma clk_driver_call: "instant sync elapsed f \<Longrightarrow> steady (clk sync elapsed k R e) (driver_call j f decl)"
  by (auto simp: steady_def hoare_def clk_def driver_call_def instant_def Let_def split: prod.splits sum.splits)

lemma filter_mono_length: "(\<And>x. P x \<Longrightarrow> Q x) \<Longrightarrow> length (filter P xs) \<le> length (filter Q xs)"
  by (induction xs) auto

lemma recent_filter: "recent t window xs = Inr ys \<Longrightarrow> ys = filter (\<lambda>x. utc t - utc x \<le> window) xs"
  by (induction xs arbitrary: ys) (auto simp: time_between_def split: if_splits)

context timed_env
begin

lemma clk_driver [clock_steady]:
  "driver_instant sync elapsed drv \<Longrightarrow> steady (clk sync elapsed k R e) (driver_call j (d_start drv) decl)"
  "driver_instant sync elapsed drv \<Longrightarrow> steady (clk sync elapsed k R e) (driver_call j (d_stop drv) decl)"
  "driver_instant sync elapsed drv \<Longrightarrow> steady (clk sync elapsed k R e) (driver_call j (d_status drv) decl)"
  "driver_instant sync elapsed drv \<Longrightarrow> steady (clk sync elapsed k R e) (driver_call j (d_is_ready drv rd) decl)"
  by (rule clk_driver_call, simp add: driver_instant_def)+

lemma clk_now [clock_steady]: "steady (clk sync elapsed k R e) (now env)"
  and clk_monotonic [clock_steady]: "steady (clk sync elapsed k R e) (monotonic env)"
  by (auto simp: steady_def hoare_def clk_def now_def monotonic_def Let_def now_time monotonic_time split: prod.splits)

lemma clk_transition [clock_steady]: "steady (clk sync elapsed k R e) (transition_locked env j new reason err)"
  by (auto simp: steady_def hoare_def clk_def transition_locked_eq Let_def dest: now_time split: prod.splits sum.splits)

lemma clk_mark_failed [clock_steady]: "steady (clk sync elapsed k R e) (mark_failed_locked env sv err reason)"
  unfolding mark_failed_locked_def by (intro steady_rules clock_steady clk_upd) simp

lemma clk_clean_up [clock_steady]: "driver_instant sync elapsed drv \<Longrightarrow> steady (clk sync elapsed k R e) (clean_up sv drv decl)"
  unfolding clean_up_def by (intro steady_rules clock_steady)

text \<open>Reading a clock gives the time.\<close>

lemma read_monotonic: "total (clk sync elapsed k R e) (monotonic env) (\<lambda>t s. t = e \<and> clk sync elapsed k R e s) E"
  by (auto simp: hoare_def clk_def monotonic_def Let_def dest: monotonic_time split: prod.splits)

lemma read_now: "total (clk sync elapsed k R e) (now env) (\<lambda>t s. aware t \<and> utc t = origin + e \<and> clk sync elapsed k R e s) E"
  by (auto simp: hoare_def clk_def now_def Let_def dest: now_time split: prod.splits)

lemma sleep_clk: "0 \<le> d \<Longrightarrow> total (clk sync elapsed k R e) (sleep env d) (\<lambda>_. clk sync elapsed k R (e + d)) E"
  by (simp add: hoare_def clk_def sleep_def modify_def sleep_time)

section \<open>The poll loop\<close>

text \<open>At some time between two bounds.\<close>

definition clk_within :: "string \<Rightarrow> datetime list \<Rightarrow> int \<Rightarrow> int \<Rightarrow> 'w sup \<Rightarrow> bool" where
  "clk_within k R a b s \<longleftrightarrow> (\<exists>e. a \<le> e \<and> e \<le> b \<and> clk sync elapsed k R e s)"

lemma clk_withinI: "clk sync elapsed k R e s \<Longrightarrow> a \<le> e \<Longrightarrow> e \<le> b \<Longrightarrow> clk_within k R a b s"
  by (auto simp: clk_within_def)

lemma clk_widen: "clk_within k R a b s \<Longrightarrow> a' \<le> a \<Longrightarrow> clk_within k R a' b s"
  unfolding clk_within_def by (meson order_trans)

lemma hoare_pure: "(a \<Longrightarrow> hoare c P m Q E) \<Longrightarrow> hoare c (\<lambda>s. a \<and> P s) m Q E"
  by (cases a) (simp_all add: hoare_false)

lemma total_of_steady: "steady I m \<Longrightarrow> (\<And>x s. I s \<Longrightarrow> Q x s) \<Longrightarrow> (\<And>e s. I s \<Longrightarrow> E e s) \<Longrightarrow> total I m Q E"
  by (rule hoare_conseq[OF steady_total])

lemma steady_step: "steady I m \<Longrightarrow> (\<And>e s. I s \<Longrightarrow> E e s) \<Longrightarrow> (\<And>x. total I (f x) Q E) \<Longrightarrow> total I (bind m f) Q E"
  by (rule hoare_bind[where R = "\<lambda>_. I", OF total_of_steady]) auto

lemma steady_then: "steady I m \<Longrightarrow> (\<And>e s. I s \<Longrightarrow> E e s) \<Longrightarrow> total I n Q E \<Longrightarrow> total I (andThen m n) Q E"
  unfolding andThen_def by (rule steady_step)

text \<open>The loop returns or raises by its deadline; its fuel is enough for the polls that fit.\<close>

lemma wait_ready_total:
  assumes drv: "driver_instant sync elapsed drv" and fuel: "n \<noteq> 0" "deadline - e \<le> (int n - 1) * poll_interval env"
    and b: "e \<le> b" "deadline \<le> b"
  shows "total (clk sync elapsed k R e) (wait_ready env sv drv decl rd timeout deadline n)
     (\<lambda>_. clk_within k R e b) (\<lambda>_. clk_within k R e b)"
  using fuel b
proof (induction n arbitrary: e)
  case 0 then show ?case by simp
next
  case (Suc n)
  let ?W = "\<lambda>_. clk_within k R e b"
  have here: "clk sync elapsed k R e s \<Longrightarrow> clk_within k R e b s" for s
    using Suc.prems by (auto intro: clk_withinI)
  have poll: "total (clk sync elapsed k R e)
     (andThen (sleep env (min (poll_interval env) (max 0 (deadline - e)))) (wait_ready env sv drv decl rd timeout deadline n)) ?W ?W"
    if late: "e < deadline"
  proof (rule hoare_andThen)
    let ?d = "min (poll_interval env) (max 0 (deadline - e))"
    show "total (clk sync elapsed k R e) (sleep env ?d) (\<lambda>_. clk sync elapsed k R (e + ?d)) ?W"
      using poll_positive by (intro sleep_clk) simp
    have "int n \<noteq> 0"
      using Suc.prems(2) late by (cases "n = 0") auto
    moreover have "deadline - (e + ?d) \<le> (int n - 1) * poll_interval env"
    proof (cases "poll_interval env \<le> deadline - e")
      case True
      with late Suc.prems(2) show ?thesis by (simp add: algebra_simps)
    next
      case False
      with late poll_positive \<open>int n \<noteq> 0\<close> show ?thesis by simp
    qed
    ultimately have "total (clk sync elapsed k R (e + ?d)) (wait_ready env sv drv decl rd timeout deadline n)
        (\<lambda>_. clk_within k R (e + ?d) b) (\<lambda>_. clk_within k R (e + ?d) b)"
      using Suc.prems poll_positive late by (intro Suc.IH) auto
    then show "total (clk sync elapsed k R (e + ?d)) (wait_ready env sv drv decl rd timeout deadline n) ?W ?W"
      by (rule hoare_conseq) (use poll_positive in \<open>auto intro: clk_widen\<close>)
  qed
  have late: "total (clk sync elapsed k R e) (bind (monotonic env) (\<lambda>t'.
      andThen (sleep env (min (poll_interval env) (max 0 (deadline - t')))) (wait_ready env sv drv decl rd timeout deadline n))) ?W ?W"
    if "\<not> deadline \<le> e"
    by (rule hoare_bind[OF read_monotonic hoare_pure]) (use poll that in simp)
  have step: "total (\<lambda>s. t = e \<and> clk sync elapsed k R e s) (if deadline \<le> t then raise err
      else bind (monotonic env) (\<lambda>t'. andThen (sleep env (min (poll_interval env) (max 0 (deadline - t'))))
         (wait_ready env sv drv decl rd timeout deadline n))) ?W ?W" for t err
    by (intro hoare_pure hoare_if hoare_raise) (auto simp: here late)
  show ?case
    unfolding wait_ready.simps
    by (rule steady_step[OF clk_driver(4)[OF drv]], simp add: here, rule hoare_if, rule hoare_ret, simp add: here,
        rule hoare_bind[OF read_monotonic step])
qed

section \<open>One startup attempt\<close>

lemma steady_within: "(\<And>e. steady (clk sync elapsed k R e) m) \<Longrightarrow> steady (clk_within k R a b) m"
proof -
  assume m: "\<And>e. steady (clk sync elapsed k R e) m"
  have "total (\<lambda>s. \<exists>e. a \<le> e \<and> e \<le> b \<and> clk sync elapsed k R e s) m (\<lambda>_. clk_within k R a b) (\<lambda>_. clk_within k R a b)"
    by (intro hoare_ex hoare_pure total_of_steady[OF m]) (auto intro: clk_withinI)
  then show ?thesis unfolding steady_def by (rule hoare_pre) (simp add: clk_within_def)
qed

text \<open>The lifecycle a method sees differs from the declared one at most in its mode.\<close>

definition same_but_mode :: "service \<Rightarrow> lifecycle \<Rightarrow> bool" where
  "same_but_mode sv lc \<longleftrightarrow> (\<exists>m. lc = (sv_lifecycle sv)\<lparr>lc_mode := m\<rparr>)"

lemma read_lifecycle: "total I (lifecycle_of sv) (\<lambda>lc s. same_but_mode sv lc \<and> I s) E"
proof -
  have "same_but_mode sv (case o' of None \<Rightarrow> sv_lifecycle sv | Some m \<Rightarrow> (sv_lifecycle sv)\<lparr>lc_mode := m\<rparr>)" for o'
    unfolding same_but_mode_def by (cases o') (auto intro: exI[of _ "lc_mode (sv_lifecycle sv)"])
  then show ?thesis by (simp add: lifecycle_of_def hoare_def prog_defs)
qed

lemma same_but_mode_simps:
  assumes "same_but_mode sv lc"
  shows "lc_startup_timeout_seconds lc = lc_startup_timeout_seconds (sv_lifecycle sv)"
    "lc_restart lc = lc_restart (sv_lifecycle sv)" "lc_max_restarts lc = lc_max_restarts (sv_lifecycle sv)"
    "lc_restart_window_seconds lc = lc_restart_window_seconds (sv_lifecycle sv)"
    "lc_restart_backoff_us lc = lc_restart_backoff_us (sv_lifecycle sv)"
  using assms by (auto simp: same_but_mode_def)

lemma start_up_total:
  assumes drv: "driver_instant sync elapsed drv" and fuel: "m \<noteq> 0" "startup_time sv \<le> (int m - 1) * poll_interval env"
    and T: "0 \<le> startup_time sv"
  shows "total (clk sync elapsed (sv_id sv) R e) (start_up env m sv drv decl reason)
     (\<lambda>_. clk_within (sv_id sv) R e (e + startup_time sv)) (\<lambda>_. clk_within (sv_id sv) R e (e + startup_time sv))"
proof -
  let ?k = "sv_id sv" and ?T = "startup_time sv"
  let ?W = "clk_within ?k R e (e + ?T)"
  have here: "clk sync elapsed ?k R e s \<Longrightarrow> ?W s" for s
    using T by (auto intro: clk_withinI)
  have after: "total ?W
    (andThen (transition_locked env ?k READY reason None)
    (andThen (transition_locked env ?k RUNNING reason None)
    (bind (now env) (\<lambda>t. andThen (upd ?k (\<lambda>i. i\<lparr>in_last_start_at := Some t, in_last_failure := None, in_next_restart_at := None,
                             in_restart_exhausted := False\<rparr>)) (persist ?k))))) (\<lambda>_. ?W) (\<lambda>_. ?W)"
    by (rule steady_total) (intro steady_within steady_rules clock_steady clk_upd, simp)
  have wait: "total (clk sync elapsed ?k R e) (wait_ready env sv drv decl rd ?T (e + ?T) m) (\<lambda>_. ?W) (\<lambda>_. ?W)" for rd
    using fuel T by (intro wait_ready_total[OF drv]) auto
  note cont = hoare_andThen[OF wait after]
  show ?thesis
    unfolding start_up_def Let_def
    by (rule steady_then[OF clk_driver(1)[OF drv]], simp add: here, rule hoare_bind[OF read_lifecycle hoare_pure],
        rule hoare_bind[OF read_monotonic hoare_pure])
      (simp only: same_but_mode_simps startup_time_def[symmetric] cont)
qed

section \<open>The restart budget\<close>

text \<open>How many restarts are not older than a given age at time \<open>e\<close>.\<close>

definition young :: "int \<Rightarrow> datetime list \<Rightarrow> int \<Rightarrow> nat" where
  "young age R e = length (filter (\<lambda>x. origin + e - utc x \<le> age) R)"

lemma young_later: "e \<le> e' \<Longrightarrow> e' \<le> e + d \<Longrightarrow> young a R e \<le> young (a + d) R e'"
  unfolding young_def by (rule filter_mono_length) auto

lemma young_after_restart:
  assumes t: "aware t" "utc t = origin + e" and prior: "recent t window R = Inr ys"
    and age: "0 \<le> a" "a \<le> window"
  shows "young a R e \<le> length ys" and "Suc (young a R e) \<le> young a (ys @ [t]) e"
proof -
  have ys: "ys = filter (\<lambda>x. origin + e - utc x \<le> window) R"
    using recent_filter[OF prior] t by simp
  show "young a R e \<le> length ys"
    unfolding young_def ys by (rule filter_mono_length) (use age in auto)
  have "filter (\<lambda>x. origin + e - utc x \<le> a) ys = filter (\<lambda>x. origin + e - utc x \<le> a) R"
    unfolding ys filter_filter by (rule filter_cong) (use age in auto)
  then show "Suc (young a R e) \<le> young a (ys @ [t]) e"
    using t age by (simp add: young_def)
qed

text \<open>After \<open>j\<close> restarts within the last \<open>(j - 1) * startup_time\<close>, every attempt still has its fuel.\<close>

definition restarted :: "service \<Rightarrow> nat \<Rightarrow> 'w sup \<Rightarrow> bool" where
  "restarted sv j s \<longleftrightarrow> (\<exists>R e. clk sync elapsed (sv_id sv) R e s \<and> (j = 0 \<or> j \<le> young ((int j - 1) * startup_time sv) R e))"

lemma clk_upd_to: "(\<And>i. in_restart_times i = R \<Longrightarrow> in_restart_times (f i) = R') \<Longrightarrow>
    total (clk sync elapsed k R e) (upd k f) (\<lambda>_. clk sync elapsed k R' e) E"
  by (simp add: clk_def hoare_def upd_def prog_defs)

lemma lift_result: "total P (liftS x) (\<lambda>y s. x = Inr y \<and> P s) whatever"
  by (cases x) (simp_all add: liftS_def hoare_def prog_defs)

lemma restart_with_total:
  assumes T: "0 \<le> startup_time sv" and budget: "restart_limit sv * startup_time sv \<le> restart_window sv"
    and j: "j = 0 \<or> int j \<le> restart_limit sv" "j = 0 \<or> j \<le> young (int j * startup_time sv) R e"
    and again: "int j < restart_limit sv \<Longrightarrow> total (restarted sv (Suc j)) again whatever whatever"
    and window: "0 \<le> restart_window sv"
  shows "total (clk sync elapsed (sv_id sv) R e) (restart_with env sv again) whatever whatever"
proof -
  let ?k = "sv_id sv" and ?T = "startup_time sv"
  have finish: "total (clk sync elapsed ?k R e) m whatever whatever" if "steady (clk sync elapsed ?k R e) m" for R e and m :: "('w, 'b) sprog"
    by (rule total_of_steady[OF that]) simp_all
  have exhaust: "total (clk sync elapsed ?k prior e)
      (andThen (upd ?k (\<lambda>x. x\<lparr>in_last_failure := Some m, in_restart_exhausted := True, in_next_restart_at := None\<rparr>))
       (andThen (pop_hold ?k ''recovery'') (andThen (persist ?k) (raise err :: ('w, 'b) sprog)))) whatever whatever" for prior m err
    by (rule finish) (intro steady_rules clock_steady clk_upd, simp)
  have age: "0 \<le> int j * ?T" "int j * ?T \<le> restart_window sv"
  proof -
    show "0 \<le> int j * ?T" using T by simp
    show "int j * ?T \<le> restart_window sv"
    proof (cases "j = 0")
      case False
      then have "int j * ?T \<le> restart_limit sv * ?T" using j(1) T by (intro mult_right_mono) auto
      with budget show ?thesis by simp
    qed (use window in simp)
  qed
  have next_try: "total (\<lambda>s. clk sync elapsed ?k (prior @ [t]) e s)
      (andThen (put_hold ?k ''recovery'')
       (andThen (upd ?k (\<lambda>x. x\<lparr>in_next_restart_at := n\<rparr>))
       (andThen (persist ?k)
        (if b then
           andThen again
          (bind (instance_of ?k) (\<lambda>j. onlyif (in_state j = RUNNING) (andThen (pop_hold ?k ''recovery'') (persist ?k))))
         else ret ())))) whatever whatever"
    if t: "aware t" "utc t = origin + e" and prior: "recent t (restart_window sv) R = Inr prior"
      and room: "\<not> restart_limit sv \<le> int (length prior)" for t prior n b
  proof -
    have "Suc j \<le> young (int j * ?T) (prior @ [t]) e"
      using young_after_restart[OF t prior age] j(2) by (cases "j = 0") auto
    then have "restarted sv (Suc j) s" if "clk sync elapsed ?k (prior @ [t]) e s" for s
      using that unfolding restarted_def by auto
    moreover have "int j < restart_limit sv"
      using young_after_restart(1)[OF t prior age] j(2) room by auto
    ultimately have "total (clk sync elapsed ?k (prior @ [t]) e) again whatever whatever"
      by (intro hoare_pre[OF again]) auto
    then have tail: "total (clk sync elapsed ?k (prior @ [t]) e) (andThen again
        (bind (instance_of ?k) (\<lambda>j. onlyif (in_state j = RUNNING) (andThen (pop_hold ?k ''recovery'') (persist ?k))))) whatever whatever"
      by (rule hoare_andThen) (auto simp: hoare_def instance_of_def pop_hold_def upd_def persist_def prog_defs)
    show ?thesis
      by (intro steady_then clock_steady clk_upd hoare_if tail hoare_ret) simp_all
  qed
  show ?thesis
    unfolding restart_with_def Let_def
  proof (rule hoare_bind[OF read_lifecycle hoare_pure], rule hoare_if, goal_cases)
    case (1 lc) show ?case by (rule hoare_ret) simp
  next
    case (2 lc)
    note lc = same_but_mode_simps[OF 2(1)]
    show ?case
    proof (rule hoare_bind[OF read_now], intro hoare_instance, goal_cases)
      case (1 t i)
      have decide: "total (clk sync elapsed ?k R e) (restart_decision sv (restart_limit sv) n t prior again) whatever whatever"
        if "aware t" "utc t = origin + e" "recent t (restart_window sv) R = Inr prior" for prior n
        unfolding restart_decision_def Let_def
      proof (rule hoare_andThen[OF clk_upd_to hoare_if])
        assume "\<not> restart_limit sv \<le> int (length prior)"
        note go = next_try[OF that this]
        show "total (clk sync elapsed ?k prior e) (andThen (upd ?k (\<lambda>x. x\<lparr>in_restart_times := in_restart_times x @ [t], in_restart_exhausted := False\<rparr>))
           (andThen (put_hold ?k ''recovery'')
           (andThen (upd ?k (\<lambda>x. x\<lparr>in_next_restart_at := Some (plus_time t n)\<rparr>))
           (andThen (persist ?k)
            (if n = 0 then andThen again
              (bind (instance_of ?k) (\<lambda>j. onlyif (in_state j = RUNNING) (andThen (pop_hold ?k ''recovery'') (persist ?k))))
             else ret ()))))) whatever whatever"
          by (rule hoare_andThen[OF clk_upd_to go]) simp
      qed (simp_all add: exhaust)
      show ?case
      proof (rule hoare_pre)
        show "total (\<lambda>s. in_restart_times i = R \<and> aware t \<and> utc t = origin + e \<and> clk sync elapsed ?k R e s)
          (bind (liftS (recent t (seconds (default 60 (lc_restart_window_seconds lc))) (in_restart_times i))) (\<lambda>prior.
             restart_decision sv (default 3 (lc_max_restarts lc)) (default 0 (lc_restart_backoff_us lc)) t prior again)) whatever whatever"
          unfolding lc restart_limit_def[symmetric] restart_window_def[symmetric]
          by (intro hoare_pure, simp only:, rule hoare_bind[OF lift_result hoare_pure], rule decide)
      qed (auto simp: clk_def)
    qed
  qed
qed

lemma with_driver:
  assumes "\<And>drv. driver_instant sync elapsed drv \<Longrightarrow> total P (f drv) Q whatever"
  shows "total P (bind (driver_of env sv) f) Q whatever"
proof (cases "driver_resolver env sv")
  case (Inl e)
  then show ?thesis by (simp add: hoare_def driver_of_def liftS_def prog_defs)
next
  case (Inr drv)
  then have "bind (driver_of env sv) f = f drv"
    by (simp add: driver_of_def liftS_def bind_ret_left)
  with assms drivers_instant[OF Inr] show ?thesis by simp
qed

lemma ensure_total:
  assumes T: "0 \<le> startup_time sv" and budget: "restart_limit sv * startup_time sv \<le> restart_window sv"
    and window: "0 \<le> restart_window sv" and loop: "L \<noteq> 0" "startup_time sv \<le> (int L - 1) * poll_interval env"
  shows "j = 0 \<or> int j \<le> restart_limit sv \<Longrightarrow> L + 1 + (nat (restart_limit sv) - j) \<le> n
    \<Longrightarrow> total (restarted sv j) (ensure_running_locked env n sv reason) whatever whatever"
proof (induction n arbitrary: j reason)
  case 0 then show ?case by simp
next
  case (Suc m)
  let ?k = "sv_id sv" and ?T = "startup_time sv"
  have mL: "L \<le> m" using Suc.prems(2) by simp
  then have fuel: "m \<noteq> 0" "?T \<le> (int m - 1) * poll_interval env"
  proof -
    show "m \<noteq> 0" using mL loop(1) by simp
    have "(int L - 1) * poll_interval env \<le> (int m - 1) * poll_interval env"
      using mL poll_positive by (intro mult_right_mono) auto
    with loop(2) show "?T \<le> (int m - 1) * poll_interval env" by simp
  qed
  have again: "total (restarted sv (Suc j)) (ensure_running_locked env m sv r) whatever whatever"
    if "int j < restart_limit sv" for r
    using that Suc.prems(2) by (intro Suc.IH) auto
  have final: "total P (bind (instance_of ?k) (\<lambda>j. raise_if (in_state j = FAILED) exc)) whatever whatever" for P exc
    by (simp add: hoare_def instance_of_def prog_defs)
  have young_j: "j = 0 \<or> j \<le> young (int j * ?T) R e'"
    if "j = 0 \<or> j \<le> young ((int j - 1) * ?T) R e" "e \<le> e'" "e' \<le> e + ?T" for R e e'
    using young_later[OF that(2,3), of "(int j - 1) * ?T" R] that(1) by (auto simp: algebra_simps)
  have restart: "total (clk_within ?k R e (e + ?T)) (restart_with env sv (ensure_running_locked env m sv r)) whatever whatever"
    if "j = 0 \<or> j \<le> young ((int j - 1) * ?T) R e" for R e r
  proof (rule hoare_pre)
    show "total (\<lambda>s. \<exists>e'. e \<le> e' \<and> e' \<le> e + ?T \<and> clk sync elapsed ?k R e' s)
        (restart_with env sv (ensure_running_locked env m sv r)) whatever whatever"
      by (intro hoare_ex hoare_pure restart_with_total[OF T budget Suc.prems(1) _ _ window] young_j[OF that] again)
  qed (simp add: clk_within_def)
  have handler: "total (clk_within ?k R e (e + ?T)) (andThen (clean_up sv drv decl)
        (andThen (mark_failed_locked env sv exc q)
        (andThen (restart_with env sv (ensure_running_locked env m sv r))
        (bind (instance_of ?k) (\<lambda>j. raise_if (in_state j = FAILED) exc))))) whatever whatever"
    if "j = 0 \<or> j \<le> young ((int j - 1) * ?T) R e" "driver_instant sync elapsed drv" for R e drv decl exc q r
    by (intro steady_then steady_within clock_steady that hoare_andThen[OF restart[OF that(1)] final]) simp_all
  have attempt: "total (clk sync elapsed ?k R e)
      (andThen (transition_locked env ?k STARTING reason None)
      (catch (start_up env m sv drv decl reason) (\<lambda>exc.
         andThen (clean_up sv drv decl)
        (andThen (mark_failed_locked env sv exc [''start_failure''])
        (andThen (restart_with env sv (ensure_running_locked env m sv [''recovery'']))
        (bind (instance_of ?k) (\<lambda>j. raise_if (in_state j = FAILED) exc))))))) whatever whatever"
    if "j = 0 \<or> j \<le> young ((int j - 1) * ?T) R e" "driver_instant sync elapsed drv" for R e drv decl
    by (intro steady_then clock_steady hoare_catch[OF hoare_conseq[OF start_up_total[OF that(2) fuel T]] handler[OF that]]) simp_all
  show ?case
    unfolding restarted_def
  proof (intro hoare_ex, rule hoare_pre[OF hoare_pure])
    fix R e
    assume c: "j = 0 \<or> j \<le> young ((int j - 1) * ?T) R e"
    show "total (clk sync elapsed ?k R e) (ensure_running_locked env (Suc m) sv reason) whatever whatever"
      unfolding ensure_running_locked.simps Let_def
      by (intro steady_step clock_steady hoare_if hoare_ret hoare_raise with_driver attempt[OF c]) simp_all
  qed auto
qed

end


text \<open>The fake clock's two readings move together, and the fake driver takes no time.\<close>

definition fake_sync :: "int \<Rightarrow> fake_world \<Rightarrow> bool" where
  "fake_sync origin w \<longleftrightarrow> aware (fk_current w) \<and> utc (fk_current w) = origin + fk_elapsed w"

lemma fake_timed: "0 < poll \<Longrightarrow> timed_env (fake_env r poll) (fake_sync origin) fk_elapsed origin"
proof
  show "driver_instant (fake_sync origin) fk_elapsed drv" if "driver_resolver (fake_env r poll) sv = Inr drv" for sv drv
    using that by (auto simp: driver_instant_def instant_def fake_sync_def fake_defs Let_def split: if_splits)
qed (auto simp: fake_sync_def fake_defs)

interpretation fake_clock: timed_env "fake_env r 1000000" "fake_sync origin" fk_elapsed origin for r origin
  by (rule fake_timed) simp

text \<open>A service with the default startup timeout, window and limit, but one restart allowed.\<close>

definition demo_restarting :: service where
  "demo_restarting = demo_bbs\<lparr>sv_lifecycle := demo_lifecycle\<lparr>lc_restart := Some ''on_failure'', lc_max_restarts := Some 1,
     lc_startup_timeout_seconds := None\<rparr>\<rparr>"


section \<open>A startup longer than the window\<close>

text \<open>Programs that never raise.\<close>

definition returns :: "('s, 'e, 'a) prog \<Rightarrow> bool" where
  "returns m \<longleftrightarrow> (\<forall>s. \<exists>x s'. m s = (Ret x, s'))"

lemma returns_upd: "returns (upd k f)"
  and returns_persist: "returns (persist k)"
  and returns_put_hold: "returns (put_hold k r)"
  and returns_clean_up: "\<exists>s'. clean_up sv drv decl s = (Ret (), s')"
  by (auto simp: returns_def upd_def persist_def put_hold_def prog_defs)
    (auto simp: clean_up_def driver_call_def prog_defs Let_def split: prod.splits sum.splits)

lemma total_of_returns: "steady I m \<Longrightarrow> returns m \<Longrightarrow> total I m (\<lambda>_. I) F"
proof (rule hoareI)
  fix s r s' assume st: "steady I m" and ret: "returns m" and I: "I s" and run: "m s = (r, s')"
  from ret run obtain x where r: "r = Ret x"
    unfolding returns_def by (metis prod.inject)
  then have "I s'"
    using hoare_retD[OF steady_total[OF st] I] run by simp
  with r show "case r of Ret x \<Rightarrow> I s' | Raise e \<Rightarrow> F e s' | NoFuel \<Rightarrow> False" by simp
qed

text \<open>The lifecycle state, the restart times and the time of a service.\<close>

definition phase :: "('w \<Rightarrow> bool) \<Rightarrow> ('w \<Rightarrow> int) \<Rightarrow> string \<Rightarrow> lifecycle_state set \<Rightarrow> datetime list \<Rightarrow> int \<Rightarrow> 'w sup \<Rightarrow> bool" where
  "phase sync elapsed k X R e s \<longleftrightarrow> states s k \<in> X \<and> clk sync elapsed k R e s"

abbreviation never :: "'x \<Rightarrow> 'w sup \<Rightarrow> bool" where
  "never x s \<equiv> False"

lemma phase_of:
  assumes "total (clk sync elapsed k R e) m Q never" and "calm m"
  shows "triple (phase sync elapsed k X R e) m (\<lambda>x s. Q x s \<and> states s k \<in> X) never"
  by (rule hoare_conseq[OF hoare_conj[OF triple_of_total[OF assms(1)] triple_calm_at[OF assms(2), of k X]]])
    (auto simp: phase_def)

lemma phase_then:
  assumes "steady (clk sync elapsed k R e) m" and "returns m" and "calm m" and "triple (phase sync elapsed k X R e) n Q never"
  shows "triple (phase sync elapsed k X R e) (andThen m n) Q never"
  by (rule hoare_andThen[OF hoare_conseq[OF phase_of[OF total_of_returns[OF assms(1,2)] assms(3)]] assms(4)])
    (auto simp: phase_def)

context timed_env
begin

abbreviation at :: "string \<Rightarrow> lifecycle_state set \<Rightarrow> datetime list \<Rightarrow> int \<Rightarrow> 'w sup \<Rightarrow> bool" where
  "at k X R e \<equiv> phase sync elapsed k X R e"

lemma phase_transition:
  assumes "\<And>x. x \<in> X \<Longrightarrow> edge x new"
  shows "triple (at k X R e) (transition_locked env k new reason err) (\<lambda>_. at k {new} R e) never"
  by (rule hoare_conseq[OF hoare_conj[OF transition_ok[of X new k env reason err never, OF assms]
        triple_of_total[OF steady_total[OF clk_transition]], of k R e]]) (auto simp: phase_def)

lemma phase_mark_failed:
  "triple (at (sv_id sv) {STARTING} R e) (mark_failed_locked env sv err reason) (\<lambda>_. at (sv_id sv) {FAILED} R e) never"
  by (rule hoare_conseq[OF hoare_conj[OF mark_failed_triple[of sv env err reason never]
        triple_of_total[OF steady_total[OF clk_mark_failed]], of "sv_id sv" R e]]) (auto simp: phase_def)

lemma wait_ready_late:
  assumes drv: "driver_instant sync elapsed drv" and never: "\<And>i w. \<exists>rt w'. d_is_ready drv rd i decl w = (Inr False, rt, w')"
    and e: "e \<le> deadline"
  shows "triple (clk sync elapsed k R e) (wait_ready env sv drv decl rd timeout deadline n) never (\<lambda>_. clk sync elapsed k R deadline)"
  using e
proof (induction n arbitrary: e)
  case 0 then show ?case by (simp add: triple_no_fuel)
next
  case (Suc n)
  let ?E = "\<lambda>_. clk sync elapsed k R deadline"
  have no: "triple (clk sync elapsed k R e) (driver_call (sv_id sv) (d_is_ready drv rd) decl) (\<lambda>ready s. \<not> ready \<and> clk sync elapsed k R e s) ?E"
  proof (rule hoareI)
    fix s r s' assume clk: "clk sync elapsed k R e s" and run: "driver_call (sv_id sv) (d_is_ready drv rd) decl s = (r, s')"
    obtain rt w' where "d_is_ready drv rd (instances s (sv_id sv)) decl (world s) = (Inr False, rt, w')"
      using never by blast
    with run have "r = Ret False" by (auto simp: driver_call_def)
    moreover have "clk sync elapsed k R e s'"
      using hoare_retD[OF steady_total[OF clk_driver(4)[OF drv]] clk] run calculation by blast
    ultimately show "case r of Ret x \<Rightarrow> \<not> x \<and> clk sync elapsed k R e s' | Raise x \<Rightarrow> clk sync elapsed k R deadline s' | NoFuel \<Rightarrow> True"
      by simp
  qed
  let ?d = "min (poll_interval env) (max 0 (deadline - e))"
  have poll: "triple (clk sync elapsed k R e) (andThen (sleep env ?d) (wait_ready env sv drv decl rd timeout deadline n)) never ?E"
    using Suc.prems poll_positive by (intro hoare_andThen[OF triple_of_total[OF sleep_clk] Suc.IH]) auto
  have late: "triple (clk sync elapsed k R e) (bind (monotonic env) (\<lambda>t'. andThen (sleep env (min (poll_interval env) (max 0 (deadline - t'))))
      (wait_ready env sv drv decl rd timeout deadline n))) never ?E"
    by (rule hoare_bind[OF triple_of_total[OF read_monotonic] hoare_pure]) (use poll in simp)
  have step: "triple (\<lambda>s. t = e \<and> clk sync elapsed k R e s) (if deadline \<le> t then raise err
      else bind (monotonic env) (\<lambda>t'. andThen (sleep env (min (poll_interval env) (max 0 (deadline - t'))))
         (wait_ready env sv drv decl rd timeout deadline n))) never ?E" for t err
    using Suc.prems by (intro hoare_pure hoare_if hoare_raise late) auto
  show ?case
    unfolding wait_ready.simps
    by (rule hoare_bind[OF no], rule hoare_pure, simp, rule hoare_bind[OF triple_of_total[OF read_monotonic] step])
qed

end

text \<open>
  A runtime that starts and never becomes ready, with a restart policy without backoff, whose startup
  timeout is at least its restart window.
\<close>

definition hung :: "'w env \<Rightarrow> service \<Rightarrow> 'w driver \<Rightarrow> resolution \<Rightarrow> bool" where
  "hung env sv drv decl \<longleftrightarrow> driver_resolver env sv = Inr drv \<and> resolve (registry_of env) (sv_id sv) = Inr decl \<and>
     (\<forall>i w. \<exists>rt w'. d_start drv i decl w = (Inr (), rt, w')) \<and>
     (\<forall>rd i w. \<exists>rt w'. d_is_ready drv rd i decl w = (Inr False, rt, w')) \<and>
     default ''never'' (lc_restart (sv_lifecycle sv)) \<in> {''on_failure'', ''always''} \<and>
     default 0 (lc_restart_backoff_us (sv_lifecycle sv)) = 0 \<and>
     2 \<le> restart_limit sv \<and> 0 < startup_time sv \<and> 0 \<le> restart_window sv \<and> restart_window sv \<le> startup_time sv"

text \<open>Restart times in the past, at most one of them now.\<close>

definition sparse :: "int \<Rightarrow> datetime list \<Rightarrow> int \<Rightarrow> bool" where
  "sparse o' R e \<longleftrightarrow> (\<forall>x \<in> set R. aware x \<and> utc x \<le> o' + e) \<and> length (filter (\<lambda>x. o' + e \<le> utc x) R) \<le> 1"

lemma recent_aware: "aware t \<Longrightarrow> \<forall>x \<in> set xs. aware x \<Longrightarrow> recent t window xs = Inr (filter (\<lambda>x. utc t - utc x \<le> window) xs)"
  by (induction xs) (auto simp: time_between_def)

lemma sparse_next:
  assumes R: "sparse o' R e" and t: "aware t" "utc t = o' + (e + T)" and T: "0 < T" "window \<le> T" "0 \<le> window"
  defines "prior \<equiv> filter (\<lambda>x. utc t - utc x \<le> window) R"
  shows "length prior \<le> 1" and "sparse o' (prior @ [t]) (e + T)"
proof -
  have "length prior \<le> length (filter (\<lambda>x. o' + e \<le> utc x) R)"
    unfolding prior_def by (rule filter_mono_length) (use t T in auto)
  then show "length prior \<le> 1" using R by (simp add: sparse_def)
  have "filter (\<lambda>x. o' + (e + T) \<le> utc x) prior = []"
    using R T by (fastforce simp: prior_def sparse_def filter_empty_conv)
  then show "sparse o' (prior @ [t]) (e + T)"
    using R T t by (auto simp: sparse_def prior_def)
qed

context timed_env
begin

lemma phase_lifecycle: "triple (at k X R e) (lifecycle_of sv) (\<lambda>lc s. same_but_mode sv lc \<and> at k X R e s) E"
  by (rule triple_of_total[OF read_lifecycle])

lemma phase_monotonic: "triple (at k X R e) (monotonic env) (\<lambda>t s. t = e \<and> at k X R e s) E"
  by (rule hoare_conseq[OF phase_of[OF read_monotonic calm_monotonic]]) (auto simp: phase_def)

lemma phase_now: "triple (at k X R e) (now env) (\<lambda>t s. (aware t \<and> utc t = origin + e) \<and> at k X R e s) E"
  by (rule hoare_conseq[OF phase_of[OF read_now calm_now]]) (auto simp: phase_def)

lemma start_up_late:
  assumes h: "hung env sv drv decl"
  shows "triple (at (sv_id sv) {STARTING} R e) (start_up env n sv drv decl reason) never
     (\<lambda>_. at (sv_id sv) {STARTING} R (e + startup_time sv))"
proof -
  let ?k = "sv_id sv" and ?T = "startup_time sv"
  have drv: "driver_instant sync elapsed drv" and T: "0 < ?T"
    using h drivers_instant by (auto simp: hung_def)
  have never: "\<exists>rt w'. d_is_ready drv rd i decl w = (Inr False, rt, w')" for rd i w
    using h by (simp add: hung_def)
  have "returns (driver_call ?k (d_start drv) decl)"
    unfolding returns_def
  proof
    fix s :: "'w sup"
    obtain rt w' where "d_start drv (instances s ?k) decl (world s) = (Inr (), rt, w')"
      using h unfolding hung_def by blast
    then show "\<exists>x s'. driver_call ?k (d_start drv) decl s = (Ret x, s')"
      by (simp add: driver_call_def)
  qed
  note go = phase_of[OF total_of_returns[OF clk_driver(1)[OF drv] this] calm_driver_call]
  have begin_it: "triple (at ?k {STARTING} R e) (driver_call ?k (d_start drv) decl) (\<lambda>_. at ?k {STARTING} R e)
      (\<lambda>_. at ?k {STARTING} R (e + ?T))"
    by (rule hoare_conseq[OF go[where k = ?k and R = R and e = e and X = "{STARTING}"]]) (auto simp: phase_def)
  have wait: "triple (at ?k {STARTING} R e) (wait_ready env sv drv decl rd ?T (e + ?T) n) never (\<lambda>_. at ?k {STARTING} R (e + ?T))" for rd
    by (rule hoare_conseq[OF hoare_conj[OF wait_ready_late[OF drv never, where e = e and deadline = "e + ?T" and k = ?k and R = R]
          triple_calm_at[OF calm_wait_ready, of ?k "{STARTING}"]]])
      (use T in \<open>auto simp: phase_def\<close>)
  show ?thesis
    unfolding start_up_def Let_def
    by (rule hoare_andThen[OF begin_it hoare_bind[OF phase_lifecycle hoare_pure]], rule hoare_bind[OF phase_monotonic hoare_pure],
        rule hoare_andThen[OF _ hoare_false], simp only: same_but_mode_simps startup_time_def[symmetric], rule wait)
qed

lemma phase_set: "(\<And>i. in_state (f i) = in_state i) \<Longrightarrow> (\<And>i. in_restart_times i = R \<Longrightarrow> in_restart_times (f i) = R') \<Longrightarrow>
    triple (at k X R e) (upd k f) (\<lambda>_. at k X R' e) never"
  by (simp add: phase_def clk_def states_def hoare_def upd_def prog_defs)

lemma phase_put_hold: "triple (at k X R e) (put_hold k r) (\<lambda>_. at k X R e) never"
  unfolding put_hold_def by (rule phase_set) simp_all

lemma phase_persist: "triple (at k X R e) (persist k) (\<lambda>_. at k X R e) never"
  by (simp add: phase_def clk_def states_def hoare_def persist_def prog_defs)

lemma restart_with_late:
  assumes h: "hung env sv drv decl" and R: "sparse origin R e"
    and again: "\<And>R'. sparse origin R' (e + startup_time sv) \<Longrightarrow> triple (at (sv_id sv) {FAILED} R' (e + startup_time sv)) again never never"
  shows "triple (at (sv_id sv) {FAILED} R (e + startup_time sv)) (restart_with env sv again) never never"
proof -
  let ?k = "sv_id sv" and ?e = "e + startup_time sv"
  have T: "0 < startup_time sv" "restart_window sv \<le> startup_time sv" "0 \<le> restart_window sv" and limit: "2 \<le> restart_limit sv"
    using h by (simp_all add: hung_def)
  have policy: "default ''never'' (lc_restart (sv_lifecycle sv)) \<in> {''on_failure'', ''always''}"
    and backoff: "default 0 (lc_restart_backoff_us (sv_lifecycle sv)) = 0"
    using h by (simp_all add: hung_def)
  have go: "triple (at ?k {FAILED} R ?e) (restart_decision sv (restart_limit sv) 0 t prior again) never never"
    if t: "aware t" "utc t = origin + ?e" and prior: "prior = filter (\<lambda>x. utc t - utc x \<le> restart_window sv) R" for t prior
  proof -
    have "\<not> restart_limit sv \<le> int (length prior)" and nxt: "sparse origin (prior @ [t]) ?e"
      using sparse_next[OF R t T] limit by (simp_all add: prior)
    moreover have "triple (at ?k {FAILED} (prior @ [t]) ?e) (andThen again rest) never never" for rest
      by (rule hoare_andThen[OF again[OF nxt] hoare_false])
    ultimately show ?thesis
      unfolding restart_decision_def Let_def
      by (auto intro!: hoare_andThen[OF phase_set[of _ R prior]] hoare_andThen[OF phase_set[of _ prior "prior @ [t]"]]
          hoare_andThen[OF phase_put_hold] hoare_andThen[OF phase_set[of _ "prior @ [t]" "prior @ [t]"]] hoare_andThen[OF phase_persist])
  qed
  have decide: "triple (\<lambda>s. at ?k {FAILED} R ?e s \<and> i = instances s ?k)
      (bind (liftS (recent t (restart_window sv) (in_restart_times i))) (\<lambda>prior. restart_decision sv (restart_limit sv) 0 t prior again))
      never never" if t: "aware t" "utc t = origin + ?e" for t i
  proof (rule hoare_pre[OF hoare_pure[of "in_restart_times i = R"]])
    assume i: "in_restart_times i = R"
    have rec: "recent t (restart_window sv) R = Inr (filter (\<lambda>x. utc t - utc x \<le> restart_window sv) R)"
      using R t by (intro recent_aware) (simp_all add: sparse_def)
    show "triple (at ?k {FAILED} R ?e)
        (bind (liftS (recent t (restart_window sv) (in_restart_times i))) (\<lambda>prior. restart_decision sv (restart_limit sv) 0 t prior again))
        never never"
      unfolding i rec liftS_def sum.case bind_ret_left using t by (rule go) simp
  qed (auto simp: phase_def clk_def)
  show ?thesis
    unfolding restart_with_def Let_def
  proof (rule hoare_bind[OF phase_lifecycle hoare_pure], rule hoare_if)
    fix lc assume lc: "same_but_mode sv lc"
    note same = same_but_mode_simps[OF lc]
    show "triple (at ?k {FAILED} R ?e) (ret ()) never never"
      if "default ''never'' (lc_restart lc) \<notin> {''on_failure'', ''always''}"
      using that policy unfolding same by contradiction
    show "triple (at ?k {FAILED} R ?e) (bind (now env) (\<lambda>t. bind (instance_of ?k) (\<lambda>i.
         bind (liftS (recent t (seconds (default 60 (lc_restart_window_seconds lc))) (in_restart_times i))) (\<lambda>prior.
         restart_decision sv (default 3 (lc_max_restarts lc)) (default 0 (lc_restart_backoff_us lc)) t prior again)))) never never"
      unfolding same backoff restart_limit_def[symmetric] restart_window_def[symmetric]
      by (rule hoare_bind[OF phase_now hoare_pure], intro hoare_instance decide) simp_all
  qed
qed

lemma ensure_never_ends:
  assumes h: "hung env sv drv decl"
  shows "sparse origin R e \<Longrightarrow> triple (at (sv_id sv) {STOPPED, FAILED} R e) (ensure_running_locked env n sv reason) never never"
proof (induction n arbitrary: R e reason)
  case 0 then show ?case by (simp add: triple_no_fuel)
next
  case (Suc n)
  let ?k = "sv_id sv" and ?T = "startup_time sv"
  have drv: "driver_instant sync elapsed drv" and res: "driver_resolver env sv = Inr drv"
    and decl: "resolve (registry_of env) (sv_id sv) = Inr decl"
    using h drivers_instant by (auto simp: hung_def)
  have tidy: "triple (at ?k {STARTING} R (e + ?T)) (clean_up sv drv decl) (\<lambda>_. at ?k {STARTING} R (e + ?T)) never"
  proof -
    have "returns (clean_up sv drv decl :: ('w, unit) sprog)"
      unfolding returns_def using returns_clean_up[of sv drv decl] by blast
    note go = phase_of[OF total_of_returns[OF clk_clean_up[OF drv] this] calm_clean_up]
    show ?thesis
      by (rule hoare_conseq[OF go[where k = ?k and R = R and e = "e + ?T" and X = "{STARTING}"]]) (auto simp: phase_def)
  qed
  have again: "triple (at ?k {FAILED} R' (e + ?T)) (ensure_running_locked env n sv r) never never" if "sparse origin R' (e + ?T)" for R' r
    by (rule hoare_pre[OF Suc.IH[OF that]]) (auto simp: phase_def)
  have handler: "triple (at ?k {STARTING} R (e + ?T)) (andThen (clean_up sv drv decl)
        (andThen (mark_failed_locked env sv exc q)
        (andThen (restart_with env sv (ensure_running_locked env n sv r))
        (bind (instance_of ?k) (\<lambda>j. raise_if (in_state j = FAILED) exc))))) never never" for exc q r
    by (rule hoare_andThen[OF tidy hoare_andThen[OF phase_mark_failed
        hoare_andThen[OF restart_with_late[OF h Suc.prems again] hoare_false]]])
  have attempt: "triple (at ?k {STOPPED, FAILED} R e)
      (andThen (transition_locked env ?k STARTING reason None)
      (catch (start_up env n sv drv decl reason) (\<lambda>exc.
         andThen (clean_up sv drv decl)
        (andThen (mark_failed_locked env sv exc [''start_failure''])
        (andThen (restart_with env sv (ensure_running_locked env n sv [''recovery'']))
        (bind (instance_of ?k) (\<lambda>j. raise_if (in_state j = FAILED) exc))))))) never never"
    by (rule hoare_andThen[OF phase_transition hoare_catch[OF start_up_late[OF h] handler]]) auto
  show ?case
    unfolding ensure_running_locked.simps Let_def declaration_of_def decl driver_of_def res liftS_def sum.case bind_ret_left
  proof (intro hoare_instance hoare_if)
    fix i :: instance_state
    show "triple (\<lambda>s. at ?k {STOPPED, FAILED} R e s \<and> i = instances s ?k) (ret ()) never never" if "in_state i \<in> ACTIVE_STATES"
      using that by (intro hoare_ret) (auto simp: phase_def states_def ACTIVE_STATES_def)
    show "triple (\<lambda>s. at ?k {STOPPED, FAILED} R e s \<and> i = instances s ?k)
        (raise (ServiceBusyError [''service '', ?k, '' is '', state_value (in_state i)])) never never" if "in_state i \<in> {STARTING, STOPPING}"
      using that by (intro hoare_raise) (auto simp: phase_def states_def)
  qed (rule hoare_pre[OF attempt], simp)
qed

end


text \<open>The fake driver, except that its runtime never becomes ready; a service with the default limits.\<close>

definition hung_driver :: "fake_world driver" where
  "hung_driver = fake_driver\<lparr>d_start := (\<lambda>i decl w. (Inr (), in_runtime i, w\<lparr>fk_alive := insert (in_instance i) (fk_alive w)\<rparr>)),
     d_is_ready := (\<lambda>rd i decl w. (Inr False, in_runtime i, w))\<rparr>"

definition hung_env :: "fake_world env" where
  "hung_env = demo_env\<lparr>driver_resolver := (\<lambda>_. Inr hung_driver)\<rparr>"

definition default_restarting :: service where
  "default_restarting = demo_bbs\<lparr>sv_lifecycle := demo_lifecycle\<lparr>lc_restart := Some ''on_failure'', lc_startup_timeout_seconds := None\<rparr>\<rparr>"

lemma hung_timed: "timed_env hung_env (fake_sync origin) fk_elapsed origin"
proof
  show "driver_instant (fake_sync origin) fk_elapsed drv" if "driver_resolver hung_env sv = Inr drv" for sv drv
    using that by (auto simp: hung_env_def hung_driver_def driver_instant_def instant_def fake_sync_def fake_defs Let_def split: if_splits)
qed (auto simp: fake_sync_def hung_env_def demo_env_def fake_defs)


end
