(* ===== verification/Transports.thy ===== *)
theory Transports
  imports Lifecycle
begin

text \<open>
  The exceptions and the byte streams of the session router: \<open>scripts/ubb_router/errors.py\<close> and
  \<open>transports.py\<close>. A \<open>bytes\<close> value is a string of code points below 256. Stream objects live in a
  heap and are named by their index; the sockets of the standard library are the fields of \<open>'w sockets\<close>.
\<close>

section \<open>Exceptions\<close>

datatype router_error =
    RouterError message
  | AuthorizationError message
  | UnknownServiceError message
  | InvalidSessionTransitionError message
  | SessionNotFoundError message
  | SessionBusyError message
  | TransportError message
  | UnsupportedTransportError message
  | LifecycleFailure supervisor_error   \<comment> \<open>raised by the supervisor\<close>
  | CatalogFailure registry_error       \<comment> \<open>raised by \<open>registry.resolve\<close>\<close>
  | OSFailure string message            \<comment> \<open>\<open>OSError\<close> or the named subclass of it\<close>
  | OtherFailure string message         \<comment> \<open>any other exception, by name\<close>

fun supervisor_error_name :: "supervisor_error \<Rightarrow> string" where
  "supervisor_error_name (SupervisorError m) = ''SupervisorError''"
| "supervisor_error_name (InvalidTransitionError m) = ''InvalidTransitionError''"
| "supervisor_error_name (ServiceNotFoundError m) = ''ServiceNotFoundError''"
| "supervisor_error_name (ServiceBusyError m) = ''ServiceBusyError''"
| "supervisor_error_name (ReadinessTimeoutError m) = ''ReadinessTimeoutError''"
| "supervisor_error_name (RestartLimitExceededError m) = ''RestartLimitExceededError''"
| "supervisor_error_name (MaintenanceError m) = ''MaintenanceError''"
| "supervisor_error_name (DriverError m) = ''DriverError''"
| "supervisor_error_name (RegistryFailure e) = (case e of DuplicateIdError m \<Rightarrow> ''DuplicateIdError''
    | UnknownReferenceError m \<Rightarrow> ''UnknownReferenceError'' | InvalidManifestError m \<Rightarrow> ''InvalidManifestError''
    | UnsupportedEndpointTypeError m \<Rightarrow> ''UnsupportedEndpointTypeError'')"
| "supervisor_error_name (BuiltinError n m) = n"

text \<open>\<open>type(error).__name__\<close>\<close>

fun error_name :: "router_error \<Rightarrow> string" where
  "error_name (RouterError m) = ''RouterError''"
| "error_name (AuthorizationError m) = ''AuthorizationError''"
| "error_name (UnknownServiceError m) = ''UnknownServiceError''"
| "error_name (InvalidSessionTransitionError m) = ''InvalidSessionTransitionError''"
| "error_name (SessionNotFoundError m) = ''SessionNotFoundError''"
| "error_name (SessionBusyError m) = ''SessionBusyError''"
| "error_name (TransportError m) = ''TransportError''"
| "error_name (UnsupportedTransportError m) = ''UnsupportedTransportError''"
| "error_name (LifecycleFailure e) = supervisor_error_name e"
| "error_name (CatalogFailure e) = supervisor_error_name (RegistryFailure e)"
| "error_name (OSFailure n m) = n"
| "error_name (OtherFailure n m) = n"

definition is_os_error :: "router_error \<Rightarrow> bool" where
  "is_os_error e = (case e of OSFailure n m \<Rightarrow> True | _ \<Rightarrow> False)"

section \<open>MemoryStream\<close>

record memory_stream =
  ms_incoming :: "string list"
  ms_written :: string
  ms_closed :: bool

definition ms_read :: "nat \<Rightarrow> memory_stream \<Rightarrow> string \<times> memory_stream" where
  "ms_read count m = (if ms_closed m then ([], m) else
     case ms_incoming m of
       [] \<Rightarrow> ([], m)
     | v # vs \<Rightarrow> if count < length v then (take count v, m\<lparr>ms_incoming := drop count v # vs\<rparr>)
                else (v, m\<lparr>ms_incoming := vs\<rparr>))"

definition ms_write :: "string \<Rightarrow> memory_stream \<Rightarrow> (router_error + nat) \<times> memory_stream" where
  "ms_write data m = (if ms_closed m then (Inl (OSFailure ''OSError'' [''stream is closed'']), m)
     else (Inr (length data), m\<lparr>ms_written := ms_written m @ data\<rparr>))"

definition ms_close :: "memory_stream \<Rightarrow> memory_stream" where
  "ms_close m = m\<lparr>ms_closed := True\<rparr>"

section \<open>SocketStream and the heap of streams\<close>

record 'w sockets =
  sk_connect :: "string \<Rightarrow> int \<Rightarrow> int \<Rightarrow> ('w, router_error, nat) prog"
  sk_settimeout_none :: "nat \<Rightarrow> ('w, router_error, unit) prog"
  sk_recv :: "nat \<Rightarrow> nat \<Rightarrow> ('w, router_error, string) prog"
  sk_sendall :: "nat \<Rightarrow> string \<Rightarrow> ('w, router_error, unit) prog"
  sk_shutdown :: "nat \<Rightarrow> ('w, router_error, unit) prog"
  sk_close :: "nat \<Rightarrow> ('w, router_error, unit) prog"

datatype stream = Socket nat bool | Memory memory_stream   \<comment> \<open>\<open>Socket fd _closed\<close>\<close>

text \<open>The objects a caller of the router may hold: streams and what the operating system keeps.\<close>

record 'w heap =
  hp_streams :: "stream list"
  hp_os :: 'w

type_synonym ('w, 'a) hprog = "('w heap, router_error, 'a) prog"

definition os_call :: "('w, router_error, 'a) prog \<Rightarrow> ('w, 'a) hprog" where
  "os_call m = (\<lambda>s. let (r, w) = m (hp_os s) in (r, s\<lparr>hp_os := w\<rparr>))"

definition set_stream :: "nat \<Rightarrow> stream \<Rightarrow> ('w, unit) hprog" where
  "set_stream h x = modify (\<lambda>s. s\<lparr>hp_streams := (hp_streams s)[h := x]\<rparr>)"

definition new_stream :: "stream \<Rightarrow> ('w, nat) hprog" where
  "new_stream x = (\<lambda>s. (Ret (length (hp_streams s)), s\<lparr>hp_streams := hp_streams s @ [x]\<rparr>))"

definition stream_read :: "'w sockets \<Rightarrow> nat \<Rightarrow> nat \<Rightarrow> ('w, string) hprog" where
  "stream_read api h count = bind (gets (\<lambda>s. hp_streams s ! h)) (\<lambda>x. case x of
      Socket fd closed \<Rightarrow> os_call (sk_recv api fd count)
    | Memory m \<Rightarrow> (case ms_read count m of (data, m') \<Rightarrow> andThen (set_stream h (Memory m')) (ret data)))"

definition stream_write :: "'w sockets \<Rightarrow> nat \<Rightarrow> string \<Rightarrow> ('w, nat) hprog" where
  "stream_write api h data = bind (gets (\<lambda>s. hp_streams s ! h)) (\<lambda>x. case x of
      Socket fd closed \<Rightarrow> andThen (os_call (sk_sendall api fd data)) (ret (length data))
    | Memory m \<Rightarrow> (case ms_write data m of
        (Inl e, m') \<Rightarrow> raise e
      | (Inr n, m') \<Rightarrow> andThen (set_stream h (Memory m')) (ret n)))"

text \<open>Closing is idempotent; the shutdown's \<open>OSError\<close> is suppressed, the close's is not.\<close>

definition stream_close :: "'w sockets \<Rightarrow> nat \<Rightarrow> ('w, unit) hprog" where
  "stream_close api h = bind (gets (\<lambda>s. hp_streams s ! h)) (\<lambda>x. case x of
      Socket fd closed \<Rightarrow> if closed then ret () else
        andThen (set_stream h (Socket fd True))
       (andThen (catch (os_call (sk_shutdown api fd)) (\<lambda>e. if is_os_error e then ret () else raise e))
        (os_call (sk_close api fd)))
    | Memory m \<Rightarrow> set_stream h (Memory (ms_close m)))"

section \<open>Connectors\<close>

type_synonym 'n connector = "endpoint_view \<Rightarrow> int \<Rightarrow> ('n, router_error, nat) prog"

text \<open>\<open>endpoint["host"]\<close> of an endpoint that declares none is a \<open>KeyError\<close>.\<close>

definition tcp_connect :: "'w sockets \<Rightarrow> 'w heap connector" where
  "tcp_connect api ep timeout = catch
     (case (ep_host ep, ep_port ep) of
        (None, _) \<Rightarrow> raise (OtherFailure ''KeyError'' [''host''])
      | (_, None) \<Rightarrow> raise (OtherFailure ''KeyError'' [''port''])
      | (Some host, Some port) \<Rightarrow>
          bind (os_call (sk_connect api host port timeout)) (\<lambda>fd.
          andThen (os_call (sk_settimeout_none api fd))
          (new_stream (Socket fd False))))
     (\<lambda>e. if is_os_error e \<or> error_name e = ''ValueError'' then raise (TransportError [''TCP connection failed: ''])
          else raise e)"

text \<open>\<open>MemoryConnector(stream, error)\<close>, its counter of calls aside.\<close>

definition memory_connect :: "nat \<Rightarrow> router_error option \<Rightarrow> 'n connector" where
  "memory_connect h err ep timeout = (case err of Some e \<Rightarrow> raise e | None \<Rightarrow> ret h)"

definition unsupported_connect :: "string \<Rightarrow> 'n connector" where
  "unsupported_connect ty ep timeout =
     raise (UnsupportedTransportError [''transport '', ty, '' is declared but not implemented in M4''])"

section \<open>What a memory stream delivers\<close>

text \<open>\<open>reads sizes m\<close>: the chunks that successive reads return.\<close>

fun reads :: "nat list \<Rightarrow> memory_stream \<Rightarrow> string list \<times> memory_stream" where
  "reads [] m = ([], m)"
| "reads (n # ns) m = (case ms_read n m of (d, m') \<Rightarrow> case reads ns m' of (ds, m'') \<Rightarrow> (d # ds, m''))"

lemma ms_read_conserves:
  "ms_read n m = (d, m') \<Longrightarrow> d @ concat (ms_incoming m') = (if ms_closed m then concat (ms_incoming m') else concat (ms_incoming m))"
  by (auto simp: ms_read_def split: if_splits list.splits)

lemma ms_read_rest:
  "ms_read n m = (d, m') \<Longrightarrow> length d \<le> n \<and> ms_written m' = ms_written m \<and> ms_closed m' = ms_closed m"
  by (auto simp: ms_read_def split: if_splits list.splits)

lemma ms_read_eof:
  "ms_read n m = ([], m') \<Longrightarrow> 0 < n \<Longrightarrow> [] \<notin> set (ms_incoming m) \<Longrightarrow> ms_closed m \<or> ms_incoming m = []"
  by (auto simp: ms_read_def split: if_splits list.splits)

text \<open>A memory stream delivers its bytes once and in order. Whatever sizes an open stream is read with,
  the chunks put together followed by what is left are the bytes that were put in; no chunk is longer than
  asked for, what was written is untouched, and a read of at least one byte from non-empty chunks answers
  the end of file only when nothing is left.\<close>

theorem memory_stream_delivers:
  assumes "\<not> ms_closed m"
  shows "case reads ns m of (ds, m') \<Rightarrow>
     concat ds @ concat (ms_incoming m') = concat (ms_incoming m) \<and>
     list_all2 (\<lambda>d n. length d \<le> n) ds ns \<and> ms_written m' = ms_written m \<and>
     (\<forall>n > 0. [] \<notin> set (ms_incoming m') \<longrightarrow> fst (ms_read n m') = [] \<longrightarrow> concat ds = concat (ms_incoming m))"
  using assms
proof (induction ns arbitrary: m)
  case Nil
  then show ?case
    using ms_read_eof[of _ m] by (auto simp: prod_eq_iff)
next
  case (Cons n ns)
  obtain d m1 where r: "ms_read n m = (d, m1)" by fastforce
  obtain ds m2 where rs: "reads ns m1 = (ds, m2)" by fastforce
  have "\<not> ms_closed m1" using ms_read_rest[OF r] Cons.prems by simp
  from Cons.IH[OF this] have ih: "concat ds @ concat (ms_incoming m2) = concat (ms_incoming m1)"
    "list_all2 (\<lambda>d n. length d \<le> n) ds ns" "ms_written m2 = ms_written m1"
    "\<forall>n > 0. [] \<notin> set (ms_incoming m2) \<longrightarrow> fst (ms_read n m2) = [] \<longrightarrow> concat ds = concat (ms_incoming m1)"
    by (simp_all add: rs)
  have c: "d @ concat (ms_incoming m1) = concat (ms_incoming m)"
    using ms_read_conserves[OF r] Cons.prems by simp
  then have "\<forall>n > 0. [] \<notin> set (ms_incoming m2) \<longrightarrow> fst (ms_read n m2) = [] \<longrightarrow> concat (d # ds) = concat (ms_incoming m)"
    using ih(4) by auto
  with r rs ih c ms_read_rest[OF r] show ?case by simp
qed

theorem memory_stream_delivers_witness:
  "\<exists>m'. reads [2, 9] \<lparr>ms_incoming = [''hello'', ''!''], ms_written = [], ms_closed = False\<rparr> = ([''he'', ''llo''], m') \<and>
     ms_incoming m' = [''!''] \<and> concat [''he'', ''llo''] @ concat (ms_incoming m') = ''hello!''"
proof -
  let ?m = "\<lparr>ms_incoming = [''hello'', ''!''], ms_written = [], ms_closed = False\<rparr>"
  have "\<not> ms_closed ?m" by simp
  note d = memory_stream_delivers[OF this, of "[2, 9]"]
  have "reads [2, 9] ?m = ([''he'', ''llo''], ?m\<lparr>ms_incoming := [''!'']\<rparr>)"
    by (simp add: ms_read_def)
  with d show ?thesis by simp
qed

end
