(* ===== verification/Router.thy ===== *)
theory Router
  imports Transports Registry_Facts
begin

text \<open>
  The session router (M4): \<open>scripts/ubb_router/models.py\<close>, \<open>policy.py\<close>, \<open>state_machine.py\<close>,
  \<open>journal.py\<close> and \<open>router.py\<close>. A \<open>Session\<close> object is entered under its id when it is registered, is
  never removed, and is reached by that id; so a reference to it is its id. The supervisor, the clock,
  the connectors and the streams are the fields of an \<open>renv\<close>, over the lifecycle world \<open>'l\<close> and the
  network world \<open>'n\<close>. What runs under a session's lock is one program.
\<close>

section \<open>Requests and sessions\<close>

record terminal =
  tm_encoding :: string
  tm_display :: string
  tm_width :: int
  tm_height :: int
  tm_baud :: "int option"
  tm_binary_safe :: bool
  tm_newline :: string
  tm_extensions :: fields

definition default_terminal :: terminal where
  "default_terminal = \<lparr>tm_encoding = ''utf-8'', tm_display = ''raw'', tm_width = 80, tm_height = 24,
     tm_baud = None, tm_binary_safe = True, tm_newline = ''preserve'', tm_extensions = []\<rparr>"

text \<open>\<open>TerminalCapabilities.__post_init__\<close>\<close>

definition check_terminal :: "terminal \<Rightarrow> router_error + unit" where
  "check_terminal t = first_error
     [(tm_encoding t = [] \<or> tm_display t = [] \<or> tm_width t < 1 \<or> tm_height t < 1,
       RouterError [''terminal encoding/display must be non-empty and dimensions positive'']),
      (case tm_baud t of None \<Rightarrow> False | Some b \<Rightarrow> b < 1, RouterError [''terminal baud must be positive''])]"

datatype route_type = DIRECT | VIA_SERVICE

fun route_value :: "route_type \<Rightarrow> string" where
  "route_value DIRECT = ''direct''"
| "route_value VIA_SERVICE = ''via_service''"

text \<open>\<open>RouteType(value)\<close>\<close>

definition route_of_value :: "string \<Rightarrow> router_error + route_type" where
  "route_of_value v = (if v = ''direct'' then Inr DIRECT else if v = ''via_service'' then Inr VIA_SERVICE
     else Inl (OtherFailure ''ValueError'' [v, '' is not a valid RouteType'']))"

datatype handoff_mode = REPLACE | RETURN_TO_ORIGIN

text \<open>A request's route type is not checked when the request is made: it is the value, a string.\<close>

record route_request =
  rq_target :: string
  rq_route_type :: string
  rq_origin :: "string option"
  rq_terminal :: terminal
  rq_metadata :: fields

datatype session_state = CREATED | AUTHORIZING | ACQUIRING | CONNECTING | ACTIVE | HANDING_OFF | CLOSING | CLOSED
  | SESSION_FAILED   \<comment> \<open>\<open>SessionState.FAILED\<close>\<close>

fun session_value :: "session_state \<Rightarrow> string" where
  "session_value CREATED = ''created''"
| "session_value AUTHORIZING = ''authorizing''"
| "session_value ACQUIRING = ''acquiring''"
| "session_value CONNECTING = ''connecting''"
| "session_value ACTIVE = ''active''"
| "session_value HANDING_OFF = ''handing_off''"
| "session_value CLOSING = ''closing''"
| "session_value CLOSED = ''closed''"
| "session_value SESSION_FAILED = ''failed''"

text \<open>\<open>state_machine.py\<close>\<close>

fun SESSION_TRANSITIONS :: "session_state \<Rightarrow> session_state set" where
  "SESSION_TRANSITIONS CREATED = {AUTHORIZING, SESSION_FAILED}"
| "SESSION_TRANSITIONS AUTHORIZING = {ACQUIRING, SESSION_FAILED}"
| "SESSION_TRANSITIONS ACQUIRING = {CONNECTING, SESSION_FAILED}"
| "SESSION_TRANSITIONS CONNECTING = {ACTIVE, SESSION_FAILED}"
| "SESSION_TRANSITIONS ACTIVE = {HANDING_OFF, CLOSING, SESSION_FAILED}"
| "SESSION_TRANSITIONS HANDING_OFF = {ACTIVE, CLOSING, SESSION_FAILED}"
| "SESSION_TRANSITIONS CLOSING = {CLOSED, SESSION_FAILED}"
| "SESSION_TRANSITIONS SESSION_FAILED = {CLOSING, CLOSED}"
| "SESSION_TRANSITIONS CLOSED = {}"

record session =
  ss_id :: string
  ss_target :: string
  ss_origin :: "string option"
  ss_route :: route_type
  ss_created_at :: string
  ss_terminal :: terminal
  ss_metadata :: fields
  ss_state :: session_state
  ss_hold :: "string option"   \<comment> \<open>\<open>lifecycle_session_id\<close>\<close>
  ss_endpoint :: "endpoint_view option"
  ss_termination :: "string option"
  ss_parent :: "string option"
  ss_mode :: "handoff_mode option"
  ss_return :: bool
  ss_stream :: "nat option"
  ss_released :: bool

text \<open>\<open>Session.to_dict\<close>: everything but the stream and \<open>hold_released\<close>.\<close>

record session_view =
  sw_id :: string
  sw_target :: string
  sw_origin :: "string option"
  sw_route :: string
  sw_created_at :: string
  sw_terminal :: terminal
  sw_metadata :: fields
  sw_state :: string
  sw_hold :: "string option"
  sw_endpoint :: "endpoint_view option"
  sw_termination :: "string option"
  sw_parent :: "string option"
  sw_mode :: "string option"
  sw_return :: bool

fun mode_value :: "handoff_mode \<Rightarrow> string" where
  "mode_value REPLACE = ''replace''"
| "mode_value RETURN_TO_ORIGIN = ''return_to_origin''"

definition session_dict :: "session \<Rightarrow> session_view" where
  "session_dict x = \<lparr>sw_id = ss_id x, sw_target = ss_target x, sw_origin = ss_origin x,
     sw_route = route_value (ss_route x), sw_created_at = ss_created_at x, sw_terminal = ss_terminal x,
     sw_metadata = ss_metadata x, sw_state = session_value (ss_state x), sw_hold = ss_hold x,
     sw_endpoint = ss_endpoint x, sw_termination = ss_termination x, sw_parent = ss_parent x,
     sw_mode = map_option mode_value (ss_mode x), sw_return = ss_return x\<rparr>"

section \<open>The exposure policy\<close>

definition list_direct_services :: "registry \<Rightarrow> service list" where
  "list_direct_services r = filter (\<lambda>s. sv_main_menu s \<and> default True (sv_direct_allowed s) \<and>
     \<not> default False (sv_admin_only s)) (map snd (services r))"

text \<open>The test on the route type, for the service found.\<close>

definition route_allowed :: "registry \<Rightarrow> route_request \<Rightarrow> service \<Rightarrow> router_error + unit" where
  "route_allowed r rq s =
     (if rq_route_type rq = ''direct'' then
        (if rq_origin rq \<noteq> None then Inl (AuthorizationError [''direct routes cannot declare an origin service''])
         else if \<not> sv_main_menu s \<or> \<not> default True (sv_direct_allowed s)
           then Inl (AuthorizationError [''direct route denied for service '', sv_id s])
         else Inr ())
      else if rq_route_type rq = ''via_service'' then
        (if \<not> truthy (rq_origin rq) then Inl (AuthorizationError [''via_service routes require an origin service''])
         else case get_service r (the (rq_origin rq)) of
             Inl e \<Rightarrow> Inl (UnknownServiceError [''unknown origin service: '', the (rq_origin rq)])
           | Inr b \<Rightarrow> if the (rq_origin rq) \<notin> set (default [] (sv_via_bbs s))
               then Inl (AuthorizationError [''route to '', sv_id s, '' is not allowed via '', the (rq_origin rq)])
               else Inr ())
      else Inl (AuthorizationError [''unsupported route type: '', rq_route_type rq]))"

definition authorize :: "registry \<Rightarrow> route_request \<Rightarrow> router_error + resolution" where
  "authorize r rq = (case get_service r (rq_target rq) of
      Inl e \<Rightarrow> Inl (UnknownServiceError [''unknown target service: '', rq_target rq])
    | Inr s \<Rightarrow> if default False (sv_admin_only s)
        then Inl (AuthorizationError [''service '', sv_id s, '' requires an administrative assertion not implemented in M4''])
        else bindS (route_allowed r rq s) (\<lambda>_.
          case resolve r (sv_id s) of Inl e \<Rightarrow> Inl (CatalogFailure e) | Inr d \<Rightarrow> Inr d))"

section \<open>Environment and state\<close>

record ('l, 'n) renv =
  re_registry :: registry
  re_acquire :: "string \<Rightarrow> ('l, router_error, string) prog"
  re_release :: "string \<Rightarrow> string \<Rightarrow> ('l, router_error, unit) prog"
  re_now :: "'l \<Rightarrow> string \<times> 'l"   \<comment> \<open>\<open>_now()\<close>, an ISO timestamp\<close>
  re_new_id :: "'n \<Rightarrow> string \<times> 'n"
  re_connect_timeout :: int
  re_connectors :: "(string, 'n connector) dict"
  re_resolver :: "(string \<Rightarrow> ('n, router_error, nat) prog) option"
  re_read :: "nat \<Rightarrow> nat \<Rightarrow> ('n, router_error, string) prog"
  re_write :: "nat \<Rightarrow> string \<Rightarrow> ('n, router_error, nat) prog"
  re_close :: "nat \<Rightarrow> ('n, router_error, unit) prog"

text \<open>\<open>{"tcp": TCPConnector(), **(connectors or {})}\<close>\<close>

definition all_connectors :: "'n connector \<Rightarrow> (string, 'n connector) dict \<Rightarrow> (string, 'n connector) dict" where
  "all_connectors tcp extra = fold (\<lambda>(k, c). AList.update k c) extra [(''tcp'', tcp)]"

record ('l, 'n) router =
  ro_sessions :: "(string, session) dict"
  ro_journal :: "(string, string) dict list"
  ro_life :: 'l
  ro_net :: 'n

type_synonym ('l, 'n, 'a) rprog = "(('l, 'n) router, router_error, 'a) prog"

definition life :: "('l, router_error, 'a) prog \<Rightarrow> ('l, 'n, 'a) rprog" where
  "life m = (\<lambda>s. let (r, l) = m (ro_life s) in (r, s\<lparr>ro_life := l\<rparr>))"

definition net :: "('n, router_error, 'a) prog \<Rightarrow> ('l, 'n, 'a) rprog" where
  "net m = (\<lambda>s. let (r, n) = m (ro_net s) in (r, s\<lparr>ro_net := n\<rparr>))"

definition stamp :: "('l, 'n) renv \<Rightarrow> ('l, 'n, string) rprog" where
  "stamp env = (\<lambda>s. let (t, l) = re_now env (ro_life s) in (Ret t, s\<lparr>ro_life := l\<rparr>))"

definition new_id :: "('l, 'n) renv \<Rightarrow> ('l, 'n, string) rprog" where
  "new_id env = (\<lambda>s. let (i, n) = re_new_id env (ro_net s) in (Ret i, s\<lparr>ro_net := n\<rparr>))"

definition lift_check :: "router_error + 'a \<Rightarrow> ('l, 'n, 'a) rprog" where
  "lift_check x = (case x of Inl e \<Rightarrow> raise e | Inr a \<Rightarrow> ret a)"

text \<open>A session object by reference, the update of one of its attributes, and \<open>_session(id)\<close>.\<close>

definition the_session :: "string \<Rightarrow> ('l, 'n, session) rprog" where
  "the_session i = gets (\<lambda>s. the (map_of (ro_sessions s) i))"

definition upd_session :: "string \<Rightarrow> (session \<Rightarrow> session) \<Rightarrow> ('l, 'n, unit) rprog" where
  "upd_session i f = modify (\<lambda>s. s\<lparr>ro_sessions := AList.map_entry i f (ro_sessions s)\<rparr>)"

definition find_session :: "string \<Rightarrow> ('l, 'n, session) rprog" where
  "find_session i = bind (gets (\<lambda>s. map_of (ro_sessions s) i)) (\<lambda>x. case x of
      None \<Rightarrow> raise (SessionNotFoundError [''unknown session: '', i])
    | Some y \<Rightarrow> ret y)"

section \<open>The journal\<close>

definition allowed_keys :: "string list" where
  "allowed_keys = [''timestamp'', ''session_id'', ''target_service'', ''origin_service'', ''event_type'',
     ''old_state'', ''new_state'', ''endpoint_id'', ''termination_reason'', ''error'']"

text \<open>\<open>{key: event[key] for key in allowed if event.get(key) is not None}\<close>\<close>

definition safe_event :: "(string, string option) dict \<Rightarrow> (string, string) dict" where
  "safe_event ev = concat (map (\<lambda>k. case map_of ev k of Some (Some v) \<Rightarrow> [(k, v)] | _ \<Rightarrow> []) allowed_keys)"

definition journal_event :: "('l, 'n) renv \<Rightarrow> string \<Rightarrow> string \<Rightarrow> session_state option \<Rightarrow> session_state option
    \<Rightarrow> string option \<Rightarrow> router_error option \<Rightarrow> ('l, 'n, unit) rprog" where
  "journal_event env i event_type old new reason err =
     bind (stamp env) (\<lambda>t.
     bind (the_session i) (\<lambda>x.
     modify (\<lambda>s. s\<lparr>ro_journal := ro_journal s @ [safe_event
       [(''timestamp'', Some t), (''session_id'', Some (ss_id x)), (''target_service'', Some (ss_target x)),
        (''origin_service'', ss_origin x), (''event_type'', Some event_type),
        (''old_state'', map_option session_value old), (''new_state'', map_option session_value new),
        (''endpoint_id'', map_option ep_id (ss_endpoint x)), (''termination_reason'', reason),
        (''error'', map_option error_name err)]]\<rparr>)))"

definition check_transition :: "session_state \<Rightarrow> session_state \<Rightarrow> router_error + unit" where
  "check_transition old new = (if new \<notin> SESSION_TRANSITIONS old
     then Inl (InvalidSessionTransitionError [''invalid session transition: '', session_value old, '' -> '', session_value new])
     else Inr ())"

text \<open>\<open>_transition\<close>\<close>

definition move :: "('l, 'n) renv \<Rightarrow> string \<Rightarrow> session_state \<Rightarrow> string \<Rightarrow> string option \<Rightarrow> router_error option
    \<Rightarrow> ('l, 'n, unit) rprog" where
  "move env i new event_type reason err =
     bind (the_session i) (\<lambda>x.
     andThen (lift_check (check_transition (ss_state x) new))
    (andThen (upd_session i (\<lambda>y. y\<lparr>ss_state := new\<rparr>))
     (journal_event env i event_type (Some (ss_state x)) (Some new) reason err)))"

section \<open>Opening\<close>

definition validate_origin :: "route_request \<Rightarrow> string option \<Rightarrow> ('l, 'n, unit) rprog" where
  "validate_origin rq origin_id =
     (if rq_route_type rq \<noteq> ''via_service'' then ret ()
      else if \<not> truthy origin_id then raise (SessionBusyError [''via_service route requires an active origin session''])
      else bind (find_session (the origin_id)) (\<lambda>origin.
        andThen (raise_if (ss_state origin \<notin> {ACTIVE, HANDING_OFF}) (SessionBusyError [''origin session '', ss_id origin, '' is not active'']))
        (raise_if (Some (ss_target origin) \<noteq> rq_origin rq) (SessionBusyError [''origin session does not match the claimed origin service'']))))"

definition authorize_route :: "('l, 'n) renv \<Rightarrow> route_request \<Rightarrow> string option \<Rightarrow> ('l, 'n, resolution) rprog" where
  "authorize_route env rq origin_id =
     andThen (validate_origin rq origin_id) (lift_check (authorize (re_registry env) rq))"

definition new_session :: "string \<Rightarrow> route_request \<Rightarrow> route_type \<Rightarrow> string \<Rightarrow> string option \<Rightarrow> handoff_mode option \<Rightarrow> session" where
  "new_session i rq ty t parent mode = \<lparr>ss_id = i, ss_target = rq_target rq, ss_origin = rq_origin rq, ss_route = ty,
     ss_created_at = t, ss_terminal = rq_terminal rq, ss_metadata = rq_metadata rq, ss_state = CREATED, ss_hold = None,
     ss_endpoint = None, ss_termination = None, ss_parent = parent, ss_mode = mode,
     ss_return = (mode = Some RETURN_TO_ORIGIN), ss_stream = None, ss_released = False\<rparr>"

text \<open>\<open>_register\<close>\<close>

definition register :: "('l, 'n) renv \<Rightarrow> route_request \<Rightarrow> string option \<Rightarrow> handoff_mode option \<Rightarrow> ('l, 'n, string) rprog" where
  "register env rq parent mode =
     bind (new_id env) (\<lambda>i.
     bind (lift_check (route_of_value (rq_route_type rq))) (\<lambda>ty.
     bind (stamp env) (\<lambda>t.
     bind (gets ro_sessions) (\<lambda>d.
     andThen (raise_if (has_key d i) (RouterError [''duplicate generated session id: '', i]))
    (andThen (modify (\<lambda>s. s\<lparr>ro_sessions := AList.update i (new_session i rq ty t parent mode) (ro_sessions s)\<rparr>))
    (andThen (journal_event env i ''created'' None (Some CREATED) None None)
     (ret i)))))))"

text \<open>\<open>_release_hold\<close>\<close>

definition release_hold :: "('l, 'n) renv \<Rightarrow> string \<Rightarrow> ('l, 'n, unit) rprog" where
  "release_hold env i =
     bind (the_session i) (\<lambda>x.
     onlyif (truthy (ss_hold x) \<and> \<not> ss_released x)
       (andThen (life (re_release env (ss_target x) (the (ss_hold x))))
        (upd_session i (\<lambda>y. y\<lparr>ss_released := True\<rparr>))))"

text \<open>The stream of an authorized session: the runtime's, or the endpoint's connector's.\<close>

definition open_stream :: "('l, 'n) renv \<Rightarrow> string \<Rightarrow> endpoint_view \<Rightarrow> ('l, 'n, nat) rprog" where
  "open_stream env target ep = (case re_resolver env of
      Some resolver \<Rightarrow> net (resolver target)
    | None \<Rightarrow> net ((case map_of (re_connectors env) (ep_type ep) of
          None \<Rightarrow> unsupported_connect (ep_type ep) | Some c \<Rightarrow> c)
        ep (default (re_connect_timeout env) (ep_connect_timeout_us ep))))"

text \<open>The body of the \<open>try\<close> of \<open>open_session\<close>, and its \<open>except\<close>.\<close>

definition open_body :: "('l, 'n) renv \<Rightarrow> string \<Rightarrow> route_request \<Rightarrow> string option \<Rightarrow> ('l, 'n, unit) rprog" where
  "open_body env i rq parent =
     andThen (move env i AUTHORIZING ''authorizing'' None None)
    (bind (authorize_route env rq parent) (\<lambda>resolution.
     andThen (upd_session i (\<lambda>y. y\<lparr>ss_endpoint := Some (rs_endpoint resolution)\<rparr>))
    (andThen (move env i ACQUIRING ''authorized'' None None)
    (bind (life (re_acquire env (rq_target rq))) (\<lambda>hold.
     andThen (upd_session i (\<lambda>y. y\<lparr>ss_hold := Some hold\<rparr>))
    (andThen (move env i CONNECTING ''lifecycle_acquired'' None None)
    (bind (open_stream env (rq_target rq) (rs_endpoint resolution)) (\<lambda>h.
     andThen (upd_session i (\<lambda>y. y\<lparr>ss_stream := Some h\<rparr>))
     (move env i ACTIVE ''connected'' None None)))))))))"

definition open_handler :: "('l, 'n) renv \<Rightarrow> string \<Rightarrow> router_error \<Rightarrow> ('l, 'n, unit) rprog" where
  "open_handler env i exc =
     bind (the_session i) (\<lambda>x.
     andThen (case ss_stream x of None \<Rightarrow> ret () | Some h \<Rightarrow> catch (net (re_close env h)) (\<lambda>_. ret ()))
    (andThen (release_hold env i)
    (bind (the_session i) (\<lambda>x.
     andThen (onlyif (ss_state x \<noteq> SESSION_FAILED)
        (move env i SESSION_FAILED ''open_failed'' (Some ''open_failed'') (Some exc)))
    (andThen (upd_session i (\<lambda>y. y\<lparr>ss_termination := Some ''open_failed''\<rparr>))
     (raise exc))))))"

definition open_session :: "('l, 'n) renv \<Rightarrow> route_request \<Rightarrow> string option \<Rightarrow> handoff_mode option \<Rightarrow> ('l, 'n, string) rprog" where
  "open_session env rq parent mode =
     bind (register env rq parent mode) (\<lambda>i.
     andThen (catch (open_body env i rq parent) (open_handler env i))
     (ret i))"

section \<open>Closing, handing off, reading and writing\<close>

definition TERMINATION_REASONS :: "string set" where
  "TERMINATION_REASONS = {''caller_closed'', ''endpoint_eof'', ''transport_error'', ''handoff_replaced'',
     ''parent_closed'', ''open_failed'', ''shutdown''}"

definition reason_of :: "string \<Rightarrow> string" where
  "reason_of given = (if given \<in> TERMINATION_REASONS then given else ''other'')"

text \<open>\<open>_restore_parent\<close>\<close>

definition restore_parent :: "('l, 'n) renv \<Rightarrow> string \<Rightarrow> ('l, 'n, unit) rprog" where
  "restore_parent env i =
     bind (the_session i) (\<lambda>child.
     if \<not> ss_return child \<or> \<not> truthy (ss_parent child) then ret ()
     else let p = the (ss_parent child) in
       bind (gets (\<lambda>s. map_of (ro_sessions s) p)) (\<lambda>x. case x of
           None \<Rightarrow> ret ()
         | Some parent \<Rightarrow> onlyif (ss_state parent = HANDING_OFF) (move env p ACTIVE ''handoff_returned'' None None)))"

text \<open>The two \<open>try\<close> blocks of \<open>close_session\<close>: \<open>close_error\<close>.\<close>

definition clean_session :: "('l, 'n) renv \<Rightarrow> string \<Rightarrow> ('l, 'n, router_error option) rprog" where
  "clean_session env i =
     bind (the_session i) (\<lambda>x.
     bind (case ss_stream x of None \<Rightarrow> ret None
           | Some h \<Rightarrow> catch (andThen (net (re_close env h)) (ret None)) (\<lambda>e. ret (Some e))) (\<lambda>close_error.
     catch (andThen (release_hold env i) (ret close_error))
       (\<lambda>e. ret (case close_error of None \<Rightarrow> Some e | Some e' \<Rightarrow> Some e'))))"

definition close_session :: "('l, 'n) renv \<Rightarrow> string \<Rightarrow> string \<Rightarrow> ('l, 'n, session_view) rprog" where
  "close_session env i given =
     bind (find_session i) (\<lambda>x. let reason = reason_of given in
     if ss_state x = CLOSED \<or> ss_state x = CLOSING then ret (session_dict x)
     else andThen (move env i CLOSING ''closing'' (Some reason) None)
      (bind (clean_session env i) (\<lambda>close_error.
       andThen (upd_session i (\<lambda>y. y\<lparr>ss_termination := Some reason\<rparr>))
       (case close_error of
          Some e \<Rightarrow> andThen (move env i SESSION_FAILED ''close_failed'' (Some reason) (Some e))
                    (raise (RouterError [''session cleanup failed: '', error_name e]))
        | None \<Rightarrow> andThen (move env i CLOSED ''closed'' (Some reason) None)
                 (andThen (restore_parent env i)
                 (bind (the_session i) (\<lambda>y. ret (session_dict y))))))))"

definition handoff :: "('l, 'n) renv \<Rightarrow> string \<Rightarrow> string \<Rightarrow> bool \<Rightarrow> terminal option \<Rightarrow> fields option \<Rightarrow> ('l, 'n, string) rprog" where
  "handoff env parent_id target return_to_origin term metadata =
     bind (find_session parent_id) (\<lambda>parent.
     let mode = (if return_to_origin then RETURN_TO_ORIGIN else REPLACE) in
     andThen (raise_if (ss_state parent \<noteq> ACTIVE)
       (SessionBusyError [''session '', ss_id parent, '' cannot hand off while '', session_value (ss_state parent)]))
    (andThen (move env parent_id HANDING_OFF ''handoff_started'' None None)
    (let rq = \<lparr>rq_target = target, rq_route_type = ''via_service'', rq_origin = Some (ss_target parent),
               rq_terminal = default (ss_terminal parent) term, rq_metadata = default [] metadata\<rparr> in
     bind (catch (open_session env rq (Some parent_id) (Some mode)) (\<lambda>exc.
        bind (the_session parent_id) (\<lambda>p.
        andThen (onlyif (ss_state p = HANDING_OFF) (move env parent_id ACTIVE ''handoff_failed'' None None))
        (raise exc)))) (\<lambda>child.
     andThen (onlyif (mode = REPLACE) (bind (close_session env parent_id ''handoff_replaced'') (\<lambda>_. ret ())))
     (ret child)))))"

text \<open>\<open>read\<close> and \<open>write\<close>: the lock is given up before the stream is used.\<close>

definition active_stream :: "string \<Rightarrow> ('l, 'n, nat) rprog" where
  "active_stream i = bind (find_session i) (\<lambda>x.
     andThen (raise_if (ss_state x \<noteq> ACTIVE) (SessionBusyError [''session '', i, '' is not active'']))
     (case ss_stream x of None \<Rightarrow> raise (OtherFailure ''AttributeError'' [''NoneType object has no attribute read''])
        | Some h \<Rightarrow> ret h))"

definition read_session :: "('l, 'n) renv \<Rightarrow> string \<Rightarrow> nat \<Rightarrow> ('l, 'n, string) rprog" where
  "read_session env i count =
     bind (active_stream i) (\<lambda>h.
     bind (catch (net (re_read env h count)) (\<lambda>e.
        if is_os_error e then bind (close_session env i ''transport_error'') (\<lambda>_. raise (TransportError [''stream read failed'']))
        else raise e)) (\<lambda>data.
     andThen (onlyif (data = []) (bind (close_session env i ''endpoint_eof'') (\<lambda>_. ret ())))
     (ret data)))"

definition write_session :: "('l, 'n) renv \<Rightarrow> string \<Rightarrow> string \<Rightarrow> ('l, 'n, nat) rprog" where
  "write_session env i data =
     bind (active_stream i) (\<lambda>h.
     catch (net (re_write env h data)) (\<lambda>e.
        if is_os_error e then bind (close_session env i ''transport_error'') (\<lambda>_. raise (TransportError [''stream write failed'']))
        else raise e))"

definition session_status :: "string \<Rightarrow> ('l, 'n, session_view) rprog" where
  "session_status i = bind (find_session i) (\<lambda>x. ret (session_dict x))"

definition list_sessions :: "('l, 'n) router \<Rightarrow> session_view list" where
  "list_sessions s = map (\<lambda>i. session_dict (the (map_of (ro_sessions s) i))) (sort (map fst (ro_sessions s)))"

end
