(* ===== verification/Router_Facts.thy ===== *)
theory Router_Facts
  imports Router
begin

text \<open>
  The router's invariant: every session is reached along the transition graph, as its journal says,
  and carries what its state promises (an authorization, a lifecycle hold, a stream). The rules here
  run one session's program while the others stay as they are.
\<close>

named_theorems router_rules \<open>rules for the programs of one session\<close>

section \<open>The invariant\<close>

text \<open>The request a session was opened with, and whether the policy grants it its endpoint.\<close>

definition request_of :: "session \<Rightarrow> route_request" where
  "request_of x = \<lparr>rq_target = ss_target x, rq_route_type = route_value (ss_route x), rq_origin = ss_origin x,
     rq_terminal = ss_terminal x, rq_metadata = ss_metadata x\<rparr>"

definition granted :: "registry \<Rightarrow> session \<Rightarrow> bool" where
  "granted reg x \<longleftrightarrow> (case authorize reg (request_of x) of
      Inl e \<Rightarrow> False | Inr d \<Rightarrow> ss_endpoint x = Some (rs_endpoint d))"

definition session_ok :: "registry \<Rightarrow> session \<Rightarrow> bool" where
  "session_ok reg x \<longleftrightarrow>
     (ss_state x \<in> {CREATED, AUTHORIZING} \<longrightarrow> ss_hold x = None) \<and>
     (ss_state x \<in> {CREATED, AUTHORIZING, ACTIVE, HANDING_OFF} \<longrightarrow> \<not> ss_released x) \<and>
     (ss_state x \<in> {ACQUIRING, CONNECTING, ACTIVE, HANDING_OFF} \<or> ss_hold x \<noteq> None \<or> ss_stream x \<noteq> None \<longrightarrow> granted reg x) \<and>
     (ss_state x \<in> {CONNECTING, ACTIVE, HANDING_OFF} \<longrightarrow> ss_hold x \<noteq> None) \<and>
     (ss_state x \<in> {ACTIVE, HANDING_OFF} \<longrightarrow> ss_stream x \<noteq> None) \<and>
     (ss_state x = CLOSED \<longrightarrow> \<not> truthy (ss_hold x) \<or> ss_released x)"

text \<open>The journal of one session is a walk through the graph.\<close>

definition trail :: "string \<Rightarrow> (string, string) dict list \<Rightarrow> (string, string) dict list" where
  "trail i js = filter (\<lambda>e. map_of e ''session_id'' = Some i) js"

fun walk :: "session_state \<Rightarrow> (string, string) dict list \<Rightarrow> session_state \<Rightarrow> bool" where
  "walk a [] b \<longleftrightarrow> a = b"
| "walk a (e # es) b \<longleftrightarrow> (\<exists>c \<in> SESSION_TRANSITIONS a. map_of e ''old_state'' = Some (session_value a) \<and>
     map_of e ''new_state'' = Some (session_value c) \<and> walk c es b)"

fun lived :: "(string, string) dict list \<Rightarrow> session_state \<Rightarrow> bool" where
  "lived [] b = False"
| "lived (e # es) b \<longleftrightarrow> map_of e ''old_state'' = None \<and> map_of e ''new_state'' = Some ''created'' \<and> walk CREATED es b"

definition router_inv :: "registry \<Rightarrow> ('l, 'n) router \<Rightarrow> bool" where
  "router_inv reg s \<longleftrightarrow>
    (\<forall>i. map_of (ro_sessions s) i = None \<longrightarrow> trail i (ro_journal s) = []) \<and>
    (\<forall>i x. map_of (ro_sessions s) i = Some x \<longrightarrow> ss_id x = i \<and> session_ok reg x \<and> lived (trail i (ro_journal s)) (ss_state x)) \<and>
    (\<forall>e \<in> set (ro_journal s). fst ` set e \<subseteq> set allowed_keys)"

lemma trail_snoc [simp]: "trail i (js @ [e]) = trail i js @ (if map_of e ''session_id'' = Some i then [e] else [])"
  by (simp add: trail_def)

lemma walk_snoc: "walk a (es @ [e]) b \<longleftrightarrow> (\<exists>c. walk a es c \<and> b \<in> SESSION_TRANSITIONS c \<and>
    map_of e ''old_state'' = Some (session_value c) \<and> map_of e ''new_state'' = Some (session_value b))"
proof (induction es arbitrary: a)
  case Nil
  have "session_value c = session_value d \<longleftrightarrow> c = d" for c d by (cases c; cases d; simp)
  then show ?case by auto
qed auto

lemma lived_snoc: "lived es b \<Longrightarrow> c \<in> SESSION_TRANSITIONS b \<Longrightarrow> map_of e ''old_state'' = Some (session_value b)
    \<Longrightarrow> map_of e ''new_state'' = Some (session_value c) \<Longrightarrow> lived (es @ [e]) c"
  by (cases es) (auto simp: walk_snoc)

subsection \<open>Journal events\<close>

definition event_of :: "string \<Rightarrow> string \<Rightarrow> session \<Rightarrow> session_state option \<Rightarrow> session_state option \<Rightarrow> string option \<Rightarrow> router_error option
    \<Rightarrow> (string, string) dict" where
  "event_of t event_type x old new reason err = safe_event
       [(''timestamp'', Some t), (''session_id'', Some (ss_id x)), (''target_service'', Some (ss_target x)),
        (''origin_service'', ss_origin x), (''event_type'', Some event_type),
        (''old_state'', map_option session_value old), (''new_state'', map_option session_value new),
        (''endpoint_id'', map_option ep_id (ss_endpoint x)), (''termination_reason'', reason),
        (''error'', map_option error_name err)]"

lemma safe_event_keys: "fst ` set (safe_event ev) \<subseteq> set allowed_keys"
  by (auto simp: safe_event_def split: option.splits)

lemma safe_event_lookup: "k \<in> set allowed_keys \<Longrightarrow> map_of (safe_event ev) k = (case map_of ev k of Some v \<Rightarrow> v | None \<Rightarrow> None)"
proof -
  have "map_of (concat (map (\<lambda>k. case map_of ev k of Some (Some v) \<Rightarrow> [(k, v)] | _ \<Rightarrow> []) ks)) k =
      (if k \<in> set ks then (case map_of ev k of Some v \<Rightarrow> v | None \<Rightarrow> None) else None)" for ks
    by (induction ks) (auto simp: map_add_def split: option.splits)
  then show "k \<in> set allowed_keys \<Longrightarrow> ?thesis" by (simp add: safe_event_def)
qed

lemma event_of_simps [simp]:
  "map_of (event_of t ty x old new reason err) ''session_id'' = Some (ss_id x)"
  "map_of (event_of t ty x old new reason err) ''old_state'' = map_option session_value old"
  "map_of (event_of t ty x old new reason err) ''new_state'' = map_option session_value new"
  "fst ` set (event_of t ty x old new reason err) \<subseteq> set allowed_keys"
  unfolding event_of_def by (rule safe_event_keys | subst safe_event_lookup, simp add: allowed_keys_def, simp)+

section \<open>Running one session's program\<close>

text \<open>The invariant holds, session \<open>i\<close> satisfies \<open>P\<close>, and the other sessions are those of \<open>m\<close>.\<close>

definition cur :: "registry \<Rightarrow> (string \<Rightarrow> session option) \<Rightarrow> string \<Rightarrow> (session \<Rightarrow> bool) \<Rightarrow> ('l, 'n) router \<Rightarrow> bool" where
  "cur reg m i P s \<longleftrightarrow> router_inv reg s \<and> (\<exists>x. map_of (ro_sessions s) i = Some x \<and> P x \<and> ss_id x = i \<and> session_ok reg x) \<and>
     (\<forall>j. j \<noteq> i \<longrightarrow> map_of (ro_sessions s) j = m j)"

lemma map_of_map_entry: "map_of (AList.map_entry i f d) j = (if j = i then map_option f (map_of d i) else map_of d j)"
  by (induction d) auto

lemma cur_weaken: "cur reg m i P s \<Longrightarrow> (\<And>x. session_ok reg x \<Longrightarrow> P x \<Longrightarrow> Q x) \<Longrightarrow> cur reg m i Q s"
  by (auto simp: cur_def)

lemma cur_post: "hoare c (cur reg m i P) f (\<lambda>_. cur reg m i Q') E' \<Longrightarrow> (\<And>x. session_ok reg x \<Longrightarrow> Q' x \<Longrightarrow> Q x) \<Longrightarrow> (\<And>e s. E' e s \<Longrightarrow> E e s)
    \<Longrightarrow> hoare c (cur reg m i P) f (\<lambda>_. cur reg m i Q) E"
  by (rule hoare_conseq, assumption) (auto elim: cur_weaken)

lemma cur_pre: "hoare c (cur reg m i P) f Q E \<Longrightarrow> (\<And>x. session_ok reg x \<Longrightarrow> P' x \<Longrightarrow> P x) \<Longrightarrow> hoare c (cur reg m i P') f Q E"
  by (rule hoare_pre, assumption) (auto elim: cur_weaken)

lemma cur_frame: "cur reg m i P s \<Longrightarrow> cur reg m i P (s\<lparr>ro_life := l\<rparr>)" "cur reg m i P s \<Longrightarrow> cur reg m i P (s\<lparr>ro_net := n\<rparr>)"
  by (simp_all add: cur_def router_inv_def)

lemma router_frame: "router_inv reg s \<Longrightarrow> router_inv reg (s\<lparr>ro_life := l\<rparr>)" "router_inv reg s \<Longrightarrow> router_inv reg (s\<lparr>ro_net := n\<rparr>)"
  by (simp_all add: router_inv_def)

lemma cur_worlds [router_rules]:
  "triple (cur reg m i P) (life f) (\<lambda>_. cur reg m i P) (\<lambda>_. cur reg m i P)"
  "triple (cur reg m i P) (net g) (\<lambda>_. cur reg m i P) (\<lambda>_. cur reg m i P)"
  by (rule hoareI, auto simp: life_def net_def cur_frame split: prod.splits outcome.splits)+

lemma cur_stamp [router_rules]: "triple (cur reg m i P) (stamp env) (\<lambda>_. cur reg m i P) E"
  by (rule hoareI) (auto simp: stamp_def cur_frame split: prod.splits)

lemma cur_session:
  fixes f :: "session \<Rightarrow> ('l, 'n, 'a) rprog"
  assumes "\<And>x. P x \<Longrightarrow> session_ok reg x \<Longrightarrow> ss_id x = i \<Longrightarrow> hoare c (cur reg m i (\<lambda>y. y = x)) (f x) Q E"
  shows "hoare c (cur reg m i P) (bind (the_session i) f) Q E"
  unfolding hoare_def
proof (intro allI impI)
  fix s :: "('l, 'n) router" assume "cur reg m i P s"
  then obtain x where x: "map_of (ro_sessions s) i = Some x" "P x" "ss_id x = i" "session_ok reg x" and c: "cur reg m i (\<lambda>y. y = x) s"
    by (auto simp: cur_def)
  from assms[OF x(2,4,3), unfolded hoare_def] c x(1)
  show "case bind (the_session i) f s of (Ret x, s') \<Rightarrow> Q x s' | (Raise e, s') \<Rightarrow> E e s' | (NoFuel, s') \<Rightarrow> c"
    by (simp add: the_session_def bind_gets)
qed

lemma cur_upd:
  assumes "\<And>x. session_ok reg x \<Longrightarrow> P x \<Longrightarrow> session_ok reg (f x) \<and> ss_id (f x) = ss_id x \<and> ss_state (f x) = ss_state x \<and> Q (f x)"
  shows "hoare c (cur reg m i P) (upd_session i f :: ('b, 'c, unit) rprog) (\<lambda>_. cur reg m i Q) E"
  unfolding upd_session_def
proof (rule hoare_modify)
  fix s :: "('b, 'c) router" assume c: "cur reg m i P s"
  then obtain x where x: "map_of (ro_sessions s) i = Some x" "P x" "ss_id x = i" "session_ok reg x"
    by (auto simp: cur_def)
  with assms[OF x(4,2)] c show "cur reg m i Q (s\<lparr>ro_sessions := AList.map_entry i f (ro_sessions s)\<rparr>)"
    by (simp add: cur_def router_inv_def map_of_map_entry) metis
qed

lemma cur_lift_check: "(\<And>d. v = Inr d \<Longrightarrow> hoare c (cur reg m i P) (f d) Q E) \<Longrightarrow> (\<And>e s. cur reg m i P s \<Longrightarrow> E e s)
    \<Longrightarrow> hoare c (cur reg m i P) (bind (lift_check v) f) Q E"
  by (cases v) (auto simp: lift_check_def hoare_def prog_defs)

lemma move_run:
  assumes "map_of (ro_sessions s) i = Some x" and "re_now env (ro_life s) = (t, l)"
  shows "move env i new ty reason err s = (if new \<notin> SESSION_TRANSITIONS (ss_state x)
    then (Raise (InvalidSessionTransitionError [''invalid session transition: '', session_value (ss_state x), '' -> '', session_value new]), s)
    else (Ret (), s\<lparr>ro_sessions := AList.map_entry i (\<lambda>y. y\<lparr>ss_state := new\<rparr>) (ro_sessions s),
      ro_journal := ro_journal s @ [event_of t ty x (Some (ss_state x)) (Some new) reason err], ro_life := l\<rparr>))"
  using assms by (simp add: move_def the_session_def check_transition_def lift_check_def upd_session_def journal_event_def stamp_def
      map_of_map_entry event_of_def prog_defs)

lemma router_inv_move:
  assumes inv: "router_inv reg s" and x: "map_of (ro_sessions s) i = Some x" "ss_id x = i" and new: "new \<in> SESSION_TRANSITIONS (ss_state x)"
    and ok: "session_ok reg (x\<lparr>ss_state := new\<rparr>)"
  shows "router_inv reg (s\<lparr>ro_sessions := AList.map_entry i (\<lambda>y. y\<lparr>ss_state := new\<rparr>) (ro_sessions s),
      ro_journal := ro_journal s @ [event_of t ty x (Some (ss_state x)) (Some new) reason err], ro_life := l\<rparr>)"
proof -
  have "lived (trail i (ro_journal s)) (ss_state x)"
    using inv x(1) by (auto simp: router_inv_def)
  then have "lived (trail i (ro_journal s) @ [event_of t ty x (Some (ss_state x)) (Some new) reason err]) new"
    using new by (rule lived_snoc) simp_all
  with inv x ok show ?thesis
    by (auto simp: router_inv_def map_of_map_entry split: if_splits)
qed

lemma cur_move:
  assumes "\<And>x. session_ok reg x \<Longrightarrow> P x \<Longrightarrow> new \<in> SESSION_TRANSITIONS (ss_state x) \<Longrightarrow>
      session_ok reg (x\<lparr>ss_state := new\<rparr>) \<and> Q (x\<lparr>ss_state := new\<rparr>)"
  shows "triple (cur reg m i P) (move env i new ty reason err) (\<lambda>_. cur reg m i Q) (\<lambda>_. cur reg m i (\<lambda>x. P x \<and> new \<notin> SESSION_TRANSITIONS (ss_state x)))"
proof (rule hoareI)
  fix s r s' assume c: "cur reg m i P s" and run: "move env i new ty reason err s = (r, s')"
  obtain x where x: "map_of (ro_sessions s) i = Some x" "P x" "ss_id x = i" "session_ok reg x" and inv: "router_inv reg s"
    and others: "\<forall>j. j \<noteq> i \<longrightarrow> map_of (ro_sessions s) j = m j"
    using c by (auto simp: cur_def)
  obtain t l where t: "re_now env (ro_life s) = (t, l)" by fastforce
  show "case r of Ret u \<Rightarrow> cur reg m i Q s' | Raise e \<Rightarrow> cur reg m i (\<lambda>x. P x \<and> new \<notin> SESSION_TRANSITIONS (ss_state x)) s' | NoFuel \<Rightarrow> True"
  proof (cases "new \<in> SESSION_TRANSITIONS (ss_state x)")
    case True
    with assms[OF x(4,2)] router_inv_move[OF inv x(1,3) True] x others run
    show ?thesis unfolding move_run[OF x(1) t] by (auto simp: cur_def map_of_map_entry)
  next
    case False
    with c x run show ?thesis unfolding move_run[OF x(1) t] by (auto simp: cur_def)
  qed
qed

text \<open>A move that the graph allows does not raise.\<close>

lemma cur_move_ok:
  assumes "\<And>x. session_ok reg x \<Longrightarrow> P x \<Longrightarrow> new \<in> SESSION_TRANSITIONS (ss_state x) \<and>
      session_ok reg (x\<lparr>ss_state := new\<rparr>) \<and> Q (x\<lparr>ss_state := new\<rparr>)"
  shows "triple (cur reg m i P) (move env i new ty reason err) (\<lambda>_. cur reg m i Q) E"
  by (rule hoare_conseq[OF cur_move[of reg P new Q]]) (use assms in \<open>auto simp: cur_def\<close>)


section \<open>Opening\<close>

definition quiet :: "registry \<Rightarrow> (string \<Rightarrow> session option) \<Rightarrow> ('l, 'n) router \<Rightarrow> bool" where
  "quiet reg m s \<longleftrightarrow> router_inv reg s \<and> map_of (ro_sessions s) = m"

text \<open>What a session keeps from the request it was opened with.\<close>

definition opened :: "route_request \<Rightarrow> string option \<Rightarrow> handoff_mode option \<Rightarrow> session \<Rightarrow> bool" where
  "opened rq parent mode x \<longleftrightarrow> request_of x = rq \<and> ss_parent x = parent \<and> ss_mode x = mode \<and>
     ss_return x = (mode = Some RETURN_TO_ORIGIN)"

lemma request_of_state [simp]: "request_of (x\<lparr>ss_state := a\<rparr>) = request_of x" "request_of (x\<lparr>ss_endpoint := b\<rparr>) = request_of x"
    "request_of (x\<lparr>ss_hold := c\<rparr>) = request_of x" "request_of (x\<lparr>ss_stream := d\<rparr>) = request_of x"
    "request_of (x\<lparr>ss_released := e\<rparr>) = request_of x" "request_of (x\<lparr>ss_termination := f\<rparr>) = request_of x"
  by (simp_all add: request_of_def)

lemma granted_state [simp]: "granted reg (x\<lparr>ss_state := a\<rparr>) = granted reg x" "granted reg (x\<lparr>ss_hold := c\<rparr>) = granted reg x"
    "granted reg (x\<lparr>ss_stream := d\<rparr>) = granted reg x" "granted reg (x\<lparr>ss_released := e\<rparr>) = granted reg x"
    "granted reg (x\<lparr>ss_termination := f\<rparr>) = granted reg x"
  by (simp_all add: granted_def split: sum.split)

lemma opened_state [simp]: "opened rq p mode (x\<lparr>ss_state := a\<rparr>) = opened rq p mode x" "opened rq p mode (x\<lparr>ss_endpoint := b\<rparr>) = opened rq p mode x"
    "opened rq p mode (x\<lparr>ss_hold := c\<rparr>) = opened rq p mode x" "opened rq p mode (x\<lparr>ss_stream := d\<rparr>) = opened rq p mode x"
    "opened rq p mode (x\<lparr>ss_released := e\<rparr>) = opened rq p mode x" "opened rq p mode (x\<lparr>ss_termination := f\<rparr>) = opened rq p mode x"
  by (simp_all add: opened_def)

lemma granted_endpoint: "authorize reg (request_of x) = Inr d \<Longrightarrow> granted reg (x\<lparr>ss_endpoint := Some (rs_endpoint d)\<rparr>)"
  by (simp add: granted_def)

lemma quiet_frame: "quiet reg m s \<Longrightarrow> quiet reg m (s\<lparr>ro_life := l\<rparr>)" "quiet reg m s \<Longrightarrow> quiet reg m (s\<lparr>ro_net := n\<rparr>)"
  by (simp_all add: quiet_def router_inv_def)

lemma quiet_cur: "quiet reg m s \<Longrightarrow> m i = Some x \<Longrightarrow> cur reg m i (\<lambda>y. y = x) s"
  by (auto simp: quiet_def cur_def router_inv_def)

lemma cur_quiet: "cur reg m i P s \<Longrightarrow> \<exists>x. P x \<and> ss_id x = i \<and> session_ok reg x \<and> quiet reg (m(i \<mapsto> x)) s"
proof -
  assume c: "cur reg m i P s"
  then obtain x where "map_of (ro_sessions s) i = Some x" "P x" "ss_id x = i" "session_ok reg x" "router_inv reg s"
    by (auto simp: cur_def)
  with c show ?thesis by (auto simp: quiet_def cur_def fun_eq_iff)
qed

lemma cur_inv: "cur reg m i P s \<Longrightarrow> router_inv reg s"
  by (simp add: cur_def)

lemma router_inv_quiet: "router_inv reg s \<Longrightarrow> quiet reg (map_of (ro_sessions s)) s"
  by (simp add: quiet_def)

lemma register_run:
  assumes "re_new_id env (ro_net s) = (i, n)" and "re_now env (ro_life s) = (t, l)" and "re_now env l = (t', l')"
  shows "register env rq parent mode s = (case route_of_value (rq_route_type rq) of
      Inl e \<Rightarrow> (Raise e, s\<lparr>ro_net := n\<rparr>)
    | Inr ty \<Rightarrow> if has_key (ro_sessions s) i then (Raise (RouterError [''duplicate generated session id: '', i]), s\<lparr>ro_net := n, ro_life := l\<rparr>)
      else (Ret i, s\<lparr>ro_net := n, ro_life := l', ro_sessions := AList.update i (new_session i rq ty t parent mode) (ro_sessions s),
        ro_journal := ro_journal s @ [event_of t' ''created'' (new_session i rq ty t parent mode) None (Some CREATED) None None]\<rparr>))"
  using assms by (simp add: register_def new_id_def stamp_def journal_event_def the_session_def lift_check_def event_of_def prog_defs
      split: sum.split)

lemma route_of_value_Inr: "route_of_value v = Inr ty \<longleftrightarrow> v = route_value ty"
  by (cases ty) (auto simp: route_of_value_def)

lemma register_triple:
  "triple (quiet reg m) (register env rq parent mode)
     (\<lambda>i s. m i = None \<and> cur reg m i (\<lambda>x. opened rq parent mode x \<and> ss_state x = CREATED \<and> ss_hold x = None \<and> ss_stream x = None) s)
     (\<lambda>_. quiet reg m)"
proof (rule hoareI)
  fix s r s' assume q: "quiet reg m s" and run: "register env rq parent mode s = (r, s')"
  obtain i n where i: "re_new_id env (ro_net s) = (i, n)" by fastforce
  obtain t l where t: "re_now env (ro_life s) = (t, l)" by fastforce
  obtain t' l' where t': "re_now env l = (t', l')" by fastforce
  note eq = register_run[OF i t t', of rq parent mode, unfolded run]
  show "case r of Ret i \<Rightarrow> m i = None \<and> cur reg m i (\<lambda>x. opened rq parent mode x \<and> ss_state x = CREATED \<and> ss_hold x = None \<and> ss_stream x = None) s'
      | Raise e \<Rightarrow> quiet reg m s' | NoFuel \<Rightarrow> True"
  proof (cases "route_of_value (rq_route_type rq)")
    case (Inl e)
    with eq q show ?thesis by (simp add: quiet_frame)
  next
    case (Inr ty)
    let ?x = "new_session i rq ty t parent mode"
    have x: "ss_id ?x = i" "session_ok reg ?x" "opened rq parent mode ?x" "ss_state ?x = CREATED" "ss_hold ?x = None" "ss_stream ?x = None"
      using Inr by (auto simp: new_session_def session_ok_def opened_def request_of_def route_of_value_Inr)
    show ?thesis
    proof (cases "has_key (ro_sessions s) i")
      case True
      with eq q Inr show ?thesis by (simp add: quiet_def router_inv_def)
    next
      case False
      then have none: "map_of (ro_sessions s) i = None" by (simp add: has_key_map_of)
      with q have "trail i (ro_journal s) = []" by (simp add: quiet_def router_inv_def)
      with eq q Inr False none x show ?thesis
        by (auto simp: quiet_def cur_def router_inv_def)
    qed
  qed
qed

lemma validate_origin_pure: "hoare c P (validate_origin rq parent) (\<lambda>_. P) (\<lambda>_. P)"
  by (auto simp: validate_origin_def find_session_def hoare_def prog_defs split: option.split)

lemma authorize_route_triple:
  "hoare c P (authorize_route env rq parent) (\<lambda>d s. authorize (re_registry env) rq = Inr d \<and> P s) (\<lambda>_. P)"
  unfolding authorize_route_def
  by (rule hoare_andThen[OF validate_origin_pure]) (auto simp: lift_check_def hoare_def prog_defs split: sum.split)

lemma open_stream_triple: "triple (cur reg m i P) (open_stream env target ep) (\<lambda>_. cur reg m i P) (\<lambda>_. cur reg m i P)"
  unfolding open_stream_def by (cases "re_resolver env") (simp_all add: cur_worlds)

abbreviation at_stage :: "route_request \<Rightarrow> string option \<Rightarrow> handoff_mode option \<Rightarrow> session_state set \<Rightarrow> session \<Rightarrow> bool" where
  "at_stage rq parent mode X x \<equiv> opened rq parent mode x \<and> ss_state x \<in> X"

text \<open>The two ways to continue: a step that may raise where it stands, and one that may not.\<close>

lemma cur_step:
  assumes "triple (cur reg m i P) f (\<lambda>_. cur reg m i P) (\<lambda>_. cur reg m i P)"
    and "\<And>x. P x \<Longrightarrow> E x" and "\<And>a. triple (cur reg m i P) (g a) Q (\<lambda>_. cur reg m i E)"
  shows "triple (cur reg m i P) (bind f g) Q (\<lambda>_. cur reg m i E)"
  by (rule hoare_bind[OF _ assms(3)], rule hoare_conseq[OF assms(1)]) (auto intro: assms(2) elim: cur_weaken)

lemma cur_upd_then:
  assumes "\<And>x. session_ok reg x \<Longrightarrow> P x \<Longrightarrow> session_ok reg (f x) \<and> ss_id (f x) = ss_id x \<and> ss_state (f x) = ss_state x \<and> R (f x)"
    and "triple (cur reg m i R) g Q E"
  shows "triple (cur reg m i P) (andThen (upd_session i f) g) Q E"
  by (rule hoare_andThen[OF cur_upd assms(2)]) (use assms(1) in blast)

lemma cur_move_then:
  assumes "\<And>x. session_ok reg x \<Longrightarrow> P x \<Longrightarrow> new \<in> SESSION_TRANSITIONS (ss_state x) \<and>
      session_ok reg (x\<lparr>ss_state := new\<rparr>) \<and> R (x\<lparr>ss_state := new\<rparr>)"
    and "triple (cur reg m i R) g Q E"
  shows "triple (cur reg m i P) (andThen (move env i new ty reason err) g) Q E"
  by (rule hoare_andThen[OF cur_move_ok assms(2)]) (use assms(1) in blast)

lemma open_body_triple:
  fixes env :: "('l, 'n) renv"
  defines "reg \<equiv> re_registry env"
  shows "triple (cur reg m i (\<lambda>x. at_stage rq parent mode {CREATED} x \<and> ss_hold x = None \<and> ss_stream x = None)) (open_body env i rq parent)
     (\<lambda>_ s. (\<exists>d. authorize reg rq = Inr d) \<and> cur reg m i (at_stage rq parent mode {ACTIVE}) s)
     (\<lambda>_. cur reg m i (at_stage rq parent mode {AUTHORIZING, ACQUIRING, CONNECTING}))"
  (is "triple _ _ ?Q ?E")
proof -
  let ?E' = "at_stage rq parent mode {AUTHORIZING, ACQUIRING, CONNECTING}"
  let ?A = "\<lambda>x. at_stage rq parent mode {ACQUIRING} x \<and> granted reg x \<and> \<not> ss_released x"
  let ?H = "\<lambda>x. opened rq parent mode x \<and> granted reg x \<and> ss_hold x \<noteq> None \<and> \<not> ss_released x"
  have last: "triple (cur reg m i (\<lambda>x. ?H x \<and> ss_state x = CONNECTING \<and> ss_stream x \<noteq> None)) (move env i ACTIVE ''connected'' None None)
      (\<lambda>_. cur reg m i (at_stage rq parent mode {ACTIVE})) ?E"
    by (rule cur_move_ok) (auto simp: session_ok_def)
  have connect: "triple (cur reg m i (\<lambda>x. ?H x \<and> ss_state x = CONNECTING))
      (bind (open_stream env (rq_target rq) (rs_endpoint d)) (\<lambda>h. andThen (upd_session i (\<lambda>y. y\<lparr>ss_stream := Some h\<rparr>)) (move env i ACTIVE ''connected'' None None)))
      (\<lambda>_. cur reg m i (at_stage rq parent mode {ACTIVE})) ?E" for d
    by (rule cur_step[OF open_stream_triple], simp, rule cur_upd_then[OF _ last]) (auto simp: session_ok_def)
  have acquire: "triple (cur reg m i ?A)
      (bind (life (re_acquire env (rq_target rq))) (\<lambda>hold.
        andThen (upd_session i (\<lambda>y. y\<lparr>ss_hold := Some hold\<rparr>))
       (andThen (move env i CONNECTING ''lifecycle_acquired'' None None)
       (bind (open_stream env (rq_target rq) (rs_endpoint d)) (\<lambda>h. andThen (upd_session i (\<lambda>y. y\<lparr>ss_stream := Some h\<rparr>)) (move env i ACTIVE ''connected'' None None))))))
      (\<lambda>_. cur reg m i (at_stage rq parent mode {ACTIVE})) ?E" for d
    by (rule cur_step[OF cur_worlds(1)], simp, rule cur_upd_then[OF _ cur_move_then[OF _ connect], where R = "\<lambda>x. ?H x \<and> ss_state x = ACQUIRING"])
      (auto simp: session_ok_def)
  have granted: "triple (cur reg m i (at_stage rq parent mode {AUTHORIZING}))
      (andThen (upd_session i (\<lambda>y. y\<lparr>ss_endpoint := Some (rs_endpoint d)\<rparr>))
      (andThen (move env i ACQUIRING ''authorized'' None None)
      (bind (life (re_acquire env (rq_target rq))) (\<lambda>hold.
        andThen (upd_session i (\<lambda>y. y\<lparr>ss_hold := Some hold\<rparr>))
       (andThen (move env i CONNECTING ''lifecycle_acquired'' None None)
       (bind (open_stream env (rq_target rq) (rs_endpoint d)) (\<lambda>h. andThen (upd_session i (\<lambda>y. y\<lparr>ss_stream := Some h\<rparr>)) (move env i ACTIVE ''connected'' None None))))))))
      (\<lambda>_. cur reg m i (at_stage rq parent mode {ACTIVE})) ?E" if "authorize reg rq = Inr d" for d
    by (rule cur_upd_then[OF _ cur_move_then[OF _ acquire], where R = "\<lambda>x. at_stage rq parent mode {AUTHORIZING} x \<and> granted reg x \<and> \<not> ss_released x"])
      (use that in \<open>auto simp: session_ok_def opened_def intro: granted_endpoint\<close>)
  have policy: "triple (cur reg m i (at_stage rq parent mode {AUTHORIZING})) (authorize_route env rq parent)
      (\<lambda>d s. authorize reg rq = Inr d \<and> cur reg m i (at_stage rq parent mode {AUTHORIZING}) s) ?E"
    unfolding reg_def
    by (rule hoare_conseq[OF authorize_route_triple[where P = "cur (re_registry env) m i (at_stage rq parent mode {AUTHORIZING})"]])
      (auto elim: cur_weaken)
  show ?thesis
    unfolding open_body_def
  proof (rule cur_move_then[where R = "at_stage rq parent mode {AUTHORIZING}"], goal_cases)
    case 2
    show ?case
    proof (rule hoare_bind[OF policy])
      show "triple (\<lambda>s. authorize reg rq = Inr d \<and> cur reg m i (at_stage rq parent mode {AUTHORIZING}) s)
        (andThen (upd_session i (\<lambda>y. y\<lparr>ss_endpoint := Some (rs_endpoint d)\<rparr>))
        (andThen (move env i ACQUIRING ''authorized'' None None)
        (bind (life (re_acquire env (rq_target rq))) (\<lambda>hold.
          andThen (upd_session i (\<lambda>y. y\<lparr>ss_hold := Some hold\<rparr>))
         (andThen (move env i CONNECTING ''lifecycle_acquired'' None None)
         (bind (open_stream env (rq_target rq) (rs_endpoint d)) (\<lambda>h. andThen (upd_session i (\<lambda>y. y\<lparr>ss_stream := Some h\<rparr>)) (move env i ACTIVE ''connected'' None None))))))))
        ?Q ?E" for d
        by (cases "authorize reg rq = Inr d") (auto simp: hoare_false intro: hoare_conseq[OF granted])
    qed
  qed (auto simp: session_ok_def)
qed

text \<open>Whether a session still owes the supervisor a release.\<close>

definition owes :: "session \<Rightarrow> bool" where
  "owes x \<longleftrightarrow> truthy (ss_hold x) \<and> \<not> ss_released x"

lemma owes_state [simp]: "owes (x\<lparr>ss_state := a\<rparr>) = owes x" "owes (x\<lparr>ss_termination := f\<rparr>) = owes x" "\<not> owes (x\<lparr>ss_released := True\<rparr>)"
  by (simp_all add: owes_def)

lemma cur_return: "(\<And>x. session_ok reg x \<Longrightarrow> P x \<Longrightarrow> Q a x) \<Longrightarrow> hoare c (cur reg m i P) (ret a) (\<lambda>b. cur reg m i (Q b)) E"
  by (rule hoare_ret) (auto elim: cur_weaken)

lemma cur_release:
  assumes "\<And>x. P x \<Longrightarrow> ss_state x \<notin> {ACTIVE, HANDING_OFF}"
    and "\<And>x. P x \<Longrightarrow> \<not> owes x \<Longrightarrow> Q x" and "\<And>x. P x \<Longrightarrow> owes x \<Longrightarrow> Q (x\<lparr>ss_released := True\<rparr>)"
  shows "triple (cur reg m i P) (release_hold env i) (\<lambda>_. cur reg m i (\<lambda>x. Q x \<and> \<not> owes x)) (\<lambda>_. cur reg m i (\<lambda>x. P x \<and> owes x))"
  unfolding release_hold_def
proof (rule cur_session, rule hoare_onlyif)
  fix x assume x: "P x" "session_ok reg x" "truthy (ss_hold x) \<and> \<not> ss_released x"
  then have o: "owes x" by (simp add: owes_def)
  show "triple (cur reg m i (\<lambda>y. y = x)) (andThen (life (re_release env (ss_target x) (the (ss_hold x)))) (upd_session i (\<lambda>y. y\<lparr>ss_released := True\<rparr>)))
    (\<lambda>_. cur reg m i (\<lambda>x. Q x \<and> \<not> owes x)) (\<lambda>_. cur reg m i (\<lambda>x. P x \<and> owes x))"
  proof (rule hoare_andThen)
    show "triple (cur reg m i (\<lambda>y. y = x)) (life (re_release env (ss_target x) (the (ss_hold x))))
      (\<lambda>_. cur reg m i (\<lambda>y. y = x)) (\<lambda>_. cur reg m i (\<lambda>x. P x \<and> owes x))"
      by (rule hoare_conseq[OF cur_worlds(1)[of reg m i "\<lambda>y. y = x"]]) (use x o in \<open>auto elim: cur_weaken\<close>)
    show "triple (cur reg m i (\<lambda>y. y = x)) (upd_session i (\<lambda>y. y\<lparr>ss_released := True\<rparr>))
      (\<lambda>_. cur reg m i (\<lambda>x. Q x \<and> \<not> owes x)) (\<lambda>_. cur reg m i (\<lambda>x. P x \<and> owes x))"
      using assms(1)[OF x(1)] assms(3)[OF x(1) o] x by (intro cur_upd) (auto simp: session_ok_def)
  qed
next
  fix x s assume "P x" "\<not> (truthy (ss_hold x) \<and> \<not> ss_released x)" "cur reg m i (\<lambda>y. y = x) s"
  then show "cur reg m i (\<lambda>x. Q x \<and> \<not> owes x) s"
    using assms(2) by (auto simp: owes_def elim: cur_weaken)
qed

lemma session_ok_owes: "session_ok reg x \<Longrightarrow> owes x \<Longrightarrow> ss_state x \<notin> {CREATED, AUTHORIZING, CLOSED}"
  by (cases "ss_state x"; cases "ss_hold x"; simp add: session_ok_def owes_def)

lemma session_ok_failed: "session_ok reg x \<Longrightarrow> session_ok reg (x\<lparr>ss_state := SESSION_FAILED\<rparr>)"
  by (simp add: session_ok_def)

text \<open>How a session ends whose opening failed: cleaned up, or stuck with the hold it could not give back.\<close>

definition aborted :: "session \<Rightarrow> bool" where
  "aborted x \<longleftrightarrow> (if owes x then ss_state x \<in> {ACQUIRING, CONNECTING} else ss_state x = SESSION_FAILED \<and> ss_termination x = Some ''open_failed'')"

lemma open_handler_triple:
  "triple (cur reg m i (at_stage rq parent mode {AUTHORIZING, ACQUIRING, CONNECTING})) (open_handler env i exc)
     Q (\<lambda>_. cur reg m i (\<lambda>x. opened rq parent mode x \<and> aborted x))"
proof -
  let ?P = "at_stage rq parent mode {AUTHORIZING, ACQUIRING, CONNECTING}"
  let ?E = "\<lambda>_. cur reg m i (\<lambda>x. opened rq parent mode x \<and> aborted x)"
  have close: "triple (cur reg m i P) (case h of None \<Rightarrow> ret () | Some h \<Rightarrow> catch (net (re_close env h)) (\<lambda>_. ret ()))
      (\<lambda>_. cur reg m i P) E" for P h E
    by (cases h) (auto intro: hoare_ret hoare_catch[OF cur_worlds(2) hoare_ret])
  have finish: "triple (cur reg m i (\<lambda>x. opened rq parent mode x \<and> \<not> owes x \<and> ss_state x = SESSION_FAILED))
      (andThen (upd_session i (\<lambda>y. y\<lparr>ss_termination := Some ''open_failed''\<rparr>)) (raise exc)) Q ?E"
    by (rule cur_upd_then[OF _ hoare_raise[of "cur reg m i (\<lambda>x. opened rq parent mode x \<and> aborted x)"]])
      (auto simp: session_ok_def owes_def aborted_def)
  have fail: "triple (cur reg m i (\<lambda>x. ?P x \<and> \<not> owes x)) (bind (the_session i) (\<lambda>x.
      andThen (onlyif (ss_state x \<noteq> SESSION_FAILED) (move env i SESSION_FAILED ''open_failed'' (Some ''open_failed'') (Some exc)))
     (andThen (upd_session i (\<lambda>y. y\<lparr>ss_termination := Some ''open_failed''\<rparr>)) (raise exc)))) Q ?E"
  proof (rule cur_session, rule hoare_andThen[OF _ finish], rule hoare_onlyif)
    fix x assume x: "?P x \<and> \<not> owes x" "session_ok reg x"
    then have edge: "SESSION_FAILED \<in> SESSION_TRANSITIONS (ss_state x)" by auto
    show "triple (cur reg m i (\<lambda>y. y = x)) (move env i SESSION_FAILED ''open_failed'' (Some ''open_failed'') (Some exc))
      (\<lambda>_. cur reg m i (\<lambda>x. opened rq parent mode x \<and> \<not> owes x \<and> ss_state x = SESSION_FAILED)) ?E"
      by (rule cur_move_ok) (use x edge in \<open>simp add: session_ok_failed\<close>)
  qed auto
  have release: "triple (cur reg m i ?P) (release_hold env i) (\<lambda>_. cur reg m i (\<lambda>x. ?P x \<and> \<not> owes x)) ?E"
  proof (rule hoare_conseq[OF cur_release[of ?P ?P reg m i env]])
    show "?E e s" if "cur reg m i (\<lambda>x. ?P x \<and> owes x) s" for e :: router_error and s
    proof (rule cur_weaken[OF that])
      fix x assume "session_ok reg x" "?P x \<and> owes x"
      with session_ok_owes[of reg x] show "opened rq parent mode x \<and> aborted x" by (simp add: aborted_def)
    qed
  qed auto
  show ?thesis
    unfolding open_handler_def
    by (rule hoare_bind[where R = "\<lambda>_. cur reg m i ?P"], simp add: the_session_def hoare_gets, rule hoare_andThen[OF close],
        rule hoare_andThen[OF release fail])
qed

lemma open_session_triple:
  fixes env :: "('l, 'n) renv"
  defines "reg \<equiv> re_registry env"
  shows "triple (quiet reg m) (open_session env rq parent mode)
     (\<lambda>i s. m i = None \<and> (\<exists>d. authorize reg rq = Inr d) \<and> cur reg m i (at_stage rq parent mode {ACTIVE}) s)
     (\<lambda>_ s. quiet reg m s \<or> (\<exists>i. m i = None \<and> cur reg m i (\<lambda>x. opened rq parent mode x \<and> aborted x) s))"
  (is "triple _ _ ?Q ?E")
proof -
  let ?new = "\<lambda>x. at_stage rq parent mode {CREATED} x \<and> ss_hold x = None \<and> ss_stream x = None"
  have reg: "triple (quiet reg m) (register env rq parent mode) (\<lambda>i s. m i = None \<and> cur reg m i ?new s) ?E"
    by (rule hoare_conseq[OF register_triple]) auto
  have step: "triple (\<lambda>s. m i = None \<and> cur reg m i ?new s) (andThen (catch (open_body env i rq parent) (open_handler env i)) (ret i)) ?Q ?E" for i
  proof (cases "m i = None")
    case True
    have "triple (cur reg m i ?new) (catch (open_body env i rq parent) (open_handler env i))
       (\<lambda>_ s. (\<exists>d. authorize reg rq = Inr d) \<and> cur reg m i (at_stage rq parent mode {ACTIVE}) s)
       (\<lambda>_. cur reg m i (\<lambda>x. opened rq parent mode x \<and> aborted x))"
      unfolding reg_def by (rule hoare_catch[OF open_body_triple open_handler_triple])
    then have "triple (cur reg m i ?new) (catch (open_body env i rq parent) (open_handler env i)) (\<lambda>_. ?Q i) ?E"
      by (rule hoare_conseq) (use True in auto)
    then have "triple (cur reg m i ?new) (andThen (catch (open_body env i rq parent) (open_handler env i)) (ret i)) ?Q ?E"
      by (rule hoare_andThen) (rule hoare_ret)
    with True show ?thesis by simp
  qed (auto simp: hoare_def)
  show ?thesis
    unfolding open_session_def by (rule hoare_bind[OF reg step])
qed

end
