(* ===== verification/Router_Sessions.thy ===== *)
theory Router_Sessions
  imports Router_Facts
begin

text \<open>
  What the router's operations do to its sessions: opening, closing, handing off, reading and
  writing, and the invariant of every run.
\<close>

section \<open>Closing\<close>

definition cleaned :: "session \<Rightarrow> session" where
  "cleaned x = (if owes x then x\<lparr>ss_released := True\<rparr> else x)"

lemma cleaned_simps [simp]: "ss_id (cleaned x) = ss_id x" "ss_state (cleaned x) = ss_state x" "\<not> owes (cleaned x)"
    "ss_return (cleaned x) = ss_return x" "ss_parent (cleaned x) = ss_parent x"
  by (simp_all add: cleaned_def)

lemma same_but_released: "\<exists>b. x = x\<lparr>ss_released := b\<rparr>"
  by (rule exI[of _ "ss_released x"], cases x) simp

lemma clean_session_triple:
  assumes "ss_state x = CLOSING"
  shows "triple (cur reg m i (\<lambda>y. y = x)) (clean_session env i)
    (\<lambda>err. cur reg m i (\<lambda>y. if err = None then y = cleaned x else \<exists>b. y = x\<lparr>ss_released := b\<rparr>)) E"
proof -
  let ?Q = "\<lambda>err. cur reg m i (\<lambda>y. if err = None then y = cleaned x else \<exists>b. y = x\<lparr>ss_released := b\<rparr>)"
  have close: "triple (cur reg m i (\<lambda>y. y = x)) (case h of None \<Rightarrow> ret None
      | Some h \<Rightarrow> catch (andThen (net (re_close env h)) (ret None)) (\<lambda>e. ret (Some e))) (\<lambda>_. cur reg m i (\<lambda>y. y = x)) E" for h E
  proof (cases h)
    case (Some k)
    have "triple (cur reg m i (\<lambda>y. y = x)) (andThen (net (re_close env k)) (ret None)) (\<lambda>_. cur reg m i (\<lambda>y. y = x)) (\<lambda>_. cur reg m i (\<lambda>y. y = x))"
      by (rule hoare_andThen[OF cur_worlds(2) hoare_ret])
    with Some show ?thesis by (auto intro: hoare_catch hoare_ret)
  qed (auto intro: hoare_ret)
  have rel: "triple (cur reg m i (\<lambda>y. y = x)) (release_hold env i) (\<lambda>_. cur reg m i (\<lambda>y. y = cleaned x)) (\<lambda>_. cur reg m i (\<lambda>y. y = x))"
    by (rule hoare_conseq[OF cur_release[of "\<lambda>y. y = x" "\<lambda>y. y = cleaned x"]]) (use assms in \<open>auto simp: cleaned_def elim: cur_weaken\<close>)
  have "triple (cur reg m i (\<lambda>y. y = x)) (andThen (release_hold env i) (ret err)) ?Q (\<lambda>_. cur reg m i (\<lambda>y. y = x))" for err
  proof (rule hoare_andThen[OF rel hoare_ret])
    show "?Q err s" if "cur reg m i (\<lambda>y. y = cleaned x) s" for s :: "('l, 'n) router"
      by (rule cur_weaken[OF that]) (cases err, use same_but_released[of x] in \<open>auto simp: cleaned_def\<close>)
  qed
  moreover have "?Q (case err of None \<Rightarrow> Some e | Some e' \<Rightarrow> Some e') s" if "cur reg m i (\<lambda>y. y = x) s" for err e s
    by (rule cur_weaken[OF that]) (cases err, use same_but_released[of x] in \<open>simp_all\<close>)
  ultimately have undo: "triple (cur reg m i (\<lambda>y. y = x)) (catch (andThen (release_hold env i) (ret err))
     (\<lambda>e. ret (case err of None \<Rightarrow> Some e | Some e' \<Rightarrow> Some e'))) ?Q E" for err
    by (intro hoare_catch hoare_ret)
  show ?thesis
    unfolding clean_session_def by (rule cur_session, erule ssubst) (rule hoare_bind[OF close undo])
qed

text \<open>The sessions after a child has given control back to its parent.\<close>

definition restored :: "(string \<Rightarrow> session option) \<Rightarrow> session \<Rightarrow> string \<Rightarrow> session option" where
  "restored m x = (if ss_return x \<and> truthy (ss_parent x)
     then (case m (the (ss_parent x)) of
         None \<Rightarrow> m
       | Some y \<Rightarrow> if ss_state y = HANDING_OFF then m(the (ss_parent x) \<mapsto> y\<lparr>ss_state := ACTIVE\<rparr>) else m)
     else m)"

lemma restored_other: "m i = Some x \<Longrightarrow> ss_state x \<noteq> HANDING_OFF \<Longrightarrow> restored m z i = Some x"
  by (auto simp: restored_def split: option.split)

lemma session_ok_return: "session_ok reg y \<Longrightarrow> ss_state y = HANDING_OFF \<Longrightarrow> session_ok reg (y\<lparr>ss_state := ACTIVE\<rparr>)"
  by (simp add: session_ok_def)

lemma quiet_move:
  fixes env :: "('l, 'n) renv"
  assumes "m i = Some x" and "new \<in> SESSION_TRANSITIONS (ss_state x)" and "session_ok reg x \<Longrightarrow> session_ok reg (x\<lparr>ss_state := new\<rparr>)"
  shows "triple (quiet reg m) (move env i new ty reason err) (\<lambda>_. quiet reg (m(i \<mapsto> x\<lparr>ss_state := new\<rparr>))) E"
proof (rule hoare_conseq[OF cur_move_ok[of reg "\<lambda>y. y = x" new "\<lambda>y. y = x\<lparr>ss_state := new\<rparr>" m i]])
  show "quiet reg (m(i \<mapsto> x\<lparr>ss_state := new\<rparr>)) s" if "cur reg m i (\<lambda>y. y = x\<lparr>ss_state := new\<rparr>) s" for s :: "('l, 'n) router"
    using cur_quiet[OF that] by auto
qed (use assms in \<open>auto intro: quiet_cur\<close>)

lemma restore_parent_triple:
  assumes x: "m i = Some x"
  shows "triple (quiet reg m) (restore_parent env i) (\<lambda>_. quiet reg (restored m x)) E"
proof (cases "ss_return x \<and> truthy (ss_parent x)")
  case True
  let ?p = "the (ss_parent x)"
  have "triple (quiet reg m) (case m ?p of None \<Rightarrow> ret ()
      | Some parent \<Rightarrow> onlyif (ss_state parent = HANDING_OFF) (move env ?p ACTIVE ''handoff_returned'' None None)) (\<lambda>_. quiet reg (restored m x)) E"
    using True by (cases "m ?p") (auto intro!: hoare_ret hoare_onlyif hoare_conseq[OF quiet_move] session_ok_return simp: restored_def)
  moreover have "restore_parent env i s = (case m ?p of None \<Rightarrow> ret ()
      | Some parent \<Rightarrow> onlyif (ss_state parent = HANDING_OFF) (move env ?p ACTIVE ''handoff_returned'' None None)) s" if "quiet reg m s" for s
    using True x that by (simp add: restore_parent_def the_session_def bind_gets quiet_def Let_def)
  ultimately show ?thesis by (simp add: hoare_def)
next
  case False
  have "restore_parent env i s = (Ret (), s)" if "quiet reg m s" for s
    using False x that by (auto simp: restore_parent_def the_session_def bind_gets quiet_def ret_def)
  with False show ?thesis by (auto simp: hoare_def restored_def)
qed

definition closed :: "string \<Rightarrow> session \<Rightarrow> session" where
  "closed reason x = (cleaned x)\<lparr>ss_state := CLOSED, ss_termination := Some reason\<rparr>"

lemma closed_simps [simp]: "ss_id (closed reason x) = ss_id x" "ss_state (closed reason x) = CLOSED" "\<not> owes (closed reason x)"
    "ss_return (closed reason x) = ss_return x" "ss_parent (closed reason x) = ss_parent x" "ss_termination (closed reason x) = Some reason"
  by (simp_all add: closed_def cleaned_def owes_def)

definition failed_to_close :: "string \<Rightarrow> session \<Rightarrow> session \<Rightarrow> bool" where
  "failed_to_close reason x y \<longleftrightarrow> (\<exists>b. y = x\<lparr>ss_state := SESSION_FAILED, ss_termination := Some reason, ss_released := b\<rparr>)"

lemma bind_find: "map_of (ro_sessions s) i = Some x \<Longrightarrow> bind (find_session i) f s = f x s"
  by (simp add: find_session_def prog_defs)

definition closable :: "session_state \<Rightarrow> bool" where
  "closable a \<longleftrightarrow> a \<in> {ACTIVE, HANDING_OFF, SESSION_FAILED}"

lemma closable_iff: "closable a \<longleftrightarrow> CLOSING \<in> SESSION_TRANSITIONS a"
  by (cases a) (simp_all add: closable_def)

lemma restored_closed [simp]: "restored m (closed reason x) = restored m x"
  by (simp add: restored_def split: option.split)

lemma cleaned_state: "(cleaned (x\<lparr>ss_state := a\<rparr>))\<lparr>ss_termination := Some reason, ss_state := CLOSED\<rparr> = closed reason x"
  by (simp add: cleaned_def closed_def)

lemma session_ok_termination: "session_ok reg (x\<lparr>ss_termination := f\<rparr>) = session_ok reg x"
  by (simp add: session_ok_def)

lemma session_ok_closed: "session_ok reg x \<Longrightarrow> \<not> owes x \<Longrightarrow> session_ok reg (x\<lparr>ss_state := CLOSED\<rparr>)"
  by (simp add: session_ok_def owes_def)

lemma cur_upd_exact:
  assumes "session_ok reg x \<Longrightarrow> session_ok reg (f x)" "ss_id (f x) = ss_id x" "ss_state (f x) = ss_state x"
  shows "hoare c (cur reg m i (\<lambda>y. y = x)) (upd_session i f) (\<lambda>_. cur reg m i (\<lambda>y. y = f x)) E"
  by (rule cur_upd) (use assms in simp)

lemma cur_exact_quiet: "cur reg m i (\<lambda>y. y = x) s \<Longrightarrow> quiet reg (m(i \<mapsto> x)) s"
  using cur_quiet[of reg m i "\<lambda>y. y = x" s] by auto

lemma close_session_triple:
  fixes env :: "('l, 'n) renv"
  assumes x: "m i = Some x"
  shows "triple (quiet reg m) (close_session env i given)
    (\<lambda>v s. if ss_state x \<in> {CLOSED, CLOSING} then v = session_dict x \<and> quiet reg m s
       else closable (ss_state x) \<and> v = session_dict (closed (reason_of given) x) \<and>
         quiet reg (restored (m(i \<mapsto> closed (reason_of given) x)) x) s)
    (\<lambda>e s. if closable (ss_state x) then (\<exists>n. e = RouterError [''session cleanup failed: '', n]) \<and>
         (\<exists>y. failed_to_close (reason_of given) x y \<and> quiet reg (m(i \<mapsto> y)) s)
       else quiet reg m s)" (is "triple _ _ ?Q ?E")
proof -
  define reason where "reason = reason_of given"
  let ?x1 = "x\<lparr>ss_state := CLOSING\<rparr>" and ?y = "closed reason x"
  have steps: "close_session env i given s = (if ss_state x \<in> {CLOSED, CLOSING} then ret (session_dict x)
     else andThen (move env i CLOSING ''closing'' (Some reason) None)
      (bind (clean_session env i) (\<lambda>close_error.
       andThen (upd_session i (\<lambda>y. y\<lparr>ss_termination := Some reason\<rparr>))
       (case close_error of
          Some e \<Rightarrow> andThen (move env i SESSION_FAILED ''close_failed'' (Some reason) (Some e))
                    (raise (RouterError [''session cleanup failed: '', error_name e]))
        | None \<Rightarrow> andThen (move env i CLOSED ''closed'' (Some reason) None)
                 (andThen (restore_parent env i)
                 (bind (the_session i) (\<lambda>y. ret (session_dict y)))))))) s" if "quiet reg m s" for s
    using that x unfolding reason_def by (simp add: close_session_def bind_find[where x = x] quiet_def Let_def)
  have refused: "triple (quiet reg m) (move env i CLOSING ''closing'' (Some reason) None) (\<lambda>_ _. False) (\<lambda>_. quiet reg m)"
    if "\<not> closable (ss_state x)"
  proof (rule hoareI)
    fix s r s' assume q: "quiet reg m s" and run: "move env i CLOSING ''closing'' (Some reason) None s = (r, s')"
    obtain t l where t: "re_now env (ro_life s) = (t, l)" by fastforce
    have "map_of (ro_sessions s) i = Some x" using q x by (simp add: quiet_def)
    from move_run[OF this t] q run that show "case r of Ret u \<Rightarrow> False | Raise e \<Rightarrow> quiet reg m s' | NoFuel \<Rightarrow> True"
      by (auto simp: closable_iff)
  qed
  have start: "triple (quiet reg m) (move env i CLOSING ''closing'' (Some reason) None)
     (\<lambda>_ s. closable (ss_state x) \<and> cur reg m i (\<lambda>y. y = ?x1) s) ?E"
  proof (cases "closable (ss_state x)")
    case True
    have "triple (cur reg m i (\<lambda>y. y = x)) (move env i CLOSING ''closing'' (Some reason) None) (\<lambda>_. cur reg m i (\<lambda>y. y = ?x1)) ?E"
      by (rule cur_move_ok) (use True in \<open>auto simp: closable_iff session_ok_def\<close>)
    with True x show ?thesis by (auto intro: hoare_pre quiet_cur)
  next
    case False
    with refused show ?thesis by (auto intro: hoare_conseq)
  qed
  have good: "triple (cur reg m i (\<lambda>y. y = cleaned ?x1)) (andThen (upd_session i (\<lambda>y. y\<lparr>ss_termination := Some reason\<rparr>))
     (andThen (move env i CLOSED ''closed'' (Some reason) None) (andThen (restore_parent env i) (bind (the_session i) (\<lambda>y. ret (session_dict y))))))
     (\<lambda>v s. v = session_dict ?y \<and> quiet reg (restored (m(i \<mapsto> ?y)) x) s) ?E"
  proof (rule hoare_andThen[OF cur_upd_exact hoare_andThen])
    show "triple (cur reg m i (\<lambda>y. y = (cleaned ?x1)\<lparr>ss_termination := Some reason\<rparr>)) (move env i CLOSED ''closed'' (Some reason) None)
       (\<lambda>_. quiet reg (m(i \<mapsto> ?y))) ?E"
    proof (rule hoare_conseq[OF cur_move_ok[where Q = "\<lambda>y. y = ?y"]])
      show "quiet reg (m(i \<mapsto> ?y)) s" if "cur reg m i (\<lambda>y. y = ?y) s" for s :: "('l, 'n) router"
        using that by (rule cur_exact_quiet)
    qed (use session_ok_closed[of reg "(cleaned ?x1)\<lparr>ss_termination := Some reason\<rparr>", unfolded cleaned_state] in
        \<open>auto simp: cleaned_state\<close>)
    show "triple (quiet reg (m(i \<mapsto> ?y))) (andThen (restore_parent env i) (bind (the_session i) (\<lambda>y. ret (session_dict y))))
       (\<lambda>v s. v = session_dict ?y \<and> quiet reg (restored (m(i \<mapsto> ?y)) x) s) ?E"
    proof (rule hoare_andThen[OF restore_parent_triple[where x = ?y]])
      have "restored (m(i \<mapsto> ?y)) ?y i = Some ?y" by (rule restored_other) simp_all
      then show "triple (quiet reg (restored (m(i \<mapsto> ?y)) ?y)) (bind (the_session i) (\<lambda>y. ret (session_dict y)))
         (\<lambda>v s. v = session_dict ?y \<and> quiet reg (restored (m(i \<mapsto> ?y)) x) s) ?E"
        by (auto simp: hoare_def the_session_def bind_gets ret_def quiet_def)
    qed simp
  qed (simp_all add: session_ok_def)
  have bad: "triple (cur reg m i (\<lambda>y. \<exists>b. y = ?x1\<lparr>ss_released := b\<rparr>)) (andThen (upd_session i (\<lambda>y. y\<lparr>ss_termination := Some reason\<rparr>))
     (andThen (move env i SESSION_FAILED ''close_failed'' (Some reason) (Some e)) (raise (RouterError [''session cleanup failed: '', error_name e]))))
     Q (\<lambda>e s. (\<exists>n. e = RouterError [''session cleanup failed: '', n]) \<and> (\<exists>y. failed_to_close reason x y \<and> quiet reg (m(i \<mapsto> y)) s))" for e Q
  proof (rule cur_upd_then[OF _ cur_move_then])
    show "triple (cur reg m i (failed_to_close reason x)) (raise (RouterError [''session cleanup failed: '', error_name e])) Q
      (\<lambda>e s. (\<exists>n. e = RouterError [''session cleanup failed: '', n]) \<and> (\<exists>y. failed_to_close reason x y \<and> quiet reg (m(i \<mapsto> y)) s))"
    proof (rule hoare_raise)
      fix s :: "('l, 'n) router" assume "cur reg m i (failed_to_close reason x) s"
      from cur_quiet[OF this] show "(\<exists>n. RouterError [''session cleanup failed: '', error_name e] = RouterError [''session cleanup failed: '', n]) \<and>
          (\<exists>y. failed_to_close reason x y \<and> quiet reg (m(i \<mapsto> y)) s)" by auto
    qed
    show "SESSION_FAILED \<in> SESSION_TRANSITIONS (ss_state y) \<and> session_ok reg (y\<lparr>ss_state := SESSION_FAILED\<rparr>) \<and>
        failed_to_close reason x (y\<lparr>ss_state := SESSION_FAILED\<rparr>)"
      if "session_ok reg y" "\<exists>b. y = ?x1\<lparr>ss_termination := Some reason, ss_released := b\<rparr>" for y
      using that by (cases x) (auto simp: failed_to_close_def session_ok_failed)
    show "session_ok reg (y\<lparr>ss_termination := Some reason\<rparr>) \<and> ss_id (y\<lparr>ss_termination := Some reason\<rparr>) = ss_id y \<and>
        ss_state (y\<lparr>ss_termination := Some reason\<rparr>) = ss_state y \<and>
        (\<exists>b. y\<lparr>ss_termination := Some reason\<rparr> = ?x1\<lparr>ss_termination := Some reason, ss_released := b\<rparr>)"
      if "session_ok reg y" "\<exists>b. y = ?x1\<lparr>ss_released := b\<rparr>" for y
      using that by (cases x) (auto simp: session_ok_termination)
  qed
  have ending: "triple (cur reg m i (\<lambda>y. if err = None then y = cleaned ?x1 else \<exists>b. y = ?x1\<lparr>ss_released := b\<rparr>))
     (andThen (upd_session i (\<lambda>y. y\<lparr>ss_termination := Some reason\<rparr>)) (case err of
          Some e \<Rightarrow> andThen (move env i SESSION_FAILED ''close_failed'' (Some reason) (Some e))
                    (raise (RouterError [''session cleanup failed: '', error_name e]))
        | None \<Rightarrow> andThen (move env i CLOSED ''closed'' (Some reason) None)
                 (andThen (restore_parent env i) (bind (the_session i) (\<lambda>y. ret (session_dict y)))))) ?Q ?E" if "closable (ss_state x)" for err
  proof -
    have "ss_state x \<notin> {CLOSED, CLOSING}" using that by (auto simp: closable_def)
    note outcome = if_not_P[OF this] if_P[OF that]
    show ?thesis
    proof (cases err)
      case None
      show ?thesis unfolding None option.case if_P[OF refl] outcome
        by (rule hoare_conseq[OF good]) (use that in \<open>auto simp: reason_def\<close>)
    next
      case (Some e)
      then have "err \<noteq> None" by simp
      show ?thesis unfolding if_not_P[OF \<open>err \<noteq> None\<close>] unfolding Some option.case outcome
        by (rule hoare_conseq[OF bad]) (auto simp: reason_def)
    qed
  qed
  have close: "triple (quiet reg m) (andThen (move env i CLOSING ''closing'' (Some reason) None)
      (bind (clean_session env i) (\<lambda>close_error.
       andThen (upd_session i (\<lambda>y. y\<lparr>ss_termination := Some reason\<rparr>))
       (case close_error of
          Some e \<Rightarrow> andThen (move env i SESSION_FAILED ''close_failed'' (Some reason) (Some e))
                    (raise (RouterError [''session cleanup failed: '', error_name e]))
        | None \<Rightarrow> andThen (move env i CLOSED ''closed'' (Some reason) None)
                 (andThen (restore_parent env i) (bind (the_session i) (\<lambda>y. ret (session_dict y)))))))) ?Q ?E"
  proof (cases "closable (ss_state x)")
    case True
    with start have "triple (quiet reg m) (move env i CLOSING ''closing'' (Some reason) None) (\<lambda>_. cur reg m i (\<lambda>y. y = ?x1)) ?E"
      by (auto elim: hoare_conseq)
    then show ?thesis
      by (rule hoare_andThen[OF _ hoare_bind[OF clean_session_triple ending[OF True]]]) simp
  next
    case False
    with start have "triple (quiet reg m) (move env i CLOSING ''closing'' (Some reason) None) (\<lambda>_ _. False) ?E"
      by (auto elim: hoare_conseq)
    then show ?thesis by (rule hoare_andThen[OF _ hoare_false])
  qed
  show ?thesis
    using close steps unfolding hoare_def by (auto simp: ret_def)
qed

section \<open>Handing off\<close>

definition handoff_request :: "session \<Rightarrow> string \<Rightarrow> terminal option \<Rightarrow> fields option \<Rightarrow> route_request" where
  "handoff_request x target term metadata = \<lparr>rq_target = target, rq_route_type = ''via_service'', rq_origin = Some (ss_target x),
     rq_terminal = default (ss_terminal x) term, rq_metadata = default [] metadata\<rparr>"

definition mode_of :: "bool \<Rightarrow> handoff_mode" where
  "mode_of return_to_origin = (if return_to_origin then RETURN_TO_ORIGIN else REPLACE)"

text \<open>A child opened from parent \<open>p\<close>, and what is left of one whose opening failed.\<close>

definition child_of :: "route_request \<Rightarrow> string \<Rightarrow> bool \<Rightarrow> session \<Rightarrow> bool" where
  "child_of rq p return_to_origin c \<longleftrightarrow> opened rq (Some p) (Some (mode_of return_to_origin)) c \<and> ss_state c = ACTIVE"

lemma handing_off_twice: "ss_state x = ACTIVE \<Longrightarrow> x\<lparr>ss_state := ACTIVE\<rparr> = x"
  by (cases x) simp

lemma quiet_the_session:
  assumes "m i = Some x" and "triple (quiet reg m) (f x) Q E"
  shows "triple (quiet reg m) (bind (the_session i) f) Q E"
  using assms by (auto simp: hoare_def the_session_def bind_gets quiet_def)

definition handoff_body :: "('l, 'n) renv \<Rightarrow> string \<Rightarrow> route_request \<Rightarrow> bool \<Rightarrow> ('l, 'n, string) rprog" where
  "handoff_body env p rq return_to_origin =
     bind (catch (open_session env rq (Some p) (Some (mode_of return_to_origin))) (\<lambda>exc.
        bind (the_session p) (\<lambda>x.
        andThen (onlyif (ss_state x = HANDING_OFF) (move env p ACTIVE ''handoff_failed'' None None))
        (raise exc)))) (\<lambda>child.
     andThen (onlyif (mode_of return_to_origin = REPLACE) (bind (close_session env p ''handoff_replaced'') (\<lambda>_. ret ())))
     (ret child))"

lemma handoff_steps:
  assumes "map_of (ro_sessions s) p = Some x"
  shows "handoff env p target return_to_origin term metadata s =
    (if ss_state x \<noteq> ACTIVE
     then (Raise (SessionBusyError [''session '', ss_id x, '' cannot hand off while '', session_value (ss_state x)]), s)
     else andThen (move env p HANDING_OFF ''handoff_started'' None None)
       (handoff_body env p (handoff_request x target term metadata) return_to_origin) s)"
  using assms by (simp add: handoff_def bind_find Let_def andThen_raise_if handoff_request_def handoff_body_def mode_of_def)

lemma handoff_open_triple:
  fixes env :: "('l, 'n) renv"
  defines "reg \<equiv> re_registry env"
  assumes x: "m p = Some x" "ss_state x = ACTIVE"
  shows "triple (quiet reg (m(p \<mapsto> x\<lparr>ss_state := HANDING_OFF\<rparr>)))
      (catch (open_session env rq (Some p) (Some (mode_of b))) (\<lambda>exc.
        bind (the_session p) (\<lambda>x.
        andThen (onlyif (ss_state x = HANDING_OFF) (move env p ACTIVE ''handoff_failed'' None None))
        (raise exc))))
    (\<lambda>i s. m i = None \<and> (\<exists>d. authorize reg rq = Inr d) \<and>
       (\<exists>c. child_of rq p b c \<and> quiet reg (m(p \<mapsto> x\<lparr>ss_state := HANDING_OFF\<rparr>, i \<mapsto> c)) s))
    (\<lambda>_ s. quiet reg m s \<or> (\<exists>i c. m i = None \<and> aborted c \<and> quiet reg (m(i \<mapsto> c)) s))"
  (is "triple (quiet reg ?m1) _ ?Q ?E")
proof (rule hoare_catch[OF hoare_conseq[OF open_session_triple[of env ?m1 rq "Some p" "Some (mode_of b)", folded reg_def]]])
  let ?R = "\<lambda>s. quiet reg ?m1 s \<or> (\<exists>i c. m i = None \<and> i \<noteq> p \<and> aborted c \<and> quiet reg (?m1(i \<mapsto> c)) s)"
  show "?R s" if "quiet reg ?m1 s \<or> (\<exists>i. ?m1 i = None \<and> cur reg ?m1 i (\<lambda>x. opened rq (Some p) (Some (mode_of b)) x \<and> aborted x) s)" for s
  proof -
    have "\<exists>c. m i = None \<and> i \<noteq> p \<and> aborted c \<and> quiet reg (?m1(i \<mapsto> c)) s"
      if "?m1 i = None" "cur reg ?m1 i (\<lambda>x. opened rq (Some p) (Some (mode_of b)) x \<and> aborted x) s" for i
      using cur_quiet[OF that(2)] that(1) by (auto split: if_splits)
    with that show ?thesis by blast
  qed
  show "?Q i s" if o: "?m1 i = None \<and> (\<exists>d. authorize reg rq = Inr d) \<and> cur reg ?m1 i (at_stage rq (Some p) (Some (mode_of b)) {ACTIVE}) s" for i s
    using cur_quiet[OF o[THEN conjunct2, THEN conjunct2]] o by (auto simp: child_of_def split: if_splits)
  fix exc
  have resume: "triple (quiet reg m') (bind (the_session p) (\<lambda>x.
        andThen (onlyif (ss_state x = HANDING_OFF) (move env p ACTIVE ''handoff_failed'' None None))
        (raise exc))) ?Q (\<lambda>_. quiet reg (m'(p \<mapsto> x)))" if "m' p = Some (x\<lparr>ss_state := HANDING_OFF\<rparr>)" for m'
  proof (rule quiet_the_session[where m = m' and i = p, OF that], rule hoare_andThen)
    show "triple (quiet reg m') (onlyif (ss_state (x\<lparr>ss_state := HANDING_OFF\<rparr>) = HANDING_OFF) (move env p ACTIVE ''handoff_failed'' None None))
      (\<lambda>_. quiet reg (m'(p \<mapsto> x))) (\<lambda>_. quiet reg (m'(p \<mapsto> x)))"
      using quiet_move[where m = m' and i = p and new = ACTIVE and x = "x\<lparr>ss_state := HANDING_OFF\<rparr>", of reg env "''handoff_failed''" None None]
        session_ok_return[of reg "x\<lparr>ss_state := HANDING_OFF\<rparr>"] that x(2)
      by (simp add: onlyif_def handing_off_twice)
  qed (rule hoare_raise)
  have undone: "?m1(p \<mapsto> x) = m" "i \<noteq> p \<Longrightarrow> ?m1(i \<mapsto> c, p \<mapsto> x) = m(i \<mapsto> c)" for i c
    using x(1) by (auto simp: fun_eq_iff)
  show "triple ?R (bind (the_session p) (\<lambda>x. andThen (onlyif (ss_state x = HANDING_OFF) (move env p ACTIVE ''handoff_failed'' None None)) (raise exc))) ?Q ?E"
  proof (rule hoare_disj)
    show "triple (quiet reg ?m1) (bind (the_session p) (\<lambda>x. andThen (onlyif (ss_state x = HANDING_OFF) (move env p ACTIVE ''handoff_failed'' None None)) (raise exc))) ?Q ?E"
      by (rule hoare_conseq[OF resume[of ?m1]]) (simp_all add: undone del: fun_upd_upd)
    have "triple (\<lambda>s. m i = None \<and> i \<noteq> p \<and> aborted c \<and> quiet reg (?m1(i \<mapsto> c)) s)
      (bind (the_session p) (\<lambda>x. andThen (onlyif (ss_state x = HANDING_OFF) (move env p ACTIVE ''handoff_failed'' None None)) (raise exc))) ?Q ?E" for i c
    proof (cases "m i = None \<and> i \<noteq> p \<and> aborted c")
      case True
      then have ic: "m i = None" "i \<noteq> p" "aborted c" by simp_all
      show ?thesis
      proof (rule hoare_conseq[OF resume[of "?m1(i \<mapsto> c)"]])
        show "?E e s" if "quiet reg (?m1(i \<mapsto> c, p \<mapsto> x)) s" for e :: router_error and s
          using that ic unfolding undone(2)[OF ic(2)] by blast
      qed (use ic in auto)
    qed (auto simp: hoare_def)
    then show "triple (\<lambda>s. \<exists>i c. m i = None \<and> i \<noteq> p \<and> aborted c \<and> quiet reg (?m1(i \<mapsto> c)) s)
      (bind (the_session p) (\<lambda>x. andThen (onlyif (ss_state x = HANDING_OFF) (move env p ACTIVE ''handoff_failed'' None None)) (raise exc))) ?Q ?E"
      by (intro hoare_ex)
  qed
qed auto

lemma closed_state [simp]: "closed r (x\<lparr>ss_state := a\<rparr>) = closed r x"
  by (cases x) (simp add: closed_def cleaned_def owes_def)

lemma failed_to_close_state [simp]: "failed_to_close r (x\<lparr>ss_state := a\<rparr>) y = failed_to_close r x y"
  by (simp add: failed_to_close_def)

lemma restored_state [simp]: "restored m (x\<lparr>ss_state := a\<rparr>) = restored m x"
  by (simp add: restored_def split: option.split)

lemma handoff_triple:
  fixes env :: "('l, 'n) renv"
  defines "reg \<equiv> re_registry env" and "r \<equiv> ''handoff_replaced''"
  assumes x: "m p = Some x"
  shows "triple (quiet reg m) (handoff env p target b term metadata)
    (\<lambda>i s. ss_state x = ACTIVE \<and> m i = None \<and> (\<exists>d. authorize reg (handoff_request x target term metadata) = Inr d) \<and>
       (\<exists>c. child_of (handoff_request x target term metadata) p b c \<and>
         quiet reg (if b then m(p \<mapsto> x\<lparr>ss_state := HANDING_OFF\<rparr>, i \<mapsto> c) else restored (m(i \<mapsto> c, p \<mapsto> closed r x)) x) s))
    (\<lambda>_ s. quiet reg m s \<or> (\<exists>i c. m i = None \<and> (aborted c \<and> quiet reg (m(i \<mapsto> c)) s \<or>
       \<not> b \<and> child_of (handoff_request x target term metadata) p b c \<and>
         (\<exists>y. failed_to_close r x y \<and> quiet reg (m(i \<mapsto> c, p \<mapsto> y)) s))))"
  (is "triple _ _ ?Q ?E")
proof (cases "ss_state x = ACTIVE")
  case False
  have "handoff env p target b term metadata s =
      (Raise (SessionBusyError [''session '', ss_id x, '' cannot hand off while '', session_value (ss_state x)]), s)" if "quiet reg m s" for s
    using handoff_steps[of s p x] that x False by (simp add: quiet_def)
  then show ?thesis by (simp add: hoare_def)
next
  case True
  let ?rq = "handoff_request x target term metadata" and ?m1 = "m(p \<mapsto> x\<lparr>ss_state := HANDING_OFF\<rparr>)"
  let ?R = "\<lambda>i s. m i = None \<and> (\<exists>d. authorize reg ?rq = Inr d) \<and> (\<exists>c. child_of ?rq p b c \<and> quiet reg (?m1(i \<mapsto> c)) s)"
  have last: "triple (quiet reg (?m1(i \<mapsto> c)))
      (andThen (onlyif (mode_of b = REPLACE) (bind (close_session env p r) (\<lambda>_. ret ()))) (ret i)) ?Q ?E"
    if i: "m i = None" "authorize reg ?rq = Inr d" "child_of ?rq p b c" for i c d
  proof (cases b)
    case True
    then have mode: "onlyif (mode_of b = REPLACE) f = ret ()" for f :: "('l, 'n, unit) rprog" by (simp add: mode_of_def onlyif_def)
    show ?thesis
      unfolding mode by (rule hoare_andThen[where R = "quiet reg (?m1(i \<mapsto> c))"], rule hoare_ret, assumption, rule hoare_ret)
        (use i True \<open>ss_state x = ACTIVE\<close> in auto)
  next
    case False
    have "i \<noteq> p" using i x by auto
    then have swap: "?m1(i \<mapsto> c, p \<mapsto> z) = m(i \<mapsto> c, p \<mapsto> z)" for z by (auto simp: fun_eq_iff)
    have reason: "reason_of r = r" by (simp add: reason_of_def r_def TERMINATION_REASONS_def)
    have "triple (quiet reg (?m1(i \<mapsto> c))) (close_session env p r)
        (\<lambda>_. quiet reg (restored (m(i \<mapsto> c, p \<mapsto> closed r x)) x)) ?E"
    proof -
      have p: "(?m1(i \<mapsto> c)) p = Some (x\<lparr>ss_state := HANDING_OFF\<rparr>)" using \<open>i \<noteq> p\<close> by simp
      have "triple (quiet reg (?m1(i \<mapsto> c))) (close_session env p r)
          (\<lambda>_. quiet reg (restored (m(i \<mapsto> c, p \<mapsto> closed r x)) x)) (\<lambda>_ s. \<exists>y. failed_to_close r x y \<and> quiet reg (m(i \<mapsto> c, p \<mapsto> y)) s)"
        by (rule hoare_conseq[OF close_session_triple[where m = "?m1(i \<mapsto> c)" and i = p and x = "x\<lparr>ss_state := HANDING_OFF\<rparr>" and reg = reg and env = env and given = r, OF p]])
          (simp_all add: closable_def reason swap[unfolded fun_upd_def] fun_upd_def)
      then show ?thesis by (rule hoare_conseq) (use i False in blast)+
    qed
    then have closing: "triple (quiet reg (?m1(i \<mapsto> c))) (bind (close_session env p r) (\<lambda>_. ret ()))
        (\<lambda>_. quiet reg (restored (m(i \<mapsto> c, p \<mapsto> closed r x)) x)) ?E"
      by (rule hoare_bind) (rule hoare_ret)
    have mode: "onlyif (mode_of b = REPLACE) f = f" for f :: "('l, 'n, unit) rprog" using False by (simp add: mode_of_def onlyif_def)
    show ?thesis
      unfolding mode by (rule hoare_andThen[OF closing hoare_ret]) (use i False True in auto)
  qed
  have after: "triple (?R i) (andThen (onlyif (mode_of b = REPLACE) (bind (close_session env p r) (\<lambda>_. ret ()))) (ret i)) ?Q ?E" for i
  proof (unfold hoare_def, intro allI impI)
    fix s :: "('l, 'n) router" assume "?R i s"
    then obtain d c where "m i = None" "authorize reg ?rq = Inr d" "child_of ?rq p b c" and q: "quiet reg (?m1(i \<mapsto> c)) s" by blast
    from last[OF this(1-3), unfolded hoare_def, rule_format, OF q]
    show "case andThen (onlyif (mode_of b = REPLACE) (bind (close_session env p r) (\<lambda>_. ret ()))) (ret i) s of
        (Ret j, s') \<Rightarrow> ?Q j s' | (Raise e, s') \<Rightarrow> ?E e s' | (NoFuel, s') \<Rightarrow> True" .
  qed
  have whole: "triple (quiet reg ?m1) (handoff_body env p ?rq b) ?Q ?E"
    unfolding handoff_body_def reg_def r_def[symmetric]
    by (rule hoare_bind[OF hoare_conseq[OF handoff_open_triple[where m = m and p = p and x = x and rq = ?rq and b = b, OF x True]]
        after[unfolded reg_def]]) auto
  have "triple (quiet reg m) (andThen (move env p HANDING_OFF ''handoff_started'' None None) (handoff_body env p ?rq b)) ?Q ?E"
    by (rule hoare_andThen[OF quiet_move[where m = m and i = p and x = x] whole]) (use True x in \<open>auto simp: session_ok_def\<close>)
  moreover have "handoff env p target b term metadata s = andThen (move env p HANDING_OFF ''handoff_started'' None None) (handoff_body env p ?rq b) s"
    if "quiet reg m s" for s
    using handoff_steps[of s p x] that x True by (simp add: quiet_def)
  ultimately show ?thesis by (simp add: hoare_def)
qed

end
