(* ===== verification/Router_Supervisor.thy ===== *)
theory Router_Supervisor
  imports Router_Sessions Supervisor_Promises
begin

text \<open>
  What the router relies on in the supervisor: the locale \<open>hold_provider\<close>, whose laws say what an
  acquire adds to the outstanding holds and what a release takes away. The supervisor's model
  provides it (\<open>hold_supervisor\<close>, an extension of \<open>supervisor_env\<close>), and under it no operation of
  the router leaks a hold or gives back one it does not own.
\<close>

section \<open>The interface\<close>

locale hold_provider =
  fixes acquire :: "string \<Rightarrow> ('l, router_error, string) prog"
    and release :: "string \<Rightarrow> string \<Rightarrow> ('l, router_error, unit) prog"
    and read_clock :: "'l \<Rightarrow> string \<times> 'l"
    and ok :: "'l \<Rightarrow> bool"
    and out :: "'l \<Rightarrow> (string \<times> string) set"
  assumes acquire_ret: "ok l \<Longrightarrow> acquire t l = (Ret h, l') \<Longrightarrow> ok l' \<and> h \<noteq> [] \<and> (t, h) \<notin> out l \<and> out l' = insert (t, h) (out l)"
    and acquire_raise: "ok l \<Longrightarrow> acquire t l = (Raise e, l') \<Longrightarrow> ok l' \<and> out l' = out l"
    and release_held: "ok l \<Longrightarrow> (t, h) \<in> out l \<Longrightarrow> \<exists>l'. release t h l = (Ret (), l') \<and> ok l' \<and> out l' = out l - {(t, h)}"
    and release_lost: "ok l \<Longrightarrow> (t, h) \<notin> out l \<Longrightarrow> \<exists>e. release t h l = (Raise e, l)"
    and clock_same: "ok l \<Longrightarrow> read_clock l = (x, l') \<Longrightarrow> ok l' \<and> out l' = out l"

section \<open>Accounting for holds\<close>

text \<open>The hold a session still has to give back, by session id.\<close>

definition debt :: "session \<Rightarrow> (string \<times> string) option" where
  "debt x = (case ss_hold x of None \<Rightarrow> None | Some h \<Rightarrow> if ss_released x then None else Some (ss_target x, h))"

definition debts :: "('l, 'n) router \<Rightarrow> string \<Rightarrow> (string \<times> string) option" where
  "debts s i = (case map_of (ro_sessions s) i of None \<Rightarrow> None | Some x \<Rightarrow> debt x)"

text \<open>The outstanding holds are those of others, \<open>B\<close>, and those the sessions owe, each of one session.\<close>

definition balanced :: "(string \<times> string) set \<Rightarrow> (string \<times> string) set \<Rightarrow> (string \<Rightarrow> (string \<times> string) option) \<Rightarrow> bool" where
  "balanced B U v \<longleftrightarrow> U = B \<union> ran v \<and> B \<inter> ran v = {} \<and> inj_on v (dom v) \<and> (\<forall>p \<in> ran v. snd p \<noteq> [])"

lemma balanced_acquired:
  assumes "balanced B U v" "p \<notin> U" "snd p \<noteq> []" "v i = None"
  shows "balanced B (insert p U) (v(i \<mapsto> p))"
proof -
  have "inj_on (v(i \<mapsto> p)) (insert i (dom v))"
    using assms by (auto simp: balanced_def inj_on_def ran_def dom_def)
  with assms show ?thesis by (auto simp: balanced_def ran_map_upd)
qed

lemma ran_clear: "inj_on v (dom v) \<Longrightarrow> v i = Some p \<Longrightarrow> ran (v(i := None)) = ran v - {p}"
  unfolding ran_def inj_on_def dom_def by (auto split: if_splits) (metis option.inject)+

lemma balanced_released:
  assumes bal: "balanced B U v" and i: "v i = Some p"
  shows "balanced B (U - {p}) (v(i := None))"
proof -
  have "inj_on (v(i := None)) (dom v - {i})"
    using bal by (auto simp: balanced_def inj_on_def dom_def)
  moreover have "p \<in> ran v" using i by (rule ranI)
  ultimately show ?thesis
    using bal ran_clear[of v i p] i by (auto simp: balanced_def)
qed

context hold_provider
begin

definition acct :: "(string \<times> string) set \<Rightarrow> ('l, 'n) router \<Rightarrow> bool" where
  "acct B s \<longleftrightarrow> ok (ro_life s) \<and> balanced B (out (ro_life s)) (debts s)"

text \<open>Besides, session \<open>i\<close> is registered and \<open>P\<close> holds of its target, its hold and whether it was released.\<close>

definition acct_at :: "(string \<times> string) set \<Rightarrow> string \<Rightarrow> (string \<Rightarrow> string option \<Rightarrow> bool \<Rightarrow> bool) \<Rightarrow> ('l, 'n) router \<Rightarrow> bool" where
  "acct_at B i P s \<longleftrightarrow> acct B s \<and> (\<exists>x. map_of (ro_sessions s) i = Some x \<and> P (ss_target x) (ss_hold x) (ss_released x))"

lemma acct_atD: "acct_at B i P s \<Longrightarrow> acct B s"
  by (simp add: acct_at_def)

lemma acct_at_weaken: "acct_at B i P s \<Longrightarrow> (\<And>t h b. P t h b \<Longrightarrow> Q t h b) \<Longrightarrow> acct_at B i Q s"
  by (auto simp: acct_at_def)

lemma debts_frame [simp]: "debts (s\<lparr>ro_life := l\<rparr>) = debts s" "debts (s\<lparr>ro_net := n\<rparr>) = debts s" "debts (s\<lparr>ro_journal := js\<rparr>) = debts s"
  by (simp_all add: debts_def fun_eq_iff)

text \<open>Programs that touch no hold; \<open>lost\<close> is a session whose hold the supervisor has forgotten.\<close>

definition lost :: "string \<Rightarrow> string \<Rightarrow> string \<Rightarrow> ('l, 'n) router \<Rightarrow> bool" where
  "lost i t h s \<longleftrightarrow> ok (ro_life s) \<and> (t, h) \<notin> out (ro_life s) \<and>
     (\<exists>x. map_of (ro_sessions s) i = Some x \<and> ss_target x = t \<and> ss_hold x = Some h \<and> \<not> ss_released x)"

definition thrifty :: "('l, 'n, 'a) rprog \<Rightarrow> bool" where
  "thrifty m \<longleftrightarrow> (\<forall>B. keeps (acct B) m) \<and> (\<forall>B i P. keeps (acct_at B i P) m) \<and> (\<forall>i t h. keeps (lost i t h) m)"

lemma thriftyI:
  assumes "\<And>s. ok (ro_life s) \<Longrightarrow> ok (ro_life (snd (m s))) \<and> out (ro_life (snd (m s))) = out (ro_life s)"
    and "\<And>s i. map_option (\<lambda>x. (ss_target x, ss_hold x, ss_released x)) (map_of (ro_sessions (snd (m s))) i) =
      map_option (\<lambda>x. (ss_target x, ss_hold x, ss_released x)) (map_of (ro_sessions s) i)"
  shows "thrifty m"
proof -
  have debts: "debts (snd (m s)) = debts s" for s
  proof
    fix i show "debts (snd (m s)) i = debts s i"
      using assms(2)[of s i]
      by (cases "map_of (ro_sessions s) i"; cases "map_of (ro_sessions (snd (m s))) i") (auto simp: debts_def debt_def split: option.splits)
  qed
  have stay: "\<exists>y. map_of (ro_sessions (snd (m s))) i = Some y \<and> P (ss_target y) (ss_hold y) (ss_released y)"
    if "map_of (ro_sessions s) i = Some x" "P (ss_target x) (ss_hold x) (ss_released x)" for s i x and P :: "string \<Rightarrow> string option \<Rightarrow> bool \<Rightarrow> bool"
    using assms(2)[of s i] that by auto
  have "lost i t h (snd (m s))" if "lost i t h s" for i t h s
    using that assms(1)[of s] stay[of s i _ "\<lambda>t' h' b. t' = t \<and> h' = Some h \<and> \<not> b"] by (auto simp: lost_def)
  with stay debts assms(1) show ?thesis
    by (auto simp: thrifty_def keeps_def acct_def acct_at_def)
qed

lemma thrifty_bind: "thrifty m \<Longrightarrow> (\<And>x. thrifty (f x)) \<Longrightarrow> thrifty (bind m f)"
  by (simp add: thrifty_def keeps_bind)

lemma thrifty_andThen: "thrifty m \<Longrightarrow> thrifty n \<Longrightarrow> thrifty (andThen m n)"
  by (simp add: thrifty_def keeps_andThen)

lemma thrifty_catch: "thrifty m \<Longrightarrow> (\<And>e. thrifty (h e)) \<Longrightarrow> thrifty (catch m h)"
  by (simp add: thrifty_def keeps_catch)

lemma thrifty_onlyif: "thrifty m \<Longrightarrow> thrifty (onlyif b m)"
  by (simp add: thrifty_def keeps_onlyif)

lemma thrifty_pure: "thrifty (ret x)" "thrifty (raise e)" "thrifty (raise_if b e)" "thrifty (gets f)" "thrifty (lift_check v)"
    "thrifty (the_session i)" "thrifty (find_session i)" "thrifty (validate_origin rq p)" "thrifty (authorize_route env rq p)"
  by (rule thriftyI, auto simp: prog_defs lift_check_def the_session_def find_session_def validate_origin_def authorize_route_def
      split: sum.split option.split)+

lemma thrifty_net: "thrifty (net m)"
  by (rule thriftyI) (simp_all add: net_def split: prod.split)

lemma thrifty_upd: "(\<And>x. ss_target (f x) = ss_target x \<and> ss_hold (f x) = ss_hold x \<and> ss_released (f x) = ss_released x) \<Longrightarrow> thrifty (upd_session i f)"
  by (rule thriftyI) (auto simp: upd_session_def modify_def map_of_map_entry option.map_comp comp_def split: option.split)

lemma thrifty_stamp: "re_now env = read_clock \<Longrightarrow> thrifty (stamp env)"
  by (rule thriftyI) (auto simp: stamp_def split: prod.split dest: clock_same)

lemma thrifty_journal: "re_now env = read_clock \<Longrightarrow> thrifty (journal_event env i ty old new reason err)"
  unfolding journal_event_def
  by (intro thrifty_bind thrifty_stamp thrifty_pure) (simp, rule thriftyI, simp_all add: modify_def)

lemma thrifty_move: "re_now env = read_clock \<Longrightarrow> thrifty (move env i new ty reason err)"
  unfolding move_def by (intro thrifty_bind thrifty_andThen thrifty_upd thrifty_pure thrifty_journal) simp_all

abbreviation acct_in :: "(string \<times> string) set \<Rightarrow> string \<Rightarrow> ('l, 'n) router \<Rightarrow> bool" where
  "acct_in B i \<equiv> acct_at B i (\<lambda>_ _ _. True)"

lemma thrifty_triple: "thrifty m \<Longrightarrow> triple (acct B) m (\<lambda>_. acct B) (\<lambda>_. acct B)"
    "thrifty m \<Longrightarrow> triple (acct_at B i P) m (\<lambda>_. acct_at B i P) (\<lambda>_. acct_at B i P)"
    "thrifty m \<Longrightarrow> triple (lost i t h) m (\<lambda>_. lost i t h) (\<lambda>_. lost i t h)"
  unfolding thrifty_def by (rule triple_of_keeps, blast)+

lemma thrifty_step:
  assumes "thrifty m" and "\<And>x. triple (acct_at B i P) (f x) Q (\<lambda>_. acct_in B i)"
  shows "triple (acct_at B i P) (bind m f) Q (\<lambda>_. acct_in B i)"
  by (rule hoare_bind[OF _ assms(2)], rule hoare_conseq[OF thrifty_triple(2)[OF assms(1), of B i P]]) (auto elim: acct_at_weaken)

lemma thrifty_then: "thrifty m \<Longrightarrow> triple (acct_at B i P) n Q (\<lambda>_. acct_in B i) \<Longrightarrow> triple (acct_at B i P) (andThen m n) Q (\<lambda>_. acct_in B i)"
  unfolding andThen_def by (rule thrifty_step)

lemma acct_register:
  fixes env :: "('l, 'n) renv"
  assumes "re_now env = read_clock"
  shows "triple (acct B) (register env rq parent mode) (\<lambda>i. acct_at B i (\<lambda>t h b. t = rq_target rq \<and> h = None \<and> \<not> b)) (\<lambda>_. acct B)"
proof (rule hoareI)
  fix s r s' assume a: "acct B s" and run: "register env rq parent mode s = (r, s')"
  obtain i n where i: "re_new_id env (ro_net s) = (i, n)" by fastforce
  obtain t l where t: "re_now env (ro_life s) = (t, l)" by fastforce
  obtain t' l' where t': "re_now env l = (t', l')" by fastforce
  have l: "ok l" "out l = out (ro_life s)" "ok l'" "out l' = out (ro_life s)"
    using a clock_same[of "ro_life s" t l] clock_same[of l t' l'] t t' assms by (auto simp: acct_def)
  have debts: "debts (u\<lparr>ro_sessions := AList.update i (new_session i rq ty t parent mode) (ro_sessions s)\<rparr>) = debts s"
    if "\<not> has_key (ro_sessions s) i" for ty and u :: "('l, 'n) router"
    using that by (auto simp: debts_def debt_def new_session_def has_key_map_of fun_eq_iff)
  have new: "ss_target (new_session i rq ty t parent mode) = rq_target rq" "ss_hold (new_session i rq ty t parent mode) = None"
      "\<not> ss_released (new_session i rq ty t parent mode)" for ty
    by (simp_all add: new_session_def)
  show "case r of Ret i \<Rightarrow> acct_at B i (\<lambda>t h b. t = rq_target rq \<and> h = None \<and> \<not> b) s' | Raise e \<Rightarrow> acct B s' | NoFuel \<Rightarrow> True"
    using run a l debts new unfolding register_run[OF i t t']
    by (auto simp: acct_def acct_at_def split: sum.splits if_splits)
qed

lemma debts_upd: "map_of (ro_sessions s) i = Some x \<Longrightarrow>
    debts (s\<lparr>ro_sessions := AList.map_entry i f (ro_sessions s)\<rparr>) = (debts s)(i := debt (f x))"
  by (auto simp: debts_def map_of_map_entry fun_eq_iff)

lemma acct_acquire:
  assumes "re_acquire env = acquire"
  shows "triple (acct_at B i (\<lambda>t h b. t = target \<and> h = None \<and> \<not> b))
    (bind (life (re_acquire env target)) (\<lambda>hold. upd_session i (\<lambda>y. y\<lparr>ss_hold := Some hold\<rparr>))) (\<lambda>_. acct_in B i) (\<lambda>_. acct_in B i)"
proof (rule hoareI)
  fix s r s' assume a: "acct_at B i (\<lambda>t h b. t = target \<and> h = None \<and> \<not> b) s"
    and run: "bind (life (re_acquire env target)) (\<lambda>hold. upd_session i (\<lambda>y. y\<lparr>ss_hold := Some hold\<rparr>)) s = (r, s')"
  then obtain x where x: "map_of (ro_sessions s) i = Some x" "ss_target x = target" "ss_hold x = None" "\<not> ss_released x"
    and ok: "ok (ro_life s)" and bal: "balanced B (out (ro_life s)) (debts s)"
    by (auto simp: acct_at_def acct_def)
  obtain q l where acq: "acquire target (ro_life s) = (q, l)" by fastforce
  show "case r of Ret u \<Rightarrow> acct_in B i s' | Raise e \<Rightarrow> acct_in B i s' | NoFuel \<Rightarrow> True"
  proof (cases q)
    case (Ret h)
    from acquire_ret[OF ok acq[unfolded Ret]] have l: "ok l" "h \<noteq> []" "(target, h) \<notin> out (ro_life s)" "out l = insert (target, h) (out (ro_life s))"
      by simp_all
    have "debts s i = None" using x by (simp add: debts_def debt_def)
    from balanced_acquired[OF bal l(3) _ this] l have "balanced B (out l) ((debts s)(i \<mapsto> (target, h)))" by simp
    moreover have "r = Ret ()" "s' = s\<lparr>ro_life := l, ro_sessions := AList.map_entry i (\<lambda>y. y\<lparr>ss_hold := Some h\<rparr>) (ro_sessions s)\<rparr>"
      using run acq Ret assms by (auto simp: life_def upd_session_def prog_defs)
    moreover have "debt (x\<lparr>ss_hold := Some h\<rparr>) = Some (target, h)" using x by (simp add: debt_def)
    ultimately show ?thesis
      using l x debts_upd[of "s\<lparr>ro_life := l\<rparr>" i x "\<lambda>y. y\<lparr>ss_hold := Some h\<rparr>"] by (simp add: acct_at_def acct_def map_of_map_entry)
  next
    case (Raise e)
    from acquire_raise[OF ok acq[unfolded Raise]] run acq Raise assms x bal show ?thesis
      by (auto simp: life_def acct_at_def acct_def prog_defs)
  next
    case NoFuel
    with run acq assms show ?thesis by (auto simp: life_def prog_defs)
  qed
qed

lemma acct_release:
  assumes "re_release env = release"
  shows "triple (acct_in B i) (release_hold env i) (\<lambda>_. acct_in B i) (\<lambda>_. acct_in B i)"
proof (rule hoareI)
  fix s r s' assume a: "acct_in B i s" and run: "release_hold env i s = (r, s')"
  then obtain x where x: "map_of (ro_sessions s) i = Some x" and ok: "ok (ro_life s)" and bal: "balanced B (out (ro_life s)) (debts s)"
    by (auto simp: acct_at_def acct_def)
  show "case r of Ret u \<Rightarrow> acct_in B i s' | Raise e \<Rightarrow> acct_in B i s' | NoFuel \<Rightarrow> True"
  proof (cases "debts s i")
    case None
    then have "\<not> (truthy (ss_hold x) \<and> \<not> ss_released x)" using x by (auto simp: debts_def debt_def elim!: truthyE split: if_splits)
    with run x have "r = Ret ()" "s' = s" by (auto simp: release_hold_def the_session_def prog_defs)
    with a show ?thesis by simp
  next
    case (Some p)
    then obtain h where h: "p = (ss_target x, h)" "ss_hold x = Some h" "\<not> ss_released x"
      using x by (auto simp: debts_def debt_def split: option.splits if_splits)
    have "p \<in> ran (debts s)" using Some by (rule ranI)
    with bal h have held: "h \<noteq> []" "(ss_target x, h) \<in> out (ro_life s)" by (auto simp: balanced_def)
    from release_held[OF ok held(2)] obtain l where l: "release (ss_target x) h (ro_life s) = (Ret (), l)" "ok l" "out l = out (ro_life s) - {p}"
      using h by auto
    have "r = Ret ()" "s' = s\<lparr>ro_life := l, ro_sessions := AList.map_entry i (\<lambda>y. y\<lparr>ss_released := True\<rparr>) (ro_sessions s)\<rparr>"
      using run x h held l assms by (auto simp: release_hold_def the_session_def life_def upd_session_def prog_defs)
    moreover have "debt (x\<lparr>ss_released := True\<rparr>) = None" by (simp add: debt_def split: option.split)
    ultimately show ?thesis
      using l x balanced_released[OF bal Some] debts_upd[of "s\<lparr>ro_life := l\<rparr>" i x "\<lambda>y. y\<lparr>ss_released := True\<rparr>"]
      by (simp add: acct_at_def acct_def map_of_map_entry)
  qed
qed

lemmas thrifty_rules = thrifty_bind thrifty_andThen thrifty_catch thrifty_onlyif thrifty_pure thrifty_net thrifty_stamp thrifty_move

text \<open>The whole operations, for an environment that uses this provider.\<close>

definition uses_provider :: "('l, 'n) renv \<Rightarrow> bool" where
  "uses_provider env \<longleftrightarrow> re_acquire env = acquire \<and> re_release env = release \<and> re_now env = read_clock"

lemma acct_open_body:
  assumes env: "uses_provider env"
  shows "triple (acct_at B i (\<lambda>t h b. t = rq_target rq \<and> h = None \<and> \<not> b)) (open_body env i rq parent) (\<lambda>_. acct_in B i) (\<lambda>_. acct_in B i)"
proof -
  have now: "re_now env = read_clock" and acq: "re_acquire env = acquire" using env by (simp_all add: uses_provider_def)
  have stream: "thrifty (open_stream env target ep)" for target ep
    by (simp add: open_stream_def thrifty_net split: option.split)
  have rest: "triple (acct_in B i) (andThen (move env i CONNECTING ''lifecycle_acquired'' None None)
     (bind (open_stream env (rq_target rq) ep) (\<lambda>h. andThen (upd_session i (\<lambda>y. y\<lparr>ss_stream := Some h\<rparr>)) (move env i ACTIVE ''connected'' None None))))
     (\<lambda>_. acct_in B i) (\<lambda>_. acct_in B i)" for ep
    by (intro thrifty_triple(2) thrifty_andThen thrifty_bind thrifty_move[OF now] stream thrifty_upd) simp
  have grab: "bind (life (re_acquire env (rq_target rq))) (\<lambda>hold. andThen (upd_session i (\<lambda>y. y\<lparr>ss_hold := Some hold\<rparr>)) m) =
      andThen (bind (life (re_acquire env (rq_target rq))) (\<lambda>hold. upd_session i (\<lambda>y. y\<lparr>ss_hold := Some hold\<rparr>))) m" for m :: "('l, 'n, unit) rprog"
    by (simp add: andThen_def bind_assoc)
  show ?thesis
    unfolding open_body_def grab
    by (intro thrifty_then thrifty_step hoare_andThen[OF acct_acquire[OF acq] rest] thrifty_move[OF now] thrifty_pure thrifty_upd) simp
qed

lemma acct_open_handler:
  assumes env: "uses_provider env"
  shows "triple (acct_in B i) (open_handler env i exc) Q (\<lambda>_. acct_in B i)"
proof -
  have now: "re_now env = read_clock" and rel: "re_release env = release" using env by (simp_all add: uses_provider_def)
  have close: "thrifty (case ss_stream x of None \<Rightarrow> ret () | Some h \<Rightarrow> catch (net (re_close env h)) (\<lambda>_. ret ()))" for x
    by (simp add: thrifty_rules split: option.split)
  have finish: "triple (acct_in B i) (bind (the_session i) (\<lambda>x.
     andThen (onlyif (ss_state x \<noteq> SESSION_FAILED) (move env i SESSION_FAILED ''open_failed'' (Some ''open_failed'') (Some exc)))
    (andThen (upd_session i (\<lambda>y. y\<lparr>ss_termination := Some ''open_failed''\<rparr>)) (raise exc)))) Q (\<lambda>_. acct_in B i)"
    by (intro thrifty_step thrifty_then thrifty_pure thrifty_onlyif thrifty_move[OF now] thrifty_upd hoare_raise) simp_all
  show ?thesis
    unfolding open_handler_def
    by (intro thrifty_step[OF thrifty_pure(6)] thrifty_then[OF close] hoare_andThen[OF acct_release[OF rel] finish])
qed

lemma acct_open:
  assumes env: "uses_provider env"
  shows "triple (acct B) (open_session env rq parent mode) (\<lambda>_. acct B) (\<lambda>_. acct B)"
proof -
  have now: "re_now env = read_clock" using env by (simp add: uses_provider_def)
  have "triple (acct_at B i (\<lambda>t h b. t = rq_target rq \<and> h = None \<and> \<not> b)) (catch (open_body env i rq parent) (open_handler env i))
      (\<lambda>_. acct B) (\<lambda>_. acct B)" for i
    by (rule hoare_conseq[OF hoare_catch[OF acct_open_body[OF env] acct_open_handler[OF env]]]) (auto dest: acct_atD)
  then show ?thesis
    unfolding open_session_def by (rule hoare_bind[OF acct_register[OF now] hoare_andThen[OF _ hoare_ret]])
qed

lemma acct_clean:
  assumes env: "uses_provider env"
  shows "triple (acct_in B i) (clean_session env i) (\<lambda>_. acct_in B i) (\<lambda>_. acct_in B i)"
proof -
  have rel: "re_release env = release" using env by (simp add: uses_provider_def)
  have close: "thrifty (case ss_stream x of None \<Rightarrow> ret None | Some h \<Rightarrow> catch (andThen (net (re_close env h)) (ret None)) (\<lambda>e. ret (Some e)))" for x
    by (simp add: thrifty_rules split: option.split)
  show ?thesis
    unfolding clean_session_def
    by (intro thrifty_step[OF thrifty_pure(6)] thrifty_step[OF close] hoare_catch[OF hoare_andThen[OF acct_release[OF rel] hoare_ret] hoare_ret])
qed

lemma thrifty_restore: "re_now env = read_clock \<Longrightarrow> thrifty (restore_parent env i)"
  unfolding restore_parent_def Let_def
  by (intro thrifty_bind thrifty_pure) (auto split: option.split intro!: thrifty_bind thrifty_pure thrifty_onlyif thrifty_move)

lemma acct_find:
  assumes "\<And>x. triple (acct_in B i) (f x) (\<lambda>_. acct B) (\<lambda>_. acct B)"
  shows "triple (acct B) (bind (find_session i) f) (\<lambda>_. acct B) (\<lambda>_. acct B)"
proof (rule hoareI)
  fix s r s' assume a: "acct B s" and run: "bind (find_session i) f s = (r, s')"
  show "case r of Ret u \<Rightarrow> acct B s' | Raise e \<Rightarrow> acct B s' | NoFuel \<Rightarrow> True"
  proof (cases "map_of (ro_sessions s) i")
    case None
    with a run show ?thesis by (auto simp: find_session_def prog_defs)
  next
    case (Some x)
    then have "acct_in B i s" using a by (simp add: acct_at_def)
    moreover have "f x s = (r, s')" using run Some by (simp add: bind_find)
    ultimately show ?thesis
      using hoare_retD[OF assms] hoare_raiseD[OF assms] by (cases r) auto
  qed
qed

lemma acct_close:
  assumes env: "uses_provider env"
  shows "triple (acct B) (close_session env i given) (\<lambda>_. acct B) (\<lambda>_. acct B)"
proof -
  have now: "re_now env = read_clock" using env by (simp add: uses_provider_def)
  let ?f = "\<lambda>x. let reason = reason_of given in
     if ss_state x = CLOSED \<or> ss_state x = CLOSING then ret (session_dict x)
     else andThen (move env i CLOSING ''closing'' (Some reason) None)
      (bind (clean_session env i) (\<lambda>close_error.
       andThen (upd_session i (\<lambda>y. y\<lparr>ss_termination := Some reason\<rparr>))
       (case close_error of
          Some e \<Rightarrow> andThen (move env i SESSION_FAILED ''close_failed'' (Some reason) (Some e))
                    (raise (RouterError [''session cleanup failed: '', error_name e]))
        | None \<Rightarrow> andThen (move env i CLOSED ''closed'' (Some reason) None)
                 (andThen (restore_parent env i)
                 (bind (the_session i) (\<lambda>y. ret (session_dict y)))))))"
  have ending: "thrifty (andThen (upd_session i (\<lambda>y. y\<lparr>ss_termination := Some reason\<rparr>))
       (case e of
          Some e \<Rightarrow> andThen (move env i SESSION_FAILED ''close_failed'' (Some reason) (Some e))
                    (raise (RouterError [''session cleanup failed: '', error_name e]))
        | None \<Rightarrow> andThen (move env i CLOSED ''closed'' (Some reason) None)
                 (andThen (restore_parent env i)
                 (bind (the_session i) (\<lambda>y. ret (session_dict y))))))" for reason e
    by (intro thrifty_andThen thrifty_upd) (auto split: option.split intro!: thrifty_andThen thrifty_bind thrifty_pure thrifty_move[OF now] thrifty_restore[OF now])
  have "triple (acct_in B i) (?f x) (\<lambda>_. acct_in B i) (\<lambda>_. acct_in B i)" for x
    unfolding Let_def
    by (intro hoare_if hoare_ret thrifty_then[OF thrifty_move[OF now]] hoare_bind[OF acct_clean[OF env] thrifty_triple(2)[OF ending]])
  then have "triple (acct_in B i) (?f x) (\<lambda>_. acct B) (\<lambda>_. acct B)" for x
    by (rule hoare_conseq) (auto dest: acct_atD)
  then show ?thesis
    unfolding close_session_def by (rule acct_find)
qed

text \<open>A hold the supervisor has forgotten cannot be released: no close ever succeeds, and each leaves it lost.\<close>

lemma release_raises:
  assumes "re_release env = release" and "h \<noteq> []"
  shows "triple (lost i t h) (release_hold env i) (\<lambda>_ _. False) (\<lambda>_. lost i t h)"
proof (rule hoareI)
  fix s r s' assume a: "lost i t h s" and run: "release_hold env i s = (r, s')"
  then obtain x e where "map_of (ro_sessions s) i = Some x" "ss_target x = t" "ss_hold x = Some h" "\<not> ss_released x" "release t h (ro_life s) = (Raise e, ro_life s)"
    using release_lost[of "ro_life s" t h] by (auto simp: lost_def)
  with run assms a show "case r of Ret u \<Rightarrow> False | Raise e \<Rightarrow> lost i t h s' | NoFuel \<Rightarrow> True"
    by (auto simp: release_hold_def the_session_def life_def prog_defs)
qed

lemma close_lost:
  fixes env :: "('l, 'n) renv"
  assumes env: "uses_provider env" and h: "h \<noteq> []" and lost: "lost i t h s"
    and x: "map_of (ro_sessions s) i = Some x" "closable (ss_state x)" and run: "close_session env i given s = (r, s')" "r \<noteq> NoFuel"
  shows "(\<exists>e. r = Raise e) \<and> lost i t h s'"
proof -
  have now: "re_now env = read_clock" and rel: "re_release env = release" using env by (simp_all add: uses_provider_def)
  let ?L = "lost i t h"
  have close: "thrifty (case x of None \<Rightarrow> ret None | Some k \<Rightarrow> catch (andThen (net (re_close env k)) (ret None)) (\<lambda>e. ret (Some e)))" for x
    by (cases x) (auto intro: thrifty_catch thrifty_andThen thrifty_net thrifty_pure)
  have clean: "triple ?L (clean_session env i) (\<lambda>v s. v \<noteq> None \<and> ?L s) (\<lambda>_. ?L)"
    unfolding clean_session_def
    by (intro hoare_bind[OF thrifty_triple(3)[OF thrifty_pure(6)]] hoare_bind[OF thrifty_triple(3)[OF close]]
        hoare_catch[OF hoare_andThen[OF release_raises[OF rel h]]])
      (auto simp: hoare_def prog_defs split: option.split)
  have ending: "triple (\<lambda>s. v \<noteq> None \<and> ?L s) (andThen (upd_session i (\<lambda>y. y\<lparr>ss_termination := Some (reason_of given)\<rparr>)) (case v of
        Some e \<Rightarrow> andThen (move env i SESSION_FAILED ''close_failed'' (Some (reason_of given)) (Some e))
                  (raise (RouterError [''session cleanup failed: '', error_name e]))
      | None \<Rightarrow> f)) (\<lambda>_ _. False) (\<lambda>_. ?L)" for v and f :: "('l, 'n, session_view) rprog"
  proof (cases v)
    case (Some e)
    then show ?thesis
      by (intro hoare_pre[OF hoare_andThen[OF thrifty_triple(3)[where i = i and t = t and h = h, OF thrifty_upd]]])
        (auto intro!: hoare_andThen[OF thrifty_triple(3)[OF thrifty_move[OF now]]] hoare_raise)
  qed (simp add: hoare_def)
  let ?f = "andThen (move env i CLOSING ''closing'' (Some (reason_of given)) None)
      (bind (clean_session env i) (\<lambda>close_error.
       andThen (upd_session i (\<lambda>y. y\<lparr>ss_termination := Some (reason_of given)\<rparr>))
       (case close_error of
          Some e \<Rightarrow> andThen (move env i SESSION_FAILED ''close_failed'' (Some (reason_of given)) (Some e))
                    (raise (RouterError [''session cleanup failed: '', error_name e]))
        | None \<Rightarrow> andThen (move env i CLOSED ''closed'' (Some (reason_of given)) None)
                 (andThen (restore_parent env i)
                 (bind (the_session i) (\<lambda>y. ret (session_dict y)))))))"
  have body: "triple ?L ?f (\<lambda>_ _. False) (\<lambda>_. ?L)"
    by (intro hoare_andThen[OF thrifty_triple(3)[OF thrifty_move[OF now]]] hoare_bind[OF clean] ending)
  have "close_session env i given s = ?f s"
    using x(2) unfolding closable_def by (auto simp: close_session_def bind_find[OF x(1)] Let_def)
  with run have "?f s = (r, s')" by simp
  with run(2) hoare_retD[OF body lost] hoare_raiseD[OF body lost] show ?thesis
    by (cases r) auto
qed

text \<open>Programs that keep the balance, whether they return or raise.\<close>

definition honest :: "('l, 'n, 'a) rprog \<Rightarrow> bool" where
  "honest m \<longleftrightarrow> (\<forall>B. triple (acct B) m (\<lambda>_. acct B) (\<lambda>_. acct B))"

lemma honest_thrifty: "thrifty m \<Longrightarrow> honest m"
  by (simp add: honest_def thrifty_triple)

lemma honest_bind: "honest m \<Longrightarrow> (\<And>x. honest (f x)) \<Longrightarrow> honest (bind m f)"
  unfolding honest_def by (blast intro: hoare_bind)

lemma honest_andThen: "honest m \<Longrightarrow> honest n \<Longrightarrow> honest (andThen m n)"
  unfolding honest_def by (blast intro: hoare_andThen)

lemma honest_catch: "honest m \<Longrightarrow> (\<And>e. honest (h e)) \<Longrightarrow> honest (catch m h)"
  unfolding honest_def by (blast intro: hoare_catch)

lemma honest_onlyif: "honest m \<Longrightarrow> honest (onlyif b m)"
  by (simp add: onlyif_def honest_thrifty thrifty_pure)

lemma honest_if: "honest m \<Longrightarrow> honest n \<Longrightarrow> honest (if b then m else n)"
  by simp

lemmas honest_rules = honest_bind honest_andThen honest_catch honest_onlyif honest_if

lemma honest_calls:
  assumes env: "uses_provider env"
  shows "honest (open_session env rq parent mode)" "honest (close_session env i given)"
  using acct_open[OF env] acct_close[OF env] by (simp_all add: honest_def)

lemma honest_handoff:
  assumes env: "uses_provider env"
  shows "honest (handoff env p target b term metadata)"
proof -
  have "honest (move env i new ty reason err)" for i new ty reason err
    using env by (intro honest_thrifty thrifty_move) (simp add: uses_provider_def)
  then show ?thesis
    unfolding handoff_def Let_def
    by (intro honest_rules honest_calls[OF env]) (simp_all add: honest_thrifty thrifty_pure)
qed

lemma honest_active_stream: "honest (active_stream i)"
  unfolding active_stream_def
  by (intro honest_thrifty thrifty_bind thrifty_andThen thrifty_pure) (simp add: thrifty_pure split: option.split)

lemma honest_transfer:
  assumes env: "uses_provider env"
  shows "honest (read_session env i count)" "honest (write_session env i data)"
  unfolding read_session_def write_session_def
  by (intro honest_rules honest_active_stream honest_calls[OF env]; simp add: honest_thrifty thrifty_pure thrifty_net)+

end

section \<open>The supervisor provides it\<close>

text \<open>A call of the supervisor, its exceptions seen by the router.\<close>

definition lifecycle_call :: "('w, 'a) sprog \<Rightarrow> ('w sup, router_error, 'a) prog" where
  "lifecycle_call m = (\<lambda>s. case m s of
      (Ret x, s') \<Rightarrow> (Ret x, s')
    | (Raise e, s') \<Rightarrow> (Raise (LifecycleFailure e), s')
    | (NoFuel, s') \<Rightarrow> (NoFuel, s'))"

definition sup_acquire :: "'w env \<Rightarrow> nat \<Rightarrow> string \<Rightarrow> ('w sup, router_error, string) prog" where
  "sup_acquire env n sid = lifecycle_call (acquire_session env n sid)"

definition sup_release :: "'w env \<Rightarrow> string \<Rightarrow> string \<Rightarrow> ('w sup, router_error, unit) prog" where
  "sup_release env sid x = lifecycle_call (bind (release_session env sid x) (\<lambda>_. ret ()))"

text \<open>\<open>supervisor.clock.now().isoformat()\<close>, given the rendering of a timestamp.\<close>

definition sup_clock :: "'w env \<Rightarrow> (datetime \<Rightarrow> string) \<Rightarrow> 'w sup \<Rightarrow> string \<times> 'w sup" where
  "sup_clock env render s = (let (t, w) = clock_now env (world s) in (render t, s\<lparr>world := w\<rparr>))"

definition sup_out :: "'w env \<Rightarrow> 'w sup \<Rightarrow> (string \<times> string) set" where
  "sup_out env s = {(sid, x). \<exists>sv. map_of (services (registry_of env)) sid = Some sv \<and> x \<in> fst ` set (in_sessions (instances s (sv_id sv)))}"

locale hold_supervisor = supervisor_env +
  assumes id_nonempty: "new_session_id env w = (x, w') \<Longrightarrow> x \<noteq> []"
    and keyed: "map_of (services (registry_of env)) sid = Some sv \<Longrightarrow> sv_id sv = sid"
begin

lemma add_session_id: "add_session env k s = (Ret x, s1) \<Longrightarrow> x \<noteq> []"
  using id_nonempty by (auto simp: add_session_def fresh_session_id_def now_def add_hold_def upd_def persist_def prog_defs Let_def split: prod.splits)

lemma out_sessions:
  assumes "sup_inv init issued F s" and "map_of (services (registry_of env)) sid = Some sv"
  shows "(sid, x) \<in> sup_out env s \<longleftrightarrow> x \<in> fst ` set (F (sv_id sv))"
  using assms sup_inv_sessions[OF assms(1)] by (simp add: sup_out_def)

lemma out_unknown: "map_of (services (registry_of env)) sid = None \<Longrightarrow> (sid, x) \<notin> sup_out env s"
  by (simp add: sup_out_def)

lemma out_update:
  assumes s: "sup_inv init issued F s" and s': "sup_inv init issued (F(sv_id sv := d)) s'"
    and sv: "map_of (services (registry_of env)) sid = Some sv"
  shows "sup_out env s' = {p \<in> sup_out env s. fst p \<noteq> sid} \<union> Pair sid ` fst ` set d"
proof -
  have "(i, x) \<in> sup_out env s' \<longleftrightarrow> (i, x) \<in> {p \<in> sup_out env s. fst p \<noteq> sid} \<union> Pair sid ` fst ` set d" for i x
  proof (cases "map_of (services (registry_of env)) i")
    case None
    with out_unknown[OF None] sv show ?thesis by auto
  next
    case (Some si)
    have "sv_id si = sv_id sv \<longleftrightarrow> i = sid" using keyed[OF Some] keyed[OF sv] by simp
    with out_sessions[OF s Some] out_sessions[OF s' Some] show ?thesis by auto
  qed
  then show ?thesis by (auto simp: set_eq_iff)
qed

lemma out_same: "sup_inv init issued F s \<Longrightarrow> sup_inv init issued F s' \<Longrightarrow> sup_out env s' = sup_out env s"
  by (simp add: sup_out_def sup_inv_sessions)

end

definition sup_good :: "('w \<Rightarrow> string set) \<Rightarrow> 'w sup \<Rightarrow> bool" where
  "sup_good issued s \<longleftrightarrow> sup_ok (\<lambda>_. STOPPED) issued s"

sublocale hold_supervisor \<subseteq> holds: hold_provider "sup_acquire env n" "sup_release env" "sup_clock env render" "sup_good issued" "sup_out env" for n render
proof
  fix t h l l' assume good: "sup_good issued l" and run: "sup_acquire env n t l = (Ret h, l')"
  then have inv: "sup_inv (\<lambda>_. STOPPED) issued (\<lambda>k. in_sessions (instances l k)) l" (is "sup_inv _ _ ?F _")
    by (simp add: sup_good_def sup_ok_def)
  from run have acq: "acquire_session env n t l = (Ret h, l')"
    by (auto simp: sup_acquire_def lifecycle_call_def split: prod.splits outcome.splits)
  then obtain sv where sv: "map_of (services (registry_of env)) t = Some sv"
    by (cases "map_of (services (registry_of env)) t") (auto simp: acquire_session_def find_service_def prog_defs)
  obtain r s1 where add: "add_session env (sv_id sv) l = (r, s1)" by fastforce
  obtain x u where r: "r = Ret x" "x \<notin> fst ` set (?F (sv_id sv))"
    and s1: "sup_inv (\<lambda>_. STOPPED) issued (?F(sv_id sv := AList.update x u (?F (sv_id sv)))) s1"
    using add_session_inv[OF inv add] .
  obtain q s2 where ens: "ensure_running_locked env n sv [''session''] s1 = (q, s2)" by fastforce
  have s2: "sup_inv (\<lambda>_. STOPPED) issued (?F(sv_id sv := AList.update x u (?F (sv_id sv)))) s2"
    using keeps_state[OF keeps_ensure_running_locked s1 ens] .
  have "x = h" "s2 = l'"
    using acq add ens r unfolding acquire_session_eq[OF sv] by (auto split: if_splits outcome.splits)
  moreover have "sup_out env s2 = insert (t, x) (sup_out env l)"
    unfolding out_update[OF inv s2 sv] using out_sessions[OF inv sv] by (auto simp: keys_update)
  moreover have "(t, x) \<notin> sup_out env l" using r out_sessions[OF inv sv] by simp
  ultimately show "sup_good issued l' \<and> h \<noteq> [] \<and> (t, h) \<notin> sup_out env l \<and> sup_out env l' = insert (t, h) (sup_out env l)"
    using add r add_session_id s2 by (auto simp: sup_good_def intro: sup_okI)
next
  fix t e l l' assume good: "sup_good issued l" and run: "sup_acquire env n t l = (Raise e, l')"
  then have inv: "sup_inv (\<lambda>_. STOPPED) issued (\<lambda>k. in_sessions (instances l k)) l" (is "sup_inv _ _ ?F _")
    by (simp add: sup_good_def sup_ok_def)
  from run obtain e' where acq: "acquire_session env n t l = (Raise e', l')"
    by (auto simp: sup_acquire_def lifecycle_call_def split: prod.splits outcome.splits)
  have "sup_inv (\<lambda>_. STOPPED) issued ?F l'"
  proof (cases "map_of (services (registry_of env)) t")
    case None
    with acq inv show ?thesis by (auto simp: acquire_session_def find_service_def prog_defs)
  next
    case (Some sv)
    obtain r s1 where add: "add_session env (sv_id sv) l = (r, s1)" by fastforce
    obtain q s2 where ens: "ensure_running_locked env n sv [''session''] s1 = (q, s2)" by fastforce
    obtain x u where "r = Ret x" "sup_inv (\<lambda>_. STOPPED) issued ?F (snd (drop_session (sv_id sv) x s2))"
      using acquire_locked[OF inv add ens] by blast
    with acq add ens inv show ?thesis unfolding acquire_session_eq[OF Some] by (auto split: if_splits outcome.splits)
  qed
  with out_same[OF inv] show "sup_good issued l' \<and> sup_out env l' = sup_out env l"
    by (auto simp: sup_good_def intro: sup_okI)
next
  fix t h l assume good: "sup_good issued l" and held: "(t, h) \<in> sup_out env l"
  then have inv: "sup_inv (\<lambda>_. STOPPED) issued (\<lambda>k. in_sessions (instances l k)) l" (is "sup_inv _ _ ?F _")
    by (simp add: sup_good_def sup_ok_def)
  from held obtain sv where sv: "map_of (services (registry_of env)) t = Some sv" by (auto simp: sup_out_def)
  let ?k = "sv_id sv" and ?rest = "andThen (schedule_idle_locked env sv) (view (sv_id sv))"
  have h: "h \<in> fst ` set (?F ?k)" using held out_sessions[OF inv sv] by simp
  have "release_session env t h l = andThen (drop_session ?k h) ?rest l"
    using sv h by (simp add: release_session_def find_service_def instance_of_def Let_def has_key_def prog_defs)
  moreover obtain r l' where run: "andThen (drop_session ?k h) ?rest l = (r, l')" by fastforce
  moreover have "r = Ret (to_dict False (instances l' ?k))"
  proof -
    have "andThen (drop_session ?k h) ?rest l = ?rest (snd (drop_session ?k h l))"
      by (subst andThen_def, subst bind_def, subst drop_session_ret) simp
    with run show ?thesis
      by (auto simp: schedule_idle_locked_def lifecycle_of_def instance_of_def now_def upd_def persist_def view_def prog_defs Let_def
          split: if_splits prod.splits)
  qed
  ultimately have rel: "sup_release env t h l = (Ret (), l')"
    by (simp add: sup_release_def lifecycle_call_def prog_defs)
  have "sup_inv (\<lambda>_. STOPPED) issued (?F(?k := AList.delete h (?F ?k))) l'"
    using after_drop[where F = ?F and rest = ?rest, OF inv h] run by (simp add: keeps_rules sup_keeps)
  with rel out_update[OF inv this sv] out_sessions[OF inv sv] show
    "\<exists>l'. sup_release env t h l = (Ret (), l') \<and> sup_good issued l' \<and> sup_out env l' = sup_out env l - {(t, h)}"
    by (auto simp: sup_good_def keys_delete intro!: sup_okI exI[of _ l'])
next
  fix t h l assume good: "sup_good issued l" and lost: "(t, h) \<notin> sup_out env l"
  show "\<exists>e. sup_release env t h l = (Raise e, l)"
  proof (cases "map_of (services (registry_of env)) t")
    case None
    then show ?thesis by (simp add: sup_release_def lifecycle_call_def release_session_def find_service_def prog_defs)
  next
    case (Some sv)
    with lost have "\<not> has_key (in_sessions (instances l (sv_id sv))) h" by (auto simp: sup_out_def has_key_def)
    with Some show ?thesis
      by (simp add: sup_release_def lifecycle_call_def release_session_def find_service_def instance_of_def Let_def prog_defs)
  qed
next
  fix l x l' assume good: "sup_good issued l" and clock: "sup_clock env render l = (x, l')"
  obtain t w where w: "clock_now env (world l) = (t, w)" by fastforce
  have inv: "sup_inv (\<lambda>_. STOPPED) issued (\<lambda>k. in_sessions (instances l k)) l"
    using good by (simp add: sup_good_def sup_ok_def)
  then have inv': "sup_inv (\<lambda>_. STOPPED) issued (\<lambda>k. in_sessions (instances l k)) (l\<lparr>world := w\<rparr>)"
    using now_grows[OF w] by (rule sup_inv_world)
  with clock w out_same[OF inv inv'] show "sup_good issued l' \<and> sup_out env l' = sup_out env l"
    by (simp add: sup_clock_def sup_good_def sup_okI)
qed

text \<open>The demo catalog under the fake clock and driver.\<close>

interpretation demo_holds: hold_supervisor demo_env fake_issued
proof (rule hold_supervisor.intro[OF demo_env_ok], unfold_locales)
  show "x \<noteq> []" if "new_session_id demo_env w = (x, w')" for w x w'
    using that by (auto simp: demo_env_def fake_env_def fake_id_def)
  show "sv_id sv = sid" if "map_of (services (registry_of demo_env)) sid = Some sv" for sid sv
    using that by (auto simp: demo_env_def demo_registry_def demo_bbs_def demo_door_def split: if_splits)
qed

end
