(* ===== verification/Router_Promises.thy ===== *)
theory Router_Promises
  imports Router_Supervisor
begin

text \<open>
  What the session router promises: every run keeps its invariant, only authorized sessions open,
  the direct menu lists exactly what may be opened directly, closing gives the hold back and the
  parent its turn, and a handoff that fails leaves the parent as it was.
\<close>

section \<open>Runs\<close>

lemma triple_inv:
  assumes "\<And>m. triple (quiet reg m) f (\<lambda>_ s. router_inv reg s) (\<lambda>_ s. router_inv reg s)"
  shows "triple (router_inv reg) f (\<lambda>_. router_inv reg) (\<lambda>_. router_inv reg)"
  using assms by (simp add: hoare_def quiet_def)

lemma quiet_inv: "quiet reg m s \<Longrightarrow> router_inv reg s"
  by (simp add: quiet_def)

lemma triple_find:
  assumes "\<And>x. m i = Some x \<Longrightarrow> triple (quiet reg m) (f x) Q E" and "m i = None \<Longrightarrow> (\<And>e s. quiet reg m s \<Longrightarrow> E e s)"
  shows "triple (quiet reg m) (bind (find_session i) f) Q E"
proof (cases "m i")
  case None
  with assms(2) show ?thesis by (auto simp: hoare_def find_session_def quiet_def prog_defs)
next
  case (Some x)
  have "bind (find_session i) f s = f x s" if "quiet reg m s" for s
    using Some that by (simp add: bind_find quiet_def)
  with assms(1)[OF Some] show ?thesis by (simp add: hoare_def)
qed

lemma not_found:
  assumes "map_of (ro_sessions s) i = None"
  shows "bind (find_session i) f s = (Raise (SessionNotFoundError [''unknown session: '', i]), s)"
  using assms by (simp add: find_session_def prog_defs)

lemma inv_open: "triple (router_inv (re_registry env)) (open_session env rq parent mode) (\<lambda>_. router_inv (re_registry env)) (\<lambda>_. router_inv (re_registry env))"
  by (rule triple_inv, rule hoare_conseq[OF open_session_triple]) (auto dest: cur_inv quiet_inv)

lemma inv_close: "triple (router_inv (re_registry env)) (close_session env i given) (\<lambda>_. router_inv (re_registry env)) (\<lambda>_. router_inv (re_registry env))"
proof (rule triple_inv)
  fix m
  show "triple (quiet (re_registry env) m) (close_session env i given) (\<lambda>_. router_inv (re_registry env)) (\<lambda>_. router_inv (re_registry env))"
  proof (cases "m i")
    case None
    then show ?thesis
      by (auto simp: close_session_def not_found quiet_def hoare_def)
  next
    case (Some x)
    show ?thesis
      by (rule hoare_conseq[OF close_session_triple[where m = m and i = i, OF Some]]) (auto dest: quiet_inv split: if_splits)
  qed
qed

lemma inv_handoff: "triple (router_inv (re_registry env)) (handoff env p target b term metadata)
    (\<lambda>_. router_inv (re_registry env)) (\<lambda>_. router_inv (re_registry env))"
proof (rule triple_inv)
  fix m
  show "triple (quiet (re_registry env) m) (handoff env p target b term metadata) (\<lambda>_. router_inv (re_registry env)) (\<lambda>_. router_inv (re_registry env))"
  proof (cases "m p")
    case None
    then show ?thesis by (auto simp: handoff_def not_found quiet_def hoare_def)
  next
    case (Some x)
    show ?thesis
      by (rule hoare_conseq[OF handoff_triple[where m = m and p = p, OF Some]]) (auto dest: quiet_inv)
  qed
qed

lemma inv_active_stream: "triple (router_inv reg) (active_stream i) (\<lambda>_. router_inv reg) (\<lambda>_. router_inv reg)"
  by (auto simp: active_stream_def find_session_def hoare_def prog_defs split: option.split)

lemma inv_net: "triple (router_inv reg) (net f) (\<lambda>_. router_inv reg) (\<lambda>_. router_inv reg)"
  by (rule hoareI) (auto simp: net_def router_frame split: prod.splits outcome.splits)

lemma inv_read: "triple (router_inv (re_registry env)) (read_session env i count) (\<lambda>_. router_inv (re_registry env)) (\<lambda>_. router_inv (re_registry env))"
  unfolding read_session_def
  by (rule hoare_bind[OF inv_active_stream hoare_bind], rule hoare_catch[OF inv_net hoare_if],
      rule hoare_bind[OF inv_close hoare_raise], assumption, rule hoare_raise, assumption,
      rule hoare_andThen[OF hoare_onlyif hoare_ret], rule hoare_bind[OF inv_close hoare_ret])

lemma inv_write: "triple (router_inv (re_registry env)) (write_session env i data) (\<lambda>_. router_inv (re_registry env)) (\<lambda>_. router_inv (re_registry env))"
  unfolding write_session_def
  by (rule hoare_bind[OF inv_active_stream], rule hoare_catch[OF inv_net hoare_if],
      rule hoare_bind[OF inv_close hoare_raise], assumption, rule hoare_raise)

text \<open>Calls of the router in sequence, on any outcome but exhausted fuel; between them the supervisor
  and the network may do anything.\<close>

inductive router_step :: "('l, 'n) renv \<Rightarrow> ('l, 'n) router \<Rightarrow> ('l, 'n) router \<Rightarrow> bool" for env where
  step_open: "open_session env rq parent mode s = (r, s') \<Longrightarrow> r \<noteq> NoFuel \<Longrightarrow> router_step env s s'"
| step_close: "close_session env i reason s = (r, s') \<Longrightarrow> r \<noteq> NoFuel \<Longrightarrow> router_step env s s'"
| step_handoff: "handoff env p target b term metadata s = (r, s') \<Longrightarrow> r \<noteq> NoFuel \<Longrightarrow> router_step env s s'"
| step_read: "read_session env i count s = (r, s') \<Longrightarrow> r \<noteq> NoFuel \<Longrightarrow> router_step env s s'"
| step_write: "write_session env i data s = (r, s') \<Longrightarrow> r \<noteq> NoFuel \<Longrightarrow> router_step env s s'"
| step_world: "router_step env s (s\<lparr>ro_life := l, ro_net := n\<rparr>)"

inductive_cases router_stepE: "router_step env s s'"

definition fresh_router :: "'l \<Rightarrow> 'n \<Rightarrow> ('l, 'n) router" where
  "fresh_router l n = \<lparr>ro_sessions = [], ro_journal = [], ro_life = l, ro_net = n\<rparr>"

lemma fresh_router_inv: "router_inv reg (fresh_router l n)"
  by (simp add: router_inv_def fresh_router_def trail_def)

lemma triple_inv_step: "triple I m (\<lambda>_. I) (\<lambda>_. I) \<Longrightarrow> m s = (r, s') \<Longrightarrow> r \<noteq> NoFuel \<Longrightarrow> I s \<Longrightarrow> I s'"
  by (cases r) (auto dest: hoare_retD hoare_raiseD)

lemma router_step_inv: "router_step env s s' \<Longrightarrow> router_inv (re_registry env) s \<Longrightarrow> router_inv (re_registry env) s'"
  by (erule router_stepE)
    (auto simp: router_frame elim: triple_inv_step[OF inv_open] triple_inv_step[OF inv_close] triple_inv_step[OF inv_handoff]
      triple_inv_step[OF inv_read] triple_inv_step[OF inv_write])

lemma router_steps_inv: "(router_step env)\<^sup>*\<^sup>* s s' \<Longrightarrow> router_inv (re_registry env) s \<Longrightarrow> router_inv (re_registry env) s'"
  by (induction rule: rtranclp_induct) (auto intro: router_step_inv)

lemma reachable_quiet: "(router_step env)\<^sup>*\<^sup>* (fresh_router l n) s \<Longrightarrow> quiet (re_registry env) (map_of (ro_sessions s)) s"
  using router_steps_inv[OF _ fresh_router_inv] by (simp add: quiet_def)

text \<open>C12: in every run of the router, whatever its callers, the supervisor and the network do, a session's
  journal is one walk through the transition graph from created to its current state; an active session
  or one handing off was granted by the policy, holds its service's lifecycle and has a stream; a closed
  session owes the supervisor no release; and no journal record has a field outside the allowed ones.\<close>

theorem router_runs:
  assumes "(router_step env)\<^sup>*\<^sup>* (fresh_router l n) s" and "map_of (ro_sessions s) i = Some x"
  shows "lived (trail i (ro_journal s)) (ss_state x) \<and>
    (ss_state x \<in> {ACTIVE, HANDING_OFF} \<longrightarrow>
       (\<exists>d. authorize (re_registry env) (request_of x) = Inr d \<and> ss_endpoint x = Some (rs_endpoint d)) \<and>
       ss_hold x \<noteq> None \<and> \<not> ss_released x \<and> ss_stream x \<noteq> None) \<and>
    (ss_state x = CLOSED \<longrightarrow> \<not> truthy (ss_hold x) \<or> ss_released x) \<and>
    (\<forall>e \<in> set (ro_journal s). fst ` set e \<subseteq> set allowed_keys)"
proof -
  have inv: "router_inv (re_registry env) s"
    using router_steps_inv[OF assms(1) fresh_router_inv] .
  then have ok: "session_ok (re_registry env) x" "lived (trail i (ro_journal s)) (ss_state x)"
    using assms(2) by (simp_all add: router_inv_def)
  have "granted (re_registry env) x \<Longrightarrow> \<exists>d. authorize (re_registry env) (request_of x) = Inr d \<and> ss_endpoint x = Some (rs_endpoint d)"
    by (auto simp: granted_def split: sum.splits)
  with ok have "ss_state x \<in> {ACTIVE, HANDING_OFF} \<longrightarrow> (\<exists>d. authorize (re_registry env) (request_of x) = Inr d \<and> ss_endpoint x = Some (rs_endpoint d)) \<and>
       ss_hold x \<noteq> None \<and> \<not> ss_released x \<and> ss_stream x \<noteq> None"
    by (simp add: session_ok_def)
  with ok inv show ?thesis by (simp add: session_ok_def router_inv_def)
qed

section \<open>Opening\<close>


lemma authorize_route_pure: "snd (authorize_route env rq parent s) = s"
  by (auto simp: authorize_route_def validate_origin_def find_session_def lift_check_def prog_defs split: option.split sum.split)

text \<open>The registration of a new session does not make a refused route acceptable.\<close>

lemma authorize_route_refused:
  assumes "fst (authorize_route env rq parent s) = Raise e" and "map_of (ro_sessions s) i = None"
    and "map_of (ro_sessions t) i = Some x" and "ss_state x = AUTHORIZING" and "\<And>j. j \<noteq> i \<Longrightarrow> map_of (ro_sessions t) j = map_of (ro_sessions s) j"
  shows "\<exists>exc. authorize_route env rq parent t = (Raise exc, t)"
proof (cases "rq_route_type rq = ''via_service'' \<and> parent = Some i \<and> i \<noteq> []")
  case True
  with assms(3,4) show ?thesis
    by (simp add: authorize_route_def validate_origin_def find_session_def prog_defs)
next
  case False
  with assms(2,5) have "rq_route_type rq = ''via_service'' \<Longrightarrow> truthy parent \<Longrightarrow> map_of (ro_sessions t) (the parent) = map_of (ro_sessions s) (the parent)"
    by (cases parent) auto
  with assms(1) show ?thesis
    by (auto simp: authorize_route_def validate_origin_def find_session_def lift_check_def prog_defs split: option.splits sum.splits if_splits)
qed

lemma bind_session: "map_of (ro_sessions s) i = Some x \<Longrightarrow> bind (the_session i) f s = f x s"
  by (simp add: the_session_def bind_gets)

lemma andThen_ret_left: "andThen (ret ()) f = f"
  by (simp add: prog_defs)

text \<open>The handler on a session that holds nothing yet.\<close>

lemma open_handler_early:
  assumes x: "map_of (ro_sessions s) i = Some x" "ss_stream x = None" "ss_hold x = None" "ss_state x = AUTHORIZING"
    and t: "re_now env (ro_life s) = (t, l)"
  shows "\<exists>s'. open_handler env i exc s = (Raise exc, s') \<and> ro_net s' = ro_net s \<and> ro_life s' = l \<and>
    map_of (ro_sessions s') = (map_of (ro_sessions s))(i \<mapsto> x\<lparr>ss_state := SESSION_FAILED, ss_termination := Some ''open_failed''\<rparr>)"
proof -
  have rel: "release_hold env i s = (Ret (), s)"
    using x by (simp add: release_hold_def bind_session[OF x(1)] onlyif_def ret_def)
  let ?m = "move env i SESSION_FAILED ''open_failed'' (Some ''open_failed'') (Some exc)"
  obtain s1 where s1: "?m s = (Ret (), s1)" "ro_net s1 = ro_net s" "ro_life s1 = l"
      "map_of (ro_sessions s1) = (map_of (ro_sessions s))(i \<mapsto> x\<lparr>ss_state := SESSION_FAILED\<rparr>)"
    using move_run[OF x(1) t] x by (auto simp: map_of_map_entry fun_eq_iff)
  have "open_handler env i exc s = andThen (upd_session i (\<lambda>y. y\<lparr>ss_termination := Some ''open_failed''\<rparr>)) (raise exc) s1"
    using x by (simp add: open_handler_def bind_session[OF x(1)] andThen_ret_left onlyif_def
        andThen_returning[of "release_hold env i" s "()" s, OF rel] andThen_returning[of ?m s "()" s1, OF s1(1)])
  with s1 show ?thesis
    by (auto simp: upd_session_def andThen_modify raise_def map_of_map_entry fun_eq_iff)
qed

text \<open>C14: a request that the router does not authorize reaches neither the supervisor nor the network. Its
  session is recorded as failed, without an endpoint, a hold or a stream; the only effect on the supervisor's
  side is the reading of the clock and on the network's the drawing of the session's id.\<close>

theorem unauthorized_reaches_nothing:
  assumes i: "re_new_id env (ro_net s) = (i, n)" "map_of (ro_sessions s) i = None"
    and ty: "rq_route_type rq = route_value ty" and refused: "fst (authorize_route env rq parent s) = Raise e"
    and run: "open_session env rq parent mode s = (r, s')"
  shows "(\<exists>exc. r = Raise exc) \<and> ro_net s' = n \<and> ro_life s' = ((\<lambda>l. snd (re_now env l)) ^^ 4) (ro_life s) \<and>
    (\<exists>x. map_of (ro_sessions s') = (map_of (ro_sessions s))(i \<mapsto> x) \<and> ss_state x = SESSION_FAILED \<and>
       ss_endpoint x = None \<and> ss_hold x = None \<and> ss_stream x = None)"
proof -
  obtain t l where t: "re_now env (ro_life s) = (t, l)" by fastforce
  obtain t1 l1 where t1: "re_now env l = (t1, l1)" by fastforce
  obtain t2 l2 where t2: "re_now env l1 = (t2, l2)" by fastforce
  obtain t3 l3 where t3: "re_now env l2 = (t3, l3)" by fastforce
  let ?x = "new_session i rq ty t parent mode"
  define s1 where "s1 = s\<lparr>ro_net := n, ro_life := l1, ro_sessions := AList.update i ?x (ro_sessions s),
      ro_journal := ro_journal s @ [event_of t1 ''created'' ?x None (Some CREATED) None None]\<rparr>"
  have "route_of_value (rq_route_type rq) = Inr ty" using ty by (simp add: route_of_value_Inr)
  then have reg: "register env rq parent mode s = (Ret i, s1)"
    using register_run[OF i(1) t t1, of rq parent mode] i(2) by (simp add: has_key_map_of s1_def)
  define s2 where "s2 = s1\<lparr>ro_sessions := AList.map_entry i (\<lambda>y. y\<lparr>ss_state := AUTHORIZING\<rparr>) (ro_sessions s1),
      ro_journal := ro_journal s1 @ [event_of t2 ''authorizing'' ?x (Some CREATED) (Some AUTHORIZING) None None], ro_life := l2\<rparr>"
  have "map_of (ro_sessions s1) i = Some ?x" "re_now env (ro_life s1) = (t2, l2)" by (simp_all add: s1_def t2)
  from move_run[OF this] have mv: "move env i AUTHORIZING ''authorizing'' None None s1 = (Ret (), s2)"
    by (simp add: s2_def new_session_def)
  have s2: "map_of (ro_sessions s2) i = Some (?x\<lparr>ss_state := AUTHORIZING\<rparr>)" "map_of (ro_sessions s2) = (map_of (ro_sessions s))(i \<mapsto> ?x\<lparr>ss_state := AUTHORIZING\<rparr>)"
      "ro_life s2 = l2" "ro_net s2 = n"
    by (auto simp: s2_def s1_def map_of_map_entry fun_eq_iff)
  obtain exc where no: "authorize_route env rq parent s2 = (Raise exc, s2)"
    using authorize_route_refused[OF refused i(2), of s2] s2 by auto
  have body: "open_body env i rq parent s1 = (Raise exc, s2)"
    unfolding open_body_def by (simp add: andThen_returning[of "move env i AUTHORIZING ''authorizing'' None None" s1 "()" s2, OF mv] bind_def no)
  define y where "y = ?x\<lparr>ss_state := SESSION_FAILED\<rparr>"
  have "re_now env (ro_life s2) = (t3, l3)" by (simp add: s2 t3)
  from open_handler_early[OF s2(1) _ _ _ this, of exc]
  have "\<exists>s3. open_handler env i exc s2 = (Raise exc, s3) \<and> ro_net s3 = n \<and> ro_life s3 = l3 \<and>
      map_of (ro_sessions s3) = (map_of (ro_sessions s))(i \<mapsto> y\<lparr>ss_termination := Some ''open_failed''\<rparr>)"
    by (simp add: s2 y_def new_session_def)
  then obtain s3 where h: "open_handler env i exc s2 = (Raise exc, s3)" "ro_net s3 = n" "ro_life s3 = l3"
      "map_of (ro_sessions s3) = (map_of (ro_sessions s))(i \<mapsto> y\<lparr>ss_termination := Some ''open_failed''\<rparr>)" by blast
  have "open_session env rq parent mode s = (Raise exc, s3)"
    by (simp add: open_session_def bind_returning[of "register env rq parent mode" s i s1, OF reg] andThen_catch body andThen_raising[of "open_handler env i exc" s2 exc s3, OF h(1)])
  with run h show ?thesis
    by (auto simp: t t1 t2 t3 eval_nat_numeral y_def new_session_def)
qed

section \<open>When everything works\<close>

abbreviation tick :: "('l, 'n) renv \<Rightarrow> 'l \<Rightarrow> 'l" where
  "tick env l \<equiv> snd (re_now env l)"

lemma move_step:
  assumes "map_of (ro_sessions s) i = Some x" and "new \<in> SESSION_TRANSITIONS (ss_state x)"
  shows "\<exists>s'. move env i new ty reason err s = (Ret (), s') \<and> ro_life s' = tick env (ro_life s) \<and> ro_net s' = ro_net s \<and>
    map_of (ro_sessions s') = (map_of (ro_sessions s))(i \<mapsto> x\<lparr>ss_state := new\<rparr>)"
proof -
  obtain t l where t: "re_now env (ro_life s) = (t, l)" by fastforce
  show ?thesis
    using move_run[OF assms(1) t] assms by (auto simp: t map_of_map_entry fun_eq_iff)
qed

lemma move_then:
  assumes "map_of (ro_sessions s) i = Some x" and "new \<in> SESSION_TRANSITIONS (ss_state x)"
  obtains s' where "\<And>f. andThen (move env i new ty reason err) f s = f s'" "ro_life s' = tick env (ro_life s)" "ro_net s' = ro_net s"
    "map_of (ro_sessions s') = (map_of (ro_sessions s))(i \<mapsto> x\<lparr>ss_state := new\<rparr>)"
proof -
  obtain s' where s': "move env i new ty reason err s = (Ret (), s')" "ro_life s' = tick env (ro_life s)" "ro_net s' = ro_net s"
    "map_of (ro_sessions s') = (map_of (ro_sessions s))(i \<mapsto> x\<lparr>ss_state := new\<rparr>)"
    using move_step[OF assms] by blast
  show thesis
    by (rule that[OF _ s'(2-4)]) (simp add: andThen_def bind_def s'(1))
qed

lemma upd_then:
  assumes "map_of (ro_sessions s) i = Some x"
  obtains s' where "\<And>g. andThen (upd_session i f) g s = g s'" "ro_life s' = ro_life s" "ro_net s' = ro_net s"
    "map_of (ro_sessions s') = (map_of (ro_sessions s))(i \<mapsto> f x)"
proof -
  let ?s = "s\<lparr>ro_sessions := AList.map_entry i f (ro_sessions s)\<rparr>"
  have "map_of (ro_sessions ?s) = (map_of (ro_sessions s))(i \<mapsto> f x)"
    using assms by (auto simp: map_of_map_entry fun_eq_iff)
  then show thesis
    by (intro that[of ?s]) (simp_all add: upd_session_def andThen_modify)
qed

lemma authorize_route_accepted:
  assumes "fst (authorize_route env rq parent s) = Ret d" and "parent \<noteq> Some i"
    and "\<And>j. j \<noteq> i \<Longrightarrow> map_of (ro_sessions t) j = map_of (ro_sessions s) j"
  shows "authorize_route env rq parent t = (Ret d, t)"
proof (cases "rq_route_type rq = ''via_service'' \<and> truthy parent")
  case True
  then obtain p where p: "parent = Some p" "p \<noteq> []" by (auto elim: truthyE)
  with assms(2,3) have "map_of (ro_sessions t) p = map_of (ro_sessions s) p" by auto
  with assms(1) True p show ?thesis
    by (auto simp: authorize_route_def validate_origin_def find_session_def lift_check_def prog_defs split: option.splits sum.splits if_splits)
next
  case False
  with assms(1) show ?thesis
    by (auto simp: authorize_route_def validate_origin_def lift_check_def prog_defs split: sum.splits if_splits)
qed

lemma open_session_works:
  fixes env :: "('l, 'n) renv"
  assumes i: "re_new_id env (ro_net s) = (i, n)" "map_of (ro_sessions s) i = None" "parent \<noteq> Some i"
    and ty: "rq_route_type rq = route_value ty" and ok: "fst (authorize_route env rq parent s) = Ret d"
    and acq: "re_acquire env (rq_target rq) (((\<lambda>l. snd (re_now env l)) ^^ 4) (ro_life s)) = (Ret h, l)"
    and con: "\<forall>t. fst (open_stream env (rq_target rq) (rs_endpoint d) (t\<lparr>ro_net := n\<rparr>)) = Ret k"
  shows "\<exists>x s'. open_session env rq parent mode s = (Ret i, s') \<and> map_of (ro_sessions s') = (map_of (ro_sessions s))(i \<mapsto> x) \<and>
     ss_state x = ACTIVE \<and> ss_hold x = Some h \<and> ss_stream x = Some k \<and> ss_target x = rq_target rq \<and> ss_parent x = parent \<and>
     ss_return x = (mode = Some RETURN_TO_ORIGIN) \<and> \<not> ss_released x \<and>
     ro_life s' = snd (re_now env (snd (re_now env l))) \<and>
     (\<exists>t. ro_net t = n \<and> ro_net s' = ro_net (snd (open_stream env (rq_target rq) (rs_endpoint d) t)))"
proof -
  obtain t0 l0 where t0: "re_now env (ro_life s) = (t0, l0)" by fastforce
  obtain t1 l1 where t1: "re_now env l0 = (t1, l1)" by fastforce
  let ?x = "new_session i rq ty t0 parent mode"
  define s1 where "s1 = s\<lparr>ro_net := n, ro_life := l1, ro_sessions := AList.update i ?x (ro_sessions s),
      ro_journal := ro_journal s @ [event_of t1 ''created'' ?x None (Some CREATED) None None]\<rparr>"
  have "route_of_value (rq_route_type rq) = Inr ty" using ty by (simp add: route_of_value_Inr)
  then have reg: "register env rq parent mode s = (Ret i, s1)"
    using register_run[OF i(1) t0 t1, of rq parent mode] i(2) by (simp add: has_key_map_of s1_def)
  have s1: "map_of (ro_sessions s1) = (map_of (ro_sessions s))(i \<mapsto> ?x)" "ro_life s1 = tick env (tick env (ro_life s))" "ro_net s1 = n"
    by (simp_all add: s1_def t0 t1)
  have x: "ss_state ?x = CREATED" by (simp add: new_session_def)
  obtain s2 where s2: "\<And>f :: ('l, 'n, unit) rprog. andThen (move env i AUTHORIZING ''authorizing'' None None) f s1 = f s2" "ro_life s2 = tick env (ro_life s1)"
      "ro_net s2 = ro_net s1" "map_of (ro_sessions s2) = (map_of (ro_sessions s1))(i \<mapsto> ?x\<lparr>ss_state := AUTHORIZING\<rparr>)"
    by (rule move_then[of s1 i ?x AUTHORIZING env "''authorizing''" None None]) (simp add: s1 x, simp add: s1 x, rule that)
  have auth: "authorize_route env rq parent s2 = (Ret d, s2)"
    by (rule authorize_route_accepted[OF ok i(3)]) (simp add: s2 s1)
  let ?y = "?x\<lparr>ss_state := AUTHORIZING\<rparr>"
  obtain s3 where s3: "\<And>g :: ('l, 'n, unit) rprog. andThen (upd_session i (\<lambda>y. y\<lparr>ss_endpoint := Some (rs_endpoint d)\<rparr>)) g s2 = g s3" "ro_life s3 = ro_life s2" "ro_net s3 = ro_net s2"
      "map_of (ro_sessions s3) = (map_of (ro_sessions s2))(i \<mapsto> ?y\<lparr>ss_endpoint := Some (rs_endpoint d)\<rparr>)"
    by (rule upd_then[of s2 i ?y]) (simp add: s2, rule that)
  let ?z = "?y\<lparr>ss_endpoint := Some (rs_endpoint d)\<rparr>"
  obtain s4 where s4: "\<And>f :: ('l, 'n, unit) rprog. andThen (move env i ACQUIRING ''authorized'' None None) f s3 = f s4" "ro_life s4 = tick env (ro_life s3)"
      "ro_net s4 = ro_net s3" "map_of (ro_sessions s4) = (map_of (ro_sessions s3))(i \<mapsto> ?z\<lparr>ss_state := ACQUIRING\<rparr>)"
    by (rule move_then[of s3 i ?z ACQUIRING env "''authorized''" None None]) (simp add: s3, simp add: s3, rule that)
  have acq': "life (re_acquire env (rq_target rq)) s4 = (Ret h, s4\<lparr>ro_life := l\<rparr>)"
    using acq by (simp add: life_def s4 s3 s2 s1 eval_nat_numeral)
  let ?s5 = "s4\<lparr>ro_life := l\<rparr>" and ?w = "?z\<lparr>ss_state := ACQUIRING\<rparr>"
  obtain s6 where s6: "\<And>g :: ('l, 'n, unit) rprog. andThen (upd_session i (\<lambda>y. y\<lparr>ss_hold := Some h\<rparr>)) g ?s5 = g s6" "ro_life s6 = l" "ro_net s6 = ro_net s4"
      "map_of (ro_sessions s6) = (map_of (ro_sessions s4))(i \<mapsto> ?w\<lparr>ss_hold := Some h\<rparr>)"
    by (rule upd_then[of ?s5 i ?w]) (simp add: s4, rule that, assumption, simp_all)
  let ?v = "?w\<lparr>ss_hold := Some h\<rparr>"
  obtain s7 where s7: "\<And>f :: ('l, 'n, unit) rprog. andThen (move env i CONNECTING ''lifecycle_acquired'' None None) f s6 = f s7" "ro_life s7 = tick env (ro_life s6)"
      "ro_net s7 = ro_net s6" "map_of (ro_sessions s7) = (map_of (ro_sessions s6))(i \<mapsto> ?v\<lparr>ss_state := CONNECTING\<rparr>)"
    by (rule move_then[of s6 i ?v CONNECTING env "''lifecycle_acquired''" None None]) (simp add: s6, simp add: s6, rule that)
  let ?u = "?v\<lparr>ss_state := CONNECTING\<rparr>"
  have "s7\<lparr>ro_net := n\<rparr> = s7" using s7 s6 s4 s3 s2 s1 by simp
  with con[rule_format, of s7] obtain n8 where str: "open_stream env (rq_target rq) (rs_endpoint d) s7 = (Ret k, s7\<lparr>ro_net := n8\<rparr>)"
    by (auto simp: open_stream_def net_def split: option.splits prod.splits)
  obtain s9 where s9: "\<And>g :: ('l, 'n, unit) rprog. andThen (upd_session i (\<lambda>y. y\<lparr>ss_stream := Some k\<rparr>)) g (s7\<lparr>ro_net := n8\<rparr>) = g s9" "ro_life s9 = ro_life s7" "ro_net s9 = n8"
      "map_of (ro_sessions s9) = (map_of (ro_sessions s7))(i \<mapsto> ?u\<lparr>ss_stream := Some k\<rparr>)"
    by (rule upd_then[of "s7\<lparr>ro_net := n8\<rparr>" i ?u]) (simp add: s7, rule that, assumption, simp_all)
  let ?t = "?u\<lparr>ss_stream := Some k\<rparr>"
  obtain s10 where s10: "move env i ACTIVE ''connected'' None None s9 = (Ret (), s10)" "ro_life s10 = tick env (ro_life s9)" "ro_net s10 = ro_net s9"
      "map_of (ro_sessions s10) = (map_of (ro_sessions s9))(i \<mapsto> ?t\<lparr>ss_state := ACTIVE\<rparr>)"
    using move_step[of s9 i ?t ACTIVE env "''connected''" None None] s9 by auto
  have "open_body env i rq parent s1 = (Ret (), s10)"
    by (simp add: open_body_def s2(1) s3(1) s4(1) s6(1) s7(1) s9(1) s10(1) bind_returning[of "authorize_route env rq parent" s2 d s2, OF auth]
        bind_returning[of "life (re_acquire env (rq_target rq))" s4 h ?s5, OF acq']
        bind_returning[of "open_stream env (rq_target rq) (rs_endpoint d)" s7 k "s7\<lparr>ro_net := n8\<rparr>", OF str])
  then have "open_session env rq parent mode s = (Ret i, s10)"
    by (simp add: open_session_def bind_returning[of "register env rq parent mode" s i s1, OF reg] andThen_catch ret_def)
  then show ?thesis
    by (intro exI[of _ "?t\<lparr>ss_state := ACTIVE\<rparr>"] exI[of _ s10] conjI exI[of _ s7]) (simp_all add: s10 s9 s7 s6 s4 s3 s2 s1 new_session_def str)
qed


lemma close_session_works:
  assumes x: "map_of (ro_sessions s) i = Some x" "closable (ss_state x)" "ss_id x = i" and inv: "router_inv (re_registry env) s"
    and clean: "\<forall>t. ro_life t = snd (re_now env (ro_life s)) \<and> ro_net t = ro_net s \<and>
        map_of (ro_sessions t) = (map_of (ro_sessions s))(i \<mapsto> x\<lparr>ss_state := CLOSING\<rparr>) \<longrightarrow> fst (clean_session env i t) = Ret None"
  shows "\<exists>v s'. close_session env i given s = (Ret v, s')"
proof -
  define reason where "reason = reason_of given"
  obtain s1 where s1: "move env i CLOSING ''closing'' (Some reason) None s = (Ret (), s1)" "ro_life s1 = snd (re_now env (ro_life s))"
      "ro_net s1 = ro_net s" "map_of (ro_sessions s1) = (map_of (ro_sessions s))(i \<mapsto> x\<lparr>ss_state := CLOSING\<rparr>)"
    using move_step[OF x(1), of CLOSING env "''closing''" "Some reason" None] x(2) by (auto simp: closable_iff)
  obtain s2 where s2: "clean_session env i s1 = (Ret None, s2)"
    using clean s1 by (cases "clean_session env i s1") auto
  obtain r s' where run: "close_session env i given s = (r, s')" by fastforce
  let ?last = "andThen (move env i CLOSED ''closed'' (Some reason) None) (andThen (restore_parent env i) (bind (the_session i) (\<lambda>y. ret (session_dict y))))"
  have tail: "close_session env i given s = andThen (upd_session i (\<lambda>y. y\<lparr>ss_termination := Some reason\<rparr>)) ?last s2"
  proof -
    let ?rest = "\<lambda>close_error. andThen (upd_session i (\<lambda>y. y\<lparr>ss_termination := Some reason\<rparr>)) (case close_error of
          Some e \<Rightarrow> andThen (move env i SESSION_FAILED ''close_failed'' (Some reason) (Some e))
                    (raise (RouterError [''session cleanup failed: '', error_name e]))
        | None \<Rightarrow> ?last)"
    have "close_session env i given s = andThen (move env i CLOSING ''closing'' (Some reason) None) (bind (clean_session env i) ?rest) s"
      using x(2) unfolding reason_def closable_def by (auto simp: close_session_def bind_find[OF x(1)] Let_def)
    also have "\<dots> = bind (clean_session env i) ?rest s1"
      by (rule andThen_returning[of "move env i CLOSING ''closing'' (Some reason) None" s "()" s1, OF s1(1)])
    also have "\<dots> = ?rest None s2"
      by (rule bind_returning[of "clean_session env i" s1 None s2, OF s2])
    finally show ?thesis by simp
  qed
  have q: "quiet (re_registry env) (map_of (ro_sessions s)) s" using inv by (simp add: quiet_def)
  let ?m = "(map_of (ro_sessions s))(i \<mapsto> x\<lparr>ss_state := CLOSING\<rparr>)"
  have "triple (quiet (re_registry env) (map_of (ro_sessions s))) (move env i CLOSING ''closing'' (Some reason) None)
      (\<lambda>_. quiet (re_registry env) ?m) (\<lambda>_ _. True)"
    by (rule quiet_move[where m = "map_of (ro_sessions s)" and i = i and x = x, OF x(1)]) (use x(2) in \<open>auto simp: closable_iff session_ok_def\<close>)
  from hoare_retD[OF this q s1(1)] have "cur (re_registry env) ?m i (\<lambda>y. y = x\<lparr>ss_state := CLOSING\<rparr>) s1"
    by (rule quiet_cur) simp
  from hoare_retD[OF clean_session_triple this s2]
  have c: "cur (re_registry env) ?m i (\<lambda>y. y = cleaned (x\<lparr>ss_state := CLOSING\<rparr>)) s2"
    by (simp del: fun_upd_apply)
  then obtain y where y: "map_of (ro_sessions s2) i = Some y" "ss_state y = CLOSING" by (auto simp: cur_def)
  obtain s3 where s3: "\<And>g :: ('a, 'b, session_view) rprog. andThen (upd_session i (\<lambda>y. y\<lparr>ss_termination := Some reason\<rparr>)) g s2 = g s3"
      "map_of (ro_sessions s3) = (map_of (ro_sessions s2))(i \<mapsto> y\<lparr>ss_termination := Some reason\<rparr>)"
    by (rule upd_then[OF y(1)]) (rule that)
  obtain s4 where s4: "\<And>g :: ('a, 'b, session_view) rprog. andThen (move env i CLOSED ''closed'' (Some reason) None) g s3 = g s4"
      "map_of (ro_sessions s4) = (map_of (ro_sessions s3))(i \<mapsto> y\<lparr>ss_termination := Some reason, ss_state := CLOSED\<rparr>)"
    by (rule move_then[of s3 i "y\<lparr>ss_termination := Some reason\<rparr>" CLOSED env "''closed''" "Some reason" None]) (simp add: s3, simp add: y, rule that)
  have mv: "\<exists>s5. move env p ACTIVE ''handoff_returned'' None None s4 = (Ret (), s5)"
    if "map_of (ro_sessions s4) p = Some z" "ss_state z = HANDING_OFF" for p z
    using move_step[OF that(1), of ACTIVE env "''handoff_returned''" None None] that(2) by auto
  have "\<exists>s5. restore_parent env i s4 = (Ret (), s5)"
    using mv by (auto simp: restore_parent_def the_session_def bind_gets Let_def onlyif_def ret_def split: option.split)
  then show ?thesis
    unfolding tail s3(1) s4(1) by (auto simp: andThen_def bind_def the_session_def gets_def ret_def)
qed

section \<open>A demo\<close>

text \<open>The demo catalog behind the supervisor's demo, with one memory stream and sockets that refuse.\<close>

definition demo_sockets :: "nat sockets" where
  "demo_sockets = \<lparr>sk_connect = (\<lambda>h p t. raise (OSFailure ''ConnectionRefusedError'' [])), sk_settimeout_none = (\<lambda>fd. ret ()),
     sk_recv = (\<lambda>fd n. ret []), sk_sendall = (\<lambda>fd d. ret ()), sk_shutdown = (\<lambda>fd. ret ()), sk_close = (\<lambda>fd. ret ())\<rparr>"

definition demo_renv :: "(fake_world sup, nat heap) renv" where
  "demo_renv = \<lparr>re_registry = demo_registry, re_acquire = sup_acquire demo_env (Suc (Suc 0)), re_release = sup_release demo_env,
     re_now = sup_clock demo_env (\<lambda>_. ''now''), re_new_id = (\<lambda>n. (replicate (Suc (hp_os n)) (CHR ''r''), n\<lparr>hp_os := Suc (hp_os n)\<rparr>)),
     re_connect_timeout = 10000000, re_connectors = all_connectors (tcp_connect demo_sockets) [(''tcp'', memory_connect 0 None)],
     re_resolver = None, re_read = stream_read demo_sockets, re_write = stream_write demo_sockets, re_close = stream_close demo_sockets\<rparr>"

definition demo_net :: "nat heap" where
  "demo_net = \<lparr>hp_streams = [Memory \<lparr>ms_incoming = [''hi''], ms_written = [], ms_closed = False\<rparr>], hp_os = 0\<rparr>"

definition demo_router :: "(fake_world sup, nat heap) router" where
  "demo_router = fresh_router demo_start demo_net"

definition direct :: "string \<Rightarrow> route_request" where
  "direct sid = \<lparr>rq_target = sid, rq_route_type = ''direct'', rq_origin = None, rq_terminal = default_terminal, rq_metadata = []\<rparr>"

definition demo_resolution :: resolution where
  "demo_resolution = \<lparr>rs_service = demo_bbs\<lparr>sv_source := [''services'', ''b.yml'']\<rparr>,
     rs_endpoint = normalized (demo_endpoint\<lparr>ep_source := [''endpoints'', ''e.yml'']\<rparr>),
     rs_integration = Some (demo_integration\<lparr>ig_source := [''integrations'', ''i.yaml'']\<rparr>)\<rparr>"

lemma demo_renv_simps [simp]:
  "re_registry demo_renv = demo_registry" "re_acquire demo_renv = sup_acquire demo_env (Suc (Suc 0))" "re_release demo_renv = sup_release demo_env"
  "re_new_id demo_renv n = (replicate (Suc (hp_os n)) (CHR ''r''), n\<lparr>hp_os := Suc (hp_os n)\<rparr>)" "re_resolver demo_renv = None"
  "re_close demo_renv = stream_close demo_sockets"
  by (simp_all add: demo_renv_def)

lemma demo_now [simp]: "re_now demo_renv l = (''now'', l)"
  by (simp add: demo_renv_def sup_clock_def demo_env_def fake_defs)

lemma demo_uses: "demo_holds.holds.uses_provider (Suc (Suc 0)) (\<lambda>_. ''now'') demo_renv"
  by (simp add: demo_holds.holds.uses_provider_def) (simp add: demo_renv_def)

lemma demo_authorize: "authorize demo_registry (direct ''bbs'') = Inr demo_resolution"
  by (simp add: authorize_def direct_def registry_eval demo_registry_def demo_bbs_def demo_endpoint_def demo_integration_def demo_resolution_def route_allowed_def)

lemma demo_acquire: "\<exists>l. sup_acquire demo_env (Suc (Suc 0)) ''bbs'' demo_start = (Ret ''x'', l)"
proof -
  have "fst (acquire_session demo_env (Suc (Suc 0)) ''bbs'' demo_start) = Ret ''x''"
    by (simp add: sup_eval registry_eval demo_defs)
  then show ?thesis
    by (cases "acquire_session demo_env (Suc (Suc 0)) ''bbs'' demo_start") (simp add: sup_acquire_def lifecycle_call_def)
qed

lemma demo_stream: "open_stream demo_renv target (rs_endpoint demo_resolution) t = (Ret 0, t)"
  by (simp add: open_stream_def net_def)
    (simp add: demo_renv_def demo_resolution_def demo_endpoint_def normalized_def endpoint.defs endpoint_view.defs all_connectors_def memory_connect_def ret_def Let_def)

lemma demo_opens: "\<exists>x s'. open_session demo_renv (direct ''bbs'') None mode demo_router = (Ret ''r'', s') \<and>
    map_of (ro_sessions s') = [''r'' \<mapsto> x] \<and> ss_state x = ACTIVE \<and> ss_hold x = Some ''x'' \<and> ss_stream x = Some 0 \<and> ss_target x = ''bbs'' \<and> \<not> ss_released x \<and>
    ro_life s' = snd (sup_acquire demo_env (Suc (Suc 0)) ''bbs'' demo_start) \<and> ro_net s' = demo_net\<lparr>hp_os := 1\<rparr>"
proof -
  obtain l where l: "sup_acquire demo_env (Suc (Suc 0)) ''bbs'' demo_start = (Ret ''x'', l)" using demo_acquire ..
  have "fst (authorize_route demo_renv (direct ''bbs'') None demo_router) = Ret demo_resolution"
    using demo_authorize by (simp add: authorize_route_def validate_origin_def lift_check_def prog_defs) (simp add: direct_def)
  from open_session_works[where env = demo_renv and s = demo_router and i = "''r''" and rq = "direct ''bbs''" and ty = DIRECT and h = "''x''" and l = l and k = 0 and mode = mode
        and parent = None and d = demo_resolution and n = "demo_net\<lparr>hp_os := 1\<rparr>", OF _ _ _ _ this] l
  show ?thesis
    by (simp add: demo_router_def fresh_router_def demo_net_def demo_stream) (auto simp: direct_def eval_nat_numeral)
qed

lemma demo_reached: "open_session demo_renv (direct ''bbs'') None mode demo_router = (Ret i, s) \<Longrightarrow>
    (router_step demo_renv)\<^sup>*\<^sup>* (fresh_router demo_start demo_net) s"
  unfolding demo_router_def[symmetric] by (rule r_into_rtranclp, erule step_open) simp

lemma demo_opened:
  obtains s x where "(router_step demo_renv)\<^sup>*\<^sup>* (fresh_router demo_start demo_net) s"
    and "open_session demo_renv (direct ''bbs'') None mode demo_router = (Ret ''r'', s)" and "map_of (ro_sessions s) = [''r'' \<mapsto> x]"
    and "ss_state x = ACTIVE" "ss_id x = ''r''" "ss_hold x = Some ''x''" "ss_stream x = Some 0" "ss_target x = ''bbs''" "\<not> ss_released x"
    and "sup_good fake_issued (ro_life s)" "sup_out demo_env (ro_life s) = {(''bbs'', ''x'')}"
    and "ro_life s = snd (sup_acquire demo_env (Suc (Suc 0)) ''bbs'' demo_start)" "ro_net s = demo_net\<lparr>hp_os := 1\<rparr>"
proof -
  obtain l where l: "sup_acquire demo_env (Suc (Suc 0)) ''bbs'' demo_start = (Ret ''x'', l)" using demo_acquire ..
  obtain x s where o: "open_session demo_renv (direct ''bbs'') None mode demo_router = (Ret ''r'', s)" "map_of (ro_sessions s) = [''r'' \<mapsto> x]"
    "ss_state x = ACTIVE" "ss_hold x = Some ''x''" "ss_stream x = Some 0" "ss_target x = ''bbs''" "\<not> ss_released x" "ro_life s = l"
    "ro_net s = demo_net\<lparr>hp_os := 1\<rparr>"
    using demo_opens[of mode] l by auto
  have start: "sup_good fake_issued demo_start" "sup_out demo_env demo_start = {}"
    using new_supervisor_ok by (simp_all add: sup_good_def sup_out_def demo_defs new_instance_def)
  have "ss_id x = ''r''"
    using reachable_quiet[OF demo_reached[OF o(1)]] o(2) by (auto simp: quiet_def router_inv_def session_ok_def)
  with that[OF demo_reached[OF o(1)] o(1-3) _ o(4-7)] demo_holds.holds.acquire_ret[OF start(1) l] start(2) o(8,9) l show thesis
    by simp
qed

text \<open>Nothing but the policy, the supervisor and the transport can refuse a session. A request that is
  authorized, whose service the supervisor brings up and whose stream connects, is opened.\<close>

theorem open_session_succeeds:
  assumes i: "re_new_id env (ro_net s) = (i, n)" "map_of (ro_sessions s) i = None" "parent \<noteq> Some i"
    and ty: "rq_route_type rq = route_value ty" and ok: "fst (authorize_route env rq parent s) = Ret d"
    and acq: "re_acquire env (rq_target rq) (((\<lambda>l. snd (re_now env l)) ^^ 4) (ro_life s)) = (Ret h, l)"
    and con: "\<forall>t. fst (open_stream env (rq_target rq) (rs_endpoint d) (t\<lparr>ro_net := n\<rparr>)) = Ret k"
  shows "\<exists>x s'. open_session env rq parent mode s = (Ret i, s') \<and> map_of (ro_sessions s') = (map_of (ro_sessions s))(i \<mapsto> x) \<and>
     ss_state x = ACTIVE \<and> ss_hold x = Some h \<and> ss_stream x = Some k"
  using open_session_works[OF assms, of mode] by blast

section \<open>The claims on the demo\<close>

theorem router_runs_witness:
  "\<exists>s x. (router_step demo_renv)\<^sup>*\<^sup>* (fresh_router demo_start demo_net) s \<and> map_of (ro_sessions s) ''r'' = Some x \<and>
     ss_state x = ACTIVE \<and> lived (trail ''r'' (ro_journal s)) ACTIVE"
proof -
  obtain s x where s: "(router_step demo_renv)\<^sup>*\<^sup>* (fresh_router demo_start demo_net) s" "map_of (ro_sessions s) = [''r'' \<mapsto> x]" "ss_state x = ACTIVE"
    by (rule demo_opened)
  with router_runs[OF s(1), of "''r''" x] show ?thesis by auto
qed


theorem open_session_succeeds_witness:
  "\<exists>x s'. open_session demo_renv (direct ''bbs'') None None demo_router = (Ret ''r'', s') \<and> map_of (ro_sessions s') ''r'' = Some x \<and>
     ss_state x = ACTIVE \<and> ss_stream x = Some 0"
proof -
  obtain l where l: "sup_acquire demo_env (Suc (Suc 0)) ''bbs'' demo_start = (Ret ''x'', l)" using demo_acquire ..
  have "fst (authorize_route demo_renv (direct ''bbs'') None demo_router) = Ret demo_resolution"
    using demo_authorize by (simp add: authorize_route_def validate_origin_def lift_check_def prog_defs) (simp add: direct_def)
  from open_session_succeeds[where env = demo_renv and s = demo_router and i = "''r''" and rq = "direct ''bbs''" and ty = DIRECT and h = "''x''" and l = l and k = 0
        and mode = None and parent = None and d = demo_resolution and n = "demo_net\<lparr>hp_os := 1\<rparr>", OF _ _ _ _ this] l
  show ?thesis
    by (simp add: demo_router_def fresh_router_def demo_net_def demo_stream) (auto simp: direct_def eval_nat_numeral)
qed

theorem unauthorized_reaches_nothing_witness:
  "\<exists>s' x. snd (open_session demo_renv (direct ''door'') None None demo_router) = s' \<and> ro_life s' = demo_start \<and>
     map_of (ro_sessions s') = [''r'' \<mapsto> x] \<and> ss_state x = SESSION_FAILED \<and> ss_hold x = None"
proof -
  have "authorize demo_registry (direct ''door'') = Inl (AuthorizationError [''direct route denied for service '', ''door''])"
    by (simp add: authorize_def direct_def registry_eval demo_registry_def demo_door_def demo_bbs_def route_allowed_def)
  then have no: "fst (authorize_route demo_renv (direct ''door'') None demo_router) = Raise (AuthorizationError [''direct route denied for service '', ''door''])"
    by (simp add: authorize_route_def validate_origin_def lift_check_def prog_defs) (simp add: direct_def)
  obtain r s' where run: "open_session demo_renv (direct ''door'') None None demo_router = (r, s')" by fastforce
  have id: "re_new_id demo_renv (ro_net demo_router) = (''r'', demo_net\<lparr>hp_os := 1\<rparr>)" "map_of (ro_sessions demo_router) ''r'' = None"
    by (simp_all add: demo_router_def fresh_router_def demo_net_def)
  have "rq_route_type (direct ''door'') = route_value DIRECT" by (simp add: direct_def)
  from unauthorized_reaches_nothing[OF id this no run] run show ?thesis
    by (auto simp: demo_router_def fresh_router_def eval_nat_numeral)
qed

end
