(* ===== verification/Router_Outcomes.thy ===== *)
theory Router_Outcomes
  imports Router_Promises
begin

text \<open>
  What closing and handing off do to the other sessions, and who gives the supervisor's holds back.
\<close>

section \<open>Closing and handing off\<close>


text \<open>C16: a handoff in any run. Only an active session hands off; on success the child is new and active,
  through the target's authorized \<open>via_service\<close> route, and the parent is handing off (to return) or closed (replaced).
  When it raises, the parent is as it was, and at most one new failed child is left, except when a
  replacing handoff succeeded in opening the child and then failed to clean the parent up: then the child stays
  active although the caller never learns its id.\<close>

theorem handoff_outcome:
  assumes reach: "(router_step env)\<^sup>*\<^sup>* (fresh_router l n) s" and x: "map_of (ro_sessions s) p = Some x"
    and run: "handoff env p target b term metadata s = (r, s')"
  shows "case r of
      Ret i \<Rightarrow> ss_state x = ACTIVE \<and> map_of (ro_sessions s) i = None \<and>
        (\<exists>d. authorize (re_registry env) (handoff_request x target term metadata) = Inr d) \<and>
        (\<exists>c. child_of (handoff_request x target term metadata) p b c \<and> map_of (ro_sessions s') =
          (if b then (map_of (ro_sessions s))(p \<mapsto> x\<lparr>ss_state := HANDING_OFF\<rparr>, i \<mapsto> c)
           else restored ((map_of (ro_sessions s))(i \<mapsto> c, p \<mapsto> closed ''handoff_replaced'' x)) x))
    | Raise e \<Rightarrow> map_of (ro_sessions s') = map_of (ro_sessions s) \<or>
        (\<exists>i c. map_of (ro_sessions s) i = None \<and> (aborted c \<and> map_of (ro_sessions s') = (map_of (ro_sessions s))(i \<mapsto> c) \<or>
          \<not> b \<and> child_of (handoff_request x target term metadata) p b c \<and>
            (\<exists>y. failed_to_close ''handoff_replaced'' x y \<and> map_of (ro_sessions s') = (map_of (ro_sessions s))(i \<mapsto> c, p \<mapsto> y))))
    | NoFuel \<Rightarrow> True"
proof (cases r)
  case (Ret i)
  from hoare_retD[OF handoff_triple[where m = "map_of (ro_sessions s)" and p = p and x = x, OF x] reachable_quiet[OF reach] run[unfolded Ret]] Ret
  show ?thesis unfolding quiet_def by auto
next
  case (Raise e)
  from hoare_raiseD[OF handoff_triple[where m = "map_of (ro_sessions s)" and p = p and x = x, OF x] reachable_quiet[OF reach] run[unfolded Raise]]
  have "map_of (ro_sessions s') = map_of (ro_sessions s) \<or>
        (\<exists>i c. map_of (ro_sessions s) i = None \<and> (aborted c \<and> map_of (ro_sessions s') = (map_of (ro_sessions s))(i \<mapsto> c) \<or>
          \<not> b \<and> child_of (handoff_request x target term metadata) p b c \<and>
            (\<exists>y. failed_to_close ''handoff_replaced'' x y \<and> map_of (ro_sessions s') = (map_of (ro_sessions s))(i \<mapsto> c, p \<mapsto> y))))"
    unfolding quiet_def by blast
  with Raise show ?thesis by simp
qed simp

text \<open>Handing off and coming back. When a returning handoff gives a child and closing the child succeeds, the
  parent is again exactly the session it was, and the child, now closed, is all that was added.\<close>

theorem handoff_returns:
  assumes reach: "(router_step env)\<^sup>*\<^sup>* (fresh_router l n) s" and p: "p \<noteq> []"
    and out: "handoff env p target True term metadata s = (Ret i, s')" and closing: "close_session env i given s' = (Ret v, s'')"
  shows "\<exists>c. map_of (ro_sessions s'') = (map_of (ro_sessions s))(i \<mapsto> c) \<and> map_of (ro_sessions s) i = None \<and>
    ss_state c = CLOSED \<and> \<not> owes c"
proof -
  note q = reachable_quiet[OF reach]
  obtain x where x: "map_of (ro_sessions s) p = Some x"
    using out by (cases "map_of (ro_sessions s) p") (auto simp: handoff_def not_found)
  let ?m = "map_of (ro_sessions s)"
  from hoare_retD[OF handoff_triple[where m = ?m and p = p and x = x, OF x] q out]
  obtain c where c: "ss_state x = ACTIVE" "?m i = None" "child_of (handoff_request x target term metadata) p True c"
    and q': "quiet (re_registry env) (?m(p \<mapsto> x\<lparr>ss_state := HANDING_OFF\<rparr>, i \<mapsto> c)) s'"
    by auto
  from c x have ne: "i \<noteq> p" by auto
  have ret: "ss_return c" "ss_parent c = Some p" "ss_state c = ACTIVE"
    using c(3) by (auto simp: child_of_def opened_def mode_of_def)
  from hoare_retD[OF close_session_triple[where m = "?m(p \<mapsto> x\<lparr>ss_state := HANDING_OFF\<rparr>, i \<mapsto> c)" and i = i and x = c] q' closing] ret(3)
  have "map_of (ro_sessions s'') = restored (?m(p \<mapsto> x\<lparr>ss_state := HANDING_OFF\<rparr>, i \<mapsto> closed (reason_of given) c)) c"
    by (simp add: quiet_def)
  also have "\<dots> = ?m(i \<mapsto> closed (reason_of given) c)"
    using ret p ne x handing_off_twice[OF c(1)] by (auto simp: restored_def fun_eq_iff)
  finally show ?thesis using c(2) closed_simps by blast
qed

section \<open>The claims on the demo\<close>

lemma demo_clean:
  assumes x: "map_of (ro_sessions t) i = Some x" "ss_stream x = Some 0" "ss_hold x = Some h" "h \<noteq> []" "\<not> ss_released x"
    and m: "hp_streams (ro_net t) ! 0 = Memory m" and l: "sup_good fake_issued (ro_life t)" "(ss_target x, h) \<in> sup_out demo_env (ro_life t)"
  shows "fst (clean_session demo_renv i t) = Ret None"
proof -
  obtain l' where "sup_release demo_env (ss_target x) h (ro_life t) = (Ret (), l')"
    using demo_holds.holds.release_held[OF l] by auto
  with x m show ?thesis
    by (simp add: clean_session_def the_session_def release_hold_def life_def net_def stream_close_def set_stream_def upd_session_def prog_defs)
qed

lemma demo_closed:
  assumes "(router_step demo_renv)\<^sup>*\<^sup>* (fresh_router demo_start demo_net) s" and x: "map_of (ro_sessions s) i = Some x" "ss_state x = ACTIVE"
    and h: "ss_stream x = Some 0" "ss_hold x = Some h" "h \<noteq> []" "\<not> ss_released x"
    and m: "hp_streams (ro_net s) ! 0 = Memory m" and l: "sup_good fake_issued (ro_life s)" "(ss_target x, h) \<in> sup_out demo_env (ro_life s)"
  obtains v s' where "close_session demo_renv i given s = (Ret v, s')"
proof -
  have inv: "router_inv (re_registry demo_renv) s" and id: "ss_id x = i"
    using reachable_quiet[OF assms(1)] x by (auto simp: quiet_def router_inv_def session_ok_def)
  have "fst (clean_session demo_renv i t) = Ret None" if "ro_life t = ro_life s" "ro_net t = ro_net s"
      "map_of (ro_sessions t) = (map_of (ro_sessions s))(i \<mapsto> x\<lparr>ss_state := CLOSING\<rparr>)" for t
    using that h m l by (intro demo_clean[where x = "x\<lparr>ss_state := CLOSING\<rparr>" and h = h and m = m]) simp_all
  with close_session_works[OF x(1) _ id inv, of given] x(2) that show thesis
    by (auto simp: closable_def)
qed


text \<open>From the demo's session the door is reached by a handoff, and left again.\<close>

lemma door_authorize: "ss_target x = ''bbs'' \<Longrightarrow> \<exists>d. authorize demo_registry (handoff_request x ''door'' None None) = Inr d \<and> rs_endpoint d = rs_endpoint demo_resolution"
  by (simp add: authorize_def handoff_request_def registry_eval demo_registry_def demo_door_def demo_bbs_def demo_endpoint_def demo_integration_def
      demo_resolution_def route_allowed_def)

lemma demo_acquire_door: "\<exists>h l. sup_acquire demo_env (Suc (Suc 0)) ''door'' (snd (sup_acquire demo_env (Suc (Suc 0)) ''bbs'' demo_start)) = (Ret h, l)"
proof -
  have "\<exists>h. fst (acquire_session demo_env (Suc (Suc 0)) ''door'' (snd (acquire_session demo_env (Suc (Suc 0)) ''bbs'' demo_start))) = Ret h"
    by (simp add: sup_eval registry_eval demo_defs)
  moreover have "snd (sup_acquire demo_env (Suc (Suc 0)) ''bbs'' demo_start) = snd (acquire_session demo_env (Suc (Suc 0)) ''bbs'' demo_start)"
    by (simp add: sup_acquire_def lifecycle_call_def split: prod.split outcome.split)
  ultimately show ?thesis
    by (cases "acquire_session demo_env (Suc (Suc 0)) ''door'' (snd (acquire_session demo_env (Suc (Suc 0)) ''bbs'' demo_start))")
      (auto simp: sup_acquire_def lifecycle_call_def)
qed

lemma demo_handed_off:
  obtains s s' s'' v where "(router_step demo_renv)\<^sup>*\<^sup>* (fresh_router demo_start demo_net) s" and "map_of (ro_sessions s) ''r'' \<noteq> None"
    and "handoff demo_renv ''r'' ''door'' True None None s = (Ret ''rr'', s')" and "close_session demo_renv ''rr'' ''caller_closed'' s' = (Ret v, s'')"
proof -
  obtain s x where s: "(router_step demo_renv)\<^sup>*\<^sup>* (fresh_router demo_start demo_net) s" "map_of (ro_sessions s) = [''r'' \<mapsto> x]"
      "ss_state x = ACTIVE" "ss_id x = ''r''" "ss_target x = ''bbs''" "sup_good fake_issued (ro_life s)"
      "ro_life s = snd (sup_acquire demo_env (Suc (Suc 0)) ''bbs'' demo_start)" "ro_net s = demo_net\<lparr>hp_os := 1\<rparr>"
    by (rule demo_opened)
  obtain h l where l: "sup_acquire demo_env (Suc (Suc 0)) ''door'' (ro_life s) = (Ret h, l)" using demo_acquire_door s(7) by auto
  note good = demo_holds.holds.acquire_ret[OF s(6) l]
  let ?rq = "handoff_request x ''door'' None None"
  obtain d where d: "authorize demo_registry ?rq = Inr d" "rs_endpoint d = rs_endpoint demo_resolution" using door_authorize[OF s(5)] by blast
  obtain s1 where s1: "\<And>f :: (fake_world sup, nat heap, string) rprog. andThen (move demo_renv ''r'' HANDING_OFF ''handoff_started'' None None) f s = f s1"
      "ro_life s1 = ro_life s" "ro_net s1 = ro_net s" "map_of (ro_sessions s1) = [''r'' \<mapsto> x\<lparr>ss_state := HANDING_OFF\<rparr>]"
    by (rule move_then[of s "''r''" x HANDING_OFF demo_renv "''handoff_started''" None None]) (use s in \<open>auto simp: tick_def\<close>)
  have auth: "fst (authorize_route demo_renv ?rq (Some ''r'') s1) = Ret d"
    using d s1 s by (simp add: authorize_route_def validate_origin_def find_session_def lift_check_def handoff_request_def prog_defs)
  from open_session_works[where env = demo_renv and s = s1 and i = "''rr''" and rq = ?rq and ty = VIA_SERVICE and h = h and l = l and k = 0
        and mode = "Some RETURN_TO_ORIGIN" and parent = "Some ''r''" and d = d and n = "demo_net\<lparr>hp_os := 2\<rparr>", OF _ _ _ _ auth] l s1 s d
  obtain c s' where c: "open_session demo_renv ?rq (Some ''r'') (Some RETURN_TO_ORIGIN) s1 = (Ret ''rr'', s')"
      "map_of (ro_sessions s') = [''r'' \<mapsto> x\<lparr>ss_state := HANDING_OFF\<rparr>, ''rr'' \<mapsto> c]" "ss_state c = ACTIVE" "ss_hold c = Some h" "ss_stream c = Some 0"
      "ss_target c = ''door''" "\<not> ss_released c" "ro_life s' = l" "hp_streams (ro_net s') = hp_streams demo_net"
    by (auto simp: demo_stream handoff_request_def eval_nat_numeral)
  have "handoff_body demo_renv ''r'' ?rq True s1 = (Ret ''rr'', s')"
    by (simp add: handoff_body_def mode_of_def catch_def bind_def andThen_def onlyif_def ret_def c(1))
  then have run: "handoff demo_renv ''r'' ''door'' True None None s = (Ret ''rr'', s')"
    using handoff_steps[of s "''r''" x demo_renv "''door''" True None None] s(2,3) by (simp add: s1(1))
  have reach: "(router_step demo_renv)\<^sup>*\<^sup>* (fresh_router demo_start demo_net) s'"
    by (rule rtranclp.rtrancl_into_rtrancl[OF s(1)], rule step_handoff[OF run]) simp
  obtain v s'' where fin: "close_session demo_renv ''rr'' ''caller_closed'' s' = (Ret v, s'')"
    by (rule demo_closed[OF reach, of "''rr''" c h]) (use c good in \<open>auto simp: demo_net_def\<close>)
  show thesis
    by (rule that[OF s(1) _ run fin]) (simp add: s)
qed

theorem handoff_outcome_witness:
  "\<exists>s s' c. handoff demo_renv ''r'' ''door'' True None None s = (Ret ''rr'', s') \<and> map_of (ro_sessions s') ''rr'' = Some c \<and> ss_state c = ACTIVE \<and>
     ss_parent c = Some ''r''"
proof -
  obtain s s' s'' v where s: "(router_step demo_renv)\<^sup>*\<^sup>* (fresh_router demo_start demo_net) s" "map_of (ro_sessions s) ''r'' \<noteq> None"
      "handoff demo_renv ''r'' ''door'' True None None s = (Ret ''rr'', s')"
    by (rule demo_handed_off)
  then obtain x where "map_of (ro_sessions s) ''r'' = Some x" by auto
  from handoff_outcome[OF s(1) this s(3)]
  have "\<exists>c. map_of (ro_sessions s') ''rr'' = Some c \<and> ss_state c = ACTIVE \<and> ss_parent c = Some ''r''"
    by (auto simp: child_of_def opened_def)
  with s(3) show ?thesis by blast
qed

theorem handoff_returns_witness:
  "\<exists>s s' s'' v c. handoff demo_renv ''r'' ''door'' True None None s = (Ret ''rr'', s') \<and> close_session demo_renv ''rr'' ''caller_closed'' s' = (Ret v, s'') \<and>
     map_of (ro_sessions s'') = (map_of (ro_sessions s))(''rr'' \<mapsto> c)"
proof -
  obtain s s' s'' v where s: "(router_step demo_renv)\<^sup>*\<^sup>* (fresh_router demo_start demo_net) s"
      "handoff demo_renv ''r'' ''door'' True None None s = (Ret ''rr'', s')" "close_session demo_renv ''rr'' ''caller_closed'' s' = (Ret v, s'')"
    by (rule demo_handed_off)
  with handoff_returns[OF s(1) _ s(2,3)] show ?thesis by blast
qed

end
