(* ===== verification/Router_Holds.thy ===== *)
theory Router_Holds
  imports Router_Outcomes
begin

text \<open>
  The router against its two neighbours: the registry's menu and the policy agree, and under the
  lifecycle supervisor's model the router neither leaks nor double-releases a hold, whatever its callers do.
\<close>

section \<open>The menu and the policy\<close>

text \<open>The direct menu of a loaded catalog lists exactly the services that a direct request is
  authorized for, up to those whose endpoint is of a type the registry does not support.\<close>

theorem direct_services_authorized:
  assumes load: "load_registry ve ld files = Inr r" and s: "map_of (services r) (rq_target rq) = Some s"
    and rq: "rq_route_type rq = ''direct''" "rq_origin rq = None"
  shows "s \<in> set (list_direct_services r) \<longleftrightarrow>
    (\<exists>d. authorize r rq = Inr d \<and> rs_service d = s) \<or> (\<exists>m. authorize r rq = Inl (CatalogFailure (UnsupportedEndpointTypeError m)))"
proof -
  have id: "sv_id s = rq_target rq"
    using map_of_registry_wf[OF loaded_registry_wf[OF load] s] .
  have "s \<in> snd ` set (services r)" using map_of_SomeD[OF s] by force
  moreover have "(\<exists>d. resolve r (sv_id s) = Inr d \<and> rs_service d = s) \<or> (\<exists>m. resolve r (sv_id s) = Inl (UnsupportedEndpointTypeError m))"
  proof -
    have "check_service r s = Inr ()"
      using load map_of_SomeD[OF s] by (auto elim!: loaded_registry_cases dest: validate_services)
    then show ?thesis
      using s by (auto simp: id check_service_iff resolve_def get_service_def get_endpoint_def service_integration_def get_integration_def
          has_key_map_of bindS_def truthy_def split: option.splits list.splits)
  qed
  ultimately show ?thesis
    using s rq id by (auto simp: list_direct_services_def authorize_def route_allowed_def get_service_def split: sum.splits)
qed

theorem direct_services_authorized_witness:
  "map_of (services demo_registry) ''bbs'' \<noteq> None \<and> (\<exists>d. authorize demo_registry (direct ''bbs'') = Inr d) \<and>
   the (map_of (services demo_registry) ''bbs'') \<in> set (list_direct_services demo_registry)"
  using direct_services_authorized[OF demo_loads, of "direct ''bbs''"] demo_authorize
  by (auto simp: direct_def demo_registry_def demo_bbs_def demo_resolution_def)

section \<open>Holds\<close>

text \<open>Calls of the router with nobody else using the supervisor; the network may do anything between them.\<close>

inductive router_call :: "('l, 'n) renv \<Rightarrow> ('l, 'n) router \<Rightarrow> ('l, 'n) router \<Rightarrow> bool" for env where
  call_open: "open_session env rq parent mode s = (r, s') \<Longrightarrow> r \<noteq> NoFuel \<Longrightarrow> router_call env s s'"
| call_close: "close_session env i reason s = (r, s') \<Longrightarrow> r \<noteq> NoFuel \<Longrightarrow> router_call env s s'"
| call_handoff: "handoff env p target b term metadata s = (r, s') \<Longrightarrow> r \<noteq> NoFuel \<Longrightarrow> router_call env s s'"
| call_read: "read_session env i count s = (r, s') \<Longrightarrow> r \<noteq> NoFuel \<Longrightarrow> router_call env s s'"
| call_write: "write_session env i data s = (r, s') \<Longrightarrow> r \<noteq> NoFuel \<Longrightarrow> router_call env s s'"
| call_net: "router_call env s (s\<lparr>ro_net := n\<rparr>)"

inductive_cases router_callE: "router_call env s s'"

context hold_provider
begin

lemma honest_step: "honest m \<Longrightarrow> m s = (r, s') \<Longrightarrow> r \<noteq> NoFuel \<Longrightarrow> acct B s \<Longrightarrow> acct B s'"
  unfolding honest_def by (rule triple_inv_step[where I = "acct B" and m = m and s = s]) auto

lemma acct_net: "acct B (s\<lparr>ro_net := n\<rparr>) = acct B s"
  by (simp add: acct_def)

lemma acct_call: "router_call env s s' \<Longrightarrow> uses_provider env \<Longrightarrow> acct B s \<Longrightarrow> acct B s'"
  by (erule router_callE)
    (auto simp: acct_net elim: honest_step[OF honest_calls(1)] honest_step[OF honest_calls(2)] honest_step[OF honest_handoff]
      honest_step[OF honest_transfer(1)] honest_step[OF honest_transfer(2)])

lemma acct_calls: "(router_call env)\<^sup>*\<^sup>* s s' \<Longrightarrow> uses_provider env \<Longrightarrow> acct B s \<Longrightarrow> acct B s'"
  by (induction rule: rtranclp_induct) (auto intro: acct_call)

lemma acct_fresh: "ok l \<Longrightarrow> acct (out l) (fresh_router l n)"
proof -
  have "debts (fresh_router l n) = Map.empty" by (simp add: fresh_router_def debts_def fun_eq_iff)
  then show "ok l \<Longrightarrow> acct (out l) (fresh_router l n)" by (simp add: acct_def balanced_def) (simp add: fresh_router_def)
qed

end

context hold_supervisor
begin

definition served_by :: "nat \<Rightarrow> (datetime \<Rightarrow> string) \<Rightarrow> ('a sup, 'n) renv \<Rightarrow> bool" where
  "served_by n render renv \<longleftrightarrow> re_acquire renv = sup_acquire env n \<and> re_release renv = sup_release env \<and> re_now renv = sup_clock env render"

lemma served_provider: "served_by n render renv \<Longrightarrow> holds.uses_provider n render renv"
  by (simp add: served_by_def holds.uses_provider_def)

lemma router_conserves:
  assumes "sup_good issued l" and "served_by n render renv" and "(router_call renv)\<^sup>*\<^sup>* (fresh_router l net0) s"
  shows "balanced (sup_out env l) (sup_out env (ro_life s)) (debts s)"
  using holds.acct_calls[OF assms(3) served_provider[OF assms(2)] holds.acct_fresh[OF assms(1)]]
  by (simp add: holds.acct_def)

lemma router_loses:
  assumes "served_by n render renv" and "sup_good issued (ro_life s)" and "(ss_target x, h) \<notin> sup_out env (ro_life s)"
    and "map_of (ro_sessions s) i = Some x" "ss_hold x = Some h" "h \<noteq> []" "\<not> ss_released x" "closable (ss_state x)"
    and "close_session renv i given s = (r, s')" "r \<noteq> NoFuel"
  shows "(\<exists>e. r = Raise e) \<and> sup_good issued (ro_life s') \<and> (ss_target x, h) \<notin> sup_out env (ro_life s') \<and>
    (\<exists>y. map_of (ro_sessions s') i = Some y \<and> ss_target y = ss_target x \<and> ss_hold y = Some h \<and> \<not> ss_released y)"
proof -
  have "holds.lost i (ss_target x) h s" using assms by (simp add: holds.lost_def)
  from holds.close_lost[OF served_provider[OF assms(1)] assms(6) this assms(4,8-10)] show ?thesis
    by (auto simp: holds.lost_def)
qed

end

text \<open>C17: the router over the lifecycle supervisor gives every hold back exactly once. In any run with
  nobody else using the supervisor, the supervisor's outstanding holds are those it had before and one for
  each session that has not released its own, each owned by one session only.\<close>

theorem holds_conserved:
  assumes sup: "hold_supervisor senv issued" "sup_good issued l"
    and env: "re_acquire env = sup_acquire senv n" "re_release env = sup_release senv" "re_now env = sup_clock senv render"
    and run: "(router_call env)\<^sup>*\<^sup>* (fresh_router l net0) s"
  shows "sup_out senv (ro_life s) = sup_out senv l \<union> ran (debts s) \<and> sup_out senv l \<inter> ran (debts s) = {} \<and> inj_on (debts s) (dom (debts s))"
  using hold_supervisor.router_conserves[OF sup _ run, of n render] env
  by (simp add: hold_supervisor.served_by_def[OF sup(1)] balanced_def)

theorem holds_conserved_witness:
  "\<exists>s. (router_call demo_renv)\<^sup>*\<^sup>* (fresh_router demo_start demo_net) s \<and> sup_out demo_env (ro_life s) = {(''bbs'', ''x'')} \<and>
     sup_out demo_env demo_start \<union> ran (debts s) = {(''bbs'', ''x'')}"
proof -
  obtain s where s: "open_session demo_renv (direct ''bbs'') None None demo_router = (Ret ''r'', s)" "sup_out demo_env (ro_life s) = {(''bbs'', ''x'')}"
    by (rule demo_opened)
  have run: "(router_call demo_renv)\<^sup>*\<^sup>* (fresh_router demo_start demo_net) s"
    using call_open[OF s(1)] unfolding demo_router_def by auto
  have good: "sup_good fake_issued demo_start"
    using new_supervisor_ok by (simp add: sup_good_def demo_defs)
  have now: "re_now demo_renv = sup_clock demo_env (\<lambda>_. ''now'')" by (simp add: demo_renv_def)
  from holds_conserved[OF demo_holds.hold_supervisor_axioms good demo_renv_simps(2,3) now run] run s(2) show ?thesis by auto
qed


text \<open>Closing in the demo never needs fuel.\<close>

abbreviation settles :: "('s, 'e, 'a) prog \<Rightarrow> bool" where
  "settles m \<equiv> total (\<lambda>_. True) m (\<lambda>_ _. True) (\<lambda>_ _. True)"

lemma settles_iff: "settles m \<longleftrightarrow> (\<forall>s. fst (m s) \<noteq> NoFuel)"
proof
  show "settles m \<Longrightarrow> \<forall>s. fst (m s) \<noteq> NoFuel" by (auto dest: total_fuelD)
  assume no: "\<forall>s. fst (m s) \<noteq> NoFuel"
  show "settles m"
  proof (rule hoareI)
    fix s r s' assume "m s = (r, s')"
    with no[rule_format, of s] show "case r of Ret x \<Rightarrow> True | Raise e \<Rightarrow> True | NoFuel \<Rightarrow> False" by (cases r) auto
  qed
qed

lemma settles_rules:
  "settles m \<Longrightarrow> (\<And>x. settles (f x)) \<Longrightarrow> settles (bind m f)" "settles m \<Longrightarrow> settles n \<Longrightarrow> settles (andThen m n)"
  "settles u \<Longrightarrow> settles (onlyif b u)" "settles (ret x)" "settles (raise e)" "settles (modify g)" "settles (gets k)"
  by (auto intro: hoare_bind hoare_andThen hoare_onlyif hoare_ret hoare_raise hoare_modify hoare_gets)

lemma settles_cases:
  "settles m \<Longrightarrow> (\<And>e. settles (h e)) \<Longrightarrow> settles (catch m h)" "settles m \<Longrightarrow> settles n \<Longrightarrow> settles (if b then m else n)"
  "settles m \<Longrightarrow> (\<And>y. settles (p y)) \<Longrightarrow> settles (case v of None \<Rightarrow> m | Some y \<Rightarrow> p y)"
  by (auto split: option.split intro: hoare_catch)

lemma settles_move: "settles (move env i new ty reason err)"
  by (auto simp: hoare_def move_def the_session_def lift_check_def upd_session_def journal_event_def stamp_def prog_defs split: sum.split prod.split)

lemma settles_calls: "settles m \<Longrightarrow> settles (lifecycle_call m)" "settles k \<Longrightarrow> settles (life k)"
  unfolding settles_iff by (auto simp: lifecycle_call_def life_def split: prod.split outcome.split) (metis fst_conv)+

lemma settles_release_session: "settles (release_session env sid x)"
proof -
  have "settles (find_service env sid)" "settles (raise_if b e)" "settles (now env)" for b :: bool and e :: supervisor_error
    by (auto simp: hoare_def find_service_def now_def prog_defs split: option.split prod.split)
  then show ?thesis
    unfolding release_session_def drop_session_def remove_hold_def schedule_idle_locked_def lifecycle_of_def instance_of_def upd_def persist_def view_def Let_def
    by (intro settles_rules settles_cases)
qed

lemma settles_release: "settles (release_hold demo_renv i)"
  unfolding release_hold_def the_session_def upd_session_def demo_renv_simps sup_release_def
  by (intro settles_rules settles_calls settles_release_session)

lemma settles_stream_close: "settles (net (re_close demo_renv h))"
  by (auto simp: hoare_def net_def stream_close_def set_stream_def prog_defs os_call_def demo_sockets_def split: stream.split)

lemma demo_close_settles: "fst (close_session demo_renv i given s) \<noteq> NoFuel"
proof -
  have "settles (close_session demo_renv i given)"
    unfolding close_session_def clean_session_def restore_parent_def find_session_def the_session_def upd_session_def Let_def
    by (intro settles_rules settles_cases settles_move settles_release settles_stream_close)
  then show ?thesis by (rule total_fuelD) simp
qed


end
