(* ===== verification/Archive.thy ===== *)
theory Archive
  imports Json
begin

text \<open>
  The preservation archive (M1): \<open>scripts/ubb_archive.py\<close>. Its state is what the directory below the
  root holds: the marker, the content-addressed objects, the metadata documents, the locks, the
  quarantine and the exports. A JSON value is a \<open>json\<close>; a metadata file that does not parse is
  \<open>None\<close>. Hash functions, \<open>urlsplit\<close>, \<open>mimetypes.guess_type\<close>, the ZIP directory reader and the
  clock are arguments, gathered in \<open>tools\<close>.
\<close>

section \<open>Exceptions and JSON values\<close>

datatype archive_error =
    ArchiveError message
  | DuplicateArtifact message
  | VerificationError message
  | KeyError message
  | TypeError message
  | ValueError message
  | AttributeError message
  | OSError message

text \<open>\<open>value[key]\<close> and \<open>value.get(key)\<close>\<close>

fun item :: "json \<Rightarrow> string \<Rightarrow> archive_error + json" where
  "item (JDict d) k = (case map_of d k of None \<Rightarrow> Inl (KeyError [k]) | Some v \<Rightarrow> Inr v)"
| "item _ k = Inl (TypeError [''not subscriptable by '', k])"

fun get_item :: "json \<Rightarrow> string \<Rightarrow> archive_error + json option" where
  "get_item (JDict d) k = Inr (map_of d k)"
| "get_item _ k = Inl (AttributeError [''get''])"

fun as_string :: "json \<Rightarrow> archive_error + string" where
  "as_string (JStr s) = Inr s"
| "as_string _ = Inl (TypeError [''expected string''])"

text \<open>\<open>value < 0\<close>; a Boolean is an integer.\<close>

fun as_int :: "json \<Rightarrow> archive_error + int" where
  "as_int (JInt n) = Inr n"
| "as_int (JBool b) = Inr (if b then 1 else 0)"
| "as_int _ = Inl (TypeError [''not comparable to int''])"

text \<open>\<open>value == n\<close>\<close>

fun json_is_int :: "json \<Rightarrow> int \<Rightarrow> bool" where
  "json_is_int (JInt m) n = (m = n)"
| "json_is_int (JBool b) n = ((if b then 1 else 0) = n)"
| "json_is_int _ n = False"

fun is_bool :: "json \<Rightarrow> bool" where
  "is_bool (JBool b) = True"
| "is_bool _ = False"

fun nonempty_string :: "json \<Rightarrow> bool" where
  "nonempty_string (JStr s) = (s \<noteq> [])"
| "nonempty_string _ = False"

section \<open>Names\<close>

definition ROLES :: "string list" where
  "ROLES = [''preservation_original'', ''source_code'', ''documentation'', ''install_source'',
     ''derived_install_media'', ''bbs_distribution'', ''reconstructed'', ''derived'']"

definition RIGHTS :: "string list" where
  "RIGHTS = [''unknown'', ''public_domain'', ''open_source'', ''freeware'', ''shareware'',
     ''freeware_redistributable'', ''shareware_redistributable'', ''commercial'', ''licensed'',
     ''licensed_private'', ''preservation_only'', ''restricted'']"

definition HASH_RE :: "string \<Rightarrow> rx" where
  "HASH_RE name = Times (if name = ''sha256'' then 64 else if name = ''sha1'' then 40 else 32) (Cls hex_char)"

definition validate_id :: "string \<Rightarrow> archive_error + string" where
  "validate_id v = (if \<not> fullmatch ident_rx v
     then Inl (ArchiveError [''artifact id must match ^[a-z0-9][a-z0-9._-]*$'']) else Inr v)"

text \<open>\<open>[A-Za-z0-9._+() -]\<close>\<close>

definition kept_char :: "char \<Rightarrow> bool" where
  "kept_char c \<longleftrightarrow> alnum c \<or> c \<in> set ''._+() -''"

definition dots :: "string \<Rightarrow> bool" where
  "dots v \<longleftrightarrow> v \<in> {'''', ''.'', ''..''}"

text \<open>
  The last component after both kinds of slash, stripped, without NULs. \<open>PurePath(value).name\<close> of a
  non-empty string without a slash that is not \<open>.\<close> is the string itself, so its test adds nothing.
\<close>

definition last_component :: "string \<Rightarrow> string" where
  "last_component v = filter (\<lambda>c. c \<noteq> CHR 0x00)
     (strip (last (split_on (CHR ''/'') (map (\<lambda>c. if c = CHR 0x5C then CHR ''/'' else c) v))))"

definition safe_filename :: "string \<Rightarrow> archive_error + string" where
  "safe_filename v = (let value = last_component v in
     if dots value then Inl (ArchiveError [''unsafe or empty original filename''])
     else let cleaned = map (\<lambda>c. if kept_char c then c else CHR ''_'') value in
       if dots cleaned then Inl (ArchiveError [''unsafe original filename''])
       else Inr (take 255 cleaned))"

section \<open>The state\<close>

datatype export_file = Bytes string | Text string | Document json

record archive =
  ar_ready :: bool                              \<comment> \<open>\<open>state/archive-v1.json\<close> is a file\<close>
  ar_objects :: "(string, string) dict"         \<comment> \<open>\<open>objects/sha256/<digest>\<close>\<close>
  ar_metadata :: "(string, json option) dict"   \<comment> \<open>\<open>metadata/<id>.json\<close>\<close>
  ar_locks :: "string list"                     \<comment> \<open>\<open>state/locks\<close>\<close>
  ar_quarantine :: "(string, string) dict"
  ar_exports :: "(string, (string, export_file) dict) dict"   \<comment> \<open>by output path\<close>

type_synonym 'a aprog = "(archive, archive_error, 'a) prog"

record url =
  url_scheme :: string
  url_hostname :: "string option"
  url_port :: "int option"
  url_path :: string
  url_query :: string

record zip_entry =
  ze_filename :: string
  ze_is_dir :: bool
  ze_size :: int
  ze_content :: string

record tools =
  sha256 :: "string \<Rightarrow> string"
  sha1 :: "string \<Rightarrow> string"
  md5 :: "string \<Rightarrow> string"
  urlsplit :: "string \<Rightarrow> url"
  guess_type :: "string \<Rightarrow> string option"
  zip_directory :: "string \<Rightarrow> zip_entry list option"   \<comment> \<open>\<open>None\<close>: \<open>BadZipFile\<close>\<close>
  show_int :: "int \<Rightarrow> string"
  process_id :: string
  acquired_at :: string                               \<comment> \<open>\<open>now()\<close>\<close>

definition lift_archive :: "archive_error + 'a \<Rightarrow> 'a aprog" where
  "lift_archive x = (case x of Inl e \<Rightarrow> raise e | Inr a \<Rightarrow> ret a)"

section \<open>URLs\<close>

text \<open>\<open>urlunsplit((scheme, netloc, path, query, ''))\<close> for a non-empty netloc\<close>

definition urlunsplit :: "string \<Rightarrow> string \<Rightarrow> string \<Rightarrow> string \<Rightarrow> string" where
  "urlunsplit scheme netloc path query =
     (if scheme = [] then [] else scheme @ '':'') @ ''//'' @ netloc @
     (if path \<noteq> [] \<and> hd path \<noteq> CHR ''/'' then CHR ''/'' # path else path) @
     (if query = [] then [] else CHR ''?'' # query)"

definition sanitized_url :: "tools \<Rightarrow> string \<Rightarrow> archive_error + string \<times> string" where
  "sanitized_url kit v = (let p = urlsplit kit v in
     if lower (url_scheme p) \<notin> {''http'', ''https''} then Inl (ArchiveError [''source URL scheme must be http or https''])
     else if \<not> truthy (url_hostname p) then Inl (ArchiveError [''source URL requires a host''])
     else let h = the (url_hostname p);
              host = (if CHR '':'' \<in> set h then ''['' @ h @ '']'' else h);
              netloc = (case url_port p of None \<Rightarrow> host | Some n \<Rightarrow> if n = 0 then host else host @ '':'' @ show_int kit n)
          in Inr (v, urlunsplit (lower (url_scheme p)) netloc (url_path p) (url_query p)))"

section \<open>Metadata\<close>

definition check_hash :: "string \<Rightarrow> json \<Rightarrow> archive_error \<Rightarrow> archive_error + unit" where
  "check_hash name v e = bindS (as_string v) (\<lambda>s. if \<not> fullmatch (HASH_RE name) s then Inl e else Inr ())"

definition check_artifact :: "json \<Rightarrow> archive_error + unit" where
  "check_artifact artifact =
     bindS (item artifact ''sha256'') (\<lambda>d.
     bindS (check_hash ''sha256'' d (ValueError [''invalid sha256''])) (\<lambda>_.
     bindS (bindS (item artifact ''size'') as_int) (\<lambda>n.
     bindS (if n < 0 then Inl (ValueError [''invalid artifact fields''])
            else bindS (item artifact ''role'') (\<lambda>r.
              if r \<notin> set (map JStr ROLES) then Inl (ValueError [''invalid artifact fields'']) else Inr ())) (\<lambda>_.
     bindS (item artifact ''original_filename'') (\<lambda>f.
     bindS (case f of JStr s \<Rightarrow> bindS (safe_filename s) (\<lambda>_. Inr ()) | _ \<Rightarrow> Inl (AttributeError [''replace''])) (\<lambda>_.
     bindS (mapS (\<lambda>name. case artifact of
         JDict d \<Rightarrow> (case map_of d name of None \<Rightarrow> Inr () | Some h \<Rightarrow> check_hash name h (ValueError [''invalid '', name]))
       | _ \<Rightarrow> Inl (TypeError [name])) [''sha1'', ''md5'']) (\<lambda>_. Inr ())))))))"

definition check_provenance :: "json \<Rightarrow> archive_error + unit" where
  "check_provenance p =
     bindS (item p ''acquired_at'') (\<lambda>a.
     if \<not> nonempty_string a then Inl (ValueError [''invalid provenance''])
     else bindS (item p ''source'') (\<lambda>s. if \<not> nonempty_string s then Inl (ValueError [''invalid provenance'']) else Inr ()))"

definition rights_keys :: "string list" where
  "rights_keys = [''preserve_locally'', ''install_locally'', ''redistribute_original'',
     ''publish_to_bbs_filebase'', ''export_from_archive'']"

definition check_rights :: "json \<Rightarrow> archive_error + unit" where
  "check_rights r =
     bindS (item r ''status'') (\<lambda>s.
     if s \<notin> set (map JStr RIGHTS) then Inl (ValueError [''invalid rights status''])
     else bindS (mapS (\<lambda>k. bindS (item r k) (\<lambda>v. if \<not> is_bool v then Inl (ValueError [''invalid rights.'', k]) else Inr ())) rights_keys)
       (\<lambda>_. Inr ()))"

fun lineage_parents :: "json \<Rightarrow> archive_error + json list" where
  "lineage_parents (JList ps) = Inr ps"
| "lineage_parents (JDict d) = Inr (map (JStr \<circ> fst) d)"
| "lineage_parents (JStr s) = Inr (map (\<lambda>c. JStr [c]) s)"
| "lineage_parents _ = Inl (TypeError [''not iterable''])"

definition check_lineage :: "json \<Rightarrow> archive_error + unit" where
  "check_lineage l =
     bindS (mapS (\<lambda>k. bindS (get_item l k) (\<lambda>v. case v of None \<Rightarrow> Inl (ValueError [''invalid lineage''])
         | Some x \<Rightarrow> if \<not> truth x then Inl (ValueError [''invalid lineage'']) else Inr ()))
       [''parents'', ''action'', ''derived_at'']) (\<lambda>_.
     bindS (bindS (item l ''parents'') lineage_parents) (\<lambda>ps.
     bindS (mapS (\<lambda>p.
       bindS (bindS (item p ''artifact_id'') as_string) (\<lambda>i.
       bindS (validate_id i) (\<lambda>_.
       bindS (item p ''sha256'') (\<lambda>d. check_hash ''sha256'' d (ValueError [''invalid lineage parent sha256'']))))) ps) (\<lambda>_. Inr ())))"

definition check_preservation :: "json \<Rightarrow> archive_error + unit" where
  "check_preservation p =
     bindS (item p ''class'') (\<lambda>c.
     bindS (if c \<notin> set (map JStr [''original'', ''reconstructed'', ''derived'', ''private_preservation''])
            then Inl (ValueError [''invalid preservation classification''])
            else bindS (item p ''immutable'') (\<lambda>i. if i \<noteq> JBool True then Inl (ValueError [''invalid preservation classification'']) else Inr ())) (\<lambda>_.
     bindS (get_item p ''lineage'') (\<lambda>l. case l of None \<Rightarrow> Inr () | Some x \<Rightarrow> if truth x then check_lineage x else Inr ())))"

definition check_metadata :: "json \<Rightarrow> archive_error + unit" where
  "check_metadata v =
     bindS (item v ''kind'') (\<lambda>k.
     bindS (if k \<noteq> JStr ''artifact'' then Inl (ValueError [''unsupported kind or schema version''])
            else bindS (item v ''schema_version'') (\<lambda>n. if \<not> json_is_int n 1
              then Inl (ValueError [''unsupported kind or schema version'']) else Inr ())) (\<lambda>_.
     bindS (bindS (item v ''id'') as_string) (\<lambda>i.
     bindS (validate_id i) (\<lambda>_.
     bindS (bindS (item v ''artifact'') check_artifact) (\<lambda>_.
     bindS (bindS (item v ''provenance'') check_provenance) (\<lambda>_.
     bindS (bindS (item v ''rights'') check_rights) (\<lambda>_.
     bindS (item v ''preservation'') check_preservation)))))))"

fun caught_in_validation :: "archive_error \<Rightarrow> bool" where
  "caught_in_validation (AttributeError m) = False"
| "caught_in_validation (OSError m) = False"
| "caught_in_validation _ = True"

definition validate_metadata :: "json \<Rightarrow> archive_error + unit" where
  "validate_metadata v = (case check_metadata v of
      Inr u \<Rightarrow> Inr u
    | Inl e \<Rightarrow> Inl (if caught_in_validation e then ArchiveError [''invalid artifact metadata''] else e))"

text \<open>The result of \<open>metadata["a"]["b"]\<close> on a validated document.\<close>

definition part :: "json \<Rightarrow> string list \<Rightarrow> json" where
  "part v ks = fold (\<lambda>k x. case item x k of Inr y \<Rightarrow> y | Inl e \<Rightarrow> JNull) ks v"

fun text_of :: "json \<Rightarrow> string" where
  "text_of (JStr s) = s"
| "text_of _ = []"

definition init_archive :: "unit aprog" where
  "init_archive = modify (\<lambda>s. s\<lparr>ar_ready := True\<rparr>)"

definition require_archive :: "unit aprog" where
  "require_archive = bind (gets ar_ready) (\<lambda>r. raise_if (\<not> r) (ArchiveError [''not an initialized archive'']))"

definition load_metadata :: "string \<Rightarrow> json aprog" where
  "load_metadata artifact_id =
     andThen (lift_archive (validate_id artifact_id))
    (bind (gets (\<lambda>s. map_of (ar_metadata s) artifact_id)) (\<lambda>f. case f of
        None \<Rightarrow> raise (ArchiveError [''unknown artifact: '', artifact_id])
      | Some None \<Rightarrow> raise (ArchiveError [''invalid metadata for '', artifact_id])
      | Some (Some v) \<Rightarrow> andThen (lift_archive (validate_metadata v)) (ret v)))"

definition object_key :: "string \<Rightarrow> archive_error + string" where
  "object_key d = (if \<not> fullmatch (HASH_RE ''sha256'') d then Inl (ArchiveError [''invalid object digest'']) else Inr (lower d))"

section \<open>Ingest\<close>

text \<open>The results of the successive reads of a stream: at most 1 MiB each, and empty at its end.\<close>

datatype read_result = Data string | ReadFails archive_error

text \<open>\<open>hashes_for\<close>: the bytes written so far and the exception or the size.\<close>

fun copy_stream :: "read_result list \<Rightarrow> int \<Rightarrow> string \<Rightarrow> (archive_error + int) \<times> string" where
  "copy_stream [] max_bytes written = (Inr (int (length written)), written)"
| "copy_stream (ReadFails e # rs) max_bytes written = (Inl e, written)"
| "copy_stream (Data chunk # rs) max_bytes written =
     (if chunk = [] then (Inr (int (length written)), written)
      else if max_bytes < int (length written + length chunk) then (Inl (ArchiveError [''input exceeds maximum size'']), written)
      else copy_stream rs max_bytes (written @ chunk))"

record digests =
  dg_sha256 :: string
  dg_sha1 :: string
  dg_md5 :: string

definition digests_of :: "tools \<Rightarrow> string \<Rightarrow> digests" where
  "digests_of kit bytes = \<lparr>dg_sha256 = sha256 kit bytes, dg_sha1 = sha1 kit bytes, dg_md5 = md5 kit bytes\<rparr>"

record ingest =
  in_expected_sha256 :: "string option"
  in_expected_sha1 :: "string option"
  in_expected_md5 :: "string option"
  in_max_bytes :: int
  in_rights_status :: string
  in_install_locally :: bool
  in_redistribute_original :: bool
  in_publish :: bool
  in_no_owner_export :: bool
  in_rights_evidence :: "string list option"
  in_software_family :: "string option"
  in_version :: "string option"
  in_platform :: "string option"
  in_notes :: "string option"

definition check_expected :: "digests \<Rightarrow> ingest \<Rightarrow> archive_error + unit" where
  "check_expected actual a = bindS (mapS (\<lambda>(name, got, wanted). case wanted of
       None \<Rightarrow> Inr ()
     | Some w \<Rightarrow> if w = [] then Inr ()
         else if \<not> fullmatch (HASH_RE name) w then Inl (ArchiveError [''invalid expected '', name])
         else if lower got \<noteq> lower w then Inl (ArchiveError [''expected '', name, lower w, '', got '', got])
         else Inr ())
     [(''sha256'', dg_sha256 actual, in_expected_sha256 a), (''sha1'', dg_sha1 actual, in_expected_sha1 a),
      (''md5'', dg_md5 actual, in_expected_md5 a)]) (\<lambda>_. Inr ())"

text \<open>
  \<open>source_predecessors\<close>: the ids of the documents with the same source and another digest, sorted. A
  document that is not an object, or whose provenance or artifact is not, raises \<open>AttributeError\<close>; an
  id that is not a string (no ingest writes one) is taken as a \<open>TypeError\<close> of \<open>sorted\<close>.
\<close>

definition predecessor :: "string \<Rightarrow> string \<Rightarrow> string \<times> json option \<Rightarrow> archive_error + string list" where
  "predecessor source_url digest f = (case snd f of
      None \<Rightarrow> Inr []
    | Some v \<Rightarrow>
        bindS (get_item v ''provenance'') (\<lambda>p.
        bindS (get_item (default (JDict []) p) ''source_url'') (\<lambda>u.
        if u \<noteq> Some (JStr source_url) then Inr []
        else bindS (get_item v ''artifact'') (\<lambda>a.
             bindS (get_item (default (JDict []) a) ''sha256'') (\<lambda>d.
             if d = Some (JStr digest) then Inr []
             else bindS (get_item v ''id'') (\<lambda>i. case i of
                 None \<Rightarrow> Inr [fst f] | Some (JStr s) \<Rightarrow> Inr [s] | Some _ \<Rightarrow> Inl (TypeError [''unorderable''])))))))"

definition source_predecessors :: "archive \<Rightarrow> string \<Rightarrow> string \<Rightarrow> archive_error + string list" where
  "source_predecessors s source_url digest =
     bindS (mapS (predecessor source_url digest) (ar_metadata s)) (\<lambda>rs. Inr (sort (remdups (concat rs))))"

definition rights_document :: "ingest \<Rightarrow> json" where
  "rights_document a = JDict
     [(''status'', JStr (in_rights_status a)), (''preserve_locally'', JBool True),
      (''install_locally'', JBool (in_install_locally a)), (''redistribute_original'', JBool (in_redistribute_original a)),
      (''publish_to_bbs_filebase'', JBool (in_publish a)), (''export_from_archive'', JBool (\<not> in_no_owner_export a)),
      (''evidence'', JList (map JStr (default [] (in_rights_evidence a))))]"

record preservation =
  pv_class :: string
  pv_role :: string
  pv_lineage :: "(string, json) dict option"
  pv_parents :: "string list"   \<comment> \<open>the ids of the lineage's parents\<close>

definition artifact_document :: "tools \<Rightarrow> ingest \<Rightarrow> preservation \<Rightarrow> string \<Rightarrow> digests \<Rightarrow> int \<Rightarrow> json" where
  "artifact_document kit a pv filename d n = JDict
     ([(''role'', JStr (pv_role pv)), (''original_filename'', JStr filename), (''sha256'', JStr (dg_sha256 d)),
       (''sha1'', JStr (dg_sha1 d)), (''md5'', JStr (dg_md5 d)), (''size'', JInt n),
       (''media_type'', JStr (case guess_type kit filename of None \<Rightarrow> ''application/octet-stream''
          | Some t \<Rightarrow> if t = [] then ''application/octet-stream'' else t))] @
      concat (map (\<lambda>(v, k). if truthy v then [(k, JStr (the v))] else [])
        [(in_software_family a, ''software_family''), (in_version a, ''version''), (in_platform a, ''platform'')]) @
      (if pv_lineage pv = None then [] else [(''derived_from'', JList (map JStr (pv_parents pv)))]))"

definition document_of :: "string \<Rightarrow> json \<Rightarrow> (string, json) dict \<Rightarrow> ingest \<Rightarrow> preservation \<Rightarrow> json" where
  "document_of artifact_id artifact provenance a pv = JDict
     [(''kind'', JStr ''artifact''), (''schema_version'', JInt 1), (''id'', JStr artifact_id), (''artifact'', artifact),
      (''provenance'', JDict provenance), (''rights'', rights_document a),
      (''preservation'', JDict ([(''class'', JStr (pv_class pv)), (''immutable'', JBool True), (''status'', JStr ''READY'')] @
         (case pv_lineage pv of None \<Rightarrow> [] | Some l \<Rightarrow> [(''lineage'', JDict l)])))]"

definition part_name :: "tools \<Rightarrow> string \<Rightarrow> string" where
  "part_name kit artifact_id = artifact_id @ ''.'' @ process_id kit @ ''.part''"

text \<open>The object of a quarantined file: linked into place, or already there with the same size.\<close>

definition store_object :: "string \<Rightarrow> string \<Rightarrow> unit aprog" where
  "store_object key bytes =
     bind (gets (\<lambda>s. map_of (ar_objects s) key)) (\<lambda>found. case found of
         Some old \<Rightarrow> raise_if (length old \<noteq> length bytes) (ArchiveError [''existing content-addressed object has an impossible size mismatch''])
       | None \<Rightarrow> modify (\<lambda>s. s\<lparr>ar_objects := AList.update key bytes (ar_objects s)\<rparr>))"

text \<open>\<open>provenance["source_changed"]\<close> and \<open>provenance["previous_artifacts_from_source"]\<close>\<close>

definition note_source :: "(string, json) dict \<Rightarrow> string \<Rightarrow> ((string, json) dict) aprog" where
  "note_source provenance digest =
     (let url = default (JStr []) (map_of provenance ''source_url'') in
      bind (if truth url then bind (gets (\<lambda>s. source_predecessors s (text_of url) digest)) lift_archive else ret []) (\<lambda>prior.
      ret ((if prior = [] then id else AList.update ''previous_artifacts_from_source'' (JList (map JStr prior)))
        (AList.update ''source_changed'' (JBool (prior \<noteq> [])) provenance))))"

text \<open>The body of the \<open>try\<close> of \<open>preserve_stream\<close>: the stream is copied into quarantine and checked, and its
  bytes then become an object and a document.\<close>

definition quarantine_stream :: "tools \<Rightarrow> string \<Rightarrow> read_result list \<Rightarrow> ingest \<Rightarrow> int option \<Rightarrow> string aprog" where
  "quarantine_stream kit artifact_id stream a expected_size =
     (let q = part_name kit artifact_id; (result, bytes) = copy_stream stream (in_max_bytes a) [] in
      bind (gets (\<lambda>s. has_key (ar_quarantine s) q)) (\<lambda>taken.
      andThen (raise_if taken (OSError [''File exists'', q]))
     (andThen (modify (\<lambda>s. s\<lparr>ar_quarantine := AList.update q bytes (ar_quarantine s)\<rparr>))
     (bind (lift_archive result) (\<lambda>n.
      andThen (raise_if (expected_size \<noteq> None \<and> Some n \<noteq> expected_size) (ArchiveError [''incomplete download'']))
     (andThen (lift_archive (check_expected (digests_of kit bytes) a))
      (ret bytes)))))))"

definition record_artifact :: "tools \<Rightarrow> string \<Rightarrow> string \<Rightarrow> string \<Rightarrow> (string, json) dict \<Rightarrow> ingest \<Rightarrow> preservation \<Rightarrow> json aprog" where
  "record_artifact kit artifact_id filename bytes provenance a pv =
     (let d = digests_of kit bytes in
      bind (lift_archive (object_key (dg_sha256 d))) (\<lambda>key.
      andThen (store_object key bytes)
     (andThen (modify (\<lambda>s. s\<lparr>ar_quarantine := AList.delete (part_name kit artifact_id) (ar_quarantine s)\<rparr>))
     (bind (note_source provenance (dg_sha256 d)) (\<lambda>prov.
      let doc = document_of artifact_id (artifact_document kit a pv filename d (int (length bytes))) prov a pv in
      andThen (lift_archive (validate_metadata doc))
     (andThen (modify (\<lambda>s. s\<lparr>ar_metadata := AList.update artifact_id (Some doc) (ar_metadata s)\<rparr>))
      (ret doc)))))))"

definition preserve_body :: "tools \<Rightarrow> string \<Rightarrow> string \<Rightarrow> read_result list \<Rightarrow> (string, json) dict \<Rightarrow> ingest \<Rightarrow> preservation \<Rightarrow> int option \<Rightarrow> json aprog" where
  "preserve_body kit artifact_id filename stream provenance a pv expected_size =
     bind (quarantine_stream kit artifact_id stream a expected_size) (\<lambda>bytes.
     record_artifact kit artifact_id filename bytes provenance a pv)"

definition preserve_stream :: "tools \<Rightarrow> string \<Rightarrow> string \<Rightarrow> read_result list \<Rightarrow> (string, json) dict \<Rightarrow> ingest \<Rightarrow> preservation \<Rightarrow> int option \<Rightarrow> json aprog" where
  "preserve_stream kit artifact_id name stream provenance a pv expected_size =
     andThen require_archive
    (andThen (lift_archive (validate_id artifact_id))
    (bind (lift_archive (safe_filename name)) (\<lambda>filename.
     bind (gets (\<lambda>s. has_key (ar_metadata s) artifact_id)) (\<lambda>taken.
     andThen (raise_if taken (DuplicateArtifact [''artifact id already exists: '', artifact_id]))
    (bind (gets (\<lambda>s. artifact_id \<in> set (ar_locks s))) (\<lambda>locked.
     andThen (raise_if locked (DuplicateArtifact [''artifact id is currently being written: '', artifact_id]))
    (andThen (modify (\<lambda>s. s\<lparr>ar_locks := artifact_id # ar_locks s\<rparr>))
     (finally_do (preserve_body kit artifact_id filename stream provenance a pv expected_size)
       (\<lambda>s. s\<lparr>ar_quarantine := AList.delete (part_name kit artifact_id) (ar_quarantine s),
              ar_locks := removeAll artifact_id (ar_locks s)\<rparr>)))))))))"

definition original :: preservation where
  "original = \<lparr>pv_class = ''original'', pv_role = ''preservation_original'', pv_lineage = None, pv_parents = []\<rparr>"

text \<open>\<open>{**common, **args.provenance, **notes}\<close>\<close>

definition with_notes :: "(string, json) dict \<Rightarrow> (string, json) dict \<Rightarrow> ingest \<Rightarrow> (string, json) dict" where
  "with_notes common extra a = fold (\<lambda>(k, v). AList.update k v)
     (extra @ (if truthy (in_notes a) then [(''notes'', JStr (the (in_notes a)))] else [])) common"

text \<open>\<open>import_artifact\<close>: the opened file's reads, or \<open>None\<close> when it cannot be opened as a regular file.\<close>

definition import_artifact :: "tools \<Rightarrow> string \<Rightarrow> string \<Rightarrow> string \<Rightarrow> string option \<Rightarrow> string \<Rightarrow> read_result list option
    \<Rightarrow> (string, json) dict \<Rightarrow> ingest \<Rightarrow> json aprog" where
  "import_artifact kit artifact_id source_url source_name original_filename path_name opened extra a =
     bind (lift_archive (sanitized_url kit source_url)) (\<lambda>(raw, clean).
     case opened of
       None \<Rightarrow> raise (ArchiveError [''cannot open import file''])
     | Some stream \<Rightarrow> preserve_stream kit artifact_id (if truthy original_filename then the original_filename else path_name) stream
         (with_notes [(''acquired_at'', JStr (acquired_at kit)), (''source'', JStr source_name), (''source_url'', JStr clean),
            (''retrieval_method'', JStr ''local_file'')] extra a) a original None)"

record response =
  rp_filename :: "string option"          \<comment> \<open>the \<open>filename\<close> of \<open>Content-Disposition\<close>\<close>
  rp_length :: "int option"               \<comment> \<open>\<open>Content-Length\<close>\<close>
  rp_reads :: "read_result list"

definition response_filename :: "tools \<Rightarrow> response \<Rightarrow> string \<Rightarrow> archive_error + string" where
  "response_filename kit r url = (let candidate = (case rp_filename r of Some f \<Rightarrow> strip f
       | None \<Rightarrow> last (split_on (CHR ''/'') (rstrip_char (CHR ''/'') (url_path (urlsplit kit url))))) in
     safe_filename (if candidate = [] then ''download.bin'' else candidate))"

text \<open>\<open>except ArchiveError: raise\<close>, \<open>except Exception: raise ArchiveError\<close>\<close>

fun is_archive_error :: "archive_error \<Rightarrow> bool" where
  "is_archive_error (ArchiveError m) = True"
| "is_archive_error (DuplicateArtifact m) = True"
| "is_archive_error (VerificationError m) = True"
| "is_archive_error _ = False"

definition acquire_http :: "tools \<Rightarrow> string \<Rightarrow> string \<Rightarrow> string \<Rightarrow> string option \<Rightarrow> response option \<Rightarrow> (string, json) dict \<Rightarrow> ingest \<Rightarrow> json aprog" where
  "acquire_http kit artifact_id source_url source_name original_filename opened extra a =
     bind (lift_archive (sanitized_url kit source_url)) (\<lambda>(request_url, clean).
     catch (case opened of
         None \<Rightarrow> raise (OSError [''urlopen''])
       | Some r \<Rightarrow>
           andThen (raise_if (rp_length r \<noteq> None \<and> in_max_bytes a < the (rp_length r)) (ArchiveError [''download exceeds maximum size'']))
          (bind (if truthy original_filename then ret (the original_filename) else lift_archive (response_filename kit r clean)) (\<lambda>filename.
           preserve_stream kit artifact_id filename (rp_reads r)
             (with_notes [(''acquired_at'', JStr (acquired_at kit)), (''source'', JStr source_name), (''source_url'', JStr clean),
                (''retrieval_method'', JStr (url_scheme (urlsplit kit clean)))] extra a) a original (rp_length r))))
       (\<lambda>e. raise (if is_archive_error e then e else ArchiveError [''acquisition failed''])))"

text \<open>\<open>derive\<close>\<close>

fun load_all_metadata :: "string list \<Rightarrow> json list aprog" where
  "load_all_metadata [] = ret []"
| "load_all_metadata (i # is) = bind (load_metadata i) (\<lambda>v. bind (load_all_metadata is) (\<lambda>vs. ret (v # vs)))"

definition derive :: "tools \<Rightarrow> string \<Rightarrow> string list \<Rightarrow> string \<Rightarrow> string \<Rightarrow> string option \<Rightarrow> string option \<Rightarrow> string \<Rightarrow> read_result list option \<Rightarrow> ingest \<Rightarrow> json aprog" where
  "derive kit artifact_id parent_ids role action tool original_filename path_name opened a =
     bind (load_all_metadata parent_ids) (\<lambda>parents.
     let lineage =
       [(''parents'', JList (map (\<lambda>p. JDict [(''artifact_id'', part p [''id'']), (''sha256'', part p [''artifact'', ''sha256''])]) parents)),
        (''action'', JStr action), (''derived_at'', JStr (acquired_at kit))] @
       (if truthy tool then [(''tool'', JStr (the tool))] else []) @
       (if truthy (in_notes a) then [(''notes'', JStr (the (in_notes a)))] else []);
       pv = \<lparr>pv_class = (if role = ''reconstructed'' then ''reconstructed'' else ''derived''), pv_role = role, pv_lineage = Some lineage,
             pv_parents = map (\<lambda>p. text_of (part p [''id''])) parents\<rparr> in
     case opened of
       None \<Rightarrow> raise (ArchiveError [''cannot open import file''])
     | Some stream \<Rightarrow> preserve_stream kit artifact_id (if truthy original_filename then the original_filename else path_name) stream
         (with_notes [(''acquired_at'', JStr (acquired_at kit)), (''source'', JStr ''derived in archive''), (''retrieval_method'', JStr ''derived'')] [] a)
         a pv None)"

section \<open>Verification and export\<close>

definition verify_one :: "tools \<Rightarrow> string \<Rightarrow> json aprog" where
  "verify_one kit artifact_id =
     bind (load_metadata artifact_id) (\<lambda>metadata.
     bind (lift_archive (object_key (text_of (part metadata [''artifact'', ''sha256''])))) (\<lambda>key.
     bind (gets (\<lambda>s. map_of (ar_objects s) key)) (\<lambda>found. case found of
       None \<Rightarrow> raise (VerificationError [artifact_id, '': object missing or unreadable''])
     | Some bytes \<Rightarrow>
         andThen (raise_if (JStr (sha256 kit bytes) \<noteq> part metadata [''artifact'', ''sha256''] \<or>
             \<not> json_is_int (part metadata [''artifact'', ''size'']) (int (length bytes)))
           (VerificationError [artifact_id, '': object checksum or size mismatch'']))
         (ret metadata))))"

fun verify_all :: "tools \<Rightarrow> string list \<Rightarrow> archive_error list aprog" where
  "verify_all kit [] = ret []"
| "verify_all kit (i # is) = bind (attempt (verify_one kit i)) (\<lambda>r. case r of
      Inr _ \<Rightarrow> verify_all kit is
    | Inl e \<Rightarrow> if is_archive_error e then bind (verify_all kit is) (\<lambda>es. ret (e # es)) else raise e)"

text \<open>Creating a file exclusively in the temporary directory of an export.\<close>

definition create_file :: "string \<Rightarrow> export_file \<Rightarrow> (string, export_file) dict \<Rightarrow> archive_error + (string, export_file) dict" where
  "create_file name content d = (if has_key d name then Inl (OSError [''File exists'', name]) else Inr (AList.update name content d))"

definition bool_text :: "bool \<Rightarrow> string" where
  "bool_text b = (if b then ''true'' else ''false'')"

definition rights_text :: "json \<Rightarrow> string" where
  "rights_text rights = ''Rights status: '' @ text_of (part rights [''status'']) @ [line_feed] @
     join_with line_feed (concat (map (\<lambda>(k, v). case v of JBool b \<Rightarrow> [k @ '': '' @ bool_text b] | _ \<Rightarrow> [])
       (case rights of JDict d \<Rightarrow> d | _ \<Rightarrow> []))) @ [line_feed]"

text \<open>\<open>FILE_ID.DIZ\<close> of a ZIP: the first entry of that name that is not too large.\<close>

definition file_id_diz :: "tools \<Rightarrow> string \<Rightarrow> string option" where
  "file_id_diz kit bytes = (case zip_directory kit bytes of None \<Rightarrow> None
     | Some es \<Rightarrow> (case filter (\<lambda>e. upper (last (split_on (CHR ''/'') (rstrip_char (CHR ''/'') (ze_filename e)))) = ''FILE_ID.DIZ''
           \<and> \<not> ze_is_dir e \<and> ze_size e \<le> 65536) es of
         [] \<Rightarrow> None | e # _ \<Rightarrow> Some (take 65537 (ze_content e))))"

definition publication_files :: "tools \<Rightarrow> string \<Rightarrow> json \<Rightarrow> string \<Rightarrow> string \<Rightarrow> archive_error + (string, export_file) dict" where
  "publication_files kit artifact_id metadata name bytes =
     (let notes = part metadata [''provenance'', ''notes''];
          files = AList.update (name @ ''.json'') (Document metadata) [(name, Bytes bytes)] in
      bindS (if truth notes then (case notes of JStr s \<Rightarrow> Inr s | _ \<Rightarrow> Inl (AttributeError [''strip'']))
             else Inr (artifact_id @ '': preserved '' @ name)) (\<lambda>description.
      bindS (create_file ''FILE_ID.DIZ.generated'' (Text (strip description @ [line_feed])) files) (\<lambda>files.
      Inr (case file_id_diz kit bytes of None \<Rightarrow> files
         | Some content \<Rightarrow> (case create_file ''FILE_ID.DIZ'' (Bytes content) files of Inl e \<Rightarrow> files | Inr files' \<Rightarrow> files')))))"

definition lineage_text :: "json \<Rightarrow> string" where
  "lineage_text metadata = (let lineage = part metadata [''preservation'', ''lineage''] in
     if \<not> truth lineage then []
     else [line_feed] @ ''Derived artifact lineage:'' @ [line_feed] @
       join_with line_feed (map (\<lambda>p. ''- '' @ text_of (part p [''artifact_id'']) @ '' ('' @ text_of (part p [''sha256'']) @ '')'')
         (case part lineage [''parents''] of JList ps \<Rightarrow> ps | _ \<Rightarrow> [])) @
       [line_feed] @ ''Action: '' @ text_of (part lineage [''action'']) @ [line_feed])"

definition owner_files :: "string \<Rightarrow> json \<Rightarrow> string \<Rightarrow> string \<Rightarrow> (string, export_file) dict" where
  "owner_files artifact_id metadata name bytes =
     (let digest = text_of (part metadata [''artifact'', ''sha256'']) in
      [(''artifacts/'' @ name, Bytes bytes), (''metadata.json'', Document metadata),
       (''checksums.sha256'', Text (digest @ ''  artifacts/'' @ name @ [line_feed])),
       (''RIGHTS.txt'', Text (rights_text (part metadata [''rights'']))),
       (''README.txt'', Text (''Ultimate BBS Box preservation export'' @ [line_feed, line_feed] @
          ''Artifact: '' @ artifact_id @ [line_feed] @ ''Original filename: '' @ name @ [line_feed] @
          ''Acquired: '' @ text_of (part metadata [''provenance'', ''acquired_at'']) @ [line_feed] @
          ''Source: '' @ text_of (part metadata [''provenance'', ''source'']) @ [line_feed] @
          ''SHA-256: '' @ digest @ [line_feed] @ lineage_text metadata))])"

definition build_export :: "tools \<Rightarrow> string \<Rightarrow> string \<Rightarrow> bool \<Rightarrow> bool \<Rightarrow> string aprog" where
  "build_export kit artifact_id output publication redistribution =
     bind (verify_one kit artifact_id) (\<lambda>metadata.
     let may = (\<lambda>k. part metadata [''rights'', k] = JBool True); final = output @ ''/'' @ artifact_id in
     andThen (raise_if (publication \<and> \<not> may ''publish_to_bbs_filebase'') (ArchiveError [''publication denied'']))
    (andThen (raise_if (\<not> publication \<and> \<not> may ''export_from_archive'') (ArchiveError [''export denied'']))
    (andThen (raise_if (redistribution \<and> \<not> may ''redistribute_original'') (ArchiveError [''redistribution export denied'']))
    (bind (gets (\<lambda>s. has_key (ar_exports s) final)) (\<lambda>taken.
     andThen (raise_if taken (ArchiveError [''output already exists: '', final]))
    (bind (lift_archive (object_key (text_of (part metadata [''artifact'', ''sha256''])))) (\<lambda>key.
     bind (lift_archive (safe_filename (text_of (part metadata [''artifact'', ''original_filename''])))) (\<lambda>name.
     bind (gets (\<lambda>s. the (map_of (ar_objects s) key))) (\<lambda>bytes.
     bind (lift_archive (if publication then publication_files kit artifact_id metadata name bytes
                         else Inr (owner_files artifact_id metadata name bytes))) (\<lambda>files.
     andThen (modify (\<lambda>s. s\<lparr>ar_exports := AList.update final files (ar_exports s)\<rparr>))
     (ret final)))))))))))"

end
