(* ===== verification/Dos.thy ===== *)
theory Dos
  imports Archive
begin

text \<open>
  The DOS runtime foundation: \<open>scripts/ubb_dos.py\<close>. Each frozen dataclass is a record and its
  \<open>__post_init__\<close> a \<open>check_\<close> function; provisioning consumes objects of the preservation archive's
  model. Paths are lists of components below the root; \<open>Path.resolve\<close>, which reads the file system, is an argument
  where it is used.
\<close>

datatype dos_error = DOSConfigError message | DOSProvisioningError message | ArchiveFailure archive_error | OtherError message

abbreviation config_error :: "string \<Rightarrow> dos_error" where
  "config_error t \<equiv> DOSConfigError [t]"

section \<open>Profiles\<close>

definition BACKENDS :: "string list" where
  "BACKENDS = [''dosemu2'', ''dosbox_x'', ''dosbox_staging'', ''qemu'']"

definition PRODUCTION_OS :: string where
  "PRODUCTION_OS = ''debian''"

definition GUEST_FAMILIES :: "string list" where
  "GUEST_FAMILIES = [''freedos'', ''msdos'', ''drdos'', ''other_dos'']"

definition ENCODINGS :: "string list" where
  "ENCODINGS = [''CP437'', ''CP850'', ''ISO-8859-1'', ''UTF-8'', ''adapter_defined'']"

definition NEWLINES :: "string list" where
  "NEWLINES = [''CR'', ''LF'', ''CRLF'']"

definition CAPABILITIES :: "string list" where
  "CAPABILITIES = [''byte_stream'', ''modem_signals'', ''full_modem_emulation'']"

text \<open>\<open>^[a-z][a-z0-9_-]{0,63}$\<close>\<close>

definition ID_rx :: rx where
  "ID_rx = Cat (Cls is_lower) (Upto 63 (Cls (\<lambda>c. lower_alnum c \<or> c \<in> set ''_-'')))"

definition dos_char :: "char \<Rightarrow> bool" where
  "dos_char c \<longleftrightarrow> alnum c \<or> c \<in> set ''_$~!#%&()@^{}-'' \<or> c = CHR 0x27 \<or> c = CHR 0x60"

definition DOS_NAME_rx :: rx where
  "DOS_NAME_rx = Cat (Plus (Cls dos_char)) (Opt (Cat (Lit (CHR ''.'')) (Plus (Cls dos_char))))"

definition digit_char :: "nat \<Rightarrow> char" where
  "digit_char i = char_of (48 + i)"

definition RESERVED :: "string list" where
  "RESERVED = [''CON'', ''PRN'', ''AUX'', ''NUL''] @ map (\<lambda>i. ''COM'' @ [digit_char i]) [1..<10] @ map (\<lambda>i. ''LPT'' @ [digit_char i]) [1..<10]"

record machine_profile =
  mp_cpu :: string
  mp_conventional_kb :: int
  mp_xms_kb :: int
  mp_ems_kb :: int
  mp_serial_ports :: int
  mp_text_mode :: bool
  mp_headless :: bool

definition default_machine :: machine_profile where
  "default_machine = \<lparr>mp_cpu = ''486'', mp_conventional_kb = 640, mp_xms_kb = 16384, mp_ems_kb = 4096, mp_serial_ports = 4,
     mp_text_mode = True, mp_headless = True\<rparr>"

definition check_machine :: "machine_profile \<Rightarrow> dos_error + unit" where
  "check_machine m = first_error
     [(mp_cpu m \<notin> set [''8086'', ''286'', ''386'', ''486'', ''pentium''], config_error ''unsupported DOS CPU class''),
      (\<not> (128 \<le> mp_conventional_kb m \<and> mp_conventional_kb m \<le> 640) \<or> mp_xms_kb m < 0 \<or> mp_ems_kb m < 0, config_error ''invalid DOS memory limits''),
      (\<not> (1 \<le> mp_serial_ports m \<and> mp_serial_ports m \<le> 4), config_error ''DOS serial port count must be 1..4'')]"

record dos_profile =
  dp_profile_id :: string
  dp_guest_family :: string
  dp_version :: string
  dp_machine :: machine_profile
  dp_codepage :: string
  dp_timezone_policy :: string
  dp_config_template :: string
  dp_autoexec_template :: string
  dp_rights :: string

definition default_profile :: "string \<Rightarrow> dos_profile" where
  "default_profile i = \<lparr>dp_profile_id = i, dp_guest_family = ''freedos'', dp_version = ''14.0'', dp_machine = default_machine,
     dp_codepage = ''CP437'', dp_timezone_policy = ''host_local_time'', dp_config_template = [], dp_autoexec_template = [], dp_rights = ''open''\<rparr>"

definition check_profile :: "dos_profile \<Rightarrow> dos_error + unit" where
  "check_profile p = first_error
     [(\<not> fullmatch ID_rx (dp_profile_id p), config_error ''invalid DOS profile ID''),
      (dp_guest_family p \<notin> set GUEST_FAMILIES, config_error ''unsupported DOS guest family''),
      (dp_codepage p \<notin> set ENCODINGS, config_error ''unsupported DOS codepage''),
      (dp_timezone_policy p \<notin> set [''host_local_time'', ''host_utc'', ''fixed_historical''], config_error ''invalid DOS timezone policy''),
      (dp_guest_family p \<in> set [''msdos'', ''drdos''] \<and> dp_rights p \<notin> set [''licensed_private'', ''unknown''],
       config_error ''proprietary DOS profiles require private rights metadata'')]"

definition default_profiles :: "(string, dos_profile) dict" where
  "default_profiles = [(''freedos-bbs'', default_profile ''freedos-bbs'')]"

record terminal_profile =
  tp_codepage :: string
  tp_columns :: int
  tp_rows :: int
  tp_newline :: string
  tp_baud :: "int option"
  tp_binary_safe :: bool

definition check_terminal_profile :: "terminal_profile \<Rightarrow> dos_error + unit" where
  "check_terminal_profile t = first_error
     [(tp_codepage t \<notin> set ENCODINGS \<or> tp_newline t \<notin> set NEWLINES, config_error ''invalid terminal encoding/newline policy''),
      (tp_columns t < 1 \<or> tp_rows t < 1 \<or> (\<exists>b. tp_baud t = Some b \<and> b \<le> 0), config_error ''invalid terminal dimensions or baud'')]"

record com_port =
  cp_name :: string
  cp_kind :: string
  cp_endpoint :: string
  cp_baud :: int
  cp_flow_control :: string
  cp_capability :: string

definition check_com_port :: "com_port \<Rightarrow> dos_error + unit" where
  "check_com_port p = first_error
     [(cp_name p \<notin> set (map (\<lambda>i. ''COM'' @ [digit_char i]) [1..<5]), config_error ''DOS COM port must be COM1..COM4''),
      (cp_kind p \<notin> set [''pty'', ''tcp'', ''physical_serial'', ''modem''], config_error ''unsupported COM endpoint kind''),
      (cp_capability p \<notin> set CAPABILITIES \<or> cp_baud p \<le> 0 \<or> cp_endpoint p = [], config_error ''invalid COM endpoint''),
      (cp_kind p = ''physical_serial'' \<and> \<not> starts_with ''/dev/'' (cp_endpoint p), config_error ''physical serial endpoint must be an explicit /dev path'')]"

section \<open>Paths and deployments\<close>

text \<open>\<open>PurePosixPath\<close>: whether it is absolute, and its parts below the root.\<close>

record dos_path =
  pa_absolute :: bool
  pa_parts :: "string list"

text \<open>\<open>p.relative_to(q)\<close> succeeds, and \<open>q in p.parents\<close>.\<close>

definition below :: "dos_path \<Rightarrow> dos_path \<Rightarrow> bool" where
  "below q p \<longleftrightarrow> pa_absolute q = pa_absolute p \<and> take (length (pa_parts q)) (pa_parts p) = pa_parts q"

definition in_parents :: "dos_path \<Rightarrow> dos_path \<Rightarrow> bool" where
  "in_parents q p \<longleftrightarrow> below q p \<and> q \<noteq> p"

record drive_mapping =
  dm_letter :: string
  dm_root :: dos_path
  dm_writable :: bool
  dm_purpose :: string

definition check_drive :: "drive_mapping \<Rightarrow> dos_error + unit" where
  "check_drive d = first_error
     [(\<not> fullmatch (Cls is_upper) (dm_letter d) \<or> \<not> pa_absolute (dm_root d) \<or> pa_parts (dm_root d) = [],
       config_error ''drive mapping requires a safe absolute root''),
      (''..'' \<in> set (pa_parts (dm_root d)), config_error ''drive mapping may not contain parent traversal'')]"

definition validate_drive_root :: "(dos_path \<Rightarrow> dos_path) \<Rightarrow> drive_mapping \<Rightarrow> dos_path \<Rightarrow> dos_error + dos_path" where
  "validate_drive_root resolve_path d allowed_root =
     (if \<not> below (resolve_path allowed_root) (resolve_path (dm_root d))
      then Inl (config_error ''DOS drive mapping escapes its deployment root'') else Inr (resolve_path (dm_root d)))"

record dos_deployment =
  dd_service_id :: string
  dd_profile :: dos_profile
  dd_golden_root :: dos_path
  dd_working_root :: dos_path
  dd_drives :: "drive_mapping list"
  dd_com_ports :: "com_port list"
  dd_node_count :: int
  dd_guest_network :: bool
  dd_lifecycle :: string

definition check_deployment :: "dos_deployment \<Rightarrow> dos_error + unit" where
  "check_deployment d = first_error
     [(\<not> fullmatch ID_rx (dd_service_id d) \<or> \<not> pa_absolute (dd_golden_root d) \<or> \<not> pa_absolute (dd_working_root d),
       config_error ''invalid DOS deployment identity/root''),
      (dd_golden_root d = dd_working_root d \<or> dd_node_count d < 1, config_error ''working DOS state must be separate from golden state''),
      (dd_lifecycle d \<notin> set [''always_on'', ''on_demand'', ''scheduled''], config_error ''invalid DOS lifecycle''),
      (length (map cp_name (dd_com_ports d)) \<noteq> card (set (map cp_name (dd_com_ports d))), config_error ''duplicate DOS COM assignment''),
      (length (map dm_letter (dd_drives d)) \<noteq> card (set (map dm_letter (dd_drives d))), config_error ''duplicate DOS drive mapping'')]"

record materialize_view =
  mv_service_id :: string
  mv_profile :: string
  mv_golden_root :: dos_path
  mv_working_root :: dos_path
  mv_drives :: "(string \<times> dos_path \<times> bool) list"
  mv_com_ports :: "string list"
  mv_node_count :: int
  mv_guest_network :: bool
  mv_lifecycle :: string

definition materialize_plan :: "dos_deployment \<Rightarrow> materialize_view" where
  "materialize_plan d = \<lparr>mv_service_id = dd_service_id d, mv_profile = dp_profile_id (dd_profile d), mv_golden_root = dd_golden_root d,
     mv_working_root = dd_working_root d, mv_drives = map (\<lambda>x. (dm_letter x, dm_root x, dm_writable x)) (dd_drives d),
     mv_com_ports = map cp_name (dd_com_ports d), mv_node_count = dd_node_count d, mv_guest_network = dd_guest_network d,
     mv_lifecycle = dd_lifecycle d\<rparr>"

text \<open>\<open>name.split(".", 1)\<close>\<close>

definition stem_of :: "string \<Rightarrow> string" where
  "stem_of name = takeWhile (\<lambda>c. c \<noteq> CHR ''.'') name"

definition suffix_of :: "string \<Rightarrow> string" where
  "suffix_of name = drop 1 (dropWhile (\<lambda>c. c \<noteq> CHR ''.'') name)"

definition validate_dos_filename :: "string \<Rightarrow> dos_error + string" where
  "validate_dos_filename name =
     (if name = [] \<or> CHR ''/'' \<in> set name \<or> CHR 0x5C \<in> set name \<or> \<not> fullmatch DOS_NAME_rx name
      then Inl (config_error ''invalid DOS 8.3 filename'')
      else let stem = upper (stem_of name) in
        if stem \<in> set RESERVED then Inl (config_error ''DOS device name is not a filename'')
        else if 8 < length stem \<or> CHR ''.'' \<in> set name \<and> 3 < length (suffix_of name) then Inl (config_error ''filename is not 8.3 compatible'')
        else Inr (upper name))"

section \<open>The node allocator\<close>

record allocator =
  al_capacity :: int
  al_allocated :: "(int, string) dict"

definition new_allocator :: "int \<Rightarrow> dos_error + allocator" where
  "new_allocator capacity = (if capacity < 1 then Inl (config_error ''node capacity must be positive'')
     else Inr \<lparr>al_capacity = capacity, al_allocated = []\<rparr>)"

text \<open>\<open>for node in range(1, capacity + 1): if node not in allocated\<close>\<close>

definition free_node :: "allocator \<Rightarrow> int option" where
  "free_node a = List.find (\<lambda>n. \<not> has_key (al_allocated a) n) [1..al_capacity a]"

definition allocate :: "string \<Rightarrow> (allocator, dos_error, int) prog" where
  "allocate session_id = bind (gets al_allocated) (\<lambda>d.
     case List.find (\<lambda>(node, owner). owner = session_id) d of
       Some (node, owner) \<Rightarrow> ret node
     | None \<Rightarrow> bind (gets free_node) (\<lambda>f. case f of
         None \<Rightarrow> raise (config_error ''DOS node capacity exhausted'')
       | Some node \<Rightarrow> andThen (modify (\<lambda>a. a\<lparr>al_allocated := AList.update node session_id (al_allocated a)\<rparr>)) (ret node)))"

definition release :: "int \<Rightarrow> string option \<Rightarrow> (allocator, dos_error, bool) prog" where
  "release node session_id = bind (gets al_allocated) (\<lambda>d.
     if \<not> has_key d node \<or> (session_id \<noteq> None \<and> map_of d node \<noteq> session_id) then ret False
     else andThen (modify (\<lambda>a. a\<lparr>al_allocated := AList.delete node (al_allocated a)\<rparr>)) (ret True))"

definition recover_stale :: "string set \<Rightarrow> (allocator, dos_error, nat) prog" where
  "recover_stale active = bind (gets (\<lambda>a. map fst (filter (\<lambda>(n, owner). owner \<notin> active) (al_allocated a)))) (\<lambda>stale.
     andThen (modify (\<lambda>a. a\<lparr>al_allocated := fold AList.delete stale (al_allocated a)\<rparr>)) (ret (length stale)))"

definition allocator_status :: "allocator \<Rightarrow> int \<times> nat \<times> (int, string) dict" where
  "allocator_status a = (al_capacity a, length (al_allocated a), al_allocated a)"

section \<open>Plans and evidence\<close>

definition qualification :: "dos_deployment \<Rightarrow> bool \<Rightarrow> bool \<Rightarrow> string \<times> (string \<times> string) list \<times> string" where
  "qualification d backend_available guest_available =
     (let verdict = (\<lambda>b. if b then ''PASS'' else ''HUMAN_REQUIRED'');
          checks = [(''profile'', ''PASS''), (''isolation'', ''PASS''), (''backend'', verdict backend_available), (''guest_boot'', verdict guest_available)]
      in (dd_service_id d, checks, verdict (list_all (\<lambda>(n, v). v = ''PASS'') checks)))"

record provisioning_plan =
  pp_release :: "string option"
  pp_method :: string
  pp_package :: "string option"
  pp_version :: "string option"
  pp_source_commit :: "string option"
  pp_source_sha256 :: "string option"
  pp_install_prefix :: "string option"

definition debian_provisioning_plan :: "string \<Rightarrow> string option \<Rightarrow> bool \<Rightarrow> string option \<Rightarrow> string option \<Rightarrow> string option \<Rightarrow> dos_error + provisioning_plan" where
  "debian_provisioning_plan target_os rel package_available package_version source_commit source_sha256 = bindS (first_error
     [(lower target_os \<noteq> PRODUCTION_OS, config_error ''DOS runtime production provisioning requires Debian''),
      (package_available \<and> \<not> truthy package_version, config_error ''a Debian package plan requires an exact package version''),
      (\<not> package_available \<and> truthy source_commit \<noteq> truthy source_sha256, config_error ''source fallback requires an immutable commit and SHA-256''),
      (truthy source_commit \<and> \<not> fullmatch (Times 40 (Cls lower_hex_char)) (the source_commit), config_error ''source fallback must use a full immutable commit'')])
     (\<lambda>_. Inr \<lparr>pp_release = rel, pp_method = (if package_available then ''apt'' else if truthy source_commit then ''pinned_source'' else ''blocked''),
        pp_package = (if package_available then Some ''dosemu2'' else None), pp_version = package_version,
        pp_source_commit = source_commit, pp_source_sha256 = source_sha256,
        pp_install_prefix = (if truthy source_commit then Some (''/opt/ultimate-bbs-box/dosemu2/'' @ take 12 (the source_commit)) else None)\<rparr>)"

definition freedos_state :: "string \<Rightarrow> string option \<Rightarrow> string option \<Rightarrow> string option \<Rightarrow> dos_error + string" where
  "freedos_state version artifact digest source_url =
     (if version \<noteq> ''1.4'' then Inl (config_error ''M9.1b reference guest is FreeDOS 1.4'')
      else Inr (if truthy artifact \<and> truthy digest \<and> truthy source_url then ''VERIFIED'' else ''HUMAN_REQUIRED''))"

text \<open>\<open>str.splitlines()\<close> and \<open>bytes.decode("ascii", errors="replace")\<close>, whose replacement character, being above
  255, is written as 255 here.\<close>

definition line_break :: "char \<Rightarrow> bool" where
  "line_break c \<longleftrightarrow> code_point c \<in> {10, 11, 12, 13, 28, 29, 30, 133}"

fun splitlines :: "string \<Rightarrow> string list" where
  "splitlines [] = []"
| "splitlines (c # cs) = (if line_break c
     then [] # splitlines (if c = carriage_return \<and> cs \<noteq> [] \<and> hd cs = line_feed then tl cs else cs)
     else case splitlines cs of [] \<Rightarrow> [[c]] | p # ps \<Rightarrow> (c # p) # ps)"

definition decode_ascii :: "string \<Rightarrow> string" where
  "decode_ascii = map (\<lambda>c. if 128 \<le> code_point c then CHR 0xFF else c)"

definition boot_marker_ready :: "string \<Rightarrow> string \<Rightarrow> bool" where
  "boot_marker_ready output marker \<longleftrightarrow> marker \<in> set (splitlines (decode_ascii output))"

definition qualification_evidence :: "string \<Rightarrow> string \<Rightarrow> string \<Rightarrow> dos_error + string \<times> string \<times> string" where
  "qualification_evidence check_id state reason =
     (if state \<notin> set [''PASS'', ''FAIL'', ''HUMAN_REQUIRED'', ''SKIP''] then Inl (config_error ''invalid qualification state'')
      else Inr (check_id, state, reason))"

section \<open>Provisioning from the archive\<close>

record pinned_input =
  pi_artifact_id :: string
  pi_sha256 :: string
  pi_size :: int
  pi_role :: string

definition DOSEMU2_SOURCE :: pinned_input where
  "DOSEMU2_SOURCE = \<lparr>pi_artifact_id = ''dosemu2-82770aba3984'', pi_sha256 = ''8a08d60590329aa1484f0fa499711793ab3b87bf401d6a6e6eb2f42a93acddfb'',
     pi_size = 3053938, pi_role = ''source_code''\<rparr>"

definition FDPP_SOURCE :: pinned_input where
  "FDPP_SOURCE = \<lparr>pi_artifact_id = ''fdpp-dc776d6a348b'', pi_sha256 = ''fd6e4332ab3756acff10511d7a97af8c6eb231861341f8b4194b22011a8dc749'',
     pi_size = 327763, pi_role = ''source_code''\<rparr>"

definition FREEDOS_M1 :: pinned_input where
  "FREEDOS_M1 = \<lparr>pi_artifact_id = ''freedos-1.4-livecd'', pi_sha256 = ''2020ff6bb681967fd6eff8f51ad2e5cd5ab4421165948cef4246e4f7fcaf6339'',
     pi_size = 293950337, pi_role = ''preservation_original''\<rparr>"

type_synonym 'a dprog = "(archive, dos_error, 'a) prog"

text \<open>A call of the archive, its exceptions passing through.\<close>

definition from_archive :: "'a aprog \<Rightarrow> 'a dprog" where
  "from_archive m = (\<lambda>s. case m s of
      (Ret x, s') \<Rightarrow> (Ret x, s') | (Raise e, s') \<Rightarrow> (Raise (ArchiveFailure e), s') | (NoFuel, s') \<Rightarrow> (NoFuel, s'))"

record verified_input =
  vi_artifact_id :: string
  vi_bytes :: string   \<comment> \<open>what the file at \<open>path\<close> holds\<close>
  vi_sha256 :: string
  vi_size :: int
  vi_role :: string
  vi_rights :: json
  vi_source :: json

abbreviation provisioning_error :: "string \<Rightarrow> string \<Rightarrow> dos_error" where
  "provisioning_error aid t \<equiv> DOSProvisioningError [aid, t]"

text \<open>\<open>int(artifact["size"])\<close> of a validated document.\<close>

definition size_field :: "json \<Rightarrow> int" where
  "size_field v = (case as_int v of Inr n \<Rightarrow> n | Inl e \<Rightarrow> 0)"

definition verify_preserved_input :: "tools \<Rightarrow> pinned_input \<Rightarrow> string option \<Rightarrow> verified_input dprog" where
  "verify_preserved_input kit expected artifact_id =
     (let aid = (if truthy artifact_id then the artifact_id else pi_artifact_id expected) in
      andThen (from_archive require_archive)
     (bind (from_archive (load_metadata aid)) (\<lambda>metadata.
      let role = part metadata [''artifact'', ''role'']; n = size_field (part metadata [''artifact'', ''size'']) in
      andThen (raise_if (lower (text_of (part metadata [''artifact'', ''sha256''])) \<noteq> pi_sha256 expected) (provisioning_error aid '': metadata digest is not the pinned digest''))
     (andThen (raise_if (pi_size expected \<noteq> 0 \<and> n \<noteq> pi_size expected) (provisioning_error aid '': metadata size is not the pinned size''))
     (andThen (raise_if (role \<notin> set (map JStr (pi_role expected # (if pi_role expected = ''source_code'' then [''preservation_original''] else []))))
        (provisioning_error aid '': preservation role is not the pinned role''))
     (bind (from_archive (lift_archive (object_key (pi_sha256 expected)))) (\<lambda>key.
      bind (gets (\<lambda>s. map_of (ar_objects s) key)) (\<lambda>found. case found of
        None \<Rightarrow> raise (provisioning_error aid '': immutable object is missing or is a symlink'')
      | Some bytes \<Rightarrow>
          andThen (raise_if (sha256 kit bytes \<noteq> pi_sha256 expected \<or> (pi_size expected \<noteq> 0 \<and> int (length bytes) \<noteq> pi_size expected))
            (provisioning_error aid '': object bytes do not match the pinned identity''))
          (ret \<lparr>vi_artifact_id = aid, vi_bytes = bytes, vi_sha256 = sha256 kit bytes, vi_size = int (length bytes), vi_role = text_of role,
                vi_rights = part metadata [''rights''], vi_source = part metadata [''provenance'']\<rparr>)))))))))"

record provisioning_inputs =
  pr_dosemu2 :: verified_input
  pr_fdpp :: verified_input
  pr_freedos :: verified_input
  pr_runtime_root :: dos_path

text \<open>The two roots after \<open>resolve\<close>.\<close>

definition provisioning_manifest :: "tools \<Rightarrow> dos_path \<Rightarrow> dos_path \<Rightarrow> string option \<Rightarrow> string option \<Rightarrow> provisioning_inputs dprog" where
  "provisioning_manifest kit archive_root runtime dosemu_artifact_id fdpp_artifact_id =
     bind (verify_preserved_input kit DOSEMU2_SOURCE dosemu_artifact_id) (\<lambda>dosemu2.
     bind (verify_preserved_input kit FDPP_SOURCE fdpp_artifact_id) (\<lambda>fdpp.
     bind (verify_preserved_input kit FREEDOS_M1 None) (\<lambda>freedos.
     andThen (raise_if (runtime = archive_root \<or> in_parents archive_root runtime)
       (DOSProvisioningError [''runtime/build state must be outside the preservation archive'']))
     (ret \<lparr>pr_dosemu2 = dosemu2, pr_fdpp = fdpp, pr_freedos = freedos, pr_runtime_root = runtime\<rparr>))))"

text \<open>\<open>materialize_freedos\<close>: the working directory is the ISO it holds, if any.\<close>

definition materialize_freedos :: "tools \<Rightarrow> dos_path \<Rightarrow> dos_path \<Rightarrow> string option \<Rightarrow> (string \<times> string \<times> string option) dprog" where
  "materialize_freedos kit archive_root work present =
     bind (verify_preserved_input kit FREEDOS_M1 None) (\<lambda>verified.
     andThen (raise_if (archive_root = work \<or> in_parents archive_root work) (DOSProvisioningError [''FreeDOS working state must be outside the archive'']))
     (case present of
        Some old \<Rightarrow> ret (''already-present'', sha256 kit old, present)
      | None \<Rightarrow> (case zip_directory kit (vi_bytes verified) of
          None \<Rightarrow> raise (OtherError [''BadZipFile''])
        | Some entries \<Rightarrow> (case filter (\<lambda>e. \<not> ze_is_dir e \<and> ends_with ''.iso'' (lower (ze_filename e))) entries of
            [e] \<Rightarrow> if 512 * 1024 * 1024 < ze_size e then raise (DOSProvisioningError [''FreeDOS ISO exceeds materialization limit''])
                   else ret (''materialized'', sha256 kit (ze_content e), Some (ze_content e))
          | _ \<Rightarrow> raise (DOSProvisioningError [''FreeDOS archive must contain exactly one ISO''])))))"

section \<open>Extracting a source archive\<close>

datatype member_kind = Regular | Directory | Symlink string | Hardlink string

record tar_member =
  tm_name :: string
  tm_kind :: member_kind

text \<open>\<open>(root / name).resolve()\<close> below a directory that holds nothing yet: the parts, with \<open>.\<close> and \<open>..\<close> taken away.\<close>

fun normalize :: "string list \<Rightarrow> string list \<Rightarrow> string list" where
  "normalize acc [] = rev acc"
| "normalize acc (p # ps) = (if p = [] \<or> p = ''.'' then normalize acc ps
     else if p = ''..'' then normalize (drop 1 acc) ps
     else normalize (p # acc) ps)"

definition member_target :: "string list \<Rightarrow> string \<Rightarrow> string list" where
  "member_target root name = (if starts_with ''/'' name then normalize [] (split_on (CHR ''/'') name)
     else normalize (rev root) (split_on (CHR ''/'') name))"

definition strictly_inside :: "string list \<Rightarrow> string list \<Rightarrow> bool" where
  "strictly_inside root p \<longleftrightarrow> length root < length p \<and> take (length root) p = root"

fun check_members :: "string list \<Rightarrow> tar_member list \<Rightarrow> dos_error + unit" where
  "check_members root [] = Inr ()"
| "check_members root (m # ms) = (let target = member_target root (tm_name m) in
     if root \<noteq> target \<and> \<not> strictly_inside root target then Inl (DOSProvisioningError [''source archive contains path traversal''])
     else if (case tm_kind m of Symlink _ \<Rightarrow> True | Hardlink _ \<Rightarrow> True | _ \<Rightarrow> False) \<and> \<not> strictly_inside root target
       then Inl (DOSProvisioningError [''source archive contains unsafe link''])
     else check_members root ms)"

end
