(* ===== verification/Archive_Facts.thy ===== *)
theory Archive_Facts
  imports Archive
begin

text \<open>
  What the preservation archive promises: objects are content addressed and never change, an ingest
  records exactly what it read or leaves no metadata, every recorded artifact verifies in every run, and
  an export is what the rights allow.
\<close>

section \<open>Ingest\<close>

text \<open>What \<open>hashlib\<close> documents of a hexadecimal digest.\<close>

definition proper_hashes :: "tools \<Rightarrow> bool" where
  "proper_hashes kit \<longleftrightarrow> (\<forall>b. length (sha256 kit b) = 64 \<and> list_all lower_hex_char (sha256 kit b))"

text \<open>The bytes a stream delivers before it ends.\<close>

fun delivered :: "read_result list \<Rightarrow> string" where
  "delivered (Data c # rs) = (if c = [] then [] else c @ delivered rs)"
| "delivered _ = []"

lemma copy_stream_returns: "copy_stream rs m w = (Inr n, b) \<Longrightarrow> b = w @ delivered rs \<and> n = int (length b) \<and> (m < n \<longrightarrow> b = w)"
  by (induction rs m w rule: copy_stream.induct) (auto split: if_splits)

lemma copy_stream_bounded: "copy_stream rs m w = (r, b) \<Longrightarrow> int (length w) \<le> m \<Longrightarrow> int (length b) \<le> m"
  by (induction rs m w rule: copy_stream.induct) (auto split: if_splits)

lemma lower_hex_is_hex: "lower_hex_char c \<Longrightarrow> hex_char c"
  by (auto simp: class_defs)

lemma lower_hex_lower: "list_all lower_hex_char s \<Longrightarrow> lower s = s"
  by (induction s) (auto simp: lower_def lower_char_def Let_def class_defs)

lemma HASH_RE_iff: "fullmatch (HASH_RE name) s \<longleftrightarrow>
    length s = (if name = ''sha256'' then 64 else if name = ''sha1'' then 40 else 32) \<and> list_all hex_char s"
  by (simp add: HASH_RE_def fullmatch_iff)

text \<open>The closed form of the pattern is what evaluation uses.\<close>

lemma check_hash_code [code]: "check_hash name v e = bindS (as_string v) (\<lambda>s.
    if \<not> (length s = (if name = ''sha256'' then 64 else if name = ''sha1'' then 40 else 32) \<and> list_all hex_char s) then Inl e else Inr ())"
  by (simp add: check_hash_def HASH_RE_iff)

lemma object_key_code [code]: "object_key d =
    (if \<not> (length d = 64 \<and> list_all hex_char d) then Inl (ArchiveError [''invalid object digest'']) else Inr (lower d))"
  by (simp add: object_key_def HASH_RE_iff)

lemma object_key_sha256: "proper_hashes kit \<Longrightarrow> object_key (sha256 kit b) = Inr (sha256 kit b)"
  by (auto simp: object_key_def HASH_RE_iff proper_hashes_def lower_hex_lower list_all_iff lower_hex_is_hex)

text \<open>An ingest from a state without leftovers changes the objects and the metadata only.\<close>

definition fresh_for :: "tools \<Rightarrow> string \<Rightarrow> archive \<Rightarrow> bool" where
  "fresh_for kit i s \<longleftrightarrow> i \<notin> set (ar_locks s) \<and> \<not> has_key (ar_quarantine s) (part_name kit i)"

definition with_object :: "string \<Rightarrow> string \<Rightarrow> archive \<Rightarrow> archive" where
  "with_object k b s = (if has_key (ar_objects s) k then s else s\<lparr>ar_objects := AList.update k b (ar_objects s)\<rparr>)"

lemma quarantine_stream_outcome:
  assumes q: "\<not> has_key (ar_quarantine s) (part_name kit i)" and run: "quarantine_stream kit i rs a ex s = (r, s')"
  shows "case r of
      Ret b \<Rightarrow> s' = s\<lparr>ar_quarantine := AList.update (part_name kit i) b (ar_quarantine s)\<rparr> \<and>
        copy_stream rs (in_max_bytes a) [] = (Inr (int (length b)), b) \<and> check_expected (digests_of kit b) a = Inr () \<and> (\<forall>n. ex = Some n \<longrightarrow> n = int (length b))
    | Raise e \<Rightarrow> \<exists>b. s' = s\<lparr>ar_quarantine := AList.update (part_name kit i) b (ar_quarantine s)\<rparr>
    | NoFuel \<Rightarrow> False"
proof -
  obtain res b where c: "copy_stream rs (in_max_bytes a) [] = (res, b)" by fastforce
  show ?thesis
    using run q c copy_stream_returns[of rs "in_max_bytes a" "[]" _ b]
    by (cases res) (auto simp: quarantine_stream_def Let_def prog_defs lift_archive_def split: if_splits sum.splits)
qed

lemma note_source_outcome: "note_source prov d s = (r, s') \<Longrightarrow> s' = s \<and> r \<noteq> NoFuel"
  by (auto simp: note_source_def Let_def prog_defs lift_archive_def split: if_splits sum.splits)

lemma store_object_outcome: "store_object k b s = (r, s') \<Longrightarrow>
    (case r of Ret _ \<Rightarrow> s' = with_object k b s \<and> (\<forall>old. map_of (ar_objects s) k = Some old \<longrightarrow> length old = length b)
       | Raise e \<Rightarrow> s' = s | NoFuel \<Rightarrow> False)"
  by (auto simp: store_object_def with_object_def prog_defs has_key_map_of split: option.splits if_splits)

lemma record_artifact_outcome:
  assumes hashes: "proper_hashes kit" and run: "record_artifact kit i f b prov a pv s = (r, s')"
  defines "s1 \<equiv> (with_object (sha256 kit b) b s)\<lparr>ar_quarantine := AList.delete (part_name kit i) (ar_quarantine s)\<rparr>"
  shows "case r of
      Ret doc \<Rightarrow> (\<exists>prov'. doc = document_of i (artifact_document kit a pv f (digests_of kit b) (int (length b))) prov' a pv) \<and>
        validate_metadata doc = Inr () \<and> (\<forall>old. map_of (ar_objects s) (sha256 kit b) = Some old \<longrightarrow> length old = length b) \<and>
        s' = s1\<lparr>ar_metadata := AList.update i (Some doc) (ar_metadata s)\<rparr>
    | Raise e \<Rightarrow> s' = s \<or> s' = s1
    | NoFuel \<Rightarrow> False"
proof -
  let ?k = "sha256 kit b"
  let ?tail = "bind (note_source prov ?k) (\<lambda>prov'. let doc = document_of i (artifact_document kit a pv f (digests_of kit b) (int (length b))) prov' a pv in
      andThen (lift_archive (validate_metadata doc))
     (andThen (modify (\<lambda>s. s\<lparr>ar_metadata := AList.update i (Some doc) (ar_metadata s)\<rparr>)) (ret doc)))"
  obtain o1 t where st: "store_object ?k b s = (o1, t)" by fastforce
  note so = store_object_outcome[OF st]
  have run': "record_artifact kit i f b prov a pv s = andThen (store_object ?k b)
      (andThen (modify (\<lambda>s. s\<lparr>ar_quarantine := AList.delete (part_name kit i) (ar_quarantine s)\<rparr>)) ?tail) s"
    by (simp add: record_artifact_def Let_def digests_of_def object_key_sha256[OF hashes] lift_archive_def bind_ret_left)
  show ?thesis
  proof (cases o1)
    case (Ret u)
    then have "t = with_object ?k b s" using so by simp
    then have t: "t\<lparr>ar_quarantine := AList.delete (part_name kit i) (ar_quarantine t)\<rparr> = s1"
      by (simp add: s1_def with_object_def)
    have meta: "ar_metadata s1 = ar_metadata s" by (simp add: s1_def with_object_def)
    obtain o2 t2 where n: "note_source prov ?k s1 = (o2, t2)" by fastforce
    then have n': "t2 = s1" "o2 \<noteq> NoFuel" using note_source_outcome by auto
    have "(r, s') = ?tail s1"
      using run run' st Ret t by (simp add: andThen_returning andThen_modify)
    with n n' so Ret show ?thesis
      by (cases o2) (auto simp: bind_def Let_def andThen_def lift_archive_def raise_def ret_def modify_def meta split: sum.splits)
  next
    case (Raise e)
    with run run' st so show ?thesis by (auto simp: andThen_raising)
  next
    case NoFuel
    with so show ?thesis by simp
  qed
qed

lemma preserve_stream_outcome:
  assumes hashes: "proper_hashes kit" and fresh: "fresh_for kit i s" and run: "preserve_stream kit i name rs prov a pv ex s = (r, s')"
  shows "case r of
      Ret doc \<Rightarrow> \<exists>b f prov'. copy_stream rs (in_max_bytes a) [] = (Inr (int (length b)), b) \<and> safe_filename name = Inr f \<and> ar_ready s \<and>
        fullmatch ident_rx i \<and> \<not> has_key (ar_metadata s) i \<and> check_expected (digests_of kit b) a = Inr () \<and>
        doc = document_of i (artifact_document kit a pv f (digests_of kit b) (int (length b))) prov' a pv \<and>
        validate_metadata doc = Inr () \<and> (\<forall>old. map_of (ar_objects s) (sha256 kit b) = Some old \<longrightarrow> length old = length b) \<and>
        s' = (with_object (sha256 kit b) b s)\<lparr>ar_metadata := AList.update i (Some doc) (ar_metadata s)\<rparr>
    | Raise e \<Rightarrow> s' = s \<or> (\<exists>b. s' = with_object (sha256 kit b) b s)
    | NoFuel \<Rightarrow> False"
proof (cases "ar_ready s \<and> fullmatch ident_rx i \<and> \<not> has_key (ar_metadata s) i \<and> (\<exists>f. safe_filename name = Inr f)")
  case False
  with run fresh show ?thesis
    by (auto simp: preserve_stream_def require_archive_def validate_id_def fresh_for_def lift_archive_def prog_defs split: sum.splits if_splits)
next
  case True
  then obtain f where f: "safe_filename name = Inr f" by blast
  let ?q = "part_name kit i" and ?s1 = "s\<lparr>ar_locks := i # ar_locks s\<rparr>"
  let ?clean = "\<lambda>s. s\<lparr>ar_quarantine := AList.delete ?q (ar_quarantine s), ar_locks := removeAll i (ar_locks s)\<rparr>"
  have "preserve_stream kit i name rs prov a pv ex s = finally_do (preserve_body kit i f rs prov a pv ex) ?clean ?s1"
    using True f fresh
    by (simp add: preserve_stream_def require_archive_def validate_id_def fresh_for_def lift_archive_def bind_gets andThen_raise_if andThen_modify bind_ret_left
        andThen_def bind_def gets_def raise_if_def ret_def modify_def)
  then obtain r1 t where body: "preserve_body kit i f rs prov a pv ex ?s1 = (r, t)" and s': "s' = ?clean t"
    using run by (cases "preserve_body kit i f rs prov a pv ex ?s1") (auto simp: finally_do_def)
  obtain o1 u where quar: "quarantine_stream kit i rs a ex ?s1 = (o1, u)" by fastforce
  have q1: "\<not> has_key (ar_quarantine ?s1) ?q" using fresh by (simp add: fresh_for_def)
  have undo: "?clean (?s1\<lparr>ar_quarantine := AList.update ?q b (ar_quarantine ?s1)\<rparr>) = s"
    "?clean ((with_object k c (?s1\<lparr>ar_quarantine := AList.update ?q b (ar_quarantine ?s1)\<rparr>))
       \<lparr>ar_quarantine := AList.delete ?q (AList.update ?q b (ar_quarantine s))\<rparr>) = with_object k c s"
    for b c k
    using fresh pop_fresh[of ?q "ar_quarantine s" b] AList.delete_idem[of ?q]
    by (simp_all add: fresh_for_def has_key_def with_object_def AList.delete_id)
  note Q = quarantine_stream_outcome[OF q1 quar]
  show ?thesis
  proof (cases o1)
    case (Ret b)
    with body quar have rec: "record_artifact kit i f b prov a pv u = (r, t)" by (simp add: preserve_body_def bind_returning)
    have u: "u = ?s1\<lparr>ar_quarantine := AList.update ?q b (ar_quarantine ?s1)\<rparr>" using Q Ret by simp
    note R = record_artifact_outcome[OF hashes rec]
    have obj: "ar_objects u = ar_objects s" "ar_metadata u = ar_metadata s" "ar_quarantine u = AList.update ?q b (ar_quarantine s)" by (simp_all add: u)
    show ?thesis
    proof (cases r)
      case (Ret doc)
      with R s' have "s' = (?clean ((with_object (sha256 kit b) b u)\<lparr>ar_quarantine := AList.delete ?q (ar_quarantine u)\<rparr>))
          \<lparr>ar_metadata := AList.update i (Some doc) (ar_metadata s)\<rparr>"
        by (simp add: obj)
      then have "s' = (with_object (sha256 kit b) b s)\<lparr>ar_metadata := AList.update i (Some doc) (ar_metadata s)\<rparr>"
        unfolding obj u by (simp add: undo(2)[simplified])
      with Ret R Q \<open>o1 = outcome.Ret b\<close> True f obj show ?thesis by auto
    next
      case (Raise e)
      with R s' have "s' = s \<or> s' = with_object (sha256 kit b) b s"
        using undo unfolding obj u by auto
      with Raise show ?thesis by auto
    qed (use R in simp)
  next
    case (Raise e)
    with body quar have "r = Raise e" "t = u" by (auto simp: preserve_body_def bind_def)
    with Q Raise s' undo(1) show ?thesis by auto
  next
    case NoFuel
    with Q show ?thesis by simp
  qed
qed

section \<open>Runs\<close>

definition recorded :: "tools \<Rightarrow> archive \<Rightarrow> string \<Rightarrow> json \<Rightarrow> bool" where
  "recorded kit s i v \<longleftrightarrow> fullmatch ident_rx i \<and> validate_metadata v = Inr () \<and>
     (\<exists>b. map_of (ar_objects s) (sha256 kit b) = Some b \<and> part v [''artifact'', ''sha256''] = JStr (sha256 kit b) \<and>
          part v [''artifact'', ''size''] = JInt (int (length b)))"

definition content_addressed :: "tools \<Rightarrow> archive \<Rightarrow> bool" where
  "content_addressed kit s \<longleftrightarrow> (\<forall>k b. map_of (ar_objects s) k = Some b \<longrightarrow> k = sha256 kit b)"

lemma content_addressed_cong: "ar_objects s = ar_objects t \<Longrightarrow> content_addressed kit s \<longleftrightarrow> content_addressed kit t"
  by (simp add: content_addressed_def)

definition archive_ok :: "tools \<Rightarrow> archive \<Rightarrow> bool" where
  "archive_ok kit s \<longleftrightarrow> ar_locks s = [] \<and> ar_quarantine s = [] \<and>
     content_addressed kit s \<and>
     (\<forall>i f. map_of (ar_metadata s) i = Some f \<longrightarrow> (\<exists>v. f = Some v \<and> recorded kit s i v))"

definition extends :: "archive \<Rightarrow> archive \<Rightarrow> bool" where
  "extends s s' \<longleftrightarrow> map_of (ar_objects s) \<subseteq>\<^sub>m map_of (ar_objects s') \<and> map_of (ar_metadata s) \<subseteq>\<^sub>m map_of (ar_metadata s') \<and>
     (ar_ready s \<longrightarrow> ar_ready s')"

lemma extends_refl [simp]: "extends s s"
  by (simp add: extends_def)

lemma extends_metadata: "extends s s' \<Longrightarrow> map_of (ar_metadata s) i = Some f \<Longrightarrow> map_of (ar_metadata s') i = Some f"
  unfolding extends_def map_le_def by (metis domI)

lemma extends_trans: "extends s t \<Longrightarrow> extends t u \<Longrightarrow> extends s u"
  by (auto simp: extends_def intro: map_le_trans)

lemma recorded_extends: "recorded kit s i v \<Longrightarrow> extends s s' \<Longrightarrow> recorded kit s' i v"
  unfolding recorded_def extends_def map_le_def by (metis domI)

lemma with_object_extends: "extends s (with_object k b s)"
  by (auto simp: extends_def with_object_def map_le_def has_key_map_of)

lemma with_object_ok: "archive_ok kit s \<Longrightarrow> archive_ok kit (with_object (sha256 kit b) b s)"
  using recorded_extends[OF _ with_object_extends, of kit s]
  by (fastforce simp: archive_ok_def content_addressed_def with_object_def split: if_splits)

lemma document_parts:
  "part (document_of i (artifact_document kit a pv f d n) prov a pv) [''artifact'', ''sha256''] = JStr (dg_sha256 d)"
  "part (document_of i (artifact_document kit a pv f d n) prov a pv) [''artifact'', ''size''] = JInt n"
  "part (document_of i (artifact_document kit a pv f d n) prov a pv) [''artifact'', ''original_filename''] = JStr f"
  "part (document_of i (artifact_document kit a pv f d n) prov a pv) [''id''] = JStr i"
  by (simp_all add: part_def document_of_def artifact_document_def)

lemma preserve_stream_ok:
  assumes hashes: "proper_hashes kit" and ok: "archive_ok kit s" and run: "preserve_stream kit i name rs prov a pv ex s = (r, s')"
  shows "archive_ok kit s' \<and> extends s s'"
proof -
  have "fresh_for kit i s" using ok by (simp add: archive_ok_def fresh_for_def has_key_def)
  note out = preserve_stream_outcome[OF hashes this run]
  show ?thesis
  proof (cases r)
    case (Ret doc)
    with out obtain b f prov' where doc: "doc = document_of i (artifact_document kit a pv f (digests_of kit b) (int (length b))) prov' a pv"
      and new: "\<not> has_key (ar_metadata s) i" "fullmatch ident_rx i" "validate_metadata doc = Inr ()"
      and size: "\<And>old. map_of (ar_objects s) (sha256 kit b) = Some old \<Longrightarrow> length old = length b"
      and s': "s' = (with_object (sha256 kit b) b s)\<lparr>ar_metadata := AList.update i (Some doc) (ar_metadata s)\<rparr>"
      by auto
    let ?t = "with_object (sha256 kit b) b s"
    have t: "archive_ok kit ?t" "ar_metadata ?t = ar_metadata s" using with_object_ok[OF ok] by (simp_all add: with_object_def)
    obtain c where c: "map_of (ar_objects ?t) (sha256 kit b) = Some c" "length c = length b"
      using size by (cases "map_of (ar_objects s) (sha256 kit b)") (auto simp: with_object_def has_key_map_of)
    have "sha256 kit c = sha256 kit b" using t(1) c(1) unfolding archive_ok_def content_addressed_def by metis
    with c new have "recorded kit ?t i doc"
      unfolding recorded_def doc document_parts by (auto simp: digests_of_def intro!: exI[of _ c])
    moreover have ext: "extends ?t s'" using new(1) t(2) by (auto simp: s' extends_def map_le_def has_key_map_of)
    ultimately have "recorded kit s' i doc" by (rule recorded_extends)
    moreover have "\<exists>v. g = Some v \<and> recorded kit s' j v" if "map_of (ar_metadata s) j = Some g" for j g
      using that t recorded_extends[OF _ ext, of kit] unfolding archive_ok_def by fastforce
    ultimately have "\<exists>v. g = Some v \<and> recorded kit s' j v" if "map_of (ar_metadata s') j = Some g" for j g
      using that by (cases "j = i") (auto simp: s')
    then have "archive_ok kit s'"
      using t(1) content_addressed_cong[of s' ?t kit] by (simp add: archive_ok_def s')
    with extends_trans[OF with_object_extends ext] show ?thesis by blast
  next
    case (Raise e)
    with out ok with_object_ok[OF ok] with_object_extends show ?thesis by auto
  qed (use out in simp)
qed

text \<open>The operations that write, in any order.\<close>

inductive archive_step :: "tools \<Rightarrow> archive \<Rightarrow> archive \<Rightarrow> bool" for kit where
  step_init: "init_archive s = (r, s') \<Longrightarrow> archive_step kit s s'"
| step_import: "import_artifact kit i url source orig path opened extra a s = (r, s') \<Longrightarrow> archive_step kit s s'"
| step_acquire: "acquire_http kit i url source orig response extra a s = (r, s') \<Longrightarrow> archive_step kit s s'"
| step_derive: "derive kit i parents role action tool orig path opened a s = (r, s') \<Longrightarrow> archive_step kit s s'"
| step_export: "build_export kit i output publication redistribution s = (r, s') \<Longrightarrow> archive_step kit s s'"

inductive_cases archive_stepE: "archive_step kit s s'"

definition ingests :: "tools \<Rightarrow> 'a aprog \<Rightarrow> bool" where
  "ingests kit m \<longleftrightarrow> (\<forall>s. archive_ok kit s \<longrightarrow> archive_ok kit (snd (m s)) \<and> extends s (snd (m s)))"

lemma ingests_pure: "ingests kit (ret x)" "ingests kit (raise e)" "ingests kit (raise_if b e)" "ingests kit (gets f)" "ingests kit (lift_archive v)"
  by (auto simp: ingests_def prog_defs lift_archive_def split: sum.split)

lemma ingests_bind: "ingests kit m \<Longrightarrow> (\<And>x. ingests kit (f x)) \<Longrightarrow> ingests kit (bind m f)"
  unfolding ingests_def bind_def by (auto split: prod.split outcome.split) (metis extends_trans snd_conv)+

lemma ingests_andThen: "ingests kit m \<Longrightarrow> ingests kit n \<Longrightarrow> ingests kit (andThen m n)"
  by (simp add: andThen_def ingests_bind)

lemma ingests_catch: "ingests kit m \<Longrightarrow> (\<And>e. ingests kit (h e)) \<Longrightarrow> ingests kit (catch m h)"
  unfolding ingests_def catch_def by (auto split: prod.split outcome.split) (metis extends_trans snd_conv)+

lemma ingests_preserve: "proper_hashes kit \<Longrightarrow> ingests kit (preserve_stream kit i name rs prov a pv ex)"
  unfolding ingests_def using preserve_stream_ok by (metis prod.collapse)

lemma ingests_load: "ingests kit (load_metadata i)"
  unfolding load_metadata_def
  by (intro ingests_andThen ingests_bind ingests_pure) (auto split: option.split intro: ingests_andThen ingests_pure)

lemma ingests_load_all: "ingests kit (load_all_metadata is)"
  by (induction "is") (auto intro: ingests_bind ingests_pure ingests_load)

lemma ingests_verify: "ingests kit (verify_one kit i)"
  unfolding verify_one_def
  by (intro ingests_bind ingests_load ingests_pure) (auto split: option.split intro: ingests_andThen ingests_pure)

lemma ingests_exports: "ingests kit (modify (\<lambda>s. s\<lparr>ar_exports := f s\<rparr>))" "ingests kit (modify (\<lambda>s. s\<lparr>ar_ready := True\<rparr>))"
  by (auto simp: ingests_def modify_def archive_ok_def content_addressed_def recorded_def extends_def)

lemmas ingests_rules = ingests_bind ingests_andThen ingests_catch ingests_pure ingests_load ingests_load_all ingests_verify ingests_exports

lemma archive_step_ok:
  assumes "proper_hashes kit" and "archive_step kit s s'" and "archive_ok kit s"
  shows "archive_ok kit s' \<and> extends s s'"
proof -
  note p = ingests_preserve[OF assms(1)]
  have "ingests kit init_archive" by (simp add: init_archive_def ingests_exports)
  moreover have "ingests kit (import_artifact kit i url source orig path opened extra a)" for i url source orig path opened extra a
    unfolding import_artifact_def by (intro ingests_bind ingests_pure) (auto split: option.split intro: p ingests_pure)
  moreover have "ingests kit (acquire_http kit i url source orig response extra a)" for i url source orig response extra a
    unfolding acquire_http_def by (intro ingests_bind ingests_pure) (auto split: option.split intro!: ingests_rules p)
  moreover have "ingests kit (derive kit i parents role action tool orig path opened a)" for i parents role action tool orig path opened a
    unfolding derive_def Let_def by (intro ingests_bind ingests_load_all) (auto split: option.split intro: p ingests_pure)
  moreover have "ingests kit (build_export kit i out publication redistribution)" for i out publication redistribution
    unfolding build_export_def Let_def by (intro ingests_rules)
  ultimately show ?thesis
    using assms(2,3) by (auto simp: ingests_def elim!: archive_stepE) (metis snd_conv)+
qed

lemma archive_steps_ok:
  assumes "proper_hashes kit" and "(archive_step kit)\<^sup>*\<^sup>* s s'" and "archive_ok kit s"
  shows "archive_ok kit s' \<and> extends s s'"
  using assms(2,3)
  by (induction rule: rtranclp_induct) (auto dest: archive_step_ok[OF assms(1)] intro: extends_trans)

section \<open>The claims\<close>

definition empty_archive :: archive where
  "empty_archive = \<lparr>ar_ready = False, ar_objects = [], ar_metadata = [], ar_locks = [], ar_quarantine = [], ar_exports = []\<rparr>"

lemma empty_archive_ok: "archive_ok kit empty_archive"
  by (simp add: empty_archive_def archive_ok_def content_addressed_def)

lemma verify_recorded:
  assumes "proper_hashes kit" and "recorded kit s i v" and "map_of (ar_metadata s) i = Some (Some v)"
  shows "verify_one kit i s = (Ret v, s)"
  using assms object_key_sha256[OF assms(1)]
  by (auto simp: recorded_def verify_one_def load_metadata_def validate_id_def lift_archive_def prog_defs)

lemma load_recorded: "recorded kit s i v \<Longrightarrow> map_of (ar_metadata s) i = Some (Some v) \<Longrightarrow> load_metadata i s = (Ret v, s)"
  by (auto simp: recorded_def load_metadata_def validate_id_def lift_archive_def prog_defs)

text \<open>C19: in every run of the archive from an empty directory, whatever is imported, downloaded, derived and
  exported, every recorded artifact verifies: its document is valid and its object has the recorded digest and
  size. Nothing that was stored is ever changed or removed, and no lock or partial file stays behind.\<close>

theorem archive_runs:
  assumes hashes: "proper_hashes kit" and runs: "(archive_step kit)\<^sup>*\<^sup>* empty_archive s" "(archive_step kit)\<^sup>*\<^sup>* s s'"
    and known: "has_key (ar_metadata s) i"
  shows "\<exists>v. map_of (ar_metadata s) i = Some (Some v) \<and> verify_one kit i s = (Ret v, s) \<and> verify_one kit i s' = (Ret v, s') \<and>
    map_of (ar_objects s) \<subseteq>\<^sub>m map_of (ar_objects s') \<and> ar_locks s' = [] \<and> ar_quarantine s' = []"
proof -
  have ok: "archive_ok kit s" using archive_steps_ok[OF hashes runs(1) empty_archive_ok] by simp
  have ok': "archive_ok kit s'" "extends s s'" using archive_steps_ok[OF hashes runs(2) ok] by simp_all
  obtain v where v: "map_of (ar_metadata s) i = Some (Some v)" "recorded kit s i v"
    using ok known by (fastforce simp: archive_ok_def has_key_map_of)
  have "map_of (ar_metadata s') i = Some (Some v)"
    using extends_metadata[OF ok'(2) v(1)] .
  with v ok' verify_recorded[OF hashes] recorded_extends[OF v(2) ok'(2)] show ?thesis
    by (auto simp: archive_ok_def extends_def)
qed

text \<open>C20: what is preserved can be read back. When an ingest into an archive in order returns a document, that
  document is what \<open>load_metadata\<close> gives for the id, its recorded digest and size are those of exactly the
  bytes the stream delivered, and it verifies; when it raises, no document was written and nothing stored changed.\<close>

theorem preserve_then_load:
  assumes hashes: "proper_hashes kit" and ok: "archive_ok kit s" and run: "preserve_stream kit i name rs prov a pv ex s = (r, s')"
  shows "case r of
      Ret doc \<Rightarrow> load_metadata i s' = (Ret doc, s') \<and> verify_one kit i s' = (Ret doc, s') \<and>
        part doc [''artifact'', ''sha256''] = JStr (sha256 kit (delivered rs)) \<and>
        part doc [''artifact'', ''size''] = JInt (int (length (delivered rs))) \<and> part doc [''id''] = JStr i \<and> extends s s'
    | Raise e \<Rightarrow> ar_metadata s' = ar_metadata s \<and> extends s s'
    | NoFuel \<Rightarrow> False"
proof -
  have fresh: "fresh_for kit i s" using ok by (simp add: archive_ok_def fresh_for_def has_key_def)
  note out = preserve_stream_outcome[OF hashes fresh run] and ok' = preserve_stream_ok[OF hashes ok run]
  show ?thesis
  proof (cases r)
    case (Ret doc)
    with out obtain b f prov' where copy: "copy_stream rs (in_max_bytes a) [] = (Inr (int (length b)), b)"
      and doc: "doc = document_of i (artifact_document kit a pv f (digests_of kit b) (int (length b))) prov' a pv"
      and s': "s' = (with_object (sha256 kit b) b s)\<lparr>ar_metadata := AList.update i (Some doc) (ar_metadata s)\<rparr>"
      by auto
    have b: "b = delivered rs" using copy_stream_returns[OF copy] by simp
    have m: "map_of (ar_metadata s') i = Some (Some doc)" by (simp add: s')
    with ok' have "recorded kit s' i doc" by (auto simp: archive_ok_def)
    with m verify_recorded[OF hashes] load_recorded ok' Ret show ?thesis
      unfolding doc by (auto simp: document_parts digests_of_def b)
  next
    case (Raise e)
    with out ok' show ?thesis by (auto simp: with_object_def)
  qed (use out in simp)
qed

lemma export_files_hold:
  "(if publication then publication_files kit i v name b else Inr (owner_files i v name b)) = Inr files \<Longrightarrow> \<exists>n. map_of files n = Some (Bytes b) \<and> ends_with name n"
proof (cases publication)
  case True
  assume "(if publication then publication_files kit i v name b else Inr (owner_files i v name b)) = Inr files"
  with True have "map_of files name = Some (Bytes b)"
    by (auto simp: publication_files_def create_file_def has_key_map_of Let_def split: option.splits sum.splits if_splits)
  then show ?thesis by (intro exI[of _ name]) (simp add: ends_with_def)
next
  case False
  assume "(if publication then publication_files kit i v name b else Inr (owner_files i v name b)) = Inr files"
  with False show ?thesis
    by (intro exI[of _ "''artifacts/'' @ name"]) (auto simp: owner_files_def Let_def ends_with_def)
qed

text \<open>C21: an export is what the rights allow. \<open>build_export\<close> in an archive in order succeeds only for a recorded
  artifact whose rights grant the kind of export asked for, creates one new export and changes nothing else, and the
  exported file holds bytes with the recorded digest and size; when it raises, nothing at all has changed.\<close>

theorem export_respects_rights:
  assumes hashes: "proper_hashes kit" and ok: "archive_ok kit s" and run: "build_export kit i out publication redistribution s = (r, s')"
  shows "case r of
      Ret final \<Rightarrow> \<exists>v files n b. map_of (ar_metadata s) i = Some (Some v) \<and>
        part v [''rights'', if publication then ''publish_to_bbs_filebase'' else ''export_from_archive''] = JBool True \<and>
        (redistribution \<longrightarrow> part v [''rights'', ''redistribute_original''] = JBool True) \<and>
        \<not> has_key (ar_exports s) final \<and> s' = s\<lparr>ar_exports := AList.update final files (ar_exports s)\<rparr> \<and>
        map_of files n = Some (Bytes b) \<and> part v [''artifact'', ''sha256''] = JStr (sha256 kit b) \<and> part v [''artifact'', ''size''] = JInt (int (length b))
    | Raise e \<Rightarrow> s' = s
    | NoFuel \<Rightarrow> False"
proof (cases "map_of (ar_metadata s) i")
  case None
  with run show ?thesis
    by (auto simp: build_export_def verify_one_def load_metadata_def validate_id_def lift_archive_def prog_defs split: if_splits)
next
  case (Some f)
  then obtain v where v: "f = Some v" "recorded kit s i v" using ok by (auto simp: archive_ok_def)
  then obtain b where b: "map_of (ar_objects s) (sha256 kit b) = Some b" "part v [''artifact'', ''sha256''] = JStr (sha256 kit b)"
      "part v [''artifact'', ''size''] = JInt (int (length b))"
    by (auto simp: recorded_def)
  let ?files = "\<lambda>name. if publication then publication_files kit i v name b else Inr (owner_files i v name b)"
  have run': "build_export kit i out publication redistribution s =
     (if part v [''rights'', if publication then ''publish_to_bbs_filebase'' else ''export_from_archive''] \<noteq> JBool True
      then (Raise (ArchiveError [if publication then ''publication denied'' else ''export denied'']), s)
      else if redistribution \<and> part v [''rights'', ''redistribute_original''] \<noteq> JBool True then (Raise (ArchiveError [''redistribution export denied'']), s)
      else if has_key (ar_exports s) (out @ ''/'' @ i) then (Raise (ArchiveError [''output already exists: '', out @ ''/'' @ i]), s)
      else case safe_filename (text_of (part v [''artifact'', ''original_filename''])) of Inl e \<Rightarrow> (Raise e, s)
        | Inr name \<Rightarrow> (case ?files name of Inl e \<Rightarrow> (Raise e, s)
            | Inr files \<Rightarrow> (Ret (out @ ''/'' @ i), s\<lparr>ar_exports := AList.update (out @ ''/'' @ i) files (ar_exports s)\<rparr>)))"
    unfolding build_export_def bind_returning[of "verify_one kit i" s v s, OF verify_recorded[OF hashes v(2) Some[unfolded v(1)]]]
    using b by (auto simp: Let_def object_key_sha256[OF hashes] lift_archive_def prog_defs split: sum.split)
  show ?thesis
    using run Some v(1) b export_files_hold[of publication kit i v _ b] unfolding run'
    by (auto split: sum.splits if_splits simp del: fun_upd_apply) blast+
qed

lemma dots_cleaned: "dots (map (\<lambda>c. if kept_char c then c else CHR ''_'') v) \<Longrightarrow> dots v"
  by (auto simp: dots_def map_eq_Cons_conv split: if_splits)

text \<open>A name that \<open>safe_filename\<close> accepts names a file in its directory: between 1 and 255 characters of the
  allowed ones, so no slash, backslash or NUL, and neither \<open>.\<close> nor \<open>..\<close>; and it refuses exactly the
  names whose last component is empty or dots.\<close>

theorem safe_filename_bounds:
  "case safe_filename v of
     Inr f \<Rightarrow> 1 \<le> length f \<and> length f \<le> 255 \<and> list_all kept_char f \<and> set f \<inter> {CHR ''/'', CHR 0x5C, CHR 0x00} = {} \<and> f \<noteq> ''.'' \<and> f \<noteq> ''..'' \<and> \<not> dots (last_component v)
   | Inl e \<Rightarrow> dots (last_component v)"
proof (cases "dots (last_component v)")
  case True
  then show ?thesis by (simp add: safe_filename_def Let_def)
next
  case False
  let ?c = "map (\<lambda>c. if kept_char c then c else CHR ''_'') (last_component v)"
  have c: "\<not> dots ?c" using False dots_cleaned by blast
  then have f: "safe_filename v = Inr (take 255 ?c)" using False by (simp add: safe_filename_def Let_def)
  define g where "g = take 255 ?c"
  have "kept_char (CHR ''_'')" by (simp add: kept_char_def)
  then have "kept_char x" if "x \<in> set ?c" for x
    using that by auto
  then have kept: "list_all kept_char g"
    unfolding g_def list_all_iff by (blast dest: in_set_takeD)
  have "\<not> kept_char (CHR ''/'')" "\<not> kept_char (CHR 0x5C)" "\<not> kept_char (CHR 0x00)"
    by (simp_all add: kept_char_def class_defs)
  with kept have "set g \<inter> {CHR ''/'', CHR 0x5C, CHR 0x00} = {}"
    by (auto simp: list_all_iff)
  moreover have "\<not> dots g"
  proof (cases "length ?c \<le> 255")
    case True
    with c show ?thesis by (simp add: g_def)
  next
    case False
    then have "length g = 255" by (simp add: g_def)
    then show ?thesis by (auto simp: dots_def)
  qed
  moreover have "length g \<le> 255" by (simp add: g_def)
  ultimately show ?thesis
    using False f kept unfolding g_def[symmetric] by (cases g) (auto simp: dots_def)
qed

section \<open>The claims on a small archive\<close>

definition demo_kit :: tools where
  "demo_kit = \<lparr>sha256 = (\<lambda>b. replicate 63 (CHR ''0'') @ [if even (length b) then CHR ''a'' else CHR ''b'']),
     sha1 = (\<lambda>b. replicate 40 (CHR ''1'')), md5 = (\<lambda>b. replicate 32 (CHR ''2'')),
     urlsplit = (\<lambda>u. \<lparr>url_scheme = ''HTTP'', url_hostname = Some ''x'', url_port = Some 80, url_path = ''a.zip'', url_query = []\<rparr>),
     guess_type = (\<lambda>f. None), zip_directory = (\<lambda>b. None), show_int = (\<lambda>n. ''80''), process_id = ''7'', acquired_at = ''now''\<rparr>"

definition demo_ingest :: ingest where
  "demo_ingest = \<lparr>in_expected_sha256 = None, in_expected_sha1 = None, in_expected_md5 = None, in_max_bytes = 10,
     in_rights_status = ''freeware'', in_install_locally = False, in_redistribute_original = False, in_publish = False,
     in_no_owner_export = False, in_rights_evidence = None, in_software_family = None, in_version = None, in_platform = None, in_notes = None\<rparr>"

definition demo_import :: "json aprog" where
  "demo_import = import_artifact demo_kit ''disk1'' ''HTTP://x/a.zip'' ''x'' None ''a.zip'' (Some [Data ''abc'', Data ''de'', Data []]) [] demo_ingest"

definition demo_archive :: archive where
  "demo_archive = snd (demo_import (empty_archive\<lparr>ar_ready := True\<rparr>))"

lemma demo_hashes: "proper_hashes demo_kit"
  by (simp add: proper_hashes_def demo_kit_def class_defs list_all_iff)

lemma demo_imported: "demo_import (empty_archive\<lparr>ar_ready := True\<rparr>) = (Ret (the (the (map_of (ar_metadata demo_archive) ''disk1''))), demo_archive)"
  by code_simp

lemma demo_archive_reached: "(archive_step demo_kit)\<^sup>*\<^sup>* empty_archive demo_archive"
proof -
  have "archive_step demo_kit empty_archive (empty_archive\<lparr>ar_ready := True\<rparr>)"
    by (rule step_init) (simp add: init_archive_def modify_def)
  moreover have "archive_step demo_kit (empty_archive\<lparr>ar_ready := True\<rparr>) demo_archive"
    using demo_imported unfolding demo_import_def by (rule step_import)
  ultimately show ?thesis by auto
qed

lemma demo_archive_known: "has_key (ar_metadata demo_archive) ''disk1''"
  by code_simp

theorem archive_runs_witness:
  "\<exists>v. map_of (ar_metadata demo_archive) ''disk1'' = Some (Some v) \<and> verify_one demo_kit ''disk1'' demo_archive = (Ret v, demo_archive)"
  using archive_runs[OF demo_hashes demo_archive_reached rtranclp.rtrancl_refl demo_archive_known] by blast

theorem preserve_then_load_witness:
  "\<exists>doc s. preserve_stream demo_kit ''disk1'' ''a.zip'' [Data ''abc'', Data ''de''] [(''acquired_at'', JStr ''now''), (''source'', JStr ''x'')] demo_ingest original None
      (empty_archive\<lparr>ar_ready := True\<rparr>) = (Ret doc, s) \<and> part doc [''artifact'', ''size''] = JInt 5 \<and> load_metadata ''disk1'' s = (Ret doc, s)"
proof -
  let ?run = "preserve_stream demo_kit ''disk1'' ''a.zip'' [Data ''abc'', Data ''de''] [(''acquired_at'', JStr ''now''), (''source'', JStr ''x'')] demo_ingest original None
      (empty_archive\<lparr>ar_ready := True\<rparr>)"
  have ok: "archive_ok demo_kit (empty_archive\<lparr>ar_ready := True\<rparr>)"
    by (simp add: empty_archive_def archive_ok_def content_addressed_def)
  have "case fst ?run of Ret _ \<Rightarrow> True | _ \<Rightarrow> False" by code_simp
  then obtain doc s where run: "?run = (Ret doc, s)" by (cases ?run) (auto split: outcome.splits)
  with preserve_then_load[OF demo_hashes ok run] show ?thesis by auto
qed

theorem export_respects_rights_witness:
  "\<exists>s. build_export demo_kit ''disk1'' ''out'' False False demo_archive = (Ret ''out/disk1'', s) \<and> has_key (ar_exports s) ''out/disk1'' \<and>
     build_export demo_kit ''disk1'' ''out'' True False demo_archive = (Raise (ArchiveError [''publication denied'']), demo_archive)"
proof -
  have ok: "archive_ok demo_kit demo_archive"
    using archive_steps_ok[OF demo_hashes demo_archive_reached empty_archive_ok] by simp
  have "fst (build_export demo_kit ''disk1'' ''out'' False False demo_archive) = Ret ''out/disk1''"
    "fst (build_export demo_kit ''disk1'' ''out'' True False demo_archive) = Raise (ArchiveError [''publication denied''])"
    by code_simp+
  then obtain s t where own: "build_export demo_kit ''disk1'' ''out'' False False demo_archive = (Ret ''out/disk1'', s)"
    and pub: "build_export demo_kit ''disk1'' ''out'' True False demo_archive = (Raise (ArchiveError [''publication denied'']), t)"
    by (metis prod.collapse)
  from export_respects_rights[OF demo_hashes ok own] export_respects_rights[OF demo_hashes ok pub] own pub show ?thesis
    by (auto simp: has_key_map_of)
qed

end
