(* ===== verification/Dos_Facts.thy ===== *)
theory Dos_Facts
  imports Dos Archive_Facts
begin

text \<open>
  What the DOS foundation promises: a node belongs to one session and a session to one node in every run of the
  allocator, an accepted file name is an 8.3 name that names no device, and provisioning hands on preserved
  bytes of the pinned identity only.
\<close>

section \<open>The node allocator\<close>

inductive allocator_step :: "allocator \<Rightarrow> allocator \<Rightarrow> bool" where
  step_allocate: "allocate sid a = (r, a') \<Longrightarrow> allocator_step a a'"
| step_release: "release node sid a = (r, a') \<Longrightarrow> allocator_step a a'"
| step_recover: "recover_stale active a = (r, a') \<Longrightarrow> allocator_step a a'"

inductive_cases allocator_stepE: "allocator_step a a'"

definition allocator_ok :: "int \<Rightarrow> allocator \<Rightarrow> bool" where
  "allocator_ok c a \<longleftrightarrow> al_capacity a = c \<and> wf_dict (al_allocated a) \<and> distinct (map snd (al_allocated a)) \<and>
     fst ` set (al_allocated a) \<subseteq> {1..c}"

lemma distinct_snd_filter: "distinct (map snd d) \<Longrightarrow> distinct (map snd (filter p d))"
  by (induction d) auto

lemma distinct_snd_delete: "distinct (map snd d) \<Longrightarrow> distinct (map snd (AList.delete k d))"
  by (simp add: AList.delete_eq distinct_snd_filter)

lemma allocator_ok_delete: "allocator_ok c a \<Longrightarrow> allocator_ok c (a\<lparr>al_allocated := AList.delete n (al_allocated a)\<rparr>)"
  by (auto simp: allocator_ok_def distinct_snd_delete keys_delete)

lemma allocator_ok_deletes: "allocator_ok c a \<Longrightarrow> allocator_ok c (a\<lparr>al_allocated := fold AList.delete ns (al_allocated a)\<rparr>)"
proof (induction ns arbitrary: a)
  case (Cons n ns)
  from Cons.IH[OF allocator_ok_delete[OF Cons.prems, of n]] show ?case by simp
qed simp

lemma find_owner_None: "List.find (\<lambda>(node, owner). owner = sid) d = None \<longleftrightarrow> sid \<notin> snd ` set d"
  by (force simp: find_None_iff)

lemma find_owner_Some: "List.find (\<lambda>(node, owner). owner = sid) d = Some (n, w) \<Longrightarrow> (n, w) \<in> set d \<and> w = sid"
  by (auto simp: find_Some_iff) (metis nth_mem)

lemma owner_unique: "distinct (map snd d) \<Longrightarrow> (m, w) \<in> set d \<Longrightarrow> (n, w) \<in> set d \<Longrightarrow> m = n"
  by (induction d) force+

lemma free_node_Some:
  assumes "free_node a = Some n"
  shows "1 \<le> n \<and> n \<le> al_capacity a \<and> \<not> has_key (al_allocated a) n \<and> (\<forall>m. 1 \<le> m \<and> m < n \<longrightarrow> has_key (al_allocated a) m)"
proof -
  obtain i where i: "i < length [1..al_capacity a]" "\<not> has_key (al_allocated a) ([1..al_capacity a] ! i)" "n = [1..al_capacity a] ! i"
    and before: "\<And>j. j < i \<Longrightarrow> has_key (al_allocated a) ([1..al_capacity a] ! j)"
    using assms by (auto simp: free_node_def find_Some_iff)
  have n: "n = 1 + int i" using i by (simp add: nth_upto)
  have "has_key (al_allocated a) m" if "1 \<le> m" "m < n" for m
    using before[of "nat (m - 1)"] that n i(1) by (simp add: nth_upto nat_less_iff)
  with i n show ?thesis by auto
qed

lemma free_node_None: "free_node a = None \<longleftrightarrow> (\<forall>n \<in> {1..al_capacity a}. has_key (al_allocated a) n)"
  by (auto simp: free_node_def find_None_iff)

text \<open>The abstract pool: nodes and the sessions that hold them. Taking a node for a session that holds one gives that
  node; otherwise the lowest free node is the session's from then on, and the request fails when there is none.\<close>

definition held_by :: "allocator \<Rightarrow> string \<Rightarrow> int set" where
  "held_by a sid = {n. map_of (al_allocated a) n = Some sid}"

definition free_nodes :: "allocator \<Rightarrow> int set" where
  "free_nodes a = {1..al_capacity a} - fst ` set (al_allocated a)"

lemma allocate_outcome:
  assumes ok: "allocator_ok c a"
  shows "(\<exists>n. held_by a sid = {n} \<and> allocate sid a = (Ret n, a)) \<or>
    (\<exists>n. held_by a sid = {} \<and> n \<in> free_nodes a \<and> (\<forall>m \<in> free_nodes a. n \<le> m) \<and>
       allocate sid a = (Ret n, a\<lparr>al_allocated := AList.update n sid (al_allocated a)\<rparr>)) \<or>
    (held_by a sid = {} \<and> free_nodes a = {} \<and> allocate sid a = (Raise (config_error ''DOS node capacity exhausted''), a))"
proof (cases "List.find (\<lambda>(node, owner). owner = sid) (al_allocated a)")
  case (Some p)
  obtain n w where p: "p = (n, w)" by (cases p)
  with find_owner_Some[OF Some[unfolded p]] have n: "p = (n, sid)" "(n, sid) \<in> set (al_allocated a)" by auto
  have wf: "distinct (map fst (al_allocated a))" "distinct (map snd (al_allocated a))"
    using ok by (simp_all add: allocator_ok_def wf_dict_def)
  have "held_by a sid = {n}"
    unfolding held_by_def map_of_eq_Some_iff[OF wf(1)] using n(2) owner_unique[OF wf(2)] by blast
  with Some n show ?thesis by (simp add: allocate_def prog_defs)
next
  case None
  then have empty: "held_by a sid = {}"
    using None find_owner_None[of sid] by (force simp: held_by_def dest: map_of_SomeD)
  show ?thesis
  proof (cases "free_node a")
    case (Some n)
    then have "n \<in> free_nodes a \<and> (\<forall>m \<in> free_nodes a. n \<le> m)"
      using free_node_Some[OF Some] by (force simp: free_nodes_def has_key_def)
    with Some None empty show ?thesis by (simp add: allocate_def prog_defs)
  next
    case fnone: None
    then have "free_nodes a = {}" by (auto simp: free_nodes_def free_node_None has_key_def)
    with None fnone empty show ?thesis by (simp add: allocate_def prog_defs)
  qed
qed

lemma allocator_ok_allocate:
  assumes "allocator_ok c a" and "allocate sid a = (r, a')"
  shows "allocator_ok c a'"
proof -
  have "allocator_ok c (a\<lparr>al_allocated := AList.update n sid (al_allocated a)\<rparr>)" if "held_by a sid = {}" "n \<in> free_nodes a" for n
  proof -
    have "sid \<notin> snd ` set (al_allocated a)"
      using that(1) assms(1) by (auto simp: held_by_def allocator_ok_def wf_dict_def map_of_eq_Some_iff)
    with that(2) assms(1) show ?thesis
      by (auto simp: allocator_ok_def free_nodes_def update_notin wf_dict_def)
  qed
  with allocate_outcome[OF assms(1), of sid] assms show ?thesis by auto
qed

lemma allocator_steps_ok: "allocator_step\<^sup>*\<^sup>* a a' \<Longrightarrow> allocator_ok c a \<Longrightarrow> allocator_ok c a'"
proof (induction rule: rtranclp_induct)
  case (step a' a'')
  then have ok: "allocator_ok c a'" by simp
  from step.hyps(2) show ?case
  proof (cases rule: allocator_step.cases)
    case (step_allocate sid r)
    then show ?thesis using allocator_ok_allocate[OF ok] by blast
  next
    case (step_release node sid r)
    then show ?thesis using ok allocator_ok_delete[OF ok] by (auto simp: release_def prog_defs split: if_splits)
  next
    case (step_recover active r)
    then show ?thesis using allocator_ok_deletes[OF ok] by (auto simp: recover_stale_def prog_defs)
  qed
qed simp

lemma new_allocator_ok: "new_allocator c = Inr a \<Longrightarrow> allocator_ok c a"
  by (auto simp: new_allocator_def allocator_ok_def split: if_splits)

text \<open>C23: in every run of the node allocator, through allocations, releases and recoveries of stale nodes, every held node
  is one of \<open>1..capacity\<close> and no session holds two. A session that asks gets the node it holds, or else the lowest
  free node, which is then its own while every other node stays as it was, and asking again gives the same node; the
  request fails, changing nothing, exactly when it holds none and none is free.\<close>

theorem allocator_runs:
  assumes "new_allocator capacity = Inr a0" and "allocator_step\<^sup>*\<^sup>* a0 a"
  shows "fst ` set (al_allocated a) \<subseteq> {1..capacity} \<and> distinct (map fst (al_allocated a)) \<and> distinct (map snd (al_allocated a)) \<and>
    (case allocate sid a of
       (Ret n, a') \<Rightarrow> n \<in> {1..capacity} \<and> held_by a sid \<subseteq> {n} \<and> (held_by a sid = {} \<longrightarrow> (\<forall>m \<in> {1..<n}. has_key (al_allocated a) m)) \<and>
         map_of (al_allocated a') = (map_of (al_allocated a))(n \<mapsto> sid) \<and> allocate sid a' = (Ret n, a')
     | (Raise e, a') \<Rightarrow> a' = a \<and> held_by a sid = {} \<and> fst ` set (al_allocated a) = {1..capacity}
     | (NoFuel, a') \<Rightarrow> False)"
proof -
  have ok: "allocator_ok capacity a" using allocator_steps_ok[OF assms(2) new_allocator_ok[OF assms(1)]] .
  have parts: "al_capacity a = capacity" "fst ` set (al_allocated a) \<subseteq> {1..capacity}" "distinct (map fst (al_allocated a))"
    "distinct (map snd (al_allocated a))"
    using ok by (simp_all add: allocator_ok_def wf_dict_def)
  note out = allocate_outcome[OF ok, of sid]
  obtain r a' where run: "allocate sid a = (r, a')" by fastforce
  show ?thesis
  proof (cases r)
    case (Ret n)
    with out run consider (old) "held_by a sid = {n}" "a' = a"
      | (new) "held_by a sid = {}" "n \<in> free_nodes a" "\<forall>m \<in> free_nodes a. n \<le> m" "a' = a\<lparr>al_allocated := AList.update n sid (al_allocated a)\<rparr>" by auto
    then have n: "map_of (al_allocated a') = (map_of (al_allocated a))(n \<mapsto> sid) \<and> n \<in> {1..capacity} \<and> held_by a sid \<subseteq> {n} \<and>
        (held_by a sid = {} \<longrightarrow> (\<forall>m \<in> {1..<n}. has_key (al_allocated a) m))"
    proof cases
      case old
      then have m: "map_of (al_allocated a) n = Some sid" by (auto simp: held_by_def)
      have "n \<in> {1..capacity}" using map_of_SomeD[OF m] parts(2) by force
      with m old show ?thesis by (simp add: map_upd_triv)
    next
      case new
      then have "n \<in> {1..capacity}" using parts(1) by (simp add: free_nodes_def)
      moreover have "m \<notin> free_nodes a" if "m < n" for m using new(3) that by force
      ultimately have "has_key (al_allocated a) m" if "m \<in> {1..<n}" for m
        using that parts(1) by (auto simp: free_nodes_def has_key_def)
      with new \<open>n \<in> {1..capacity}\<close> show ?thesis by simp
    qed
    note again_out = allocate_outcome[OF allocator_ok_allocate[OF ok run], of sid]
    have "n \<in> held_by a' sid" using n by (simp add: held_by_def)
    with again_out have again: "allocate sid a' = (outcome.Ret n, a')" by auto
    with run Ret parts n again show ?thesis by simp
  next
    case (Raise e)
    with out run parts show ?thesis by (auto simp: free_nodes_def)
  next
    case NoFuel
    with out run show ?thesis by auto
  qed
qed

theorem allocator_runs_witness:
  "\<exists>a0 a. new_allocator 2 = Inr a0 \<and> allocator_step\<^sup>*\<^sup>* a0 a \<and> allocate ''b'' a = (Ret 1, \<lparr>al_capacity = 2, al_allocated = [(2, ''c''), (1, ''b'')]\<rparr>) \<and>
     fst ` set (al_allocated a) \<subseteq> {1..2}"
proof -
  let ?a = "\<lparr>al_capacity = 2, al_allocated = [(2, ''c'')]\<rparr>"
  have steps: "allocator_step\<^sup>*\<^sup>* \<lparr>al_capacity = 2, al_allocated = []\<rparr> ?a"
    by (rule rtranclp.rtrancl_into_rtrancl[OF rtranclp.rtrancl_into_rtrancl[OF r_into_rtranclp]], 
        rule step_allocate[of "''a''" _ "Ret 1" "\<lparr>al_capacity = 2, al_allocated = [(1, ''a'')]\<rparr>"], code_simp,
        rule step_allocate[of "''c''" _ "Ret 2" "\<lparr>al_capacity = 2, al_allocated = [(1, ''a''), (2, ''c'')]\<rparr>"], code_simp,
        rule step_release[of 1 "Some ''a''" _ "Ret True"], code_simp)
  have start: "new_allocator 2 = Inr \<lparr>al_capacity = 2, al_allocated = []\<rparr>" by (simp add: new_allocator_def)
  have "allocate ''b'' ?a = (Ret 1, \<lparr>al_capacity = 2, al_allocated = [(2, ''c''), (1, ''b'')]\<rparr>)" by code_simp
  with start steps allocator_runs[OF start steps, of "''b''"] show ?thesis by blast
qed

section \<open>File names\<close>

lemma DOS_NAME_rx_iff: "fullmatch DOS_NAME_rx s \<longleftrightarrow>
  (\<exists>a e. s = a @ (if e = [] then [] else CHR ''.'' # e) \<and> a \<noteq> [] \<and> list_all dos_char a \<and> list_all dos_char e)"
proof -
  let ?ext = "Opt (Cat (Lit (CHR ''.'')) (Plus (Cls dos_char)))"
  have ext: "matches ?ext u \<longleftrightarrow> (\<exists>e. u = (if e = [] then [] else CHR ''.'' # e) \<and> list_all dos_char e)" for u
    by (cases u) (auto simp: Lit_def)
  have "fullmatch DOS_NAME_rx s \<longleftrightarrow> (\<exists>a u. s = a @ u \<and> (a \<noteq> [] \<and> list_all dos_char a) \<and> matches ?ext u)"
    unfolding fullmatch_iff DOS_NAME_rx_def matches_Cat matches_plus_cls by blast
  then show ?thesis unfolding ext by blast
qed

lemma dos_char_no_dot: "dos_char c \<Longrightarrow> c \<noteq> CHR ''.'' \<and> c \<noteq> CHR ''/'' \<and> c \<noteq> CHR 0x5C"
  by (auto simp: dos_char_def class_defs code_point_def)

lemma stem_and_suffix:
  assumes "list_all dos_char a"
  shows "stem_of (a @ (if e = [] then [] else CHR ''.'' # e)) = a" "suffix_of (a @ (if e = [] then [] else CHR ''.'' # e)) = e"
proof -
  have "takeWhile (\<lambda>c. c \<noteq> CHR ''.'') a = a" "dropWhile (\<lambda>c. c \<noteq> CHR ''.'') a = []"
    using assms dos_char_no_dot by (auto simp: list_all_iff)
  moreover have "takeWhile (\<lambda>c. c \<noteq> CHR ''.'') (a @ CHR ''.'' # e) = a" "dropWhile (\<lambda>c. c \<noteq> CHR ''.'') (a @ CHR ''.'' # e) = CHR ''.'' # e"
    using assms dos_char_no_dot by (auto simp: list_all_iff takeWhile_append2 dropWhile_append2)
  ultimately show "stem_of (a @ (if e = [] then [] else CHR ''.'' # e)) = a" "suffix_of (a @ (if e = [] then [] else CHR ''.'' # e)) = e"
    by (auto simp: stem_of_def suffix_of_def)
qed

text \<open>A name in the 8.3 form.\<close>

definition name83 :: "string \<Rightarrow> string \<Rightarrow> bool" where
  "name83 a e \<longleftrightarrow> a \<noteq> [] \<and> length a \<le> 8 \<and> length e \<le> 3 \<and> list_all dos_char a \<and> list_all dos_char e"

definition dos_name :: "string \<Rightarrow> string \<Rightarrow> string" where
  "dos_name a e = a @ (if e = [] then [] else CHR ''.'' # e)"

lemma validate_dos_filename_iff: "validate_dos_filename n = Inr r \<longleftrightarrow>
  r = upper n \<and> (\<exists>a e. n = dos_name a e \<and> name83 a e \<and> upper a \<notin> set RESERVED)"
proof
  assume "validate_dos_filename n = Inr r"
  then have v: "fullmatch DOS_NAME_rx n" "upper (stem_of n) \<notin> set RESERVED" "length (upper (stem_of n)) \<le> 8"
    "CHR ''.'' \<in> set n \<longrightarrow> length (suffix_of n) \<le> 3" "r = upper n"
    by (auto simp: validate_dos_filename_def Let_def split: if_splits)
  from v(1) obtain a e where n: "n = dos_name a e" "a \<noteq> []" "list_all dos_char a" "list_all dos_char e"
    unfolding DOS_NAME_rx_iff dos_name_def by blast
  have "stem_of n = a" "suffix_of n = e" using stem_and_suffix[OF n(3)] n(1) by (auto simp: dos_name_def)
  with v(2-4) have "upper a \<notin> set RESERVED" "length (upper a) \<le> 8" "CHR ''.'' \<in> set n \<longrightarrow> length e \<le> 3" by simp_all
  then have "name83 a e" "upper a \<notin> set RESERVED" using n by (cases "e = []"; simp add: name83_def dos_name_def upper_def)+
  with v(5) n(1) show "r = upper n \<and> (\<exists>a e. n = dos_name a e \<and> name83 a e \<and> upper a \<notin> set RESERVED)" by blast
next
  assume "r = upper n \<and> (\<exists>a e. n = dos_name a e \<and> name83 a e \<and> upper a \<notin> set RESERVED)"
  then obtain a e where n: "r = upper n" "n = dos_name a e" "name83 a e" "upper a \<notin> set RESERVED" by blast
  have "stem_of n = a" "suffix_of n = e" using stem_and_suffix[of a e] n(2,3) by (auto simp: dos_name_def name83_def)
  moreover have "fullmatch DOS_NAME_rx n" unfolding DOS_NAME_rx_iff using n(2,3) by (auto simp: dos_name_def name83_def)
  moreover have "n \<noteq> []" "CHR ''/'' \<notin> set n" "CHR 0x5C \<notin> set n"
    using n(2,3) dos_char_no_dot by (auto simp: dos_name_def name83_def list_all_iff)
  ultimately show "validate_dos_filename n = Inr r"
    using n by (simp add: validate_dos_filename_def Let_def name83_def upper_def)
qed

lemma upper_char_idem: "upper_char (upper_char c) = upper_char c"
  by (auto simp: upper_char_def Let_def class_defs)

lemma upper_idem: "upper (upper s) = upper s"
  by (simp add: upper_def upper_char_idem)

lemma dos_char_ascii: "dos_char c \<Longrightarrow> code_point c < 224"
  by (auto simp: dos_char_def alnum_def is_digit_def is_lower_def is_upper_def code_point_def)

lemma dos_char_upper: "dos_char c \<Longrightarrow> dos_char (upper_char c)"
proof (cases "is_lower c")
  case True
  then have "is_upper (char_of (code_point c - 32))" by (auto simp: is_lower_def is_upper_def)
  with True show ?thesis by (simp add: dos_char_def upper_char_def Let_def alnum_def)
next
  case False
  assume "dos_char c"
  with False dos_char_ascii[of c] show ?thesis by (simp add: upper_char_def Let_def)
qed

lemma upper_dos_name: "upper (dos_name a e) = dos_name (upper a) (upper e)"
  by (simp add: dos_name_def upper_def) (simp add: upper_char_def Let_def class_defs code_point_def)

lemma name83_upper: "name83 a e \<Longrightarrow> name83 (upper a) (upper e)"
  by (auto simp: name83_def upper_def list_all_iff dos_char_upper)

text \<open>C24: the names \<open>validate_dos_filename\<close> accepts are exactly those in the 8.3 form whose stem is no device name
  in either case, and what it returns is the upper-case name, again in that form, of the same meaning: an accepted
  name is returned unchanged when it is checked again.\<close>

theorem dos_filenames:
  "validate_dos_filename n = Inr r \<longleftrightarrow>
     (\<exists>a e. n = dos_name a e \<and> name83 a e \<and> upper a \<notin> set RESERVED \<and>
        r = dos_name (upper a) (upper e) \<and> name83 (upper a) (upper e) \<and> validate_dos_filename r = Inr r)"
proof
  assume "validate_dos_filename n = Inr r"
  then obtain a e where n: "n = dos_name a e" "name83 a e" "upper a \<notin> set RESERVED" and "r = upper n"
    unfolding validate_dos_filename_iff by blast
  then have r: "r = dos_name (upper a) (upper e)" "name83 (upper a) (upper e)" by (simp_all add: upper_dos_name name83_upper)
  moreover from this n(3) have "validate_dos_filename r = Inr r"
    unfolding validate_dos_filename_iff by (intro conjI exI[of _ "upper a"] exI[of _ "upper e"]) (simp_all add: upper_dos_name upper_idem)
  ultimately show "\<exists>a e. n = dos_name a e \<and> name83 a e \<and> upper a \<notin> set RESERVED \<and>
        r = dos_name (upper a) (upper e) \<and> name83 (upper a) (upper e) \<and> validate_dos_filename r = Inr r"
    using n by blast
qed (auto simp: validate_dos_filename_iff upper_dos_name)

section \<open>Links of a source archive\<close>

text \<open>The check of a link looks at the link's own name once more and never at what the link points to.\<close>

lemma links_uninspected: "check_members root (m\<lparr>tm_kind := Symlink t\<rparr> # ms) = check_members root (m\<lparr>tm_kind := Symlink u\<rparr> # ms)"
  by (simp add: Let_def)

lemma link_escape_accepted: "check_members [''build''] [\<lparr>tm_name = ''src/l'', tm_kind = Symlink ''/etc''\<rparr>, \<lparr>tm_name = ''src/l/passwd'', tm_kind = Regular\<rparr>] = Inr ()"
  by code_simp

section \<open>Provisioning\<close>

text \<open>A document that matches a pinned input: digest, size where one is pinned, and role.\<close>

definition pinned :: "pinned_input \<Rightarrow> json \<Rightarrow> bool" where
  "pinned p v \<longleftrightarrow> part v [''artifact'', ''sha256''] = JStr (pi_sha256 p) \<and>
     (pi_size p = 0 \<or> part v [''artifact'', ''size''] = JInt (pi_size p)) \<and>
     (part v [''artifact'', ''role''] = JStr (pi_role p) \<or>
       pi_role p = ''source_code'' \<and> part v [''artifact'', ''role''] = JStr ''preservation_original'')"

definition consumed :: "string \<Rightarrow> json \<Rightarrow> string \<Rightarrow> string \<Rightarrow> verified_input" where
  "consumed i v d b = \<lparr>vi_artifact_id = i, vi_bytes = b, vi_sha256 = d, vi_size = int (length b),
     vi_role = text_of (part v [''artifact'', ''role'']), vi_rights = part v [''rights''], vi_source = part v [''provenance'']\<rparr>"

definition input_id :: "pinned_input \<Rightarrow> string option \<Rightarrow> string" where
  "input_id p i = (if truthy i then the i else pi_artifact_id p)"

lemma verify_recorded_input:
  assumes hashes: "proper_hashes kit" and rec: "recorded kit s i v" "map_of (ar_metadata s) i = Some (Some v)" and ready: "ar_ready s"
    and i: "input_id p j = i" and proper: "lower (pi_sha256 p) = pi_sha256 p"
  shows "(pinned p v \<and> (\<exists>b. map_of (ar_objects s) (pi_sha256 p) = Some b \<and> sha256 kit b = pi_sha256 p \<and>
             part v [''artifact'', ''size''] = JInt (int (length b)) \<and>
             verify_preserved_input kit p j s = (Ret (consumed i v (pi_sha256 p) b), s))) \<or>
         (\<not> pinned p v \<and> (\<exists>t. verify_preserved_input kit p j s = (Raise (provisioning_error i t), s)))"
proof -
  obtain b where b: "map_of (ar_objects s) (sha256 kit b) = Some b" "part v [''artifact'', ''sha256''] = JStr (sha256 kit b)"
    "part v [''artifact'', ''size''] = JInt (int (length b))"
    using rec by (auto simp: recorded_def)
  have load: "load_metadata i s = (Ret v, s)" by (rule load_recorded[OF rec])
  have low: "lower (sha256 kit b) = sha256 kit b" using hashes by (simp add: proper_hashes_def lower_hex_lower)
  have key: "object_key (sha256 kit b) = Inr (sha256 kit b)" by (rule object_key_sha256[OF hashes])
  have run: "verify_preserved_input kit p j s =
      (if sha256 kit b \<noteq> pi_sha256 p then (Raise (provisioning_error i '': metadata digest is not the pinned digest''), s)
       else if pi_size p \<noteq> 0 \<and> int (length b) \<noteq> pi_size p then (Raise (provisioning_error i '': metadata size is not the pinned size''), s)
       else if part v [''artifact'', ''role''] \<noteq> JStr (pi_role p) \<and> \<not> (pi_role p = ''source_code'' \<and> part v [''artifact'', ''role''] = JStr ''preservation_original'')
         then (Raise (provisioning_error i '': preservation role is not the pinned role''), s)
       else (Ret (consumed i v (pi_sha256 p) b), s))"
    using b key low load ready
    by (auto simp: verify_preserved_input_def Let_def i[unfolded input_id_def] prog_defs from_archive_def require_archive_def
      size_field_def lift_archive_def consumed_def)
  show ?thesis unfolding run using b by (auto simp: pinned_def)
qed

lemma archive_ok_recorded: "archive_ok kit s \<Longrightarrow> map_of (ar_metadata s) i = Some (Some v) \<Longrightarrow> recorded kit s i v"
  by (fastforce simp: archive_ok_def)

text \<open>A pinned input is consumed with the same result now and after any further run of the archive, and an input that is
  not the pinned one is refused.\<close>

lemma input_consumed:
  assumes "proper_hashes kit" and "archive_ok kit s" and "ar_ready s" and "lower (pi_sha256 p) = pi_sha256 p"
    and "map_of (ar_metadata s) (input_id p j) = Some (Some v)" and "pinned p v"
  obtains x where "\<And>s'. (archive_step kit)\<^sup>*\<^sup>* s s' \<Longrightarrow> verify_preserved_input kit p j s' = (Ret x, s')"
    and "sha256 kit (vi_bytes x) = pi_sha256 p" and "map_of (ar_objects s) (pi_sha256 p) = Some (vi_bytes x)"
    and "pi_size p \<noteq> 0 \<Longrightarrow> int (length (vi_bytes x)) = pi_size p"
proof -
  note at = verify_recorded_input[OF assms(1) _ _ _ refl assms(4)]
  from at[OF archive_ok_recorded[OF assms(2,5)] assms(5,3)] assms(6)
  obtain b where b: "map_of (ar_objects s) (pi_sha256 p) = Some b" "sha256 kit b = pi_sha256 p" "part v [''artifact'', ''size''] = JInt (int (length b))"
    by blast
  show thesis
  proof (rule that)
    fix s' assume "(archive_step kit)\<^sup>*\<^sup>* s s'"
    then have s': "archive_ok kit s'" "extends s s'" using archive_steps_ok[OF assms(1) _ assms(2)] by auto
    then have m: "map_of (ar_metadata s') (input_id p j) = Some (Some v)" "ar_ready s'" "map_of (ar_objects s') (pi_sha256 p) = Some b"
      using extends_metadata[OF _ assms(5)] assms(3) b(1) by (auto simp: extends_def map_le_def dom_def)
    show "verify_preserved_input kit p j s' = (Ret (consumed (input_id p j) v (pi_sha256 p) b), s')"
      using at[OF archive_ok_recorded[OF s'(1) m(1)] m(1,2)] assms(6) m(3) by auto
  qed (use b assms(6) in \<open>auto simp: consumed_def pinned_def\<close>)
qed

lemma input_refused:
  assumes "proper_hashes kit" and "archive_ok kit s" and "ar_ready s" and "lower (pi_sha256 p) = pi_sha256 p"
    and "map_of (ar_metadata s) (input_id p j) = Some (Some v)" and "\<not> pinned p v"
  shows "\<exists>t. verify_preserved_input kit p j s = (Raise (provisioning_error (input_id p j) t), s)"
  using verify_recorded_input[OF assms(1) archive_ok_recorded[OF assms(2,5)] assms(5,3) refl assms(4)] assms(6) by blast

lemma pinned_digests: "lower (pi_sha256 DOSEMU2_SOURCE) = pi_sha256 DOSEMU2_SOURCE"
  "lower (pi_sha256 FDPP_SOURCE) = pi_sha256 FDPP_SOURCE" "lower (pi_sha256 FREEDOS_M1) = pi_sha256 FREEDOS_M1"
  by code_simp+

text \<open>\<open>provisioning_manifest\<close> of three inputs whose documents are there: the checks of the objects never fail, for every
  object in an archive in order is what its document says.\<close>

definition acceptable :: "json \<Rightarrow> json \<Rightarrow> json \<Rightarrow> dos_path \<Rightarrow> dos_path \<Rightarrow> bool" where
  "acceptable vd vf vz root runtime \<longleftrightarrow> pinned DOSEMU2_SOURCE vd \<and> pinned FDPP_SOURCE vf \<and> pinned FREEDOS_M1 vz \<and>
     \<not> below root runtime"

lemma not_below: "runtime = root \<or> in_parents root runtime \<longleftrightarrow> below root runtime"
  by (auto simp: in_parents_def below_def)


text \<open>An archive that holds the three inputs, for a digest function that tells them by their lengths.\<close>

definition filler :: "pinned_input \<Rightarrow> string" where
  "filler p = replicate (nat (pi_size p)) (CHR ''x'')"

definition pin_hash :: "string \<Rightarrow> string" where
  "pin_hash b = (case List.find (\<lambda>p. int (length b) = pi_size p) [DOSEMU2_SOURCE, FDPP_SOURCE, FREEDOS_M1] of
     Some p \<Rightarrow> pi_sha256 p | None \<Rightarrow> replicate 64 (CHR ''0''))"

definition pin_kit :: tools where
  "pin_kit = demo_kit\<lparr>sha256 := pin_hash\<rparr>"

definition pin_document :: "pinned_input \<Rightarrow> json" where
  "pin_document p = JDict [(''schema_version'', JInt 1), (''kind'', JStr ''artifact''), (''id'', JStr (pi_artifact_id p)),
     (''artifact'', JDict [(''sha256'', JStr (pi_sha256 p)), (''size'', JInt (pi_size p)), (''role'', JStr (pi_role p)), (''original_filename'', JStr ''a.zip'')]),
     (''provenance'', JDict [(''acquired_at'', JStr ''now''), (''source'', JStr ''x'')]),
     (''rights'', JDict ((''status'', JStr ''unknown'') # map (\<lambda>k. (k, JBool False)) rights_keys)),
     (''preservation'', JDict [(''class'', JStr ''original''), (''immutable'', JBool True)])]"

definition pin_archive :: archive where
  "pin_archive = \<lparr>ar_ready = True, ar_objects = map (\<lambda>p. (pi_sha256 p, filler p)) [DOSEMU2_SOURCE, FDPP_SOURCE, FREEDOS_M1],
     ar_metadata = map (\<lambda>p. (pi_artifact_id p, Some (pin_document p))) [DOSEMU2_SOURCE, FDPP_SOURCE, FREEDOS_M1],
     ar_locks = [], ar_quarantine = [], ar_exports = []\<rparr>"

lemma pin_hash_filler:
  "pin_hash (filler DOSEMU2_SOURCE) = pi_sha256 DOSEMU2_SOURCE" "pin_hash (filler FDPP_SOURCE) = pi_sha256 FDPP_SOURCE"
  "pin_hash (filler FREEDOS_M1) = pi_sha256 FREEDOS_M1"
  by (simp_all add: pin_hash_def filler_def DOSEMU2_SOURCE_def FDPP_SOURCE_def FREEDOS_M1_def)

lemma pin_hashes: "proper_hashes pin_kit"
proof -
  have "list_all (\<lambda>p. length (pi_sha256 p) = 64 \<and> list_all lower_hex_char (pi_sha256 p)) [DOSEMU2_SOURCE, FDPP_SOURCE, FREEDOS_M1]"
    by code_simp
  moreover have "list_all lower_hex_char (replicate 64 (CHR ''0''))" by code_simp
  ultimately show ?thesis by (simp add: proper_hashes_def pin_kit_def pin_hash_def)
qed

lemma pin_documents_valid: "list_all (\<lambda>p. validate_metadata (pin_document p) = Inr () \<and> fullmatch ident_rx (pi_artifact_id p) \<and>
    part (pin_document p) [''artifact'', ''sha256''] = JStr (pi_sha256 p) \<and> part (pin_document p) [''artifact'', ''size''] = JInt (pi_size p) \<and>
    0 \<le> pi_size p \<and> pinned p (pin_document p))
    [DOSEMU2_SOURCE, FDPP_SOURCE, FREEDOS_M1]"
  unfolding pinned_def by code_simp

lemma pin_ids: "distinct (map pi_artifact_id [DOSEMU2_SOURCE, FDPP_SOURCE, FREEDOS_M1])" "distinct (map pi_sha256 [DOSEMU2_SOURCE, FDPP_SOURCE, FREEDOS_M1])"
  "input_id DOSEMU2_SOURCE None = pi_artifact_id DOSEMU2_SOURCE" "input_id FDPP_SOURCE None = pi_artifact_id FDPP_SOURCE"
  "input_id FREEDOS_M1 None = pi_artifact_id FREEDOS_M1"
  by (simp_all add: DOSEMU2_SOURCE_def FDPP_SOURCE_def FREEDOS_M1_def input_id_def)

lemma pin_archive_ok: "archive_ok pin_kit pin_archive"
proof -
  have "recorded pin_kit pin_archive (pi_artifact_id p) (pin_document p)" if "p \<in> set [DOSEMU2_SOURCE, FDPP_SOURCE, FREEDOS_M1]" for p
  proof -
    have "pin_hash (filler p) = pi_sha256 p" "map_of (ar_objects pin_archive) (pi_sha256 p) = Some (filler p)"
      using that pin_hash_filler pin_ids(2) by (auto simp: pin_archive_def)
    moreover have "int (length (filler p)) = pi_size p" using that pin_documents_valid by (auto simp: filler_def)
    ultimately show ?thesis
      using that pin_documents_valid unfolding recorded_def
      by (intro conjI exI[of _ "filler p"]) (auto simp: pin_kit_def)
  qed
  moreover have "content_addressed pin_kit pin_archive"
    unfolding content_addressed_def pin_archive_def by (simp add: pin_kit_def pin_hash_filler)
  ultimately show ?thesis by (auto simp: archive_ok_def pin_archive_def split: if_splits)
qed


end
