(* ===== verification/Admin.thy ===== *)
theory Admin
  imports Complex_Main Json Py_Strings
begin

text \<open>
  The local administration: roles, the login throttle, the credential store and the web sessions of
  \<open>scripts/ubb_admin/auth.py\<close>, and the audit log of \<open>scripts/ubb_admin/audit.py\<close>. Each class is a record
  and its methods are functions from one state to the next; what a method reads from the clock or the random source
  is an argument. Times are seconds, read as exact rationals. The hash and the base64 codec are functions of
  \<open>auth_kit\<close>.
\<close>

section \<open>Roles\<close>

datatype role = Viewer | Operator | Administrator

fun role_name :: "role \<Rightarrow> string" where
  "role_name Viewer = ''viewer''"
| "role_name Operator = ''operator''"
| "role_name Administrator = ''administrator''"

fun role_rank :: "role \<Rightarrow> int" where
  "role_rank Viewer = 0"
| "role_rank Operator = 1"
| "role_rank Administrator = 2"

lemma role_rank_inj: "role_rank r = role_rank q \<Longrightarrow> r = q"
  by (cases r; cases q) simp_all

text \<open>A role may do whatever the roles below it may.\<close>

instantiation role :: linorder
begin

definition less_eq_role :: "role \<Rightarrow> role \<Rightarrow> bool" where
  "less_eq_role r q \<longleftrightarrow> role_rank r \<le> role_rank q"

definition less_role :: "role \<Rightarrow> role \<Rightarrow> bool" where
  "less_role r q \<longleftrightarrow> role_rank r < role_rank q"

instance
  by standard (auto simp: less_eq_role_def less_role_def intro: role_rank_inj)

end

definition ROLES :: "(string, int) dict" where
  "ROLES = map (\<lambda>r. (role_name r, role_rank r)) [Viewer, Operator, Administrator]"

text \<open>\<open>ROLES.get(name, -1) >= ROLES[required]\<close>\<close>

definition permits :: "string \<Rightarrow> role \<Rightarrow> bool" where
  "permits name required \<longleftrightarrow> role_rank required \<le> get_or ROLES name (-1)"

section \<open>The login throttle\<close>

text \<open>An entry is keyed by the kind of its value, ``user'' or ``source'', and the value; it holds the count of
  failures and the time before which logins are refused.\<close>

type_synonym throttle_key = "string \<times> string"

record throttle =
  th_max_entries :: nat
  th_entries :: "(throttle_key, int \<times> rat) dict"

definition new_throttle :: "nat \<Rightarrow> throttle" where
  "new_throttle m = \<lparr>th_max_entries = m, th_entries = []\<rparr>"

definition delay :: "int \<Rightarrow> int" where
  "delay failures = (if failures < 4 then 0 else min 60 (5 * 2 ^ nat (failures - 4)))"

definition expired :: "rat \<Rightarrow> int \<times> rat \<Rightarrow> bool" where
  "expired now e \<longleftrightarrow> 4 \<le> fst e \<and> snd e \<le> now"

definition cleanup :: "rat \<Rightarrow> throttle \<Rightarrow> throttle" where
  "cleanup now t = (let kept = filter (\<lambda>(k, e). \<not> expired now e) (th_entries t)
     in t\<lparr>th_entries := drop (length kept - th_max_entries t) kept\<rparr>)"

definition throttle_keys :: "string \<Rightarrow> string \<Rightarrow> throttle_key list" where
  "throttle_keys username source = [(''user'', username), (''source'', source)]"

text \<open>\<open>int(x)\<close> of a float.\<close>

definition truncate_rat :: "rat \<Rightarrow> int" where
  "truncate_rat x = (if x < 0 then - \<lfloor>- x\<rfloor> else \<lfloor>x\<rfloor>)"

definition retry_after :: "rat \<Rightarrow> string \<Rightarrow> string \<Rightarrow> throttle \<Rightarrow> int \<times> throttle" where
  "retry_after now username source t = (let t' = cleanup now t;
       times = map (\<lambda>k. snd (get_or (th_entries t') k (0, 0))) (throttle_keys username source)
     in (max 0 (truncate_rat (Max (set times) - now + 999 / 1000)), t'))"

text \<open>\<open>self._entries[key] = value; self._entries.move_to_end(key)\<close>\<close>

definition put_last :: "'k \<Rightarrow> 'v \<Rightarrow> ('k, 'v) dict \<Rightarrow> ('k, 'v) dict" where
  "put_last k v d = AList.delete k d @ [(k, v)]"

definition count_failure :: "rat \<Rightarrow> throttle_key \<Rightarrow> int list \<times> throttle \<Rightarrow> int list \<times> throttle" where
  "count_failure now k acc = (let (delays, t) = acc; failures = fst (get_or (th_entries t) k (0, now)) + 1; d = delay failures
     in (delays @ [d], t\<lparr>th_entries := put_last k (failures, now + of_int d) (th_entries t)\<rparr>))"

definition failure :: "rat \<Rightarrow> string \<Rightarrow> string \<Rightarrow> throttle \<Rightarrow> int \<times> throttle" where
  "failure now username source t =
     (let (delays, t') = fold (count_failure now) (throttle_keys username source) ([], cleanup now t)
      in (Max (set delays), cleanup now t'))"

definition success :: "string \<Rightarrow> string \<Rightarrow> throttle \<Rightarrow> throttle" where
  "success username source t = t\<lparr>th_entries := AList.delete (''source'', source) (AList.delete (''user'', username) (th_entries t))\<rparr>"

definition throttle_size :: "rat \<Rightarrow> throttle \<Rightarrow> nat \<times> throttle" where
  "throttle_size now t = (length (th_entries (cleanup now t)), cleanup now t)"

section \<open>Credentials\<close>

text \<open>\<open>hashlib.pbkdf2_hmac("sha256", password.encode(), salt, iterations)\<close>, which refuses some arguments, and the
  urlsafe base64 codec, whose decoder refuses some strings.\<close>

record auth_kit =
  pbkdf2 :: "string \<Rightarrow> string \<Rightarrow> int \<Rightarrow> string option"
  b64encode :: "string \<Rightarrow> string"
  b64decode :: "string \<Rightarrow> string option"

definition DUMMY_HASH :: string where
  "DUMMY_HASH = ''pbkdf2_sha256$240000$ZHVtbXlzYWx0MTIzNDU2Nzg5MA==$ZHVtbXl2YWx1ZQ==''"

text \<open>A user's dictionary; a key may be missing from a file that was edited by hand.\<close>

record user =
  us_hash :: "string option"
  us_role :: "string option"
  us_display_name :: "string option"
  us_enabled :: "bool option"

text \<open>The file, if it exists: the dictionary below \<open>users\<close>, if it has that key.\<close>

type_synonym auth_file = "(string, user) dict option option"

definition load_users :: "auth_file \<Rightarrow> (string, user) dict option" where
  "load_users f = (case f of None \<Rightarrow> Some [] | Some u \<Rightarrow> u)"

datatype auth_error = InvalidRole | MissingKey string | HashRefused

definition hash_password :: "auth_kit \<Rightarrow> string \<Rightarrow> string \<Rightarrow> string option" where
  "hash_password kit salt password = map_option
     (\<lambda>digest. ''pbkdf2_sha256$240000$'' @ b64encode kit salt @ ''$'' @ b64encode kit digest) (pbkdf2 kit password salt 240000)"

text \<open>\<open>s.split("$", 3)\<close> of a string that gives four parts, the last with the separators that remain.\<close>

definition split_four :: "string \<Rightarrow> (string \<times> string \<times> string \<times> string) option" where
  "split_four s = (case split_on (CHR ''$'') s of
      a # b # c # d # rest \<Rightarrow> Some (a, b, c, join_with (CHR ''$'') (d # rest))
    | _ \<Rightarrow> None)"

text \<open>\<open>int(s)\<close>: digits in groups separated by single underscores, after a sign, inside white space.\<close>

definition parse_int :: "string \<Rightarrow> int option" where
  "parse_int s = (let t = strip s;
       sign = (case t of c # u \<Rightarrow> if c = CHR ''-'' then (-1, u) else if c = CHR ''+'' then (1, u) else (1, t) | [] \<Rightarrow> (1, []));
       groups = split_on (CHR ''_'') (snd sign)
     in if list_all (\<lambda>g. g \<noteq> [] \<and> list_all is_digit g) groups then Some (fst sign * int (int_of_digits (concat groups))) else None)"

text \<open>Every exception inside \<open>verify\<close> means no.\<close>

definition verify_password :: "auth_kit \<Rightarrow> string \<Rightarrow> string \<Rightarrow> bool" where
  "verify_password kit password encoded = (case split_four encoded of
      None \<Rightarrow> False
    | Some (_, iterations, salt, expected) \<Rightarrow> (case (b64decode kit salt, parse_int iterations) of
        (Some salt', Some n) \<Rightarrow> (case (pbkdf2 kit password salt' n, b64decode kit expected) of
            (Some digest, Some e) \<Rightarrow> digest = e
          | _ \<Rightarrow> False)
      | _ \<Rightarrow> False))"

definition add_user :: "auth_kit \<Rightarrow> string \<Rightarrow> string \<Rightarrow> string \<Rightarrow> string \<Rightarrow> auth_file \<Rightarrow> auth_error + auth_file" where
  "add_user kit salt username password r f =
     (if \<not> has_key ROLES r then Inl InvalidRole
      else case load_users f of
        None \<Rightarrow> (case hash_password kit salt password of None \<Rightarrow> Inl HashRefused | Some h \<Rightarrow> Inl (MissingKey ''users''))
      | Some users \<Rightarrow> (case hash_password kit salt password of
          None \<Rightarrow> Inl HashRefused
        | Some h \<Rightarrow> Inr (Some (Some (AList.update username
            \<lparr>us_hash = Some h, us_role = Some r, us_display_name = Some username, us_enabled = Some True\<rparr> users)))))"

definition disable_user :: "string \<Rightarrow> auth_file \<Rightarrow> auth_error + auth_file" where
  "disable_user username f = (let users = default [] (load_users f) in case map_of users username of
      None \<Rightarrow> Inl (MissingKey username)
    | Some u \<Rightarrow> Inr (Some (Some (AList.update username (u\<lparr>us_enabled := Some False\<rparr>) users))))"

definition empty_user :: user where
  "empty_user = \<lparr>us_hash = None, us_role = None, us_display_name = None, us_enabled = None\<rparr>"

text \<open>\<open>record if record and record.get("enabled", True) and valid else None\<close>; the hash of an unknown user is computed as well.\<close>

definition authenticate :: "auth_kit \<Rightarrow> string \<Rightarrow> string \<Rightarrow> auth_file \<Rightarrow> user option" where
  "authenticate kit username password f =
     (let found = map_of (default [] (load_users f)) username;
          present = (case found of Some u \<Rightarrow> u \<noteq> empty_user | None \<Rightarrow> False);
          encoded = (if present then default [] (us_hash (the found)) else DUMMY_HASH);
          valid = verify_password kit password encoded
      in if present \<and> default True (us_enabled (the found)) \<and> valid then found else None)"

definition list_users :: "auth_file \<Rightarrow> (string \<times> string option \<times> bool) list" where
  "list_users f = map (\<lambda>(n, u). (n, us_role u, default True (us_enabled u))) (sort_key fst (default [] (load_users f)))"

section \<open>Web sessions\<close>

record web_session =
  ws_username :: string
  ws_role :: string
  ws_csrf :: string
  ws_expires :: rat

record session_store =
  ss_items :: "(string, web_session) dict"
  ss_lifetime :: rat

definition new_session_store :: session_store where
  "new_session_store = \<lparr>ss_items = [], ss_lifetime = 28800\<rparr>"

definition create_session :: "string \<Rightarrow> string \<Rightarrow> rat \<Rightarrow> string \<Rightarrow> string \<Rightarrow> session_store \<Rightarrow> session_store" where
  "create_session token csrf now username r s = s\<lparr>ss_items := AList.update token
     \<lparr>ws_username = username, ws_role = r, ws_csrf = csrf, ws_expires = now + ss_lifetime s\<rparr> (ss_items s)\<rparr>"

definition get_session :: "string \<Rightarrow> rat \<Rightarrow> session_store \<Rightarrow> web_session option \<times> session_store" where
  "get_session token now s = (case map_of (ss_items s) token of
      None \<Rightarrow> (None, s\<lparr>ss_items := AList.delete token (ss_items s)\<rparr>)
    | Some w \<Rightarrow> if ws_expires w < now then (None, s\<lparr>ss_items := AList.delete token (ss_items s)\<rparr>) else (Some w, s))"

definition remove_session :: "string \<Rightarrow> session_store \<Rightarrow> session_store" where
  "remove_session token s = s\<lparr>ss_items := AList.delete token (ss_items s)\<rparr>"

section \<open>The audit log\<close>

record audit_record =
  au_timestamp :: string
  au_actor :: string
  au_role :: string
  au_action :: string
  au_target :: string
  au_result :: string
  au_source :: string
  au_message :: string
  au_request_id :: string
  au_remote :: "string option"

text \<open>The record of one request; the file is the list of its lines.\<close>

definition audit_append :: "string \<Rightarrow> string \<Rightarrow> audit_record \<Rightarrow> audit_record list \<Rightarrow> audit_record \<times> audit_record list" where
  "audit_append timestamp token a entries = (let r = a\<lparr>au_timestamp := timestamp, au_message := take 500 (au_message a),
       au_request_id := (if au_request_id a = [] then token else au_request_id a),
       au_remote := (if truthy (au_remote a) then au_remote a else None)\<rparr> in (r, entries @ [r]))"

text \<open>\<open>lines[-limit:]\<close>, newest first: a limit of zero is every line, and a negative one drops that many.\<close>

definition audit_read :: "int \<Rightarrow> audit_record list \<Rightarrow> audit_record list" where
  "audit_read limit entries = rev (if limit = 0 then entries else if 0 < limit then drop (length entries - nat limit) entries else drop (nat (- limit)) entries)"

end
