(* ===== verification/Dashboard.thy ===== *)
theory Dashboard
  imports Admin Supervisor
begin

text \<open>
  The administration over HTTP: the action service of \<open>scripts/ubb_admin/actions.py\<close> over the
  lifecycle supervisor's model, and the request handlers of \<open>scripts/ubb_dashboard.py\<close> that admit a
  request to it. The backup and integration calls, and what the read-only pages render, are arguments. A request is one
  program over the state of the application; the address is parsed, and the form is \<open>parse_qs\<close> of the body.
\<close>

section \<open>The action service\<close>

text \<open>The exceptions that the handlers tell apart; any other one is \<open>OtherException\<close>.\<close>

datatype admin_error = AdminPermissionError message | AdminValueError message | AdminNotImplementedError message
  | AdminBackupError message | OtherException string message

fun of_supervisor_error :: "supervisor_error \<Rightarrow> admin_error" where
  "of_supervisor_error (BuiltinError name m) = (if name = ''ValueError'' then AdminValueError m
     else if name = ''PermissionError'' then AdminPermissionError m
     else if name = ''NotImplementedError'' then AdminNotImplementedError m
     else OtherException name m)"
| "of_supervisor_error e = OtherException ''SupervisorError'' []"

datatype action_value = Snapshot snapshot | Mode string string "string option" | Fields fields | External json

type_synonym ('w, 'a) act = "('w sup, admin_error, 'a) prog"

definition of_supervisor :: "('a \<Rightarrow> action_value) \<Rightarrow> ('w, 'a) sprog \<Rightarrow> ('w, action_value) act" where
  "of_supervisor f m = (\<lambda>s. case m s of
      (Ret x, s') \<Rightarrow> (Ret (f x), s') | (Raise e, s') \<Rightarrow> (Raise (of_supervisor_error e), s') | (NoFuel, s') \<Rightarrow> (NoFuel, s'))"

record 'w integration_api =
  ia_qualify :: "string \<Rightarrow> string \<Rightarrow> string \<Rightarrow> ('w, action_value) act"
  ia_promote :: "string \<Rightarrow> string \<Rightarrow> ('w, action_value) act"
  ia_rollback :: "string \<Rightarrow> ('w, action_value) act"

record 'w action_service =
  as_supervisor :: "('w env \<times> nat) option"   \<comment> \<open>with the fuel of its restarts\<close>
  as_integrations :: "(string \<Rightarrow> admin_error + 'w integration_api) option"
  as_backup_api :: "(string \<Rightarrow> ('w, action_value) act) option"
  as_qualify_api :: "(string \<Rightarrow> string \<Rightarrow> ('w, action_value) act) option"
  as_install_roots :: "(string, string) dict"
  as_archive_root :: "string option"

definition require_role :: "string \<Rightarrow> role \<Rightarrow> ('w, unit) act" where
  "require_role r n = raise_if (\<not> permits r n) (AdminPermissionError [''insufficient role''])"

definition no_supervisor :: "('w, 'a) act" where
  "no_supervisor = raise (OtherException ''AttributeError'' [])"

definition with_supervisor :: "'w action_service \<Rightarrow> ('w env \<Rightarrow> nat \<Rightarrow> ('w, 'a) act) \<Rightarrow> ('w, 'a) act" where
  "with_supervisor a f = (case as_supervisor a of None \<Rightarrow> no_supervisor | Some (env, n) \<Rightarrow> f env n)"

definition admin_start :: "'w action_service \<Rightarrow> string \<Rightarrow> string \<Rightarrow> ('w, action_value) act" where
  "admin_start a s r = andThen (require_role r Operator)
     (with_supervisor a (\<lambda>env n. of_supervisor Snapshot (start env n s ''admin'')))"

definition admin_stop :: "'w action_service \<Rightarrow> string \<Rightarrow> string \<Rightarrow> ('w, action_value) act" where
  "admin_stop a s r = andThen (require_role r Operator)
     (with_supervisor a (\<lambda>env n. of_supervisor Snapshot (stop env s False ''admin'')))"

definition admin_restart :: "'w action_service \<Rightarrow> string \<Rightarrow> string \<Rightarrow> ('w, action_value) act" where
  "admin_restart a s r = andThen (require_role r Operator)
     (with_supervisor a (\<lambda>env n. andThen (of_supervisor Snapshot (stop env s False ''admin''))
        (of_supervisor Snapshot (start env n s ''admin''))))"

definition admin_lifecycle :: "'w action_service \<Rightarrow> string \<Rightarrow> string \<Rightarrow> string \<Rightarrow> ('w, action_value) act" where
  "admin_lifecycle a s m r = andThen (require_role r Administrator)
     (andThen (raise_if (m \<notin> {''always_on'', ''on_demand''}) (AdminValueError [''invalid lifecycle mode'']))
     (case as_supervisor a of
        None \<Rightarrow> raise (AdminNotImplementedError [''deployment lifecycle API unavailable''])
      | Some (env, n) \<Rightarrow> of_supervisor (\<lambda>(i, mode, rec). Mode i mode rec) (set_lifecycle_mode env s m)))"

definition admin_maintenance :: "'w action_service \<Rightarrow> string \<Rightarrow> string \<Rightarrow> string \<Rightarrow> ('w, action_value) act" where
  "admin_maintenance a s j r = andThen (require_role r Operator)
     (with_supervisor a (\<lambda>env n. of_supervisor Fields (run_maintenance env n s j)))"

definition admin_job :: "'w action_service \<Rightarrow> string \<Rightarrow> string \<Rightarrow> string \<Rightarrow> ('w, action_value) act" where
  "admin_job a s j r = with_supervisor a (\<lambda>env n. case get_service (registry_of env) s of
      Inl e \<Rightarrow> raise (OtherException ''RegistryError'' [])
    | Inr sv \<Rightarrow> andThen (raise_if (j \<notin> jb_name ` set (sv_jobs sv)) (AdminValueError [''maintenance job is not registered'']))
        (admin_maintenance a s j r))"

definition admin_backup :: "'w action_service \<Rightarrow> string \<Rightarrow> string \<Rightarrow> ('w, action_value) act" where
  "admin_backup a s r = andThen (require_role r Operator)
     (case as_backup_api a of None \<Rightarrow> raise (AdminNotImplementedError [''backup API unavailable'']) | Some f \<Rightarrow> f s)"

definition of_integration :: "'w action_service \<Rightarrow> string \<Rightarrow> ('w integration_api \<Rightarrow> ('w, action_value) act) \<Rightarrow> ('w, action_value) act" where
  "of_integration a i f = (case as_integrations a of
      None \<Rightarrow> no_supervisor
    | Some g \<Rightarrow> (case g i of Inl e \<Rightarrow> raise e | Inr api \<Rightarrow> f api))"

definition admin_qualify :: "'w action_service \<Rightarrow> string \<Rightarrow> string \<Rightarrow> string \<Rightarrow> ('w, action_value) act" where
  "admin_qualify a i rel r = andThen (require_role r Operator)
     (case as_qualify_api a of
        Some f \<Rightarrow> f i rel
      | None \<Rightarrow> if \<not> truthy (map_of (as_install_roots a) i) \<or> \<not> truthy (as_archive_root a)
          then raise (AdminNotImplementedError [''qualification API unavailable''])
          else of_integration a i (\<lambda>api. ia_qualify api (the (as_archive_root a)) rel (the (map_of (as_install_roots a) i))))"

definition with_root :: "'w action_service \<Rightarrow> string \<Rightarrow> (string \<Rightarrow> ('w, action_value) act) \<Rightarrow> ('w, action_value) act" where
  "with_root a i f = (if as_integrations a = None then raise (AdminNotImplementedError [''integration API unavailable''])
     else if \<not> truthy (map_of (as_install_roots a) i) then raise (AdminNotImplementedError [''integration deployment root unavailable''])
     else f (the (map_of (as_install_roots a) i)))"

definition admin_promote :: "'w action_service \<Rightarrow> string \<Rightarrow> string \<Rightarrow> string \<Rightarrow> ('w, action_value) act" where
  "admin_promote a i rel r = andThen (require_role r Administrator)
     (with_root a i (\<lambda>root. of_integration a i (\<lambda>api. ia_promote api root rel)))"

definition admin_rollback :: "'w action_service \<Rightarrow> string \<Rightarrow> string \<Rightarrow> ('w, action_value) act" where
  "admin_rollback a i r = andThen (require_role r Administrator)
     (with_root a i (\<lambda>root. of_integration a i (\<lambda>api. ia_rollback api root)))"

section \<open>The application\<close>

text \<open>What the handlers use besides the state: clocks and random tokens, the hash, the action service and the read-only views.\<close>

record 'w web =
  wb_time :: "'w \<Rightarrow> rat \<times> 'w"
  wb_token :: "'w \<Rightarrow> string \<times> 'w"
  wb_stamp :: "'w \<Rightarrow> string \<times> 'w"
  wb_kit :: auth_kit
  wb_actions :: "'w action_service option"
  wb_has_auth :: bool
  wb_has_audit :: bool
  wb_require_auth :: bool
  wb_api :: "string \<Rightarrow> 'w sup \<Rightarrow> admin_error + json option"
  wb_page :: "string \<Rightarrow> web_session option \<Rightarrow> audit_record list \<Rightarrow> 'w sup \<Rightarrow> admin_error + string option"

record 'w dash =
  da_throttle :: throttle
  da_users :: auth_file
  da_sessions :: session_store
  da_audit :: "audit_record list"
  da_sup :: "'w sup"

type_synonym ('w, 'a) web_prog = "('w dash, admin_error, 'a) prog"

definition from_world :: "('w \<Rightarrow> 'a \<times> 'w) \<Rightarrow> ('w, 'a) web_prog" where
  "from_world f = (\<lambda>s. let (x, w) = f (world (da_sup s)) in (Ret x, s\<lparr>da_sup := (da_sup s)\<lparr>world := w\<rparr>\<rparr>))"

definition app_authenticate :: "'w web \<Rightarrow> string option \<Rightarrow> ('w, web_session option) web_prog" where
  "app_authenticate w token = (if \<not> truthy token then ret None
     else bind (from_world (wb_time w)) (\<lambda>t. \<lambda>s. let (r, store') = get_session (the token) t (da_sessions s)
       in (Ret r, s\<lparr>da_sessions := store'\<rparr>)))"

definition throttle_wait :: "'w web \<Rightarrow> string \<Rightarrow> string \<Rightarrow> ('w, int) web_prog" where
  "throttle_wait w u source = bind (from_world (wb_time w)) (\<lambda>t. \<lambda>s. let (n, t') = retry_after t u source (da_throttle s)
     in (Ret n, s\<lparr>da_throttle := t'\<rparr>))"

definition app_login :: "'w web \<Rightarrow> string \<Rightarrow> string \<Rightarrow> string \<Rightarrow> ('w, string option) web_prog" where
  "app_login w u password remote =
     (let source = (if remote = [] then ''unknown'' else remote) in
      bind (throttle_wait w u source) (\<lambda>wait.
      if wait \<noteq> 0 then ret None
      else bind (gets (\<lambda>s. if wb_has_auth w then authenticate (wb_kit w) u password (da_users s) else None)) (\<lambda>found.
      case found of
        None \<Rightarrow> bind (from_world (wb_time w)) (\<lambda>t.
          andThen (modify (\<lambda>s. s\<lparr>da_throttle := snd (failure t u source (da_throttle s))\<rparr>)) (ret None))
      | Some user \<Rightarrow>
          andThen (modify (\<lambda>s. s\<lparr>da_throttle := success u source (da_throttle s)\<rparr>))
         (case us_role user of
            None \<Rightarrow> raise (OtherException ''KeyError'' [''role''])
          | Some r \<Rightarrow> bind (from_world (wb_token w)) (\<lambda>token. bind (from_world (wb_token w)) (\<lambda>csrf. bind (from_world (wb_time w)) (\<lambda>t.
              andThen (modify (\<lambda>s. s\<lparr>da_sessions := create_session token csrf t u r (da_sessions s)\<rparr>)) (ret (Some token)))))))))"

section \<open>Requests\<close>

type_synonym form = "(string, string list) dict"

definition form_value :: "form \<Rightarrow> string \<Rightarrow> string \<Rightarrow> string" where
  "form_value f k dflt = (case map_of f k of Some (v # vs) \<Rightarrow> v | _ \<Rightarrow> dflt)"

record request =
  rq_path :: string
  rq_form :: form   \<comment> \<open>of the body, empty when there is none\<close>
  rq_csrf :: "string option"   \<comment> \<open>the header \<open>X-CSRF-Token\<close>\<close>
  rq_cookie :: string
  rq_client :: string

datatype content = Nothing_else | Html string | Json_value json | Audit_list "audit_record list" | Outcome string

record response =
  rs_status :: int
  rs_content :: content
  rs_retry_after :: "int option"
  rs_session_cookie :: "string option"

definition reply :: "int \<Rightarrow> content \<Rightarrow> response" where
  "reply n c = \<lparr>rs_status = n, rs_content = c, rs_retry_after = None, rs_session_cookie = None\<rparr>"

definition path_parts :: "string \<Rightarrow> string list" where
  "path_parts p = filter (\<lambda>x. x \<noteq> []) (split_on (CHR ''/'') p)"

definition cookie_value :: "string \<Rightarrow> string \<Rightarrow> string option" where
  "cookie_value name header = (case List.find (\<lambda>piece. starts_with (name @ ''='') (strip piece)) (split_on (CHR '';'') header) of
      None \<Rightarrow> None
    | Some piece \<Rightarrow> Some (drop 1 (dropWhile (\<lambda>c. c \<noteq> CHR ''='') (strip piece))))"

definition write_audit :: "'w web \<Rightarrow> audit_record \<Rightarrow> ('w, unit) web_prog" where
  "write_audit w a = onlyif (wb_has_audit w)
     (bind (from_world (wb_stamp w)) (\<lambda>now. bind (if au_request_id a = [] then from_world (wb_token w) else ret []) (\<lambda>token.
      modify (\<lambda>s. s\<lparr>da_audit := snd (audit_append now token a (da_audit s))\<rparr>))))"

definition audit_of :: "string \<Rightarrow> string \<Rightarrow> string \<Rightarrow> string \<Rightarrow> string \<Rightarrow> string \<Rightarrow> string \<Rightarrow> string \<Rightarrow> audit_record" where
  "audit_of actor r action target result message request_id remote =
     \<lparr>au_timestamp = [], au_actor = actor, au_role = r, au_action = action, au_target = target, au_result = result, au_source = ''web'',
      au_message = message, au_request_id = request_id, au_remote = Some remote\<rparr>"

text \<open>The calls of \<open>_action\<close>, by the last part of the address.\<close>

definition perform :: "'w action_service \<Rightarrow> string \<Rightarrow> string \<Rightarrow> form \<Rightarrow> string \<Rightarrow> ('w, action_value) act" where
  "perform a action target f r =
     (if action = ''start'' then admin_start a target r
      else if action = ''stop'' then admin_stop a target r
      else if action = ''restart'' then admin_restart a target r
      else if action = ''maintenance'' then admin_job a target (form_value f ''job_id'' []) r
      else if action = ''backup'' then admin_backup a target r
      else if action = ''qualify'' then admin_qualify a (form_value f ''integration'' target) (form_value f ''release'' []) r
      else if action = ''promote'' then admin_promote a (form_value f ''integration'' ''amiexpress-amiga'') (form_value f ''release'' []) r
      else if action = ''rollback'' then admin_rollback a (form_value f ''integration'' ''amiexpress-amiga'') r
      else if action = ''lifecycle'' then admin_lifecycle a target (form_value f ''mode'' []) r
      else raise (AdminValueError [''unsupported action'']))"

definition run_action :: "'w action_service option \<Rightarrow> string \<Rightarrow> string \<Rightarrow> form \<Rightarrow> string \<Rightarrow> ('w, action_value) act" where
  "run_action a action target f r = (case a of
      None \<Rightarrow> raise (OtherException ''RuntimeError'' [''action service unavailable''])
    | Some service \<Rightarrow> perform service action target f r)"

text \<open>The status, the result and the message of each exception.\<close>

fun outcome_of :: "admin_error + action_value \<Rightarrow> int \<times> string \<times> string" where
  "outcome_of (Inr v) = (200, ''success'', ''action delegated'')"
| "outcome_of (Inl (AdminPermissionError m)) = (403, ''denied'', concat m)"
| "outcome_of (Inl (AdminValueError m)) = (422, ''failure'', concat m)"
| "outcome_of (Inl (AdminNotImplementedError m)) = (409, ''failure'', concat m)"
| "outcome_of (Inl (AdminBackupError m)) = (409, ''failure'', concat m)"
| "outcome_of (Inl (OtherException n m)) = (500, ''failure'', ''action failed'')"

definition on_sup :: "('w, 'a) act \<Rightarrow> ('w, 'a) web_prog" where
  "on_sup m = (\<lambda>s. let (r, t) = m (da_sup s) in (r, s\<lparr>da_sup := t\<rparr>))"

definition target_of :: "string list \<Rightarrow> string \<Rightarrow> string" where
  "target_of parts dflt = (if 4 < length parts then parts ! (length parts - 2) else dflt)"

definition web_action :: "'w web \<Rightarrow> request \<Rightarrow> web_session \<Rightarrow> string \<Rightarrow> ('w, response) web_prog" where
  "web_action w rq session request_id =
     (let parts = path_parts (rq_path rq); action = last parts; target = target_of parts ''integration'' in
      bind (attempt (on_sup (run_action (wb_actions w) action target (rq_form rq) (ws_role session)))) (\<lambda>r.
      let (status, result, message) = outcome_of r in
      andThen (write_audit w (audit_of (ws_username session) (ws_role session) action target result message request_id (rq_client rq)))
     (ret (reply status (Outcome message)))))"

definition post_login :: "'w web \<Rightarrow> request \<Rightarrow> ('w, response) web_prog" where
  "post_login w rq =
     (let u = form_value (rq_form rq) ''username'' []; password = form_value (rq_form rq) ''password'' []; source = rq_client rq;
          note = (\<lambda>result message. audit_of u ''unknown'' ''login'' ''admin'' result message [] source) in
      bind (throttle_wait w u source) (\<lambda>wait.
      if wait \<noteq> 0 then andThen (write_audit w (note ''denied'' ''login throttled''))
        (ret ((reply 429 (Html ''Login temporarily throttled''))\<lparr>rs_retry_after := Some wait\<rparr>))
      else bind (app_login w u password source) (\<lambda>token.
      if \<not> truthy token then andThen (write_audit w (note ''denied'' ''invalid credentials'')) (ret (reply 401 (Html ''Login failed'')))
      else andThen (write_audit w (note ''success'' [])) (ret ((reply 303 Nothing_else)\<lparr>rs_session_cookie := token\<rparr>)))))"

definition supplied_csrf :: "request \<Rightarrow> string" where
  "supplied_csrf rq = (if truthy (rq_csrf rq) then the (rq_csrf rq) else form_value (rq_form rq) ''csrf'' [])"

definition unauthorized :: response where
  "unauthorized = reply 401 (Html ''Authentication required'')"

definition post_admin :: "'w web \<Rightarrow> request \<Rightarrow> web_session \<Rightarrow> ('w, response) web_prog" where
  "post_admin w rq session =
     (if supplied_csrf rq = [] \<or> supplied_csrf rq \<noteq> ws_csrf session then
        (let parts = path_parts (rq_path rq); action = (if parts = [] then ''unknown'' else last parts) in
         bind (from_world (wb_token w)) (\<lambda>request_id.
         andThen (write_audit w (audit_of (ws_username session) (ws_role session) action (target_of parts ''admin'') ''denied'' ''csrf rejected'' request_id (rq_client rq)))
        (ret (reply 403 (Html ''CSRF rejected'')))))
      else bind (from_world (wb_token w)) (\<lambda>request_id. web_action w rq session request_id))"

definition do_POST :: "'w web \<Rightarrow> request \<Rightarrow> ('w, response) web_prog" where
  "do_POST w rq =
     (if \<not> wb_require_auth w then ret (reply 405 Nothing_else)
      else if rq_path rq = ''/admin/login'' then post_login w rq
      else bind (app_authenticate w (cookie_value ''ubb_admin'' (rq_cookie rq))) (\<lambda>found. case found of
          None \<Rightarrow> ret unauthorized
        | Some session \<Rightarrow> if starts_with ''/api/v1/admin/'' (rq_path rq) then post_admin w rq session
            else ret (reply 405 Nothing_else)))"

text \<open>Any exception of a read gives a 503.\<close>

definition do_GET :: "'w web \<Rightarrow> request \<Rightarrow> ('w, response) web_prog" where
  "do_GET w rq =
     (let token = cookie_value ''ubb_admin'' (rq_cookie rq);
          view = (\<lambda>r. case r of Inl e \<Rightarrow> reply 503 Nothing_else | Inr None \<Rightarrow> reply 404 Nothing_else | Inr (Some c) \<Rightarrow> reply 200 c) in
      if rq_path rq = ''/admin/login'' then ret (reply 200 (Html ''Admin login''))
      else bind (if wb_require_auth w then app_authenticate w token else ret None) (\<lambda>found.
      if wb_require_auth w \<and> found = None then ret unauthorized
      else if rq_path rq = ''/admin/logout'' then
        andThen (onlyif (truthy token) (modify (\<lambda>s. s\<lparr>da_sessions := remove_session (the token) (da_sessions s)\<rparr>))) (ret (reply 303 Nothing_else))
      else if rq_path rq = ''/api/v1/audit'' then gets (\<lambda>s. reply 200 (Audit_list (if wb_has_audit w then audit_read 100 (da_audit s) else [])))
      else if starts_with ''/api/'' (rq_path rq) then
        gets (\<lambda>s. view (case wb_api w (rq_path rq) (da_sup s) of Inl e \<Rightarrow> Inl e | Inr v \<Rightarrow> Inr (map_option Json_value v)))
      else bind (if wb_require_auth w then app_authenticate w token else ret None) (\<lambda>again.
        gets (\<lambda>s. view (case wb_page w (rq_path rq) again (if wb_has_audit w then audit_read 100 (da_audit s) else []) (da_sup s) of Inl e \<Rightarrow> Inl e | Inr v \<Rightarrow> Inr (map_option Html v))))))"

end
