(* ===== verification/Admin_Facts.thy ===== *)
theory Admin_Facts
  imports Admin
begin

text \<open>
  What the administration's login protection does in every run of logins, and what its credential store promises.
\<close>

section \<open>Roles\<close>

lemma ex_role: "(\<exists>r. P r) \<longleftrightarrow> P Viewer \<or> P Operator \<or> P Administrator"
proof
  assume "\<exists>r. P r"
  then obtain r where "P r" ..
  then show "P Viewer \<or> P Operator \<or> P Administrator" by (cases r) simp_all
qed blast

lemma permits_iff: "permits name required \<longleftrightarrow> (\<exists>r. name = role_name r \<and> required \<le> r)"
  by (cases required) (simp_all add: ex_role permits_def ROLES_def get_or_def less_eq_role_def)

section \<open>The throttle\<close>

text \<open>What one attempt to log in does to the throttle (\<open>DashboardApp.login\<close>): refused without being counted when a
  delay is running, else counted as a failure or forgotten as a success. The clock is read twice.\<close>

datatype attempt_result = Throttled int | Rejected int | LoggedIn

definition attempt_login :: "rat \<Rightarrow> rat \<Rightarrow> bool \<Rightarrow> string \<Rightarrow> string \<Rightarrow> throttle \<Rightarrow> attempt_result \<times> throttle" where
  "attempt_login t1 t2 good u src t =
     (let (wait, t') = retry_after t1 u src t in
      if wait \<noteq> 0 then (Throttled wait, t')
      else if good then (LoggedIn, success u src t')
      else let (d, t'') = failure t2 u src t' in (Rejected d, t''))"

text \<open>Runs of attempts under a clock that does not go back and is read to the millisecond.\<close>

definition millis :: "rat \<Rightarrow> bool" where
  "millis t \<longleftrightarrow> t * 1000 \<in> \<int>"

inductive logins :: "throttle \<Rightarrow> rat \<Rightarrow> throttle \<Rightarrow> bool" for t0 where
  logins_start: "0 \<le> now \<Longrightarrow> logins t0 now t0"
| logins_attempt: "logins t0 now t \<Longrightarrow> now \<le> t1 \<Longrightarrow> t1 \<le> t2 \<Longrightarrow> millis t1 \<Longrightarrow> millis t2 \<Longrightarrow>
    logins t0 t2 (snd (attempt_login t1 t2 good u src t))"

text \<open>At the time \<open>now\<close>: an entry below the threshold delays nothing, one at the threshold by at most five seconds.\<close>

definition entry_ok :: "rat \<Rightarrow> int \<times> rat \<Rightarrow> bool" where
  "entry_ok now e \<longleftrightarrow> 1 \<le> fst e \<and> fst e \<le> 4 \<and> millis (snd e) \<and> snd e \<le> now + (if fst e < 4 then 0 else 5)"

definition throttle_ok :: "rat \<Rightarrow> throttle \<Rightarrow> bool" where
  "throttle_ok now t \<longleftrightarrow> 0 \<le> now \<and> wf_dict (th_entries t) \<and> length (th_entries t) \<le> th_max_entries t \<and> (\<forall>(k, e) \<in> set (th_entries t). entry_ok now e)"

lemma wf_drop: "wf_dict d \<Longrightarrow> wf_dict (drop n d)"
  by (simp add: wf_dict_def drop_map[symmetric])

lemma cleanup_entries: "set (th_entries (cleanup now t)) \<subseteq> {(k, e) \<in> set (th_entries t). \<not> expired now e}"
  using set_drop_subset by (fastforce simp: cleanup_def Let_def)

lemma cleanup_wf: "wf_dict (th_entries t) \<Longrightarrow> wf_dict (th_entries (cleanup now t))"
  by (simp add: cleanup_def Let_def wf_drop)

lemma cleanup_bounded: "length (th_entries (cleanup now t)) \<le> th_max_entries t" "th_max_entries (cleanup now t) = th_max_entries t"
  by (simp_all add: cleanup_def Let_def)

lemma entry_ok_later: "entry_ok now e \<Longrightarrow> now \<le> now' \<Longrightarrow> entry_ok now' e"
  by (auto simp: entry_ok_def split: if_splits)

lemma cleanup_ok: "throttle_ok now t \<Longrightarrow> now \<le> now' \<Longrightarrow> throttle_ok now' (cleanup now'' t)"
  using cleanup_entries[of now'' t] cleanup_wf cleanup_bounded entry_ok_later by (fastforce simp: throttle_ok_def)

text \<open>Rounding up to a whole second loses no wait of a millisecond or more.\<close>

lemma truncate_nonneg: "0 \<le> x \<Longrightarrow> truncate_rat x = \<lfloor>x\<rfloor>"
  by (simp add: truncate_rat_def)

lemma truncate_less: "x < of_int n + 1 \<Longrightarrow> 0 \<le> n \<Longrightarrow> truncate_rat x \<le> n"
  by (auto simp: truncate_rat_def floor_le_iff) (metis le_floor_iff less_eq_rat_def minus_le_iff neg_0_le_iff_le of_int_0 order_trans neg_le_0_iff_le)

lemma no_wait:
  assumes "max 0 (truncate_rat (x - now + 999 / 1000)) = 0" and "millis x" and "millis now"
  shows "x \<le> now"
proof (rule ccontr)
  assume "\<not> x \<le> now"
  have "x * 1000 - now * 1000 \<in> \<int>" using assms(2,3) by (simp add: millis_def)
  then obtain n :: int where n: "(x - now) * 1000 = of_int n" by (auto simp: Ints_def left_diff_distrib)
  moreover have "0 < (x - now) * 1000" using \<open>\<not> x \<le> now\<close> by simp
  ultimately have "1 \<le> n" by (metis of_int_0_less_iff int_one_le_iff_zero_less)
  then have "(1::rat) \<le> of_int n" by simp
  with n have "1 \<le> x - now + 999 / 1000" by simp
  then have "1 \<le> truncate_rat (x - now + 999 / 1000)" by (simp add: truncate_nonneg le_floor_iff)
  with assms(1) show False by simp
qed

lemma map_of_put_last: "map_of (put_last k v d) = (map_of d)(k \<mapsto> v)"
  by (rule ext) (auto simp: put_last_def map_add_def delete_conv split: option.splits)

lemma wf_put_last: "wf_dict d \<Longrightarrow> wf_dict (put_last k v d)"
  by (auto simp: put_last_def wf_dict_def keys_delete distinct_delete)

lemma set_put_last: "set (put_last k v d) \<subseteq> insert (k, v) (set d)"
  by (auto simp: put_last_def AList.delete_eq)

lemma delay_cases: "delay f = (if f < 4 then 0 else 5)" if "f \<le> 4"
  using that by (auto simp: delay_def)

definition entries_ok :: "rat \<Rightarrow> (throttle_key, int \<times> rat) dict \<Rightarrow> bool" where
  "entries_ok now d \<longleftrightarrow> wf_dict d \<and> (\<forall>(k, e) \<in> set d. entry_ok now e)"

lemma millis_add: "millis t \<Longrightarrow> millis (t + of_int n)"
  by (simp add: millis_def distrib_right)

lemma count_failure_ok:
  assumes ok: "entries_ok now (th_entries t)" and few: "fst (get_or (th_entries t) k (0, now)) \<le> 3" and "millis now"
  shows "count_failure now k (ds, t) = (r, t') \<Longrightarrow> entries_ok now (th_entries t') \<and> th_max_entries t' = th_max_entries t \<and>
    (\<forall>j. j \<noteq> k \<longrightarrow> get_or (th_entries t') j (0, now) = get_or (th_entries t) j (0, now)) \<and>
    (\<exists>d \<in> {0, 5}. r = ds @ [d])"
proof -
  let ?f = "fst (get_or (th_entries t) k (0, now)) + 1"
  have nonneg: "0 \<le> fst (get_or (th_entries t) k (0, now))"
    using ok by (auto simp: get_or_def entries_ok_def entry_ok_def split: option.splits dest!: map_of_SomeD)
  have d: "delay ?f = (if ?f < 4 then 0 else 5)" using few by (intro delay_cases) simp
  have new: "entry_ok now (?f, now + of_int (delay ?f))"
    using few nonneg millis_add[OF \<open>millis now\<close>, of "delay ?f"] d by (simp add: entry_ok_def)
  assume "count_failure now k (ds, t) = (r, t')"
  then have "t' = t\<lparr>th_entries := put_last k (?f, now + of_int (delay ?f)) (th_entries t)\<rparr>" "r = ds @ [delay ?f]"
    by (auto simp: count_failure_def Let_def)
  then show ?thesis
    using ok new d set_put_last[of k "(?f, now + of_int (delay ?f))" "th_entries t"]
    by (auto simp: entries_ok_def wf_put_last get_or_def map_of_put_last)
qed

lemma failure_ok:
  assumes ok: "throttle_ok now t" and few: "\<And>k. k \<in> set (throttle_keys u src) \<Longrightarrow> fst (get_or (th_entries (cleanup now t)) k (0, now)) \<le> 3" and "millis now"
    and run: "failure now u src t = (d, t')"
  shows "throttle_ok now t' \<and> d \<in> {0, 5}"
proof -
  let ?u = "(''user'', u)" and ?s = "(''source'', src)"
  obtain r1 t1 where s1: "count_failure now ?u ([], cleanup now t) = (r1, t1)" by fastforce
  obtain r2 t2 where s2: "count_failure now ?s (r1, t1) = (r2, t2)" by fastforce
  have "entries_ok now (th_entries (cleanup now t))" using cleanup_ok[OF ok order_refl, of now] by (simp add: throttle_ok_def entries_ok_def)
  from count_failure_ok[OF this _ \<open>millis now\<close> s1] few
  obtain d1 where one: "entries_ok now (th_entries t1)" "d1 \<in> {0, 5}" "r1 = [d1]"
    "get_or (th_entries t1) ?s (0, now) = get_or (th_entries (cleanup now t)) ?s (0, now)"
    by (auto simp: throttle_keys_def)
  from count_failure_ok[OF one(1) _ \<open>millis now\<close> s2] few[of ?s] one(3,4)
  obtain d2 where two: "entries_ok now (th_entries t2)" "d2 \<in> {0, 5}" "r2 = [d1, d2]"
    by (auto simp: throttle_keys_def)
  have "d = max d1 d2" "t' = cleanup now t2"
    using run s1 s2 two(3) by (auto simp: failure_def throttle_keys_def)
  moreover have "\<forall>(k, e) \<in> set (th_entries (cleanup now t2)). entry_ok now e"
    using two(1) cleanup_entries[of now t2] by (fastforce simp: entries_ok_def)
  ultimately show ?thesis
    using two one(2) ok cleanup_wf[of t2 now] cleanup_bounded[of now t2]
    by (auto simp: throttle_ok_def entries_ok_def)
qed

lemma delete_entries_subset: "set (AList.delete k d) \<subseteq> set d"
  by (auto simp: AList.delete_eq)

lemma success_ok:
  assumes "throttle_ok now t"
  shows "throttle_ok now (success u src t)"
proof -
  let ?d = "AList.delete (''source'', src) (AList.delete (''user'', u) (th_entries t))"
  have "length ?d \<le> length (th_entries t)" by (rule order_trans[OF length_delete_le length_delete_le])
  moreover have "set ?d \<subseteq> set (th_entries t)" by (rule subset_trans[OF delete_entries_subset delete_entries_subset])
  ultimately show ?thesis using assms unfolding throttle_ok_def success_def by auto
qed

lemma attempt_ok:
  assumes ok: "throttle_ok now t" and times: "now \<le> t1" "t1 \<le> t2" "millis t1" "millis t2"
    and run: "attempt_login t1 t2 good u src t = (r, t')"
  shows "throttle_ok t2 t' \<and> (case r of Throttled w \<Rightarrow> 1 \<le> w \<and> w \<le> 5 | Rejected d \<Rightarrow> d \<in> {0, 5} | LoggedIn \<Rightarrow> True)"
proof -
  let ?c = "cleanup t1 t" and ?times = "map (\<lambda>k. snd (get_or (th_entries (cleanup t1 t)) k (0, 0))) (throttle_keys u src)"
  let ?wait = "max 0 (truncate_rat (Max (set ?times) - t1 + 999 / 1000))"
  have c: "throttle_ok t1 ?c" using cleanup_ok[OF ok times(1)] .
  have retry: "retry_after t1 u src t = (?wait, ?c)" by (simp add: retry_after_def Let_def)
  have entry: "entry_ok t1 e \<and> \<not> expired t1 e" if "map_of (th_entries ?c) k = Some e" for k e
    using map_of_SomeD[OF that] c cleanup_entries[of t1 t] by (auto simp: throttle_ok_def)
  have each: "millis (snd (get_or (th_entries ?c) k (0, 0)))" "snd (get_or (th_entries ?c) k (0, 0)) \<le> t1 + 5" for k
    using entry[of k] c by (auto simp: get_or_def entry_ok_def throttle_ok_def millis_def split: option.splits if_splits)
  have max_in: "Max (set ?times) \<in> set ?times" by (rule Max_in) (simp_all add: throttle_keys_def)
  then have m: "millis (Max (set ?times))" "Max (set ?times) \<le> t1 + 5" using each by auto
  have c2: "throttle_ok t2 ?c" using c times(2) entry_ok_later by (fastforce simp: throttle_ok_def)
  have run': "(r, t') = (if ?wait \<noteq> 0 then (Throttled ?wait, ?c) else if good then (LoggedIn, success u src ?c)
      else let (d, t'') = failure t2 u src ?c in (Rejected d, t''))"
    using run[symmetric] unfolding attempt_login_def retry Let_def prod.case .
  show ?thesis
  proof (cases "?wait = 0")
    case False
    have "?wait \<le> 5" using m(2) truncate_less[of "Max (set ?times) - t1 + 999 / 1000" 5] by simp
    moreover have "1 \<le> ?wait" using False by linarith
    moreover have "r = Throttled ?wait" "t' = ?c" using run'[unfolded if_P[OF False]] by (simp_all only: prod.inject)
    ultimately show ?thesis using c2 by (simp only: attempt_result.case simp_thms)
  next
    case True
    then have past: "Max (set ?times) \<le> t1" using no_wait[OF _ m(1) times(3)] by blast
    have few: "fst e \<le> 3" if "k \<in> set (throttle_keys u src)" "map_of (th_entries ?c) k = Some e" for k e
    proof -
      have "snd e \<in> set ?times" using that by (force simp: get_or_def)
      then have "snd e \<le> t1" using order_trans[OF Max_ge past] by blast
      with entry[OF that(2)] show ?thesis by (simp add: expired_def)
    qed
    have few2: "fst (get_or (th_entries (cleanup t2 ?c)) k (0, t2)) \<le> 3" if "k \<in> set (throttle_keys u src)" for k
    proof (cases "map_of (th_entries (cleanup t2 ?c)) k")
      case (Some e)
      then have "(k, e) \<in> set (th_entries ?c)" using cleanup_entries map_of_SomeD by fastforce
      then have "map_of (th_entries ?c) k = Some e" using c by (auto simp: throttle_ok_def wf_dict_def intro: map_of_is_SomeI)
      with few[OF that] Some show ?thesis by (simp add: get_or_def)
    qed (simp add: get_or_def)
    have "throttle_ok t2 (success u src ?c)" by (rule success_ok[OF c2])
    moreover obtain d t'' where f: "failure t2 u src ?c = (d, t'')" by fastforce
    moreover note failure_ok[OF c2 few2 times(4) f]
    ultimately show ?thesis
      using run' unfolding True by (auto split: if_splits)
  qed
qed

lemma failure_max: "th_max_entries (snd (failure now u src t)) = th_max_entries t"
proof -
  have "th_max_entries (snd (count_failure now k acc)) = th_max_entries (snd acc)" for k acc
    by (simp add: count_failure_def Let_def split: prod.split)
  then show ?thesis by (simp add: failure_def throttle_keys_def cleanup_bounded split: prod.split) (metis cleanup_bounded(2) snd_conv)
qed

lemma attempt_max: "th_max_entries (snd (attempt_login t1 t2 good u src t)) = th_max_entries t"
proof -
  obtain w t' where r: "retry_after t1 u src t = (w, t')" by fastforce
  then have "th_max_entries t' = th_max_entries t" by (auto simp: retry_after_def Let_def cleanup_bounded)
  with r failure_max[of t2 u src t'] show ?thesis
    by (auto simp: attempt_login_def success_def split: prod.split)
qed

lemma logins_ok: "logins t0 now t \<Longrightarrow> th_entries t0 = [] \<Longrightarrow> throttle_ok now t"
proof (induction rule: logins.induct)
  case (logins_attempt now t t1 t2 good u src)
  obtain r t' where run: "attempt_login t1 t2 good u src t = (r, t')" by fastforce
  note attempt_ok[OF logins_attempt.IH[OF logins_attempt.prems] logins_attempt.hyps(2-5) run]
  then have "throttle_ok t2 t'" ..
  with run show ?case by (simp only: snd_conv)
qed (simp add: throttle_ok_def)


text \<open>Four failures at second 100, seen at the fourth, at once after it and when the delay is over.\<close>

definition failed_once :: "throttle \<Rightarrow> throttle" where
  "failed_once t = snd (attempt_login 100 100 False ''alice'' ''peer'' t)"

lemma failed_once_logins: "logins t0 now t \<Longrightarrow> now \<le> 100 \<Longrightarrow> logins t0 100 (failed_once t)"
  unfolding failed_once_def by (rule logins_attempt) (simp_all add: millis_def)


section \<open>Credentials\<close>

text \<open>What Python documents of the urlsafe base64 codec.\<close>

definition proper_codec :: "auth_kit \<Rightarrow> bool" where
  "proper_codec kit \<longleftrightarrow> (\<forall>x. b64decode kit (b64encode kit x) = Some x \<and> CHR ''$'' \<notin> set (b64encode kit x))"

lemma split_on_sep: "c \<notin> set a \<Longrightarrow> split_on c (a @ c # b) = a # split_on c b"
  by (induction a) (auto split: list.split)

lemma split_on_plain: "c \<notin> set a \<Longrightarrow> split_on c a = [a]"
  by (induction a) auto

lemma verify_hashed:
  assumes codec: "proper_codec kit" and h: "hash_password kit salt password = Some h"
  shows "verify_password kit guess h \<longleftrightarrow> pbkdf2 kit guess salt 240000 = pbkdf2 kit password salt 240000"
proof -
  obtain digest where d: "pbkdf2 kit password salt 240000 = Some digest"
    and h': "h = ''pbkdf2_sha256'' @ CHR ''$'' # ''240000'' @ CHR ''$'' # b64encode kit salt @ CHR ''$'' # b64encode kit digest"
    using h by (auto simp: hash_password_def)
  have "split_four h = Some (''pbkdf2_sha256'', ''240000'', b64encode kit salt, b64encode kit digest)"
    using codec by (simp add: h' split_four_def proper_codec_def split_on_sep split_on_plain join_with_def)
  moreover have "parse_int ''240000'' = Some 240000"
    by (simp add: parse_int_def strip_def is_space_def int_of_digits_def is_digit_def code_point_def)
  ultimately show ?thesis
    using codec d by (auto simp: verify_password_def proper_codec_def split: option.splits)
qed

lemma authenticate_found: "map_of (default [] (load_users f)) u = Some r \<Longrightarrow> us_hash r = Some h \<Longrightarrow>
    authenticate kit u pw f = (if default True (us_enabled r) \<and> verify_password kit pw h then Some r else None)"
  by (auto simp: authenticate_def Let_def empty_user_def)

lemma authenticate_cong: "map_of (default [] (load_users f)) u = map_of (default [] (load_users g)) u \<Longrightarrow>
    authenticate kit u pw f = authenticate kit u pw g"
  by (simp add: authenticate_def Let_def)

text \<open>C28: a user who was added logs in with the password that was given, and with another one only when its PBKDF2 digest
  under the stored salt is the same; the account has the role it was added with. Once disabled, it accepts no password. Neither
  call changes what any other user's login gives.\<close>

theorem added_user_logs_in:
  assumes codec: "proper_codec kit" and add: "add_user kit salt u password r f = Inr f'"
  shows "(\<exists>a. authenticate kit u password f' = Some a \<and> us_role a = Some r \<and> has_key ROLES r) \<and>
    (authenticate kit u guess f' \<noteq> None \<longleftrightarrow> pbkdf2 kit guess salt 240000 = pbkdf2 kit password salt 240000) \<and>
    (\<exists>f''. disable_user u f' = Inr f'' \<and> authenticate kit u guess f'' = None \<and>
       (v \<noteq> u \<longrightarrow> authenticate kit v guess f' = authenticate kit v guess f \<and> authenticate kit v guess f'' = authenticate kit v guess f))"
proof -
  obtain users h where load: "load_users f = Some users" and h: "hash_password kit salt password = Some h" and r: "has_key ROLES r"
    and f': "f' = Some (Some (AList.update u \<lparr>us_hash = Some h, us_role = Some r, us_display_name = Some u, us_enabled = Some True\<rparr> users))"
    using add by (auto simp: add_user_def split: if_splits option.splits)
  let ?new = "\<lparr>us_hash = Some h, us_role = Some r, us_display_name = Some u, us_enabled = Some True\<rparr>"
  have found: "map_of (default [] (load_users f')) u = Some ?new" by (simp add: f' load_users_def)
  note auth = authenticate_found[OF found, of h kit, simplified, unfolded verify_hashed[OF codec h]]
  let ?f'' = "Some (Some (AList.update u (?new\<lparr>us_enabled := Some False\<rparr>) (AList.update u ?new users)))"
  have dis: "disable_user u f' = Inr ?f''" by (simp add: disable_user_def f' load_users_def)
  have "authenticate kit u guess ?f'' = None"
    by (subst authenticate_found[of _ _ "?new\<lparr>us_enabled := Some False\<rparr>" h]) (simp_all add: load_users_def)
  moreover have "authenticate kit v guess f' = authenticate kit v guess f" "authenticate kit v guess ?f'' = authenticate kit v guess f" if "v \<noteq> u"
    using that load by (auto intro!: authenticate_cong simp: f' load_users_def)
  ultimately show ?thesis using auth dis r by auto
qed

text \<open>A codec in base 16, and a digest that is told apart by its length.\<close>

fun hex_encode :: "string \<Rightarrow> string" where
  "hex_encode [] = []"
| "hex_encode (c # cs) = char_of (65 + code_point c div 16) # char_of (65 + code_point c mod 16) # hex_encode cs"

fun hex_decode :: "string \<Rightarrow> string option" where
  "hex_decode [] = Some []"
| "hex_decode [c] = None"
| "hex_decode (a # b # cs) = map_option (Cons (char_of (16 * (code_point a - 65) + (code_point b - 65)))) (hex_decode cs)"

definition demo_auth :: auth_kit where
  "demo_auth = \<lparr>pbkdf2 = (\<lambda>p s n. Some (p @ s)), b64encode = hex_encode, b64decode = hex_decode\<rparr>"

lemma hex_chars: "code_point c div 16 < 16" "code_point c mod 16 < 16"
  using code_point_less[of c] by (simp_all add: less_mult_imp_div_less)

lemma hex_inverse: "hex_decode (hex_encode x) = Some x"
proof (induction x)
  case (Cons c x)
  have "char_of (16 * (code_point c div 16) + code_point c mod 16) = c" by (simp add: code_point_def)
  with Cons hex_chars[of c] show ?case by simp
qed simp

lemma hex_plain: "CHR ''$'' \<notin> set (hex_encode x)"
proof (induction x)
  case (Cons c x)
  have "CHR ''$'' \<noteq> char_of (65 + n)" if "n < 16" for n :: nat
  proof
    assume "CHR ''$'' = char_of (65 + n)"
    then have "code_point (CHR ''$'') = 65 + n" using that by simp
    then show False by (simp add: code_point_def)
  qed
  with Cons hex_chars[of c] show ?case by auto
qed simp

lemma demo_codec: "proper_codec demo_auth"
  by (simp add: proper_codec_def demo_auth_def hex_inverse hex_plain)

theorem added_user_logs_in_witness:
  "\<exists>f. add_user demo_auth ''salt'' ''ann'' ''secret'' ''operator'' None = Inr f \<and>
     (\<exists>a. authenticate demo_auth ''ann'' ''secret'' f = Some a \<and> us_role a = Some ''operator'') \<and>
     authenticate demo_auth ''ann'' ''guess'' f = None"
proof -
  have "\<exists>f. add_user demo_auth ''salt'' ''ann'' ''secret'' ''operator'' None = Inr f"
    by (simp add: add_user_def load_users_def hash_password_def demo_auth_def ROLES_def has_key_def)
  then obtain f where f: "add_user demo_auth ''salt'' ''ann'' ''secret'' ''operator'' None = Inr f" ..
  from added_user_logs_in[OF demo_codec f, of "''guess''"] f show ?thesis by (simp add: demo_auth_def) blast
qed

end
