(* ===== verification/Dashboard_Facts.thy ===== *)
theory Dashboard_Facts
  imports Dashboard Admin_Facts Supervisor_Steps
begin

text \<open>
  Who may act over HTTP: a request changes the supervisor only for a live session with its CSRF token and a role
  that permits the action, and what a live session asks of the administration is recorded whatever comes of it.
\<close>

text \<open>The supervisor's own state, without the world that clocks and random sources advance.\<close>

definition core :: "'w dash \<Rightarrow> (string \<Rightarrow> instance_state) \<times> (string, string) dict \<times> (string \<times> string) set \<times> state_store" where
  "core s = (instances (da_sup s), overrides (da_sup s), jobs_running (da_sup s), store (da_sup s))"

definition frozen :: "'w dash \<Rightarrow> 'w dash \<Rightarrow> bool" where
  "frozen s s' \<longleftrightarrow> core s' = core s \<and> da_users s' = da_users s"

text \<open>The session a request belongs to when it arrives.\<close>

definition caller :: "'w web \<Rightarrow> request \<Rightarrow> 'w dash \<Rightarrow> web_session option" where
  "caller w rq s = (let token = cookie_value ''ubb_admin'' (rq_cookie rq) in
     if truthy token then fst (get_session (the token) (fst (wb_time w (world (da_sup s)))) (da_sessions s)) else None)"

definition required_role :: "string \<Rightarrow> role" where
  "required_role action = (if action \<in> {''lifecycle'', ''promote'', ''rollback''} then Administrator else Operator)"

definition action_of :: "request \<Rightarrow> string" where
  "action_of rq = last (path_parts (rq_path rq))"

definition authorized :: "request \<Rightarrow> web_session \<Rightarrow> bool" where
  "authorized rq ws \<longleftrightarrow> starts_with ''/api/v1/admin/'' (rq_path rq) \<and> ws_csrf ws \<noteq> [] \<and> supplied_csrf rq = ws_csrf ws \<and>
     permits (ws_role ws) (required_role (action_of rq))"

section \<open>Steps that leave the supervisor alone\<close>

definition untouched :: "'w dash \<Rightarrow> 'w dash \<Rightarrow> bool" where
  "untouched s s' \<longleftrightarrow> frozen s s' \<and> da_audit s' = da_audit s"

lemma untouched_trans: "untouched s t \<Longrightarrow> untouched t u \<Longrightarrow> untouched s u"
  and frozen_trans: "frozen s t \<Longrightarrow> frozen t u \<Longrightarrow> frozen s u"
  by (simp_all add: untouched_def frozen_def)

lemma untouched_refl [simp]: "untouched s s" "frozen s s"
  by (simp_all add: untouched_def frozen_def)

lemma untouched_world: "untouched s (snd (from_world f s))"
  by (simp add: from_world_def untouched_def frozen_def core_def split: prod.split)

lemma from_world_returns: "\<exists>x t. from_world f s = (Ret x, t) \<and> untouched s t"
  using untouched_world[of s f] by (auto simp: from_world_def split: prod.splits)

lemma from_world_time: "from_world f s = (Ret x, t) \<Longrightarrow> x = fst (f (world (da_sup s))) \<and> da_sessions t = da_sessions s"
  by (auto simp: from_world_def split: prod.splits)

lemma authenticated: "\<exists>t. app_authenticate w (cookie_value ''ubb_admin'' (rq_cookie rq)) s = (Ret (caller w rq s), t) \<and> untouched s t"
proof (cases "truthy (cookie_value ''ubb_admin'' (rq_cookie rq))")
  case True
  let ?tok = "the (cookie_value ''ubb_admin'' (rq_cookie rq))"
  obtain x t where t: "from_world (wb_time w) s = (Ret x, t)" "untouched s t" using from_world_returns[of "wb_time w" s] by blast
  obtain r st where g: "get_session ?tok x (da_sessions s) = (r, st)" by fastforce
  have "app_authenticate w (cookie_value ''ubb_admin'' (rq_cookie rq)) s = (Ret r, t\<lparr>da_sessions := st\<rparr>)"
    using True t g from_world_time[OF t(1)] by (simp add: app_authenticate_def bind_returning)
  moreover have "r = caller w rq s" using True g from_world_time[OF t(1)] by (simp add: caller_def Let_def)
  moreover have "untouched s (t\<lparr>da_sessions := st\<rparr>)" using t(2) by (simp add: untouched_def frozen_def core_def)
  ultimately show ?thesis by blast
qed (simp add: app_authenticate_def caller_def Let_def ret_def)

text \<open>The audit record of a request.\<close>

lemma audited: "\<exists>t a'. write_audit w a s = (Ret (), t) \<and> frozen s t \<and> da_audit t = (if wb_has_audit w then da_audit s @ [a'] else da_audit s) \<and>
    au_actor a' = au_actor a \<and> au_role a' = au_role a \<and> au_action a' = au_action a \<and> au_target a' = au_target a \<and> au_result a' = au_result a \<and>
    au_message a' = take 500 (au_message a)"
proof (cases "wb_has_audit w")
  case True
  obtain x t where t: "from_world (wb_stamp w) s = (Ret x, t)" "untouched s t" using from_world_returns[of "wb_stamp w" s] by blast
  have "\<exists>k u. (if au_request_id a = [] then from_world (wb_token w) else ret []) t = (Ret k, u) \<and> untouched t u"
    using from_world_returns[of "wb_token w" t] by (simp add: ret_def)
  then obtain k u where u: "(if au_request_id a = [] then from_world (wb_token w) else ret []) t = (Ret k, u)" "untouched t u" by blast
  have "untouched s u" using t(2) u(2) untouched_trans by blast
  with True t(1) u(1) show ?thesis
    by (intro exI[of _ "snd (write_audit w a s)"] exI[of _ "fst (audit_append x k a (da_audit u))"])
      (simp add: write_audit_def onlyif_def bind_returning modify_def audit_append_def Let_def untouched_def frozen_def core_def)
next
  case False
  then show ?thesis
    by (intro exI[of _ s] exI[of _ "a\<lparr>au_message := take 500 (au_message a)\<rparr>"]) (simp add: write_audit_def onlyif_def ret_def)
qed

section \<open>What a role denies\<close>

lemma denied: "\<not> permits r n \<Longrightarrow> andThen (require_role r n) m s = (Raise (AdminPermissionError [''insufficient role'']), s)"
  by (simp add: require_role_def andThen_raise_if)

lemma perform_denied:
  assumes "\<not> permits r (required_role action)"
  shows "\<exists>e. perform a action target f r s = (Raise e, s)"
proof -
  consider (job) "action = ''maintenance''" | (other) "action \<noteq> ''maintenance''" by blast
  then show ?thesis
  proof cases
    case job
    with assms have no: "\<not> permits r Operator" by (simp add: required_role_def)
    have m: "perform a action target f r = admin_job a target (form_value f ''job_id'' []) r" using job by (simp add: perform_def)
    show ?thesis
    proof (cases "as_supervisor a")
      case (Some p)
      then show ?thesis
        by (cases p; cases "get_service (registry_of (fst p)) target")
          (simp_all add: m admin_job_def with_supervisor_def admin_maintenance_def denied[OF no] andThen_raise_if raise_def)
    qed (simp add: m admin_job_def with_supervisor_def no_supervisor_def raise_def)
  next
    case other
    show ?thesis
    proof (cases "action \<in> {''lifecycle'', ''promote'', ''rollback''}")
      case True
      with assms have no: "\<not> permits r Administrator" by (simp add: required_role_def)
      from True show ?thesis by (auto simp: perform_def admin_lifecycle_def admin_promote_def admin_rollback_def denied[OF no])
    next
      case False
      with assms have no: "\<not> permits r Operator" by (simp add: required_role_def)
      from False other show ?thesis
        by (simp add: perform_def admin_start_def admin_stop_def admin_restart_def admin_backup_def admin_qualify_def raise_def denied[OF no])
    qed
  qed
qed

lemma run_action_denied: "\<not> permits r (required_role action) \<Longrightarrow> \<exists>e. run_action a action target f r s = (Raise e, s)"
  using perform_denied by (fastforce simp: run_action_def raise_def split: option.split)

lemma outcome_of_status: "outcome_of r = (n, res, m) \<Longrightarrow> (n = 200 \<longleftrightarrow> res = ''success'') \<and> (n = 200 \<longleftrightarrow> (\<exists>v. r = Inr v))"
  by (cases r rule: outcome_of.cases) auto

section \<open>Requests\<close>

lemma admin_path_parts: "starts_with ''/api/v1/admin/'' p \<Longrightarrow> path_parts p \<noteq> []"
proof -
  assume "starts_with ''/api/v1/admin/'' p"
  then obtain rest where p: "p = ''/api/v1/admin/'' @ rest" unfolding starts_with_def by (metis append_take_drop_id)
  show ?thesis by (simp add: p path_parts_def)
qed

text \<open>An administration request of a live session.\<close>

lemma post_admin_outcome:
  assumes "starts_with ''/api/v1/admin/'' (rq_path rq)" and "post_admin w rq ws s = (r, s')"
  shows "(r = NoFuel \<and> authorized rq ws) \<or> (\<exists>resp a. r = Ret resp \<and> da_audit s' = (if wb_has_audit w then da_audit s @ [a] else da_audit s) \<and>
    au_actor a = ws_username ws \<and> au_role a = ws_role ws \<and> au_action a = action_of rq \<and> length (au_message a) \<le> 500 \<and>
    (rs_status resp = 200 \<longleftrightarrow> au_result a = ''success'') \<and> (\<not> authorized rq ws \<longrightarrow> rs_status resp \<noteq> 200 \<and> frozen s s'))"
proof (cases "supplied_csrf rq = [] \<or> supplied_csrf rq \<noteq> ws_csrf ws")
  case True
  then have "\<not> authorized rq ws" by (auto simp: authorized_def)
  obtain i t where t: "from_world (wb_token w) s = (Ret i, t)" "untouched s t" using from_world_returns[of "wb_token w" s] by blast
  let ?a = "audit_of (ws_username ws) (ws_role ws) (action_of rq) (target_of (path_parts (rq_path rq)) ''admin'') ''denied'' ''csrf rejected'' i (rq_client rq)"
  obtain u a' where u: "write_audit w ?a t = (Ret (), u)" "frozen t u" "da_audit u = (if wb_has_audit w then da_audit t @ [a'] else da_audit t)"
    "au_actor a' = ws_username ws" "au_role a' = ws_role ws" "au_action a' = action_of rq" "au_result a' = ''denied''" "length (au_message a') \<le> 500"
    using audited[of w ?a t] by (auto simp: audit_of_def)
  have "path_parts (rq_path rq) \<noteq> []" by (rule admin_path_parts[OF assms(1)])
  then have "post_admin w rq ws s = (Ret (reply 403 (Html ''CSRF rejected'')), u)"
    using True t(1) u(1) by (simp add: post_admin_def Let_def bind_returning andThen_returning ret_def action_of_def)
  with assms(2) u t(2) frozen_trans show ?thesis
    by (intro disjI2 exI[of _ "reply 403 (Html ''CSRF rejected'')"] exI[of _ a']) (auto simp: reply_def untouched_def intro: frozen_trans)
next
  case False
  obtain i t where t: "from_world (wb_token w) s = (Ret i, t)" "untouched s t" using from_world_returns[of "wb_token w" s] by blast
  let ?run = "run_action (wb_actions w) (action_of rq) (target_of (path_parts (rq_path rq)) ''integration'') (rq_form rq) (ws_role ws)"
  obtain o1 u where run: "?run (da_sup t) = (o1, u)" by fastforce
  have step: "post_admin w rq ws s = web_action w rq ws i t" using t(1) by (simp add: post_admin_def if_not_P[OF False] bind_returning)
  let ?t = "t\<lparr>da_sup := u\<rparr>"
  have refused: "\<exists>e. o1 = Raise e \<and> u = da_sup t" if "\<not> authorized rq ws"
  proof -
    have "\<not> permits (ws_role ws) (required_role (action_of rq))" using that False assms(1) by (auto simp: authorized_def)
    from run_action_denied[OF this, of "wb_actions w" "target_of (path_parts (rq_path rq)) ''integration''" "rq_form rq" "da_sup t"] run
    show ?thesis by auto
  qed
  show ?thesis
  proof (cases "o1 = NoFuel")
    case True
    then have "web_action w rq ws i t = (NoFuel, ?t)"
      using run by (simp add: web_action_def Let_def action_of_def[symmetric] bind_def attempt_def on_sup_def)
    with step assms(2) refused True show ?thesis by auto
  next
    case False
    define x where "x = (case o1 of Ret v \<Rightarrow> Inr v | Raise e \<Rightarrow> Inl e | NoFuel \<Rightarrow> undefined)"
    obtain n res msg where out: "outcome_of x = (n, res, msg)" by (metis prod_cases3)
    let ?a = "audit_of (ws_username ws) (ws_role ws) (action_of rq) (target_of (path_parts (rq_path rq)) ''integration'') res msg i (rq_client rq)"
    obtain v a' where v: "write_audit w ?a ?t = (Ret (), v)" "frozen ?t v" "da_audit v = (if wb_has_audit w then da_audit ?t @ [a'] else da_audit ?t)"
      "au_actor a' = ws_username ws" "au_role a' = ws_role ws" "au_action a' = action_of rq" "au_result a' = res" "length (au_message a') \<le> 500"
      using audited[of w ?a ?t] by (auto simp: audit_of_def)
    have att: "attempt (on_sup ?run) t = (Ret x, ?t)"
      using run False by (cases o1) (simp_all add: attempt_def on_sup_def x_def)
    have "web_action w rq ws i t = (Ret (reply n (Outcome msg)), v)"
      unfolding web_action_def Let_def action_of_def[symmetric] bind_returning[where m = "attempt (on_sup ?run)", OF att] out prod.case
      using v(1) by (simp add: andThen_returning ret_def)
    moreover have "rs_status (reply n (Outcome msg)) \<noteq> 200 \<and> frozen s v" if "\<not> authorized rq ws"
    proof -
      from refused[OF that] obtain e where "o1 = Raise e" "u = da_sup t" by blast
      then have "n \<noteq> 200" "?t = t" using outcome_of_status[OF out] by (auto simp: x_def)
      with v(2) t(2) frozen_trans show ?thesis by (auto simp: reply_def untouched_def)
    qed
    moreover have "n = 200 \<longleftrightarrow> res = ''success''" using outcome_of_status[OF out] by simp
    ultimately show ?thesis
      using step assms(2) v t(2)
      by (intro disjI2 exI[of _ "reply n (Outcome msg)"] exI[of _ a']) (auto simp: reply_def untouched_def)
  qed
qed

section \<open>The claims\<close>

text \<open>A login does to the throttle what \<open>attempt_login\<close> says.\<close>

lemma login_attempts:
  assumes "remote \<noteq> []"
  shows "da_throttle (snd (app_login w u password remote s)) =
    snd (attempt_login (fst (wb_time w (world (da_sup s)))) (fst (wb_time w (snd (wb_time w (world (da_sup s))))))
    (wb_has_auth w \<and> authenticate (wb_kit w) u password (da_users s) \<noteq> None) u remote (da_throttle s))"
  using assms
  by (auto simp: app_login_def throttle_wait_def attempt_login_def from_world_def prog_defs Let_def split: prod.splits option.splits if_splits)

lemma keeps_world [keeps_rules]: "keeps (frozen s0) (from_world f)"
  by (rule keepsI) (use untouched_world frozen_trans in \<open>unfold untouched_def, blast\<close>)

lemma keeps_frozen_modify: "(\<And>s. frozen s (f s)) \<Longrightarrow> keeps (frozen s0) (modify f)"
  by (rule keeps_modify) (rule frozen_trans)

lemma keeps_throttle [keeps_rules]: "keeps (frozen s0) (throttle_wait w u source)"
  unfolding throttle_wait_def
  by (intro keeps_bind keeps_world) (simp add: keeps_def frozen_def core_def split: prod.split)

lemma keeps_audit [keeps_rules]: "keeps (frozen s0) (write_audit w a)"
proof (rule keepsI)
  fix s assume "frozen s0 s"
  moreover obtain t where "write_audit w a s = (Ret (), t)" "frozen s t" using audited[of w a s] by blast
  ultimately show "frozen s0 (snd (write_audit w a s))" using frozen_trans by simp
qed

lemma keeps_login [keeps_rules]: "keeps (frozen s0) (app_login w u password source)"
  unfolding app_login_def Let_def
  by (intro keeps_rules keeps_frozen_modify) (simp_all add: frozen_def core_def)

lemma keeps_post_login: "keeps (frozen s0) (post_login w rq)"
  unfolding post_login_def Let_def by (intro keeps_rules)



section \<open>A run\<close>

definition demo_service :: "fake_world action_service" where
  "demo_service = \<lparr>as_supervisor = Some (demo_env, Suc (Suc 0)), as_integrations = None, as_backup_api = None, as_qualify_api = None,
     as_install_roots = [], as_archive_root = None\<rparr>"

definition demo_web :: "fake_world web" where
  "demo_web = \<lparr>wb_time = (\<lambda>w. (7, w)), wb_token = fake_id, wb_stamp = (\<lambda>w. (''now'', w)), wb_kit = demo_auth, wb_actions = Some demo_service,
     wb_has_auth = True, wb_has_audit = True, wb_require_auth = True, wb_api = (\<lambda>p s. Inr None), wb_page = (\<lambda>p c l s. Inr None)\<rparr>"

definition session_of :: "role \<Rightarrow> web_session" where
  "session_of r = \<lparr>ws_username = ''ann'', ws_role = role_name r, ws_csrf = ''c5'', ws_expires = 100\<rparr>"

definition demo_dash :: "fake_world dash" where
  "demo_dash = \<lparr>da_throttle = new_throttle 9, da_users = None,
     da_sessions = \<lparr>ss_items = [(''o1'', session_of Operator), (''v1'', session_of Viewer)], ss_lifetime = 28800\<rparr>, da_audit = [], da_sup = demo_start\<rparr>"

definition demo_request :: "string \<Rightarrow> request" where
  "demo_request token = \<lparr>rq_path = ''/api/v1/admin/services/bbs/start'', rq_form = [(''csrf'', [''c5''])], rq_csrf = None,
     rq_cookie = ''ubb_admin='' @ token, rq_client = ''peer''\<rparr>"

lemma demo_callers: "caller demo_web (demo_request ''o1'') demo_dash = Some (session_of Operator)"
  "caller demo_web (demo_request ''v1'') demo_dash = Some (session_of Viewer)"
  by (simp_all add: caller_def demo_request_def cookie_value_def starts_with_def strip_def is_space_def code_point_def demo_web_def demo_dash_def
      get_session_def session_of_def)

lemma demo_cookies: "cookie_value ''ubb_admin'' (rq_cookie (demo_request ''o1'')) = Some ''o1''"
  "cookie_value ''ubb_admin'' (rq_cookie (demo_request ''v1'')) = Some ''v1''"
  by (simp_all add: demo_request_def cookie_value_def starts_with_def strip_def is_space_def code_point_def)

lemma demo_start_runs: "\<exists>v t. start demo_env (Suc (Suc 0)) ''bbs'' ''admin'' (demo_start\<lparr>world := w\<rparr>) = (Ret v, t) \<and> in_state (instances t ''bbs'') = RUNNING"
  if "fk_start_failures w = 0" "fk_ready_after_checks w = 0" "fk_alive w = {}" for w
  using that by (simp add: sup_eval registry_eval demo_defs)

lemma demo_permits: "permits (role_name Operator) Operator" "\<not> permits (role_name Viewer) Operator"
  by (simp_all add: permits_iff ex_role less_eq_role_def)

lemma demo_run: "\<exists>t. post_admin demo_web (demo_request ''o1'') (session_of Operator) demo_dash = (Ret (reply 200 (Outcome ''action delegated'')), t) \<and>
     in_state (instances (da_sup t) ''bbs'') = RUNNING"
proof -
  let ?w = "snd (fake_id (world demo_start))" and ?i = "fst (fake_id (world demo_start))"
  let ?d = "demo_dash\<lparr>da_sup := demo_start\<lparr>world := ?w\<rparr>\<rparr>" and ?rq = "demo_request ''o1''"
  have token: "from_world (wb_token demo_web) demo_dash = (Ret ?i, ?d)"
    by (simp add: from_world_def demo_web_def demo_dash_def split: prod.split)
  obtain v t where run: "start demo_env (Suc (Suc 0)) ''bbs'' ''admin'' (demo_start\<lparr>world := ?w\<rparr>) = (Ret v, t)" "in_state (instances t ''bbs'') = RUNNING"
    using demo_start_runs[of ?w] by (auto simp: fake_id_def demo_start_def initial_def fake_start_world_def)
  have parts: "path_parts (rq_path ?rq) = [''api'', ''v1'', ''admin'', ''services'', ''bbs'', ''start'']"
    by (simp add: path_parts_def demo_request_def)
  have act: "run_action (wb_actions demo_web) ''start'' ''bbs'' (rq_form ?rq) (ws_role (session_of Operator)) (demo_start\<lparr>world := ?w\<rparr>) = (Ret (Snapshot v), t)"
    using run(1) by (simp add: run_action_def perform_def admin_start_def require_role_def demo_web_def demo_service_def with_supervisor_def session_of_def
        demo_permits[simplified] andThen_raise_if of_supervisor_def)
  obtain u a where aud: "write_audit demo_web (audit_of (ws_username (session_of Operator)) (ws_role (session_of Operator)) ''start'' ''bbs'' ''success'' ''action delegated'' ?i (rq_client ?rq))
      (?d\<lparr>da_sup := t\<rparr>) = (Ret (), u)" "frozen (?d\<lparr>da_sup := t\<rparr>) u"
    using audited by blast
  have "supplied_csrf ?rq = ''c5''" by (simp add: supplied_csrf_def demo_request_def form_value_def)
  then have "post_admin demo_web ?rq (session_of Operator) demo_dash = web_action demo_web ?rq (session_of Operator) ?i ?d"
    using token by (simp add: post_admin_def bind_returning session_of_def)
  also have "\<dots> = (Ret (reply 200 (Outcome ''action delegated'')), u)"
    using aud(1) act
    by (simp add: web_action_def parts target_of_def bind_def attempt_def on_sup_def andThen_def ret_def Let_def)
  finally show ?thesis using aud(2) run(2) by (auto simp: frozen_def core_def)
qed



end
