(* ===== verification/Network.thy ===== *)
theory Network
  imports Registry "HOL-Library.Product_Lexorder"
begin

text \<open>
  The network configuration: domain names, the DNS and time configuration of \<open>scripts/ubb_network.py\<close>, and
  the inventory of listeners and dependencies of \<open>scripts/ubb_network_hardening.py\<close>, over the registry's model.
  The parsers of the \<open>ipaddress\<close> module are functions of \<open>ip_kit\<close>. A configuration object is a record and
  its \<open>__post_init__\<close> a function that gives the object with its normalized fields, or the error.
\<close>

section \<open>Names and addresses\<close>

datatype network_error = NetworkConfigError message | NetworkHardeningError message

text \<open>\<open>str(ipaddress.ip_address(v))\<close> with its version, and \<open>str(ipaddress.ip_network(v, strict=False))\<close>; \<open>None\<close> is their
  \<open>ValueError\<close>.\<close>

record ip_kit =
  ip_address :: "string \<Rightarrow> (int \<times> string) option"
  ip_network :: "string \<Rightarrow> string option"

definition domain :: "string \<Rightarrow> network_error + string" where
  "domain v = (let d = rstrip_char (CHR ''.'') (lower v) in
     if d = [] \<or> 253 < length d \<or> \<not> list_all (fullmatch label_rx) (split_on (CHR ''.'') d)
     then Inl (NetworkConfigError [''invalid DNS domain'']) else Inr d)"

definition address :: "ip_kit \<Rightarrow> string \<Rightarrow> network_error + string" where
  "address kit v = (case ip_address kit v of None \<Rightarrow> Inl (NetworkConfigError [''invalid IP address'']) | Some (n, a) \<Rightarrow> Inr a)"

definition network :: "ip_kit \<Rightarrow> string \<Rightarrow> network_error + string" where
  "network kit v = (case ip_network kit v of None \<Rightarrow> Inl (NetworkConfigError [''invalid trusted network'']) | Some a \<Rightarrow> Inr a)"

section \<open>DNS\<close>

record dns_record =
  dr_name :: string
  dr_type :: string
  dr_value :: string

record dns_config =
  dc_internal_domain :: string
  dc_listen :: "string list"
  dc_trusted_networks :: "string list"
  dc_recursion :: bool
  dc_upstreams :: "string list"
  dc_records :: "dns_record list"

text \<open>The loop over the records; \<open>names\<close> are the keys seen.\<close>

fun check_records :: "ip_kit \<Rightarrow> (string \<times> string) list \<Rightarrow> dns_record list \<Rightarrow> network_error + unit" where
  "check_records kit names [] = Inr ()"
| "check_records kit names (r # rs) =
     bindS (domain (dr_name r)) (\<lambda>name.
     if (name, dr_type r) \<in> set names then Inl (NetworkConfigError [''duplicate DNS record''])
     else bindS (if dr_type r = ''A'' \<or> dr_type r = ''AAAA'' then bindS (address kit (dr_value r)) (\<lambda>_. Inr ())
                 else if dr_type r = ''CNAME'' then bindS (domain (dr_value r)) (\<lambda>_. Inr ())
                 else Inl (NetworkConfigError [''unsupported DNS record type'']))
       (\<lambda>_. check_records kit ((name, dr_type r) # names) rs))"

definition make_dns :: "ip_kit \<Rightarrow> dns_config \<Rightarrow> network_error + dns_config" where
  "make_dns kit c =
     bindS (domain (dc_internal_domain c)) (\<lambda>d.
     bindS (mapS (address kit) (dc_listen c)) (\<lambda>ls.
     bindS (mapS (network kit) (dc_trusted_networks c)) (\<lambda>ns.
     bindS (check_records kit [] (dc_records c)) (\<lambda>_.
     Inr (c\<lparr>dc_internal_domain := d, dc_listen := ls, dc_trusted_networks := ns\<rparr>)))))"

text \<open>\<open>sep.join(xs)\<close>\<close>

fun join_text :: "string \<Rightarrow> string list \<Rightarrow> string" where
  "join_text sep [] = []"
| "join_text sep [x] = x"
| "join_text sep (x # y # ys) = x @ sep @ join_text sep (y # ys)"

definition text_lines :: "string list \<Rightarrow> string" where
  "text_lines ls = join_text [line_feed] ls @ [line_feed]"

text \<open>\<open>str(n)\<close> of a natural number.\<close>

fun decimal :: "nat \<Rightarrow> string" where
  "decimal n = (if n < 10 then [char_of (48 + n)] else decimal (n div 10) @ [char_of (48 + n mod 10)])"

declare decimal.simps [simp del]

definition record_key :: "dns_record \<Rightarrow> string \<times> string \<times> string" where
  "record_key r = (dr_name r, dr_type r, dr_value r)"

definition double_quote :: char where
  "double_quote = CHR 0x22"

definition record_line :: "dns_record \<Rightarrow> network_error + string" where
  "record_line r = bindS (domain (dr_name r)) (\<lambda>n.
     Inr (''local-data: '' @ [double_quote] @ n @ '' '' @ dr_type r @ '' '' @ dr_value r @ [double_quote]))"

definition render_dns :: "dns_config \<Rightarrow> network_error + string" where
  "render_dns c = bindS (mapS record_line (sort_key record_key (dc_records c))) (\<lambda>rs.
     Inr (text_lines ([''server:'', ''  interface: '' @ join_text '', '' (dc_listen c)]
       @ map (\<lambda>n. ''  access-control: '' @ n @ '' allow'') (dc_trusted_networks c)
       @ [''  access-control: 0.0.0.0/0 refuse'', ''  access-control: ::/0 refuse'', ''  do-ip4: yes'', ''  do-ip6: yes'']
       @ (if \<not> dc_recursion c then [''  do-not-query-localhost: no''] else []) @ rs)))"

section \<open>Time\<close>

record ntp_config =
  nt_mode :: string
  nt_trusted_networks :: "string list"
  nt_upstreams :: "string list"

definition make_ntp :: "ip_kit \<Rightarrow> ntp_config \<Rightarrow> network_error + ntp_config" where
  "make_ntp kit c = (if nt_mode c \<notin> set [''client_only'', ''client_and_server''] then Inl (NetworkConfigError [''invalid NTP mode''])
     else bindS (mapS (network kit) (nt_trusted_networks c)) (\<lambda>ns. Inr (c\<lparr>nt_trusted_networks := ns\<rparr>)))"

definition render_ntp :: "ntp_config \<Rightarrow> string" where
  "render_ntp c = text_lines (map (\<lambda>x. ''pool '' @ x @ '' iburst'') (nt_upstreams c)
     @ (if nt_mode c = ''client_and_server'' then map (\<lambda>x. ''allow '' @ x) (nt_trusted_networks c) else []))"

section \<open>The inventory\<close>

record listener =
  li_service :: string
  li_protocol :: string
  li_host :: string
  li_port :: int
  li_exposure :: string
  li_tls :: bool

definition listener_key :: "listener \<Rightarrow> string \<times> string \<times> int" where
  "listener_key l = (li_protocol l, li_host l, li_port l)"

record inventory_item =
  it_id :: string
  it_type :: string
  it_title :: string
  it_lifecycle :: string
  it_exposure :: string

record inventory =
  iv_services :: "inventory_item list"
  iv_listeners :: "listener list"
  iv_dependencies :: "(string, string list) dict"

definition DEPENDENCIES :: "(string, string list) dict" where
  "DEPENDENCIES = [(''mail-edge'', [''dns-core'', ''mail-core'', ''edge-1'']), (''nntp-core'', [''dns-core'', ''edge-1'']),
     (''irc-core'', [''dns-core'', ''edge-1'']), (''ftn-mailer'', [''dns-core'', ''edge-1'']), (''offline-exchange'', []),
     (''dns-core'', []), (''ntp-core'', [])]"

text \<open>One service of the loop, with its endpoint, which a loaded registry has.\<close>

definition service_item :: "service \<Rightarrow> inventory_item" where
  "service_item s = \<lparr>it_id = sv_id s, it_type = sv_type s, it_title = sv_title s, it_lifecycle = lc_mode (sv_lifecycle s),
     it_exposure = (if \<not> sv_main_menu s then ''private'' else ''overlay'')\<rparr>"

definition service_listeners :: "service \<Rightarrow> endpoint \<Rightarrow> listener list" where
  "service_listeners s e = (case ep_port e of
      None \<Rightarrow> []
    | Some p \<Rightarrow> if p = 0 then [] else
        [\<lparr>li_service = sv_id s, li_protocol = ep_type e, li_host = default ''*'' (ep_host e), li_port = p, li_exposure = ''private'',
          li_tls = (ep_protocol e = Some ''smtp'')\<rparr>])"

definition from_registry :: "registry \<Rightarrow> network_error + inventory" where
  "from_registry r = (let ss = map snd (sort_key fst (services r)) in
     bindS (mapS (\<lambda>s. case map_of (endpoints r) (sv_endpoint_id s) of None \<Rightarrow> Inl (NetworkHardeningError [''KeyError'']) | Some e \<Rightarrow> Inr (s, e)) ss) (\<lambda>ps.
     Inr \<lparr>iv_services = map service_item ss, iv_listeners = concat (map (\<lambda>(s, e). service_listeners s e) ps),
       iv_dependencies = filter (\<lambda>(k, v). k \<in> sv_id ` set ss) DEPENDENCIES\<rparr>))"

text \<open>The collision check of \<open>validate\<close>; \<open>seen\<close> maps the keys to their services.\<close>

fun check_listeners :: "(string \<times> string \<times> int, string) dict \<Rightarrow> listener list \<Rightarrow> network_error + unit" where
  "check_listeners seen [] = Inr ()"
| "check_listeners seen (l # ls) = (case map_of seen (listener_key l) of
      Some other \<Rightarrow> Inl (NetworkHardeningError [''listener collision: '', li_service l, '' and '', other])
    | None \<Rightarrow> check_listeners (AList.update (listener_key l) (li_service l) seen) ls)"

text \<open>\<open>_check_cycles\<close>: the state is the two sets \<open>visiting\<close> and \<open>done\<close>. The recursion needs at most one call
  more than there are dependencies.\<close>

record marks =
  mk_visiting :: "string set"
  mk_done :: "string set"

type_synonym 'a walk = "(marks, network_error, 'a) prog"

fun visit :: "(string, string list) dict \<Rightarrow> nat \<Rightarrow> string \<Rightarrow> unit walk" where
  "visit deps 0 n = no_fuel"
| "visit deps (Suc fuel) n =
     bind (gets mk_visiting) (\<lambda>visiting.
     andThen (raise_if (n \<in> visiting) (NetworkHardeningError [''dependency cycle'']))
    (bind (gets mk_done) (\<lambda>finished.
     onlyif (n \<notin> finished)
       (andThen (modify (\<lambda>m. m\<lparr>mk_visiting := insert n (mk_visiting m)\<rparr>))
       (andThen (for_each (get_or deps n []) (\<lambda>d. onlyif (has_key deps d) (visit deps fuel d)))
        (modify (\<lambda>m. m\<lparr>mk_visiting := mk_visiting m - {n}, mk_done := insert n (mk_done m)\<rparr>)))))))"

definition no_marks :: marks where
  "no_marks = \<lparr>mk_visiting = {}, mk_done = {}\<rparr>"

definition check_cycles :: "(string, string list) dict \<Rightarrow> (network_error, unit) outcome" where
  "check_cycles deps = fst (for_each (map fst deps) (visit deps (Suc (length deps))) no_marks)"

definition validate_inventory :: "inventory \<Rightarrow> (network_error, bool) outcome" where
  "validate_inventory iv = (case check_listeners [] (iv_listeners iv) of
      Inl e \<Rightarrow> Raise e
    | Inr u \<Rightarrow> (case check_cycles (iv_dependencies iv) of Ret u \<Rightarrow> Ret True | Raise e \<Rightarrow> Raise e | NoFuel \<Rightarrow> NoFuel))"

record inventory_summary =
  is_service_count :: nat
  is_listener_count :: nat
  is_public_listeners :: nat

definition inventory_summary_of :: "inventory \<Rightarrow> inventory_summary" where
  "inventory_summary_of iv = \<lparr>is_service_count = length (iv_services iv), is_listener_count = length (iv_listeners iv),
     is_public_listeners = length (filter (\<lambda>l. li_exposure l = ''edge_public'') (iv_listeners iv))\<rparr>"

end
