(* ===== verification/Network_Facts.thy ===== *)
theory Network_Facts
  imports Network
begin

text \<open>
  The validation of the network inventory: the collision check finds two listeners with one key exactly when there are
  two, and the depth-first dependency check ends and finds a cycle exactly when there is one.
\<close>

section \<open>The dependency graph\<close>

definition edges :: "(string, string list) dict \<Rightarrow> (string \<times> string) set" where
  "edges deps = {(a, b). has_key deps a \<and> b \<in> set (get_or deps a []) \<and> has_key deps b}"

definition keys_of :: "(string, string list) dict \<Rightarrow> string set" where
  "keys_of deps = fst ` set deps"

lemma finite_keys: "finite (keys_of deps)"
  by (simp add: keys_of_def)

lemma edge_keys: "(a, b) \<in> (edges deps)\<^sup>+ \<Longrightarrow> a \<in> keys_of deps \<and> b \<in> keys_of deps"
  by (induction rule: trancl_induct) (auto simp: edges_def keys_of_def has_key_def)

text \<open>What the set \<open>done\<close> stands for: closed under the edges and on no cycle.\<close>

definition settled :: "(string, string list) dict \<Rightarrow> string set \<Rightarrow> bool" where
  "settled deps F \<longleftrightarrow> F \<subseteq> keys_of deps \<and> (\<forall>x \<in> F. \<forall>y. (x, y) \<in> edges deps \<longrightarrow> y \<in> F) \<and> (\<forall>x \<in> F. (x, x) \<notin> (edges deps)\<^sup>+)"

lemma settled_reach: "(x, y) \<in> (edges deps)\<^sup>+ \<Longrightarrow> settled deps F \<Longrightarrow> x \<in> F \<Longrightarrow> y \<in> F"
  by (induction rule: trancl_induct) (auto simp: settled_def)

text \<open>A node whose successors are settled, and which is not, is on no cycle.\<close>

lemma settled_insert:
  assumes s: "settled deps F" and n: "n \<in> keys_of deps" "n \<notin> F" and next_in: "\<And>y. (n, y) \<in> edges deps \<Longrightarrow> y \<in> F"
  shows "settled deps (insert n F)"
proof -
  have "(n, n) \<notin> (edges deps)\<^sup>+"
  proof
    assume "(n, n) \<in> (edges deps)\<^sup>+"
    then obtain y where y: "(n, y) \<in> edges deps" "y = n \<or> (y, n) \<in> (edges deps)\<^sup>+"
      by (metis tranclD rtranclD)
    with next_in settled_reach[OF _ s] n(2) show False by blast
  qed
  with s n(1) next_in show ?thesis unfolding settled_def by blast
qed

definition marks_ok :: "(string, string list) dict \<Rightarrow> marks \<Rightarrow> bool" where
  "marks_ok deps m \<longleftrightarrow> mk_visiting m \<subseteq> keys_of deps \<and> mk_visiting m \<inter> mk_done m = {} \<and> settled deps (mk_done m)"

definition cyclic :: "(string, string list) dict \<Rightarrow> bool" where
  "cyclic deps \<longleftrightarrow> (\<exists>x. (x, x) \<in> (edges deps)\<^sup>+)"

text \<open>A visit of nodes that the open ones lead to ends; it finds a cycle, or settles the nodes and leaves the open ones open.\<close>

definition visited :: "(string, string list) dict \<Rightarrow> marks \<Rightarrow> string set \<Rightarrow> (network_error, unit) outcome \<times> marks \<Rightarrow> bool" where
  "visited deps m ns res \<longleftrightarrow> (case res of
      (Ret u, m') \<Rightarrow> marks_ok deps m' \<and> mk_visiting m' = mk_visiting m \<and> mk_done m \<union> ns \<subseteq> mk_done m'
    | (Raise e, m') \<Rightarrow> e = NetworkHardeningError [''dependency cycle''] \<and> cyclic deps
    | (NoFuel, m') \<Rightarrow> False)"

lemma for_each_visited:
  assumes step: "\<And>d m. d \<in> set ds \<Longrightarrow> marks_ok deps m \<Longrightarrow> mk_visiting m = V \<Longrightarrow> visited deps m ({d} \<inter> K) (f d m)"
    and m: "marks_ok deps m" "mk_visiting m = V"
  shows "visited deps m (set ds \<inter> K) (for_each ds f m)"
  using step m
proof (induction ds arbitrary: m)
  case Nil
  then show ?case by (simp add: for_each_def visited_def ret_def)
next
  case (Cons d ds)
  obtain r m1 where one: "f d m = (r, m1)" by fastforce
  have v: "visited deps m ({d} \<inter> K) (r, m1)" using Cons.prems one by (metis list.set_intros(1))
  show ?case
  proof (cases r)
    case (Ret u)
    with v have m1: "marks_ok deps m1" "mk_visiting m1 = V" "mk_done m \<union> ({d} \<inter> K) \<subseteq> mk_done m1"
      using Cons.prems(3) by (auto simp: visited_def)
    then have "visited deps m1 (set ds \<inter> K) (for_each ds f m1)" using Cons by auto
    with one Ret m1 Cons.prems(3) show ?thesis
      by (auto simp: visited_def for_each_def andThen_returning split: outcome.splits prod.splits)
  qed (use v one in \<open>auto simp: visited_def for_each_def andThen_def bind_def\<close>)
qed

lemma visit_visited:
  assumes "marks_ok deps m" and "n \<in> keys_of deps" and "\<And>v. v \<in> mk_visiting m \<Longrightarrow> (v, n) \<in> (edges deps)\<^sup>+"
    and "card (keys_of deps - mk_visiting m) < fuel"
  shows "visited deps m {n} (visit deps fuel n m)"
  using assms
proof (induction fuel arbitrary: n m)
  case (Suc fuel)
  show ?case
  proof (cases "n \<in> mk_visiting m \<or> n \<in> mk_done m")
    case True
    with Suc.prems show ?thesis
      by (auto simp: visited_def cyclic_def marks_ok_def bind_gets andThen_raise_if onlyif_def ret_def)
  next
    case False
    let ?m = "m\<lparr>mk_visiting := insert n (mk_visiting m)\<rparr>"
    have m1: "marks_ok deps ?m" using Suc.prems(1,2) False by (auto simp: marks_ok_def)
    have less: "card (keys_of deps - insert n (mk_visiting m)) < fuel"
    proof -
      have "keys_of deps - insert n (mk_visiting m) \<subset> keys_of deps - mk_visiting m" using False Suc.prems(2) by auto
      then have "card (keys_of deps - insert n (mk_visiting m)) < card (keys_of deps - mk_visiting m)"
        by (rule psubset_card_mono[rotated]) (simp add: finite_keys)
      with Suc.prems(4) show ?thesis by simp
    qed
    let ?body = "\<lambda>d. onlyif (has_key deps d) (visit deps fuel d)"
    have loop: "visited deps ?m (set (get_or deps n []) \<inter> keys_of deps) (for_each (get_or deps n []) ?body ?m)"
    proof (rule for_each_visited[where V = "insert n (mk_visiting m)"])
      fix d m' assume d: "d \<in> set (get_or deps n [])" "marks_ok deps m'" "mk_visiting m' = insert n (mk_visiting m)"
      show "visited deps m' ({d} \<inter> keys_of deps) (?body d m')"
      proof (cases "has_key deps d")
        case True
        then have e: "(n, d) \<in> edges deps" using d(1) Suc.prems(2) by (simp add: edges_def keys_of_def has_key_def)
        have "visited deps m' {d} (visit deps fuel d m')"
          using d Suc.prems(3) e less True
          by (intro Suc.IH) (auto simp: keys_of_def has_key_def intro: trancl_into_trancl)
        with True show ?thesis by (simp add: onlyif_def keys_of_def has_key_def)
      next
        case False
        with d show ?thesis by (simp add: onlyif_def visited_def ret_def keys_of_def has_key_def)
      qed
    qed (use m1 in simp_all)
    obtain r m2 where run: "for_each (get_or deps n []) ?body ?m = (r, m2)" by fastforce
    have eq: "visit deps (Suc fuel) n m = (case r of
        Ret u \<Rightarrow> (Ret (), m2\<lparr>mk_visiting := mk_visiting m2 - {n}, mk_done := insert n (mk_done m2)\<rparr>) | Raise e \<Rightarrow> (Raise e, m2) | NoFuel \<Rightarrow> (NoFuel, m2))"
      using False run by (simp add: bind_gets andThen_raise_if onlyif_def andThen_modify) (simp add: andThen_def bind_def modify_def split: outcome.split)
    show ?thesis
    proof (cases r)
      case (Ret u)
      with loop run have m2: "marks_ok deps m2" "mk_visiting m2 = insert n (mk_visiting m)"
        "mk_done m \<union> (set (get_or deps n []) \<inter> keys_of deps) \<subseteq> mk_done m2" by (auto simp: visited_def)
      have "settled deps (insert n (mk_done m2))"
        using m2 Suc.prems(2) by (intro settled_insert) (auto simp: marks_ok_def edges_def keys_of_def has_key_def)
      then have "marks_ok deps (m2\<lparr>mk_visiting := mk_visiting m2 - {n}, mk_done := insert n (mk_done m2)\<rparr>)"
        using m2(1) by (auto simp: marks_ok_def)
      then show ?thesis using Ret eq m2(2,3) False by (auto simp: visited_def)
    qed (use loop run eq in \<open>auto simp: visited_def\<close>)
  qed
qed simp

text \<open>The check of an inventory.\<close>

lemma check_listeners_distinct:
  "check_listeners seen ls = Inr () \<longleftrightarrow> distinct (map listener_key ls) \<and> (\<forall>l \<in> set ls. map_of seen (listener_key l) = None)"
proof (induction ls arbitrary: seen)
  case (Cons a ls)
  show ?case
  proof (cases "map_of seen (listener_key a)")
    case None
    then have "check_listeners seen (a # ls) = check_listeners (AList.update (listener_key a) (li_service a) seen) ls" by simp
    with Cons.IH[of "AList.update (listener_key a) (li_service a) seen"] None show ?thesis
      by (auto simp: image_iff split: if_splits)
  qed simp
qed simp

lemma check_listeners_collision:
  "check_listeners seen ls = Inl e \<Longrightarrow> \<exists>before l after other. ls = before @ l # after \<and>
     e = NetworkHardeningError [''listener collision: '', li_service l, '' and '', other] \<and>
     (map_of seen (listener_key l) = Some other \<or> (\<exists>k \<in> set before. listener_key k = listener_key l \<and> li_service k = other))"
proof (induction ls arbitrary: seen)
  case (Cons a ls)
  show ?case
  proof (cases "map_of seen (listener_key a)")
    case None
    with Cons.prems have "check_listeners (AList.update (listener_key a) (li_service a) seen) ls = Inl e" by simp
    from Cons.IH[OF this] obtain before l after other where split: "ls = before @ l # after"
      and e: "e = NetworkHardeningError [''listener collision: '', li_service l, '' and '', other]"
      and k: "map_of (AList.update (listener_key a) (li_service a) seen) (listener_key l) = Some other \<or>
        (\<exists>k \<in> set before. listener_key k = listener_key l \<and> li_service k = other)" by blast
    have "map_of seen (listener_key l) = Some other \<or> (\<exists>k \<in> set (a # before). listener_key k = listener_key l \<and> li_service k = other)"
      using k by (auto split: if_splits)
    with split e show ?thesis by (intro exI[of _ "a # before"] exI[of _ l] exI[of _ after] exI[of _ other]) auto
  next
    case (Some other)
    with Cons.prems show ?thesis by (intro exI[of _ "[]"]) auto
  qed
qed simp

lemma check_cycles_outcome: "check_cycles deps = (if cyclic deps then Raise (NetworkHardeningError [''dependency cycle'']) else Ret ())"
proof -
  have start: "marks_ok deps no_marks" by (simp add: marks_ok_def no_marks_def settled_def)
  have fuel: "card (keys_of deps - {}) < Suc (length deps)"
    using card_length[of "map fst deps"] by (simp add: keys_of_def less_Suc_eq_le)
  have "visited deps no_marks (set (map fst deps) \<inter> keys_of deps) (for_each (map fst deps) (visit deps (Suc (length deps))) no_marks)"
  proof (rule for_each_visited[where V = "{}"])
    fix d m assume "d \<in> set (map fst deps)" "marks_ok deps m" "mk_visiting m = {}"
    then have "visited deps m {d} (visit deps (Suc (length deps)) d m)"
      using fuel by (intro visit_visited) (auto simp: keys_of_def)
    then show "visited deps m ({d} \<inter> keys_of deps) (visit deps (Suc (length deps)) d m)"
      using \<open>d \<in> set (map fst deps)\<close> by (simp add: keys_of_def)
  qed (use start in \<open>simp, simp add: no_marks_def\<close>)
  moreover have "\<not> cyclic deps" if "settled deps F" "keys_of deps \<subseteq> F" for F
    using that edge_keys by (fastforce simp: cyclic_def settled_def)
  ultimately show ?thesis
    unfolding check_cycles_def
    by (cases "for_each (map fst deps) (visit deps (Suc (length deps))) no_marks")
      (auto simp: visited_def marks_ok_def keys_of_def split: outcome.splits)
qed

text \<open>C29: the validation of a network inventory ends, and it accepts exactly the inventories in which no two listeners share
  protocol, host and port and whose dependencies, among the services that have an entry, form no cycle. A refusal says what is
  wrong: a cycle that is there, or the services of two listeners with the same key.\<close>

theorem inventory_validated:
  "case validate_inventory iv of
     Ret ok \<Rightarrow> ok \<and> distinct (map listener_key (iv_listeners iv)) \<and> acyclic (edges (iv_dependencies iv))
   | Raise e \<Rightarrow> (e = NetworkHardeningError [''dependency cycle''] \<and> \<not> acyclic (edges (iv_dependencies iv))) \<or>
       (\<exists>before l after k. iv_listeners iv = before @ l # after \<and> k \<in> set before \<and> listener_key k = listener_key l \<and>
          e = NetworkHardeningError [''listener collision: '', li_service l, '' and '', li_service k])
   | NoFuel \<Rightarrow> False"
proof (cases "check_listeners [] (iv_listeners iv)")
  case (Inl e)
  with check_listeners_collision[OF Inl] show ?thesis by (fastforce simp: validate_inventory_def)
next
  case (Inr u)
  then have "distinct (map listener_key (iv_listeners iv))" using check_listeners_distinct[of "[]"] by simp
  with Inr show ?thesis by (auto simp: validate_inventory_def check_cycles_outcome cyclic_def acyclic_def)
qed

end
