(* ===== verification/Mail.thy ===== *)
theory Mail
  imports Network
begin

text \<open>
  The mail configuration: \<open>scripts/ubb_mail.py\<close>. It renders DNS records and maps; nothing is sent.
\<close>

datatype mail_error = MailConfigError message

abbreviation mail_error :: "string \<Rightarrow> mail_error" where
  "mail_error t \<equiv> MailConfigError [t]"

section \<open>Addresses\<close>

definition mail_domain :: "string \<Rightarrow> mail_error + string" where
  "mail_domain v = (let d = rstrip_char (CHR ''.'') (lower v) in
     if d = [] \<or> 253 < length d \<or> \<not> list_all (fullmatch label_rx) (split_on (CHR ''.'') d)
     then Inl (mail_error ''invalid mail domain'') else Inr d)"

text \<open>\<open>^[A-Za-z0-9.!#$%&'*+/=?^_`{|}~-]+$\<close>\<close>

definition local_char :: "char \<Rightarrow> bool" where
  "local_char c \<longleftrightarrow> alnum c \<or> c \<in> set ''.!#$%&*+/=?^_{|}~-'' \<or> c = CHR 0x27 \<or> c = CHR 0x60"

definition LOCAL_rx :: rx where
  "LOCAL_rx = Plus (Cls local_char)"

definition public_address :: "ip_kit \<Rightarrow> string \<Rightarrow> mail_error + string" where
  "public_address kit v = (case ip_address kit v of None \<Rightarrow> Inl (mail_error ''invalid public address'') | Some (n, a) \<Rightarrow> Inr a)"

definition email :: "string \<Rightarrow> mail_error + string" where
  "email v = (case split_on (CHR ''@'') v of
      [local_part, d] \<Rightarrow>
        if local_part = [] \<or> 64 < length local_part \<or> \<not> fullmatch LOCAL_rx local_part then Inl (mail_error ''invalid local part'')
        else bindS (mail_domain d) (\<lambda>d'. Inr (local_part @ ''@'' @ d'))
    | _ \<Rightarrow> Inl (mail_error ''invalid recipient''))"

definition external_ref :: "string \<Rightarrow> mail_error + unit" where
  "external_ref v = first_error
     [(\<not> starts_with ''/'' v \<or> line_feed \<in> set v \<or> carriage_return \<in> set v, mail_error ''secret must be external path reference'')]"

section \<open>Domains, recipients and adapters\<close>

record mail_domain_entry =
  md_name :: string
  md_route :: string
  md_enabled :: bool

definition make_domain :: "mail_domain_entry \<Rightarrow> mail_error + mail_domain_entry" where
  "make_domain m = bindS (mail_domain (md_name m)) (\<lambda>d.
     if md_route m \<noteq> ''local'' \<and> \<not> fullmatch ident_rx (md_route m) then Inl (mail_error ''invalid domain route'')
     else Inr (m\<lparr>md_name := d\<rparr>))"

record recipient =
  re_address :: string
  re_service :: string
  re_local_identity :: string
  re_enabled :: bool

definition make_recipient :: "recipient \<Rightarrow> mail_error + recipient" where
  "make_recipient r = bindS (email (re_address r)) (\<lambda>a.
     bindS (first_error
       [(\<not> fullmatch ident_rx (re_service r), mail_error ''invalid recipient service''),
        (re_local_identity r = [] \<or> \<not> fullmatch LOCAL_rx (re_local_identity r), mail_error ''invalid local identity'')])
       (\<lambda>_. Inr (r\<lparr>re_address := a\<rparr>)))"

record adapter =
  ad_service :: string
  ad_mode :: string
  ad_capabilities :: "string list"

definition check_adapter :: "adapter \<Rightarrow> mail_error + unit" where
  "check_adapter a = first_error
     [(\<not> fullmatch ident_rx (ad_service a), mail_error ''invalid adapter service''),
      (ad_mode a \<notin> set [''native_smtp'', ''mailbox_bridge'', ''batch_exchange'', ''scheduled_exchange''], mail_error ''invalid adapter mode''),
      (\<not> set (ad_capabilities a) \<subseteq> set [''inbound_delivery'', ''outbound_collection'', ''native_smtp'', ''batch_import'', ''batch_export'',
          ''scheduled_exchange'', ''address_mapping''], mail_error ''invalid adapter capability'')]"

section \<open>The configuration\<close>

record mail_config =
  mc_domains :: "mail_domain_entry list"
  mc_recipients :: "recipient list"
  mc_aliases :: "(string \<times> string) list"
  mc_edge_ips :: "string list"
  mc_outbound_mode :: string
  mc_smarthost :: "string option"
  mc_smarthost_secret_ref :: "string option"
  mc_dkim_selector :: string
  mc_dkim_key_ref :: "string option"
  mc_dkim_domains :: "string list"
  mc_dmarc_policy :: string
  mc_tls_cert_ref :: "string option"
  mc_tls_key_ref :: "string option"
  mc_submission_enabled :: bool
  mc_trusted_relay_networks :: "string list"
  mc_catch_all :: bool
  mc_max_message_size :: int

definition default_mail :: mail_config where
  "default_mail = \<lparr>mc_domains = [], mc_recipients = [], mc_aliases = [], mc_edge_ips = [], mc_outbound_mode = ''direct_mx'', mc_smarthost = None,
     mc_smarthost_secret_ref = None, mc_dkim_selector = ''ubb'', mc_dkim_key_ref = None, mc_dkim_domains = [], mc_dmarc_policy = ''none'',
     mc_tls_cert_ref = None, mc_tls_key_ref = None, mc_submission_enabled = False, mc_trusted_relay_networks = [], mc_catch_all = False,
     mc_max_message_size = 25 * 1024 * 1024\<rparr>"

text \<open>\<open>[A-Za-z0-9][A-Za-z0-9_-]{0,62}\<close>\<close>

definition selector_rx :: rx where
  "selector_rx = Cat (Cls alnum) (Upto 62 (Cls (\<lambda>c. alnum c \<or> c \<in> set ''_-'')))"

definition optional_ref :: "string option \<Rightarrow> mail_error + unit" where
  "optional_ref r = (if truthy r then external_ref (the r) else Inr ())"

text \<open>The loop over the aliases: each pair is normalized and compared with the alias names as they were given.\<close>

definition check_alias :: "(string \<times> string) list \<Rightarrow> string \<times> string \<Rightarrow> mail_error + unit" where
  "check_alias all p = bindS (email (fst p)) (\<lambda>a. bindS (email (snd p)) (\<lambda>b.
     if a = b \<or> b \<in> set (map fst all) then Inl (mail_error ''alias loop'') else Inr ()))"

definition check_aliases :: "(string \<times> string) list \<Rightarrow> mail_error + unit" where
  "check_aliases all = (if card (set (map fst all)) \<noteq> length all then Inl (mail_error ''duplicate alias'')
     else bindS (mapS (check_alias all) all) (\<lambda>_. Inr ()))"

definition check_mail :: "ip_kit \<Rightarrow> mail_config \<Rightarrow> mail_error + unit" where
  "check_mail kit c =
     bindS (first_error
       [(card (set (map md_name (mc_domains c))) \<noteq> length (mc_domains c), mail_error ''duplicate mail domain''),
        (mc_outbound_mode c \<notin> set [''direct_mx'', ''smarthost''], mail_error ''invalid outbound mode''),
        (mc_outbound_mode c = ''smarthost'' \<and> (\<not> truthy (mc_smarthost c) \<or> \<not> truthy (mc_smarthost_secret_ref c)),
         mail_error ''smarthost requires host and external secret''),
        (mc_outbound_mode c = ''direct_mx'' \<and> truthy (mc_smarthost_secret_ref c), mail_error ''unused smarthost secret'')]) (\<lambda>_.
     bindS (optional_ref (mc_smarthost_secret_ref c)) (\<lambda>_.
     bindS (first_error
       [(mc_dmarc_policy c \<notin> set [''none'', ''quarantine'', ''reject''], mail_error ''invalid DMARC policy''),
        (\<not> fullmatch selector_rx (mc_dkim_selector c), mail_error ''invalid DKIM selector'')]) (\<lambda>_.
     bindS (mapS (public_address kit) (mc_edge_ips c)) (\<lambda>_.
     bindS (mapS mail_domain (mc_dkim_domains c)) (\<lambda>_.
     bindS (mapS optional_ref [mc_dkim_key_ref c, mc_tls_cert_ref c, mc_tls_key_ref c]) (\<lambda>_.
     bindS (mapS (\<lambda>n. if ip_network kit n = None then Inl (mail_error ''invalid relay network'') else Inr ()) (mc_trusted_relay_networks c)) (\<lambda>_.
     bindS (first_error
       [(mc_max_message_size c \<le> 0, mail_error ''invalid message size''),
        (card (set (map re_address (mc_recipients c))) \<noteq> length (mc_recipients c), mail_error ''duplicate recipient'')]) (\<lambda>_.
     check_aliases (mc_aliases c)))))))))"

section \<open>Rendering\<close>

definition mx_records :: "string \<Rightarrow> mail_config \<Rightarrow> mail_error + string list" where
  "mx_records host c = bindS (mail_domain host) (\<lambda>h.
     Inr (map (\<lambda>d. md_name d @ '' MX 10 '' @ h @ ''.'') (filter md_enabled (sort_key md_name (mc_domains c)))))"

definition spf_record :: "mail_config \<Rightarrow> mail_error + string" where
  "spf_record c = (if mc_edge_ips c = [] then Inl (mail_error ''SPF requires configured edge IP'')
     else let parts = ''v=spf1'' # map (\<lambda>x. if CHR '':'' \<notin> set x then ''ip4:'' @ x else ''ip6:'' @ x) (mc_edge_ips c) in
       if truthy (mc_smarthost c) then bindS (mail_domain (the (mc_smarthost c))) (\<lambda>d.
         Inr (join_text '' '' (parts @ [''include:'' @ d]) @ '' -all''))
       else Inr (join_text '' '' parts @ '' -all''))"

definition dmarc_record :: "string \<Rightarrow> mail_config \<Rightarrow> mail_error + string" where
  "dmarc_record d c = bindS (mail_domain d) (\<lambda>d'.
     Inr (''_dmarc.'' @ d' @ '' TXT '' @ [double_quote] @ ''v=DMARC1; p='' @ mc_dmarc_policy c @ [double_quote]))"

text \<open>The size is positive in a checked configuration.\<close>

definition render_mail :: "mail_config \<Rightarrow> string" where
  "render_mail c = text_lines [''myhostname = mail.example.invalid'', ''smtpd_tls_security_level = may'',
     ''smtpd_relay_restrictions = permit_mynetworks, reject_unauth_destination'', ''message_size_limit = '' @ decimal (nat (mc_max_message_size c)),
     ''inet_interfaces = all'',
     ''smtpd_tls_cert_file = '' @ (if truthy (mc_tls_cert_ref c) then the (mc_tls_cert_ref c) else ''/external/tls/cert'')]"

definition recipient_map :: "mail_config \<Rightarrow> string" where
  "recipient_map c = text_lines (map (\<lambda>x. re_address x @ '' '' @ re_service x @ '':'' @ re_local_identity x)
     (filter re_enabled (sort_key re_address (mc_recipients c))))"

definition public_dns :: "string \<Rightarrow> mail_config \<Rightarrow> mail_error + string list" where
  "public_dns host c = bindS (mx_records host c) (\<lambda>mx.
     bindS (mapS (\<lambda>d. dmarc_record (md_name d) c) (filter md_enabled (mc_domains c))) (\<lambda>ds. Inr (mx @ ds)))"

end
