(* ===== verification/Mail_Facts.thy ===== *)
theory Mail_Facts
  imports Mail
begin

text \<open>
  The canonical form of domain names, and what the alias check of the mail configuration rules out.
\<close>

section \<open>Domain names\<close>

text \<open>The functions of the network and the mail module accept the same names with the same result.\<close>

lemma mail_domain_iff: "mail_domain v = Inr d \<longleftrightarrow> domain v = Inr d"
  by (simp add: mail_domain_def domain_def Let_def)

lemma label_chars: "fullmatch label_rx p \<Longrightarrow> list_all label_char p \<and> p \<noteq> []"
  by (simp add: label_rx_iff)

lemma domain_chars: "domain v = Inr d \<Longrightarrow> list_all (\<lambda>c. label_char c \<or> c = CHR ''.'') d"
proof -
  assume "domain v = Inr d"
  then have parts: "list_all (fullmatch label_rx) (split_on (CHR ''.'') d)"
    by (auto simp: domain_def Let_def split: if_splits)
  have "list_all (\<lambda>c. label_char c \<or> c = CHR ''.'') (join_with (CHR ''.'') ps)" if "list_all (fullmatch label_rx) ps" for ps
    using that label_chars unfolding join_with_def by (cases ps) (fastforce simp: list_all_iff)+
  from this[OF parts] show ?thesis by (simp add: join_split_on)
qed

text \<open>The result of \<open>domain\<close> is a fixed point of it.\<close>

lemma domain_canonical:
  assumes "domain v = Inr d"
  shows "domain d = Inr d"
proof -
  have d: "d = rstrip_char (CHR ''.'') (lower v)" "d \<noteq> []" "length d \<le> 253" "list_all (fullmatch label_rx) (split_on (CHR ''.'') d)"
    using assms by (auto simp: domain_def Let_def split: if_splits)
  have dot: "lower_char (CHR ''.'') = CHR ''.''" by (simp add: lower_char_def Let_def class_defs)
  have "lower d = d"
    unfolding lower_def by (rule map_fix) (use domain_chars[OF assms] label_char_lower dot in \<open>auto simp: list_all_iff\<close>)
  moreover have "rstrip_char (CHR ''.'') d = d" using d(1) rstrip_char_idem by metis
  ultimately show ?thesis using d(2-4) by (simp add: domain_def)
qed

section \<open>Aliases\<close>

text \<open>The rewriting of addresses by the aliases, all of them normalized.\<close>

definition alias_steps :: "(string \<times> string) list \<Rightarrow> (string \<times> string) set" where
  "alias_steps all = {(a, b). \<exists>x y. (x, y) \<in> set all \<and> email x = Inr a \<and> email y = Inr b}"

lemma check_aliases_Inr: "check_aliases all = Inr () \<Longrightarrow> distinct (map fst all) \<and>
    (\<forall>(x, y) \<in> set all. \<exists>a b. email x = Inr a \<and> email y = Inr b \<and> a \<noteq> b \<and> b \<notin> fst ` set all)"
proof -
  assume c: "check_aliases all = Inr ()"
  then have card: "card (set (map fst all)) = length (map fst all)" by (auto simp: check_aliases_def split: if_splits)
  obtain us where us: "mapS (check_alias all) all = Inr us" using c by (auto simp: check_aliases_def split: if_splits)
  have "\<exists>a b. email x = Inr a \<and> email y = Inr b \<and> a \<noteq> b \<and> b \<notin> fst ` set all" if "(x, y) \<in> set all" for x y
  proof -
    have "\<exists>u. check_alias all (x, y) = Inr u" using us that by (auto simp: mapS_Inr list_all2_conv_all_nth in_set_conv_nth)
    then show ?thesis by (auto simp: check_alias_def split: if_splits)
  qed
  with card_distinct[OF card] show ?thesis by blast
qed

text \<open>Two names that differ in the case of their domains.\<close>

definition loop_aliases :: "(string \<times> string) list" where
  "loop_aliases = [(''ann@Home.example'', ''bob@home.example''), (''bob@Home.example'', ''ann@home.example'')]"

text \<open>The alias check rules out every chain when the alias names are given in normal form: the rewriting is then a partial
  function, and no address it produces is rewritten again. It does not when a name is given in another form, because targets are
  normalized and names are compared as given: a configuration that alias_steps two addresses into each other for ever passes.\<close>

theorem mail_aliases:
  "(check_aliases all = Inr () \<and> (\<forall>x \<in> fst ` set all. email x = Inr x) \<longrightarrow>
      single_valued (alias_steps all) \<and> alias_steps all O alias_steps all = {} \<and> acyclic (alias_steps all)) \<and>
   check_aliases loop_aliases = Inr () \<and> \<not> acyclic (alias_steps loop_aliases)"
proof (intro conjI impI)
  assume a: "check_aliases all = Inr () \<and> (\<forall>x \<in> fst ` set all. email x = Inr x)"
  then have d: "distinct (map fst all)" and steps: "\<forall>(x, y) \<in> set all. \<exists>b. email x = Inr x \<and> email y = Inr b \<and> b \<notin> fst ` set all"
    using check_aliases_Inr[of all] by fastforce+
  then have eq: "alias_steps all = {(x, b). \<exists>y. (x, y) \<in> set all \<and> email y = Inr b}"
    unfolding alias_steps_def by fastforce
  show "single_valued (alias_steps all)"
    unfolding eq by (rule single_valuedI) (use d eq_key_imp_eq_value in fastforce)
  show empty: "alias_steps all O alias_steps all = {}"
  proof (rule equals0I)
    fix p assume "p \<in> alias_steps all O alias_steps all"
    then obtain x b c where "(x, b) \<in> alias_steps all" "(b, c) \<in> alias_steps all" by auto
    then obtain y z where y: "(x, y) \<in> set all" "email y = Inr b" and z: "(b, z) \<in> set all" unfolding eq by auto
    from steps y(1) obtain b' where "email y = Inr b'" "b' \<notin> fst ` set all" by auto
    moreover have "b \<in> fst ` set all" using z by force
    ultimately show False using y(2) by simp
  qed
  show "acyclic (alias_steps all)"
  proof (rule acyclicI, intro allI notI)
    fix x assume "(x, x) \<in> (alias_steps all)\<^sup>+"
    then obtain y where "(x, y) \<in> alias_steps all" "(y, x) \<in> (alias_steps all)\<^sup>*" by (auto dest: tranclD)
    then show False using empty by (metis converse_rtranclE empty_iff relcomp.relcompI)
  qed
next
  show "check_aliases loop_aliases = Inr ()" by code_simp
  have "email ''ann@Home.example'' = Inr ''ann@home.example''" "email ''bob@home.example'' = Inr ''bob@home.example''"
    "email ''bob@Home.example'' = Inr ''bob@home.example''" "email ''ann@home.example'' = Inr ''ann@home.example''"
    by code_simp+
  then have "(''ann@home.example'', ''bob@home.example'') \<in> alias_steps loop_aliases" "(''bob@home.example'', ''ann@home.example'') \<in> alias_steps loop_aliases"
    unfolding alias_steps_def loop_aliases_def by auto
  then have "(''ann@home.example'', ''ann@home.example'') \<in> (alias_steps loop_aliases)\<^sup>+" by (blast intro: trancl_into_trancl)
  then show "\<not> acyclic (alias_steps loop_aliases)" by (auto simp: acyclic_def)
qed

theorem mail_aliases_witness:
  "check_aliases [(''ann@home.example'', ''bob@home.example'')] = Inr () \<and> acyclic (alias_steps [(''ann@home.example'', ''bob@home.example'')])"
proof -
  have "check_aliases [(''ann@home.example'', ''bob@home.example'')] = Inr () \<and> email ''ann@home.example'' = Inr ''ann@home.example''"
    by code_simp
  with mail_aliases[of "[(''ann@home.example'', ''bob@home.example'')]"] show ?thesis by simp
qed

end
