(* ===== verification/Edge.thy ===== *)
theory Edge
  imports Network
begin

text \<open>
  The intent of the public edge and its overlay: \<open>scripts/ubb_edge.py\<close>. Each frozen dataclass is a record with a
  function \<open>make_\<close> for its \<open>__post_init__\<close>, which gives the object with its normalized fields.
\<close>

datatype edge_error = EdgeConfigError message

abbreviation edge_error :: "string \<Rightarrow> edge_error" where
  "edge_error t \<equiv> EdgeConfigError [t]"

definition EDGE_PROVIDERS :: "string list" where
  "EDGE_PROVIDERS = [''headscale'', ''tailscale'', ''wireguard'', ''zerotier'', ''nebula'']"

definition PROVIDER_SUPPORT :: "(string, string) dict" where
  "PROVIDER_SUPPORT = [(''headscale'', ''recommended''), (''tailscale'', ''supported''), (''wireguard'', ''supported''),
     (''zerotier'', ''supported''), (''nebula'', ''supported'')]"

section \<open>Fields\<close>

definition edge_id :: "string \<Rightarrow> string \<Rightarrow> edge_error + unit" where
  "edge_id label v = (if \<not> fullmatch ident_rx v then Inl (EdgeConfigError [''invalid '', label]) else Inr ())"

definition hostname :: "string \<Rightarrow> edge_error + string" where
  "hostname v = (if 253 < length (rstrip_char (CHR ''.'') v) then Inl (edge_error ''invalid hostname'')
     else let d = rstrip_char (CHR ''.'') (lower v) in
       if d = [] \<or> \<not> list_all (fullmatch label_rx) (split_on (CHR ''.'') d) then Inl (edge_error ''invalid hostname'') else Inr d)"

definition edge_ip :: "ip_kit \<Rightarrow> string \<Rightarrow> edge_error + string" where
  "edge_ip kit v = (case ip_address kit v of None \<Rightarrow> Inl (edge_error ''invalid IP address'') | Some (n, a) \<Rightarrow> Inr a)"

definition edge_cidr :: "ip_kit \<Rightarrow> string \<Rightarrow> edge_error + string" where
  "edge_cidr kit v = (case ip_network kit v of None \<Rightarrow> Inl (edge_error ''invalid CIDR'') | Some a \<Rightarrow> Inr a)"

definition edge_port :: "int \<Rightarrow> edge_error + unit" where
  "edge_port n = (if \<not> (1 \<le> n \<and> n \<le> 65535) then Inl (edge_error ''invalid port'') else Inr ())"

text \<open>A field that is normalized when it is given: \<open>if self.x: object.__setattr__(self, "x", f(self.x))\<close>.\<close>

definition optionally :: "(string \<Rightarrow> edge_error + string) \<Rightarrow> string option \<Rightarrow> edge_error + string option" where
  "optionally f x = (if truthy x then bindS (f (the x)) (\<lambda>y. Inr (Some y)) else Inr x)"

section \<open>Nodes, sites, identities, ingress and routes\<close>

record overlay_node =
  on_node_id :: string
  on_role :: string
  on_addresses :: "string list"
  on_public_ipv4 :: "string option"
  on_public_ipv6 :: "string option"
  on_hostname :: "string option"
  on_capabilities :: "string list"

definition check_version :: "ip_kit \<Rightarrow> int \<Rightarrow> string \<Rightarrow> string \<Rightarrow> string option \<Rightarrow> edge_error + unit" where
  "check_version kit n malformed wrong x = (case x of
      None \<Rightarrow> Inr ()
    | Some v \<Rightarrow> (case ip_address kit v of
        None \<Rightarrow> Inl (edge_error malformed)
      | Some (version, a) \<Rightarrow> if version \<noteq> n then Inl (edge_error wrong) else Inr ()))"

definition make_node :: "ip_kit \<Rightarrow> overlay_node \<Rightarrow> edge_error + overlay_node" where
  "make_node kit x =
     bindS (edge_id ''node id'' (on_node_id x)) (\<lambda>_.
     bindS (first_error [(on_role x \<notin> set [''edge'', ''site'', ''client''], edge_error ''invalid node role'')]) (\<lambda>_.
     bindS (mapS (edge_ip kit) (on_addresses x)) (\<lambda>addresses.
     bindS (check_version kit 4 ''invalid public_ipv4'' ''public_ipv4 must be IPv4'' (on_public_ipv4 x)) (\<lambda>_.
     bindS (check_version kit 6 ''invalid public_ipv6'' ''public_ipv6 must be IPv6'' (on_public_ipv6 x)) (\<lambda>_.
     bindS (optionally hostname (on_hostname x)) (\<lambda>h. Inr (x\<lparr>on_addresses := addresses, on_hostname := h\<rparr>)))))))"

record private_site =
  ps_site_id :: string
  ps_node_id :: string
  ps_private_cidrs :: "string list"
  ps_reachable_services :: "string list"
  ps_dns_identity :: "string option"

definition make_site :: "ip_kit \<Rightarrow> private_site \<Rightarrow> edge_error + private_site" where
  "make_site kit x =
     bindS (edge_id ''site id'' (ps_site_id x)) (\<lambda>_.
     bindS (edge_id ''node id'' (ps_node_id x)) (\<lambda>_.
     bindS (mapS (edge_cidr kit) (ps_private_cidrs x)) (\<lambda>cs.
     bindS (optionally hostname (ps_dns_identity x)) (\<lambda>h. Inr (x\<lparr>ps_private_cidrs := cs, ps_dns_identity := h\<rparr>)))))"

record public_identity =
  pu_hostname :: string
  pu_target :: string
  pu_enabled :: bool

definition make_identity :: "public_identity \<Rightarrow> edge_error + public_identity" where
  "make_identity x = bindS (hostname (pu_hostname x)) (\<lambda>h.
     bindS (edge_id ''identity target'' (pu_target x)) (\<lambda>_. Inr (x\<lparr>pu_hostname := h\<rparr>)))"

record ingress_rule =
  ig_ingress_id :: string
  ig_protocol :: string
  ig_public_port :: int
  ig_target_service :: string
  ig_target_port :: int
  ig_public_address :: "string option"
  ig_target_host :: "string option"
  ig_hostname :: "string option"
  ig_enabled :: bool

definition make_ingress :: "ip_kit \<Rightarrow> ingress_rule \<Rightarrow> edge_error + ingress_rule" where
  "make_ingress kit x =
     bindS (edge_id ''ingress id'' (ig_ingress_id x)) (\<lambda>_.
     bindS (first_error [(ig_protocol x \<notin> set [''tcp'', ''udp'', ''http'', ''https''], edge_error ''invalid ingress protocol'')]) (\<lambda>_.
     bindS (edge_port (ig_public_port x)) (\<lambda>_.
     bindS (edge_port (ig_target_port x)) (\<lambda>_.
     bindS (edge_id ''target service'' (ig_target_service x)) (\<lambda>_.
     bindS (optionally (edge_ip kit) (ig_public_address x)) (\<lambda>a.
     bindS (optionally (edge_ip kit) (ig_target_host x)) (\<lambda>t.
     bindS (optionally hostname (ig_hostname x)) (\<lambda>h.
     if ig_protocol x \<in> set [''tcp'', ''udp''] \<and> truthy h
     then Inl (edge_error ''hostname routing is only valid for HTTP/HTTPS ingress'')
     else Inr (x\<lparr>ig_public_address := a, ig_target_host := t, ig_hostname := h\<rparr>)))))))))"

record overlay_route =
  or_source :: string
  or_destination_cidr :: string
  or_approved :: bool
  or_exit_node :: bool

definition make_route :: "ip_kit \<Rightarrow> overlay_route \<Rightarrow> edge_error + overlay_route" where
  "make_route kit x =
     bindS (edge_id ''route source'' (or_source x)) (\<lambda>_.
     bindS (edge_cidr kit (or_destination_cidr x)) (\<lambda>c.
     if or_exit_node x then Inl (edge_error ''exit-node routes are disabled'') else Inr (x\<lparr>or_destination_cidr := c\<rparr>)))"

section \<open>The configuration\<close>

record edge_config =
  ec_provider :: string
  ec_edge_node :: overlay_node
  ec_sites :: "private_site list"
  ec_public_identities :: "public_identity list"
  ec_ingress :: "ingress_rule list"
  ec_routes :: "overlay_route list"
  ec_derp_enabled :: bool
  ec_secret_refs :: "string list"

definition edge_services :: "edge_config \<Rightarrow> string set" where
  "edge_services c = \<Union> (set ` ps_reachable_services ` set (ec_sites c))"

definition listener_of :: "ingress_rule \<Rightarrow> string \<times> string \<times> int" where
  "listener_of x = (ig_protocol x, if truthy (ig_public_address x) then the (ig_public_address x) else ''*'', ig_public_port x)"

text \<open>The loop over the ingress rules; \<open>seen\<close> holds their keys.\<close>

fun check_ingress :: "edge_config \<Rightarrow> (string \<times> string \<times> int) list \<Rightarrow> ingress_rule list \<Rightarrow> edge_error + unit" where
  "check_ingress c seen [] = Inr ()"
| "check_ingress c seen (x # xs) =
     (if ig_target_service x \<notin> edge_services c \<and> ig_target_service x \<noteq> on_node_id (ec_edge_node c)
      then Inl (edge_error ''ingress target service is not declared'')
      else if listener_of x \<in> set seen then Inl (edge_error ''conflicting public ingress listener'')
      else check_ingress c (seen @ [listener_of x]) xs)"

definition check_edge :: "edge_config \<Rightarrow> edge_error + unit" where
  "check_edge c =
     bindS (first_error
       [(ec_provider c \<notin> set EDGE_PROVIDERS, edge_error ''unknown overlay provider''),
        (on_role (ec_edge_node c) \<noteq> ''edge'', edge_error ''edge_node must have edge role''),
        (card (set (map ps_site_id (ec_sites c))) \<noteq> length (ec_sites c), edge_error ''duplicate private site''),
        (card (set (map ps_node_id (ec_sites c))) \<noteq> length (ec_sites c), edge_error ''duplicate site node''),
        (length (ec_public_identities c) \<noteq> card (set (map pu_hostname (ec_public_identities c))), edge_error ''duplicate public identity''),
        (\<not> pu_target ` set (ec_public_identities c) \<subseteq> insert (on_node_id (ec_edge_node c)) (edge_services c),
         edge_error ''public identity target is not declared'')]) (\<lambda>_.
     bindS (check_ingress c [] (ec_ingress c)) (\<lambda>_.
     first_error [(\<not> list_all (starts_with ''/'') (ec_secret_refs c), edge_error ''secret references must be absolute external paths'')]))"

definition support_level :: "edge_config \<Rightarrow> string option" where
  "support_level c = map_of PROVIDER_SUPPORT (ec_provider c)"

record edge_view =
  ew_provider :: string
  ew_support_level :: "string option"
  ew_edge_node :: "string \<times> string \<times> string list \<times> string option"
  ew_sites :: "(string \<times> string \<times> string list \<times> string list) list"
  ew_public_identities :: "(string \<times> string \<times> bool) list"
  ew_ingress :: "(string \<times> string \<times> string option \<times> int \<times> string \<times> int) list"
  ew_routes :: "(string \<times> string \<times> bool) list"
  ew_derp_enabled :: bool
  ew_secret_refs :: "string list"

definition edge_to_dict :: "edge_config \<Rightarrow> edge_view" where
  "edge_to_dict c = \<lparr>ew_provider = ec_provider c, ew_support_level = support_level c,
     ew_edge_node = (on_node_id (ec_edge_node c), on_role (ec_edge_node c), on_addresses (ec_edge_node c), on_hostname (ec_edge_node c)),
     ew_sites = map (\<lambda>x. (ps_site_id x, ps_node_id x, ps_private_cidrs x, ps_reachable_services x)) (ec_sites c),
     ew_public_identities = map (\<lambda>x. (pu_hostname x, pu_target x, pu_enabled x)) (ec_public_identities c),
     ew_ingress = map (\<lambda>x. (ig_ingress_id x, ig_protocol x, ig_public_address x, ig_public_port x, ig_target_service x, ig_target_port x)) (ec_ingress c),
     ew_routes = map (\<lambda>x. (or_source x, or_destination_cidr x, or_approved x)) (ec_routes c),
     ew_derp_enabled = ec_derp_enabled c, ew_secret_refs = ec_secret_refs c\<rparr>"

section \<open>What an accepted configuration has\<close>

text \<open>The edge and the network module normalize names alike.\<close>

lemma rstrip_lower: "length (rstrip_char (CHR ''.'') (lower v)) = length (rstrip_char (CHR ''.'') v)"
proof -
  have "lower_char c = CHR ''.'' \<longleftrightarrow> c = CHR ''.''" for c
  proof (cases "is_upper c \<or> 192 \<le> code_point c \<and> code_point c \<le> 222 \<and> code_point c \<noteq> 215")
    case True
    then have n: "65 \<le> code_point c" "code_point c + 32 < 256" by (auto simp: is_upper_def)
    have "code_point (char_of (code_point c + 32)) = code_point c + 32" using n(2) by simp
    moreover have "code_point (CHR ''.'') = 46" by (simp add: code_point_def)
    ultimately show ?thesis using True n(1) by (auto simp: lower_char_def Let_def)
  qed (auto simp: lower_char_def Let_def)
  then have "length (dropWhile ((=) (CHR ''.'')) (map lower_char xs)) = length (dropWhile ((=) (CHR ''.'')) xs)" for xs
    by (induction xs) (auto simp: eq_commute)
  from this[of "rev v"] show ?thesis by (simp add: rstrip_char_def lower_def rev_map)
qed

lemma hostname_iff: "hostname v = Inr d \<longleftrightarrow> domain v = Inr d"
  using rstrip_lower[of v] by (auto simp: hostname_def domain_def Let_def split: if_splits)

lemma check_ingress_accepts: "check_ingress c seen xs = Inr () \<longleftrightarrow>
  distinct (map listener_of xs) \<and> set seen \<inter> set (map listener_of xs) = {} \<and>
  (\<forall>x \<in> set xs. ig_target_service x \<in> insert (on_node_id (ec_edge_node c)) (edge_services c))"
  by (induction xs arbitrary: seen) auto

text \<open>An accepted configuration has one rule per protocol, address and port, and every rule and identity leads to a declared
  service or the edge itself.\<close>

lemma check_edge_accepts: "check_edge c = Inr () \<Longrightarrow>
  distinct (map listener_of (ec_ingress c)) \<and> distinct (map ps_site_id (ec_sites c)) \<and> distinct (map pu_hostname (ec_public_identities c)) \<and>
  ig_target_service ` set (ec_ingress c) \<union> pu_target ` set (ec_public_identities c) \<subseteq> insert (on_node_id (ec_edge_node c)) (edge_services c)"
  using check_ingress_accepts[of c "[]" "ec_ingress c"]
    card_distinct[of "map ps_site_id (ec_sites c)"] card_distinct[of "map pu_hostname (ec_public_identities c)"]
  by (auto simp: check_edge_def split: if_splits)

text \<open>Two rules for one TCP port, one of them raw and one HTTP, are not seen as a conflict.\<close>

definition raw_and_http :: edge_config where
  "raw_and_http = (let node = \<lparr>on_node_id = ''edge-1'', on_role = ''edge'', on_addresses = [], on_public_ipv4 = None, on_public_ipv6 = None,
       on_hostname = None, on_capabilities = []\<rparr>;
     rule = (\<lambda>i p. \<lparr>ig_ingress_id = i, ig_protocol = p, ig_public_port = 80, ig_target_service = ''edge-1'', ig_target_port = 8080,
       ig_public_address = None, ig_target_host = None, ig_hostname = None, ig_enabled = True\<rparr>)
   in \<lparr>ec_provider = ''headscale'', ec_edge_node = node, ec_sites = [], ec_public_identities = [],
     ec_ingress = [rule ''a'' ''tcp'', rule ''b'' ''http''], ec_routes = [], ec_derp_enabled = False, ec_secret_refs = []\<rparr>)"

lemma raw_and_http_accepted: "check_edge raw_and_http = Inr ()"
  by code_simp

end
