(* ===== verification/Messaging.thy ===== *)
theory Messaging
  imports Network
begin

text \<open>
  The intent of the message networks: FidoNet in \<open>scripts/ubb_ftn.py\<close>, news in \<open>scripts/ubb_news.py\<close> and IRC in
  \<open>scripts/ubb_irc.py\<close>. The three modules have an exception class each; here it is \<open>IntentError\<close> with the module's
  name. What they share word for word is defined once.
\<close>

datatype intent_error = IntentError string message

definition intent_id :: "string \<Rightarrow> string \<Rightarrow> string \<Rightarrow> intent_error + unit" where
  "intent_id m label v = (if \<not> fullmatch ident_rx v then Inl (IntentError m [''invalid '', label]) else Inr ())"

definition external :: "string \<Rightarrow> string \<Rightarrow> intent_error + unit" where
  "external m v = first_error
     [(\<not> starts_with ''/'' v \<or> line_feed \<in> set v \<or> carriage_return \<in> set v, IntentError m [''secret must be external reference''])]"

definition when_given :: "(string \<Rightarrow> intent_error + unit) \<Rightarrow> string option \<Rightarrow> intent_error + unit" where
  "when_given f x = (if truthy x then f (the x) else Inr ())"

definition broken_line :: "string \<Rightarrow> bool" where
  "broken_line v \<longleftrightarrow> v = [] \<or> line_feed \<in> set v \<or> carriage_return \<in> set v"

definition in_port_range :: "int \<Rightarrow> bool" where
  "in_port_range n \<longleftrightarrow> 1 \<le> n \<and> n \<le> 65535"

definition unique :: "'a list \<Rightarrow> bool" where
  "unique xs \<longleftrightarrow> length xs = card (set xs)"

section \<open>FidoNet\<close>

abbreviation ftn_error :: "string \<Rightarrow> intent_error" where
  "ftn_error t \<equiv> IntentError ''FTNConfigError'' [t]"

text \<open>\<open>^(\d+):(\d+)/(\d+)(?:\.(\d+))?$\<close> and \<open>^[A-Z0-9][A-Z0-9_-]{0,63}$\<close>\<close>

definition ADDR_rx :: rx where
  "ADDR_rx = (let number = Plus (Cls is_digit) in
     Cat number (Cat (Lit (CHR '':'')) (Cat number (Cat (Lit (CHR ''/'')) (Cat number (Opt (Cat (Lit (CHR ''.'')) number)))))))"

definition AREA_rx :: rx where
  "AREA_rx = Cat (Cls (\<lambda>c. is_upper c \<or> is_digit c)) (Upto 63 (Cls (\<lambda>c. is_upper c \<or> is_digit c \<or> c \<in> set ''_-'')))"

text \<open>The groups of a match.\<close>

record ftn_groups =
  fg_zone :: nat
  fg_net :: nat
  fg_node :: nat
  fg_point :: "nat option"

definition before :: "char \<Rightarrow> string \<Rightarrow> string" where
  "before c s = takeWhile (\<lambda>x. x \<noteq> c) s"

definition after :: "char \<Rightarrow> string \<Rightarrow> string" where
  "after c s = drop 1 (dropWhile (\<lambda>x. x \<noteq> c) s)"

definition groups_of :: "string \<Rightarrow> ftn_groups" where
  "groups_of v = (let rest = after (CHR '':'') v; tail = after (CHR ''/'') rest in
     \<lparr>fg_zone = int_of_digits (before (CHR '':'') v), fg_net = int_of_digits (before (CHR ''/'') rest),
      fg_node = int_of_digits (before (CHR ''.'') tail),
      fg_point = (if CHR ''.'' \<in> set tail then Some (int_of_digits (after (CHR ''.'') tail)) else None)\<rparr>)"

definition ftn_text :: "ftn_groups \<Rightarrow> string" where
  "ftn_text g = decimal (fg_zone g) @ '':'' @ decimal (fg_net g) @ ''/'' @ decimal (fg_node g)
     @ (case fg_point g of None \<Rightarrow> [] | Some p \<Rightarrow> ''.'' @ decimal p)"

definition ftn_address :: "string \<Rightarrow> intent_error + string" where
  "ftn_address v = (if \<not> fullmatch ADDR_rx v then Inl (ftn_error ''invalid FTN address'')
     else let g = groups_of v in
       if \<not> (0 < fg_zone g \<and> fg_zone g \<le> 65535 \<and> fg_net g \<le> 65535 \<and> fg_node g \<le> 65535 \<and> default 0 (fg_point g) \<le> 65535)
       then Inl (ftn_error ''FTN address out of range'') else Inr (ftn_text g))"

record ftn_peer =
  fp_peer_id :: string
  fp_address :: string
  fp_host :: string
  fp_port :: int
  fp_password_ref :: "string option"
  fp_enabled :: bool
  fp_poll_policy :: string

definition make_peer :: "ftn_peer \<Rightarrow> intent_error + ftn_peer" where
  "make_peer p =
     bindS (intent_id ''FTNConfigError'' ''peer id'' (fp_peer_id p)) (\<lambda>_.
     bindS (ftn_address (fp_address p)) (\<lambda>a.
     bindS (first_error [(broken_line (fp_host p), ftn_error ''invalid peer host''), (\<not> in_port_range (fp_port p), ftn_error ''invalid peer port'')]) (\<lambda>_.
     bindS (when_given (external ''FTNConfigError'') (fp_password_ref p)) (\<lambda>_.
     if fp_poll_policy p \<notin> set [''always_listening'', ''interval'', ''scheduled'', ''manual''] then Inl (ftn_error ''invalid poll policy'')
     else Inr (p\<lparr>fp_address := a\<rparr>)))))"

record ftn_area =
  fa_tag :: string
  fa_network_id :: string
  fa_kind :: string
  fa_bbs_service :: "string option"
  fa_bbs_area :: "string option"
  fa_enabled :: bool

definition check_area :: "ftn_area \<Rightarrow> intent_error + unit" where
  "check_area a =
     bindS (first_error [(\<not> fullmatch AREA_rx (fa_tag a), ftn_error ''invalid area tag'')]) (\<lambda>_.
     bindS (intent_id ''FTNConfigError'' ''network id'' (fa_network_id a)) (\<lambda>_.
     bindS (first_error [(fa_kind a \<notin> set [''echomail'', ''netmail''], ftn_error ''invalid area kind'')]) (\<lambda>_.
     when_given (intent_id ''FTNConfigError'' ''BBS service'') (fa_bbs_service a))))"

record ftn_adapter =
  fd_service :: string
  fd_capabilities :: "string list"
  fd_mode :: string
  fd_checkpoint_ref :: "string option"

text \<open>\<open>FTNAdapter(service, capabilities)\<close>\<close>

definition default_ftn_adapter :: "string \<Rightarrow> string list \<Rightarrow> ftn_adapter" where
  "default_ftn_adapter s cs = \<lparr>fd_service = s, fd_capabilities = cs, fd_mode = ''scheduled_exchange'', fd_checkpoint_ref = None\<rparr>"

definition check_ftn_adapter :: "ftn_adapter \<Rightarrow> intent_error + unit" where
  "check_ftn_adapter a =
     bindS (intent_id ''FTNConfigError'' ''adapter service'' (fd_service a)) (\<lambda>_.
     bindS (first_error
       [(\<not> set (fd_capabilities a) \<subseteq> set [''import_echomail'', ''export_echomail'', ''import_netmail'', ''export_netmail'', ''native_ftn'', ''batch_exchange'', ''scheduled_exchange''],
         ftn_error ''invalid adapter capability''),
        (fd_mode a \<notin> set [''always_listening'', ''interval'', ''scheduled'', ''manual''], ftn_error ''invalid adapter mode'')]) (\<lambda>_.
     when_given (external ''FTNConfigError'') (fd_checkpoint_ref a)))"

text \<open>The default mode is not one of the modes that are accepted.\<close>

lemma default_ftn_adapter_refused: "\<exists>e. check_ftn_adapter (default_ftn_adapter s cs) = Inl e"
  by (auto simp: check_ftn_adapter_def default_ftn_adapter_def intent_id_def)

record ftn_network =
  fn_network_id :: string
  fn_display_name :: string
  fn_local_addresses :: "string list"
  fn_peers :: "ftn_peer list"
  fn_areas :: "ftn_area list"
  fn_enabled :: bool
  fn_public_listener :: bool
  fn_bind_host :: string
  fn_spool_root :: string
  fn_encoding :: string
  fn_nodelist_ref :: "string option"
  fn_archive_method :: string

definition open_listener :: "ftn_network \<Rightarrow> bool" where
  "open_listener n \<longleftrightarrow> fn_public_listener n \<and> fn_bind_host n \<in> set [''0.0.0.0'', ''::''] \<and> fn_peers n = []"

definition make_ftn_network :: "ftn_network \<Rightarrow> intent_error + ftn_network" where
  "make_ftn_network n =
     bindS (intent_id ''FTNConfigError'' ''network id'' (fn_network_id n)) (\<lambda>_.
     bindS (first_error [(fn_local_addresses n = [], ftn_error ''network requires local address'')]) (\<lambda>_.
     bindS (mapS ftn_address (fn_local_addresses n)) (\<lambda>as.
     bindS (first_error
       [(fn_encoding n \<notin> set [''CP437'', ''CP850'', ''ISO-8859-1'', ''UTF-8'', ''network-defined''], ftn_error ''invalid encoding''),
        (fn_archive_method n \<notin> set [''none'', ''zip'', ''arc'', ''arj'', ''lzh''], ftn_error ''archive method not allow-listed''),
        (open_listener n, ftn_error ''public listener requires explicit peers'')]) (\<lambda>_.
     bindS (when_given (external ''FTNConfigError'') (fn_nodelist_ref n)) (\<lambda>_.
     if \<not> unique (map fa_tag (fn_areas n)) then Inl (ftn_error ''duplicate area tag'') else Inr (n\<lparr>fn_local_addresses := as\<rparr>))))))"

record ftn_config =
  fc_networks :: "ftn_network list"
  fc_adapters :: "ftn_adapter list"
  fc_listen_port :: int

definition check_ftn_config :: "ftn_config \<Rightarrow> intent_error + unit" where
  "check_ftn_config c = first_error
     [(\<not> unique (map fn_network_id (fc_networks c)), ftn_error ''duplicate network''),
      (\<not> in_port_range (fc_listen_port c), ftn_error ''invalid listener port''),
      (\<exists>n \<in> set (fc_networks c). open_listener n, ftn_error ''public listener requires explicit peers'')]"

definition render_binkd :: "ftn_config \<Rightarrow> string" where
  "render_binkd c = text_lines ((''listen '' @ decimal (nat (fc_listen_port c))) #
     concat (map (\<lambda>n. [''# network '' @ fn_network_id n, ''node-dir '' @ fn_spool_root n @ ''/inbound'']
       @ map (\<lambda>p. ''peer '' @ fp_address p @ '' '' @ fp_host p @ '':'' @ decimal (nat (fp_port p))) (sort_key fp_peer_id (fn_peers n)))
     (sort_key fn_network_id (fc_networks c))))"

definition render_tosser :: "ftn_config \<Rightarrow> string" where
  "render_tosser c = text_lines (map (\<lambda>n. ''network '' @ fn_network_id n @ '' areas '' @ decimal (length (fn_areas n)) @ '' encoding ''
     @ fn_encoding n @ '' archive '' @ fn_archive_method n) (sort_key fn_network_id (fc_networks c)))"

definition ftn_summary :: "ftn_config \<Rightarrow> nat \<times> nat \<times> nat \<times> int \<times> nat" where
  "ftn_summary c = (length (fc_networks c), sum_list (map (length \<circ> fn_peers) (fc_networks c)), sum_list (map (length \<circ> fn_areas) (fc_networks c)),
     fc_listen_port c, length (filter fn_public_listener (fc_networks c)))"

section \<open>News\<close>

abbreviation news_error :: "string \<Rightarrow> intent_error" where
  "news_error t \<equiv> IntentError ''NewsConfigError'' [t]"

text \<open>\<open>^[a-z0-9]+(?:[._-][a-z0-9]+)*$\<close>, and two or more labels separated by dots\<close>

definition GROUP_rx :: rx where
  "GROUP_rx = Cat (Plus (Cls lower_alnum)) (Star (Cat (Cls (\<lambda>c. c \<in> set ''._-'')) (Plus (Cls lower_alnum))))"

definition HOST_rx :: rx where
  "HOST_rx = Cat label_rx (Plus (Cat (Lit (CHR ''.'')) label_rx))"

definition group_name :: "string \<Rightarrow> intent_error + string" where
  "group_name v = (if 255 < length v \<or> \<not> fullmatch GROUP_rx v \<or> starts_with ''.'' v \<or> ends_with ''.'' v then Inl (news_error ''invalid group name'')
     else Inr (lower v))"

definition news_host :: "string \<Rightarrow> intent_error + string" where
  "news_host v = (if \<not> fullmatch HOST_rx (lower v) then Inl (news_error ''invalid hostname'') else Inr (lower v))"

record retention =
  rt_max_age_days :: int
  rt_max_articles :: int
  rt_max_bytes :: int

definition check_retention :: "retention \<Rightarrow> intent_error + unit" where
  "check_retention r = first_error
     [(rt_max_age_days r \<le> 0 \<or> rt_max_articles r \<le> 0 \<or> rt_max_bytes r \<le> 0, news_error ''retention must be bounded'')]"

record news_group =
  ng_name :: string
  ng_description :: string
  ng_enabled :: bool
  ng_read_policy :: string
  ng_post_policy :: string
  ng_moderated :: bool
  ng_retention :: "retention option"
  ng_bbs_service :: "string option"
  ng_bbs_area :: "string option"

definition make_group :: "news_group \<Rightarrow> intent_error + news_group" where
  "make_group g =
     bindS (group_name (ng_name g)) (\<lambda>n.
     bindS (first_error
       [(ng_read_policy g \<notin> set [''public'', ''authenticated'', ''trusted_network'', ''disabled''] \<or>
         ng_post_policy g \<notin> set [''public'', ''authenticated'', ''trusted_network'', ''moderated'', ''disabled''], news_error ''invalid group policy'')]) (\<lambda>_.
     bindS (when_given (intent_id ''NewsConfigError'' ''BBS service'') (ng_bbs_service g)) (\<lambda>_.
     case ng_bbs_area g of
       Some a \<Rightarrow> if broken_line a then Inl (news_error ''invalid BBS area'')
         else Inr (g\<lparr>ng_name := n, ng_moderated := ng_moderated g \<or> ng_post_policy g = ''moderated''\<rparr>)
     | None \<Rightarrow> Inr (g\<lparr>ng_name := n, ng_moderated := ng_moderated g \<or> ng_post_policy g = ''moderated''\<rparr>))))"

record news_adapter =
  na_service :: string
  na_mode :: string
  na_capabilities :: "string list"
  na_checkpoint_ref :: "string option"

definition check_news_adapter :: "news_adapter \<Rightarrow> intent_error + unit" where
  "check_news_adapter a =
     bindS (intent_id ''NewsConfigError'' ''adapter service'' (na_service a)) (\<lambda>_.
     bindS (first_error
       [(na_mode a \<notin> set [''inbound_to_bbs'', ''outbound_from_bbs'', ''bidirectional'', ''scheduled_exchange'', ''native_nntp''], news_error ''invalid adapter mode''),
        (\<not> set (na_capabilities a) \<subseteq> set [''inbound_to_bbs'', ''outbound_from_bbs'', ''bidirectional'', ''scheduled_exchange'', ''native_nntp'', ''mapping''],
         news_error ''invalid adapter capability'')]) (\<lambda>_.
     when_given (external ''NewsConfigError'') (na_checkpoint_ref a)))"

record news_feed =
  nf_peer :: string
  nf_groups :: "string list"
  nf_direction :: string
  nf_secret_ref :: "string option"
  nf_schedule :: "string option"
  nf_enabled :: bool

definition feed_group :: "string \<Rightarrow> intent_error + string" where
  "feed_group g = (if ends_with ''.*'' g then group_name (take (length g - 2) g) else group_name g)"

definition check_feed :: "news_feed \<Rightarrow> intent_error + unit" where
  "check_feed f =
     bindS (news_host (nf_peer f)) (\<lambda>_.
     bindS (first_error [(nf_direction f \<notin> set [''inbound'', ''outbound'', ''bidirectional''], news_error ''invalid feed direction'')]) (\<lambda>_.
     bindS (mapS feed_group (nf_groups f)) (\<lambda>_.
     bindS (when_given (external ''NewsConfigError'') (nf_secret_ref f)) (\<lambda>_.
     first_error [(truthy (nf_schedule f) \<and> broken_line (the (nf_schedule f)), news_error ''invalid feed schedule'')]))))"

record news_config =
  nc_mode :: string
  nc_internal_identity :: string
  nc_public_identity :: "string option"
  nc_tls_cert_ref :: "string option"
  nc_tls_key_ref :: "string option"
  nc_groups :: "news_group list"
  nc_adapters :: "news_adapter list"
  nc_feeds :: "news_feed list"
  nc_retention :: retention
  nc_nntp_port :: int
  nc_nntps_port :: "int option"

definition bbs_mappings :: "news_config \<Rightarrow> (string option \<times> string option) list" where
  "bbs_mappings c = map (\<lambda>g. (ng_bbs_service g, ng_bbs_area g)) (filter (\<lambda>g. truthy (ng_bbs_service g)) (nc_groups c))"

definition check_news :: "news_config \<Rightarrow> intent_error + unit" where
  "check_news c =
     bindS (first_error [(nc_mode c \<notin> set [''private_only'', ''public_read'', ''public_read_write''], news_error ''invalid NNTP mode'')]) (\<lambda>_.
     bindS (news_host (nc_internal_identity c)) (\<lambda>_.
     bindS (when_given (\<lambda>h. bindS (news_host h) (\<lambda>_. Inr ())) (nc_public_identity c)) (\<lambda>_.
     bindS (mapS (when_given (external ''NewsConfigError'')) [nc_tls_cert_ref c, nc_tls_key_ref c]) (\<lambda>_.
     first_error
       [(\<not> in_port_range (nc_nntp_port c), news_error ''invalid NNTP port''),
        (\<exists>p. nc_nntps_port c = Some p \<and> \<not> in_port_range p, news_error ''invalid NNTPS port''),
        (\<not> unique (map ng_name (nc_groups c)), news_error ''duplicate newsgroup''),
        (\<not> unique (bbs_mappings c), news_error ''duplicate BBS mapping''),
        (nc_mode c = ''public_read_write'' \<and> \<not> truthy (nc_tls_cert_ref c), news_error ''public posting requires TLS configuration'')]))))"

definition render_news :: "news_config \<Rightarrow> string" where
  "render_news c = text_lines ([''# UBB NNTP mode: '' @ nc_mode c, ''listen_port = '' @ decimal (nat (nc_nntp_port c)),
     ''group_count = '' @ decimal (length (nc_groups c)), ''retention_days = '' @ decimal (nat (rt_max_age_days (nc_retention c)))]
     @ (case nc_nntps_port c of None \<Rightarrow> [] | Some p \<Rightarrow> if p = 0 then [] else [''nntps_port = '' @ decimal (nat p)]))"

definition groups_render :: "news_config \<Rightarrow> string" where
  "groups_render c = text_lines (map (\<lambda>g. ng_name g @ [CHR 0x09] @ ng_description g) (sort_key ng_name (nc_groups c)))"

record news_view =
  nv_mode :: string
  nv_internal_identity :: string
  nv_public_identity :: "string option"
  nv_nntp_port :: int
  nv_nntps_port :: "int option"
  nv_group_count :: nat
  nv_adapter_count :: nat
  nv_feed_count :: nat
  nv_retention :: retention

definition news_safe_dict :: "news_config \<Rightarrow> news_view" where
  "news_safe_dict c = \<lparr>nv_mode = nc_mode c, nv_internal_identity = nc_internal_identity c, nv_public_identity = nc_public_identity c,
     nv_nntp_port = nc_nntp_port c, nv_nntps_port = nc_nntps_port c, nv_group_count = length (nc_groups c),
     nv_adapter_count = length (nc_adapters c), nv_feed_count = length (nc_feeds c), nv_retention = nc_retention c\<rparr>"

section \<open>IRC\<close>

abbreviation irc_error :: "string \<Rightarrow> intent_error" where
  "irc_error t \<equiv> IntentError ''IRCConfigError'' [t]"

text \<open>\<open>^[A-Za-z0-9][A-Za-z0-9._-]{0,62}$\<close> and \<open>^#[A-Za-z0-9][A-Za-z0-9._-]{0,49}$\<close>\<close>

definition name_char :: "char \<Rightarrow> bool" where
  "name_char c \<longleftrightarrow> alnum c \<or> c \<in> set ''._-''"

definition NAME_rx :: rx where
  "NAME_rx = Cat (Cls alnum) (Upto 62 (Cls name_char))"

definition CHAN_rx :: rx where
  "CHAN_rx = Cat (Lit (CHR ''#'')) (Cat (Cls alnum) (Upto 49 (Cls name_char)))"

definition irc_name :: "string \<Rightarrow> string \<Rightarrow> intent_error + unit" where
  "irc_name label v = (if \<not> fullmatch NAME_rx v then Inl (IntentError ''IRCConfigError'' [''invalid '', label]) else Inr ())"

definition irc_channel_name :: "string \<Rightarrow> intent_error + unit" where
  "irc_channel_name v = (if \<not> fullmatch CHAN_rx v \<or> (\<exists>c \<in> {carriage_return, line_feed, CHR '' ''}. c \<in> set v) then Inl (irc_error ''invalid channel'') else Inr ())"

record irc_channel =
  ic_channel :: string
  ic_description :: string
  ic_enabled :: bool
  ic_visibility :: string
  ic_invite_only :: bool
  ic_moderated :: bool
  ic_history :: string
  ic_max_users :: "int option"

definition check_channel :: "irc_channel \<Rightarrow> intent_error + unit" where
  "check_channel c = bindS (irc_channel_name (ic_channel c)) (\<lambda>_. first_error
     [(ic_visibility c \<notin> set [''public'', ''private''], irc_error ''invalid channel visibility''),
      (ic_history c \<notin> set [''none'', ''bounded''], irc_error ''invalid history policy''),
      (\<exists>n. ic_max_users c = Some n \<and> n \<le> 0, irc_error ''invalid max users'')])"

record irc_bridge =
  ib_service :: string
  ib_channel :: string
  ib_bbs_area :: string
  ib_mode :: string
  ib_visibility :: string
  ib_checkpoint_ref :: "string option"

definition check_bridge :: "irc_bridge \<Rightarrow> intent_error + unit" where
  "check_bridge b =
     bindS (intent_id ''IRCConfigError'' ''BBS service'' (ib_service b)) (\<lambda>_.
     bindS (irc_channel_name (ib_channel b)) (\<lambda>_.
     bindS (first_error
       [(broken_line (ib_bbs_area b), irc_error ''invalid BBS area''),
        (ib_mode b \<notin> set [''inbound_to_bbs'', ''outbound_from_bbs'', ''bidirectional'', ''scheduled_bridge'', ''native_irc''], irc_error ''invalid bridge mode''),
        (ib_visibility b \<notin> set [''private'', ''public''], irc_error ''invalid bridge visibility'')]) (\<lambda>_.
     when_given (external ''IRCConfigError'') (ib_checkpoint_ref b))))"

record irc_config =
  iq_mode :: string
  iq_server_name :: string
  iq_network_name :: string
  iq_public_hostname :: "string option"
  iq_tls_cert_ref :: "string option"
  iq_tls_key_ref :: "string option"
  iq_channels :: "irc_channel list"
  iq_bridges :: "irc_bridge list"
  iq_auth_secret_ref :: "string option"
  iq_oper_secret_ref :: "string option"
  iq_listen_tls :: bool
  iq_listen_plain :: bool
  iq_tls_port :: int
  iq_plain_port :: int
  iq_max_connections :: int

definition check_irc :: "irc_config \<Rightarrow> intent_error + unit" where
  "check_irc c =
     bindS (first_error [(iq_mode c \<notin> set [''private_only'', ''public''], irc_error ''invalid IRC mode'')]) (\<lambda>_.
     bindS (irc_name ''server name'' (iq_server_name c)) (\<lambda>_.
     bindS (irc_name ''network name'' (iq_network_name c)) (\<lambda>_.
     bindS (when_given (irc_name ''public hostname'') (iq_public_hostname c)) (\<lambda>_.
     bindS (first_error [(iq_mode c = ''public'' \<and> \<not> truthy (iq_tls_cert_ref c), irc_error ''public IRC requires TLS'')]) (\<lambda>_.
     bindS (mapS (when_given (external ''IRCConfigError'')) [iq_tls_cert_ref c, iq_tls_key_ref c, iq_auth_secret_ref c, iq_oper_secret_ref c]) (\<lambda>_.
     first_error
       [(\<not> in_port_range (iq_tls_port c) \<or> \<not> in_port_range (iq_plain_port c), irc_error ''invalid listener port''),
        (iq_max_connections c \<le> 0, irc_error ''invalid connection limit''),
        (\<not> unique (map ic_channel (iq_channels c)), irc_error ''duplicate channel''),
        (\<not> unique (map (\<lambda>b. (ib_service b, ib_channel b)) (iq_bridges c)), irc_error ''duplicate bridge mapping''),
        (\<exists>b \<in> set (iq_bridges c). ib_visibility b = ''public'' \<and> iq_mode c \<noteq> ''public'', irc_error ''public bridge requires public IRC mode'')]))))))"

definition render_irc :: "irc_config \<Rightarrow> string" where
  "render_irc c = text_lines ([''servername '' @ iq_server_name c, ''networkname '' @ iq_network_name c, ''mode '' @ iq_mode c,
       ''maxconnections '' @ decimal (nat (iq_max_connections c))]
     @ (if iq_listen_tls c then [''tls-listen '' @ decimal (nat (iq_tls_port c))] else [])
     @ (if iq_listen_plain c then [''plain-listen '' @ decimal (nat (iq_plain_port c))] else [])
     @ (if truthy (iq_tls_cert_ref c) then [''tls-cert '' @ the (iq_tls_cert_ref c)] else []))"

record irc_view =
  iw_mode :: string
  iw_server_name :: string
  iw_network_name :: string
  iw_public_hostname :: "string option"
  iw_tls :: bool
  iw_tls_port :: int
  iw_plain_listener :: bool
  iw_plain_port :: int
  iw_channel_count :: nat
  iw_bridge_count :: nat
  iw_max_connections :: int

definition irc_safe_dict :: "irc_config \<Rightarrow> irc_view" where
  "irc_safe_dict c = \<lparr>iw_mode = iq_mode c, iw_server_name = iq_server_name c, iw_network_name = iq_network_name c,
     iw_public_hostname = iq_public_hostname c, iw_tls = (truthy (iq_tls_cert_ref c) \<and> truthy (iq_tls_key_ref c)),
     iw_tls_port = iq_tls_port c, iw_plain_listener = iq_listen_plain c, iw_plain_port = iq_plain_port c,
     iw_channel_count = length (iq_channels c), iw_bridge_count = length (iq_bridges c), iw_max_connections = iq_max_connections c\<rparr>"

end
