(* ===== verification/Files.thy ===== *)
theory Files
  imports Dos
begin

text \<open>
  A tree of directories and files, as the modules that write several files see it: \<open>os.makedirs\<close>, opening a file
  for writing, \<open>os.replace\<close> and \<open>shutil.rmtree\<close>. A path is its list of components, the root is \<open>[]\<close>, and the tree
  has no links. An operation gives the new tree or the \<open>OSError\<close> it raises, which leaves the tree as it was.
\<close>

datatype node = Folder | File string

type_synonym place = "string list"
type_synonym tree = "(place, node) dict"

section \<open>Operations\<close>

definition beneath :: "place \<Rightarrow> place \<Rightarrow> bool" where
  "beneath q p \<longleftrightarrow> take (length q) p = q"

definition prefixes_of :: "place \<Rightarrow> place list" where
  "prefixes_of p = map (\<lambda>n. take (Suc n) p) [0..<length p]"

definition is_file :: "tree \<Rightarrow> place \<Rightarrow> bool" where
  "is_file t p \<longleftrightarrow> (case map_of t p of Some (File c) \<Rightarrow> True | _ \<Rightarrow> False)"

definition is_dir :: "tree \<Rightarrow> place \<Rightarrow> bool" where
  "is_dir t p \<longleftrightarrow> p = [] \<or> map_of t p = Some Folder"

definition add_dir :: "place \<Rightarrow> tree \<Rightarrow> tree" where
  "add_dir q t = (if has_key t q then t else AList.update q Folder t)"

text \<open>\<open>os.makedirs(p, exist_ok=True)\<close>\<close>

definition make_dirs :: "place \<Rightarrow> tree \<Rightarrow> message + tree" where
  "make_dirs p t = (if list_ex (is_file t) (prefixes_of p) then Inl [''not a directory''] else Inr (fold add_dir (prefixes_of p) t))"

text \<open>Writing the whole content of a file.\<close>

definition put_file :: "place \<Rightarrow> string \<Rightarrow> tree \<Rightarrow> message + tree" where
  "put_file p c t = (if \<not> is_dir t (butlast p) then Inl [''no such directory''] else if is_dir t p then Inl [''is a directory'']
     else Inr (AList.update p (File c) t))"

text \<open>\<open>os.replace(src, dst)\<close> of a file.\<close>

definition replace_file :: "place \<Rightarrow> place \<Rightarrow> tree \<Rightarrow> message + tree" where
  "replace_file src dst t = (case map_of t src of
      Some (File c) \<Rightarrow> bindS (put_file dst c t) (\<lambda>t'. Inr (if src = dst then t' else AList.delete src t'))
    | _ \<Rightarrow> Inl [''no such file''])"

definition remove_tree :: "place \<Rightarrow> tree \<Rightarrow> tree" where
  "remove_tree q t = filter (\<lambda>(p, n). \<not> beneath q p) t"

text \<open>An operation as a step of a program whose exceptions include the \<open>OSError\<close>.\<close>

definition file_step :: "(message \<Rightarrow> 'e) \<Rightarrow> (tree \<Rightarrow> message + tree) \<Rightarrow> (tree, 'e, unit) prog" where
  "file_step os f t = (case f t of Inl e \<Rightarrow> (Raise (os e), t) | Inr t' \<Rightarrow> (Ret (), t'))"

section \<open>What the operations leave\<close>

lemma is_file_iff: "is_file t p \<longleftrightarrow> (\<exists>c. map_of t p = Some (File c))"
  by (auto simp: is_file_def split: option.splits node.splits)

lemma beneath_Nil [simp]: "beneath [] p"
  by (simp add: beneath_def)

lemma beneath_append: "beneath q (q @ r)"
  by (simp add: beneath_def)

lemma beneathE: "beneath q p \<Longrightarrow> (\<And>r. p = q @ r \<Longrightarrow> R) \<Longrightarrow> R"
  unfolding beneath_def by (metis append_take_drop_id)

lemma beneath_iff: "beneath q p \<longleftrightarrow> (\<exists>r. p = q @ r)"
  by (auto elim: beneathE intro: beneath_append)

lemma beneath_trans: "beneath a b \<Longrightarrow> beneath b c \<Longrightarrow> beneath a c"
  by (auto simp: beneath_iff)

lemma prefixes_of_iff: "q \<in> set (prefixes_of p) \<longleftrightarrow> q \<noteq> [] \<and> beneath q p"
proof
  assume "q \<noteq> [] \<and> beneath q p"
  then obtain r where p: "p = q @ r" and q: "q \<noteq> []" by (auto elim: beneathE)
  then obtain n where n: "length q = Suc n" by (cases q) auto
  with p have "q = take (Suc n) p" "n < length p" by auto
  then show "q \<in> set (prefixes_of p)" unfolding prefixes_of_def by auto
qed (auto simp: prefixes_of_def beneath_def min_absorb2)

lemma wf_add_dir [simp]: "wf_dict t \<Longrightarrow> wf_dict (add_dir q t)"
  by (simp add: add_dir_def)

lemma fold_add_dir: "map_of (fold add_dir qs t) p = (if map_of t p = None \<and> p \<in> set qs then Some Folder else map_of t p)"
proof (induction qs arbitrary: t)
  case (Cons q qs)
  have "map_of (add_dir q t) p = (if map_of t p = None \<and> p = q then Some Folder else map_of t p)"
    by (auto simp: add_dir_def has_key_map_of)
  with Cons show ?case by auto
qed simp

lemma fold_add_dir_wf: "wf_dict t \<Longrightarrow> wf_dict (fold add_dir qs t)"
  by (induction qs arbitrary: t) auto

lemma make_dirs_Inr: "make_dirs p t = Inr t' \<Longrightarrow>
  map_of t' q = (if map_of t q = None \<and> q \<noteq> [] \<and> beneath q p then Some Folder else map_of t q) \<and> (wf_dict t \<longrightarrow> wf_dict t')"
  by (auto simp: make_dirs_def fold_add_dir fold_add_dir_wf prefixes_of_iff split: if_splits)

lemma make_dirs_effect:
  assumes "make_dirs q t = Inr t'"
  shows "map_of t' p = Some (File c) \<longleftrightarrow> map_of t p = Some (File c)"
    and "\<not> beneath p q \<Longrightarrow> map_of t' p = map_of t p"
    and "beneath p q \<Longrightarrow> p \<noteq> [] \<Longrightarrow> map_of t' p = Some Folder"
proof -
  note m = make_dirs_Inr[OF assms, of p]
  show "map_of t' p = Some (File c) \<longleftrightarrow> map_of t p = Some (File c)" "\<not> beneath p q \<Longrightarrow> map_of t' p = map_of t p"
    using m by auto
  assume p: "beneath p q" "p \<noteq> []"
  then have "p \<in> set (prefixes_of q)" by (simp add: prefixes_of_iff)
  with assms have "\<not> is_file t p" by (auto simp: make_dirs_def list_ex_iff split: if_splits)
  then have "map_of t p = None \<or> map_of t p = Some Folder" by (auto simp: is_file_def split: option.splits node.splits)
  with m p show "map_of t' p = Some Folder" by auto
qed

lemma make_dirs_is_dir: "make_dirs p t = Inr t' \<Longrightarrow> is_dir t' p"
  using make_dirs_effect(3)[of p t t' p] by (auto simp: is_dir_def beneath_def)

lemma put_file_Inr: "put_file p c t = Inr t' \<Longrightarrow> map_of t' = (map_of t)(p \<mapsto> File c) \<and> (wf_dict t \<longrightarrow> wf_dict t')"
  by (auto simp: put_file_def split: if_splits)

lemma replace_file_Inr: "replace_file src dst t = Inr t' \<Longrightarrow> src \<noteq> dst \<Longrightarrow>
  \<exists>c. map_of t src = Some (File c) \<and> map_of t' = (map_of t)(dst \<mapsto> File c, src := None) \<and> (wf_dict t \<longrightarrow> wf_dict t')"
  by (auto simp: replace_file_def put_file_def split: option.splits node.splits if_splits)

lemma map_of_remove_tree: "map_of (remove_tree q t) p = (if beneath q p then None else map_of t p)"
  unfolding remove_tree_def by (induction t) auto

lemma wf_remove_tree [simp]: "wf_dict t \<Longrightarrow> wf_dict (remove_tree q t)"
  by (simp add: remove_tree_def)

lemma hoare_file_step: "(\<And>t e. P t \<Longrightarrow> f t = Inl e \<Longrightarrow> E (os e) t) \<Longrightarrow> (\<And>t t'. P t \<Longrightarrow> f t = Inr t' \<Longrightarrow> Q () t') \<Longrightarrow>
  hoare c P (file_step os f) Q E"
  by (auto simp: hoare_def file_step_def split: sum.splits)

end
