(* ===== verification/Exchange.thy ===== *)
theory Exchange
  imports Files
begin

text \<open>
  Offline mail packets: \<open>scripts/ubb_exchange.py\<close>. The records with their checks, and the staged extraction of a packet
  into a tree of files. The ZIP directory is an argument: its entries, with the content that reading an entry gives, which
  is \<open>None\<close> where the reader raises.
\<close>

datatype exchange_error = ExchangeError message | OSError message | BadZipFile message

abbreviation exchange_error :: "string \<Rightarrow> exchange_error" where
  "exchange_error t \<equiv> ExchangeError [t]"

section \<open>Names, formats and mappings\<close>

definition FORMATS :: "string list" where
  "FORMATS = [''qwk'', ''bluewave'']"

definition PURPOSES :: "string list" where
  "PURPOSES = [''user_offline_mail'', ''system_exchange'']"

definition STATES :: "string list" where
  "STATES = [''preparing'', ''ready'', ''from_entry'', ''received'', ''importing'', ''imported'', ''rejected'', ''failed'']"

definition ENC :: "string list" where
  "ENC = [''CP437'', ''CP850'', ''ISO-8859-1'', ''UTF-8'', ''adapter_defined'']"

definition ident :: "string \<Rightarrow> string \<Rightarrow> exchange_error + unit" where
  "ident label v = first_error [(\<not> fullmatch ident_rx v, ExchangeError [''invalid '', label])]"

text \<open>\<open>[A-Za-z0-9][A-Za-z0-9._-]{0,11}\<close>\<close>

definition packet_name_rx :: rx where
  "packet_name_rx = Cat (Cls alnum) (Upto 11 (Cls (\<lambda>c. alnum c \<or> c \<in> set ''._-'')))"

fun contains :: "string \<Rightarrow> string \<Rightarrow> bool" where
  "contains p [] \<longleftrightarrow> p = []"
| "contains p (c # cs) \<longleftrightarrow> starts_with p (c # cs) \<or> contains p cs"

definition packet_filename :: "string \<Rightarrow> exchange_error + string" where
  "packet_filename v = (if CHR ''/'' \<in> set v \<or> CHR 0x5C \<in> set v \<or> contains ''..'' v \<or> carriage_return \<in> set v \<or> line_feed \<in> set v
       \<or> \<not> fullmatch packet_name_rx v
     then Inl (exchange_error ''invalid packet filename'') else Inr v)"

record exchange_format =
  ef_name :: string
  ef_export :: bool
  ef_reply_import :: bool
  ef_system_exchange :: bool
  ef_compression :: "string list"
  ef_encoding :: string
  ef_extensions :: "string list"

definition check_format :: "exchange_format \<Rightarrow> exchange_error + unit" where
  "check_format f = first_error
     [(ef_name f \<notin> set FORMATS, exchange_error ''unsupported format''),
      (ef_encoding f \<notin> set ENC, exchange_error ''invalid encoding''),
      (\<exists>x \<in> set (ef_compression f). x \<notin> set [''none'', ''zip''], exchange_error ''compression not allow-listed'')]"

record area_mapping =
  am_service :: string
  am_area :: string
  am_external_id :: string
  am_format :: string
  am_conference :: "int option"

definition check_mapping :: "area_mapping \<Rightarrow> exchange_error + unit" where
  "check_mapping a =
     bindS (ident ''service'' (am_service a)) (\<lambda>_.
     bindS (first_error [(am_area a = [] \<or> line_feed \<in> set (am_area a) \<or> carriage_return \<in> set (am_area a), exchange_error ''invalid BBS area'')]) (\<lambda>_.
     bindS (ident ''external area'' (am_external_id a)) (\<lambda>_. first_error
       [(am_format a \<notin> set FORMATS, exchange_error ''unsupported mapping format''),
        (\<exists>n. am_conference a = Some n \<and> \<not> (1 \<le> n \<and> n \<le> 65535), exchange_error ''invalid conference'')])))"

record exchange_adapter =
  xa_service :: string
  xa_capabilities :: "string list"
  xa_mode :: string
  xa_checkpoint_ref :: "string option"

definition check_exchange_adapter :: "exchange_adapter \<Rightarrow> exchange_error + unit" where
  "check_exchange_adapter a =
     bindS (ident ''service'' (xa_service a)) (\<lambda>_. first_error
       [(xa_mode a \<notin> set [''native'', ''external_adapter''], exchange_error ''invalid adapter mode''),
        (\<not> set (xa_capabilities a) \<subseteq> set [''enumerate_areas'', ''export_messages'', ''import_replies'', ''resolve_user'', ''checkpoint'',
            ''mark_exported'', ''duplicate_check'', ''system_export'', ''system_import''], exchange_error ''invalid adapter capability''),
        (truthy (xa_checkpoint_ref a) \<and> (\<not> starts_with ''/'' (the (xa_checkpoint_ref a)) \<or> line_feed \<in> set (the (xa_checkpoint_ref a))),
         exchange_error ''invalid checkpoint reference'')])"

record packet_manifest =
  pk_packet_id :: string
  pk_format :: string
  pk_purpose :: string
  pk_source_service :: string
  pk_created_at :: string
  pk_direction :: string
  pk_state :: string
  pk_user_ref :: "string option"
  pk_encoding :: string
  pk_compression :: string
  pk_file_size :: int
  pk_checksum :: "string option"
  pk_message_count :: int
  pk_checkpoint :: "string option"
  pk_origin :: string
  pk_schema_version :: int

definition check_packet :: "packet_manifest \<Rightarrow> exchange_error + unit" where
  "check_packet p =
     bindS (ident ''packet id'' (pk_packet_id p)) (\<lambda>_.
     bindS (ident ''source service'' (pk_source_service p)) (\<lambda>_. first_error
       [(pk_format p \<notin> set FORMATS \<or> pk_purpose p \<notin> set PURPOSES \<or> pk_state p \<notin> set STATES, exchange_error ''invalid packet enum''),
        (pk_direction p \<notin> set [''inbound'', ''outbound''], exchange_error ''invalid packet direction''),
        (pk_encoding p \<notin> set ENC \<or> pk_compression p \<notin> set [''none'', ''zip''], exchange_error ''invalid packet encoding/compression''),
        (pk_file_size p < 0 \<or> pk_message_count p < 0, exchange_error ''invalid packet bounds''),
        (truthy (pk_user_ref p) \<and> (contains ''password'' (lower (the (pk_user_ref p))) \<or> line_feed \<in> set (the (pk_user_ref p))),
         exchange_error ''unsafe user reference'')]))"

record packet_view =
  pv_packet_id :: string
  pv_format :: string
  pv_purpose :: string
  pv_source_service :: string
  pv_state :: string
  pv_direction :: string
  pv_file_size :: int
  pv_message_count :: int
  pv_encoding :: string
  pv_compression :: string
  pv_checkpoint :: "string option"
  pv_origin :: string
  pv_schema_version :: int

definition packet_safe :: "packet_manifest \<Rightarrow> packet_view" where
  "packet_safe p = \<lparr>pv_packet_id = pk_packet_id p, pv_format = pk_format p, pv_purpose = pk_purpose p, pv_source_service = pk_source_service p,
     pv_state = pk_state p, pv_direction = pk_direction p, pv_file_size = pk_file_size p, pv_message_count = pk_message_count p,
     pv_encoding = pk_encoding p, pv_compression = pk_compression p, pv_checkpoint = pk_checkpoint p, pv_origin = pk_origin p,
     pv_schema_version = pk_schema_version p\<rparr>"

record exchange_config =
  xc_formats :: "exchange_format list"
  xc_mappings :: "area_mapping list"
  xc_adapters :: "exchange_adapter list"
  xc_max_packet_bytes :: int
  xc_max_messages :: int
  xc_max_files :: int
  xc_max_unpacked_bytes :: int

definition mapping_key :: "area_mapping \<Rightarrow> string \<times> string \<times> string" where
  "mapping_key a = (am_service a, am_external_id a, am_format a)"

definition check_exchange :: "exchange_config \<Rightarrow> exchange_error + unit" where
  "check_exchange c = first_error
     [(length (xc_mappings c) \<noteq> card (set (map mapping_key (xc_mappings c))), exchange_error ''duplicate area mapping''),
      (min (xc_max_packet_bytes c) (min (xc_max_messages c) (min (xc_max_files c) (xc_max_unpacked_bytes c))) \<le> 0,
       exchange_error ''invalid exchange bounds'')]"

definition exchange_summary :: "exchange_config \<Rightarrow> string list \<times> nat \<times> nat \<times> int \<times> int" where
  "exchange_summary c = (map ef_name (xc_formats c), length (xc_mappings c), length (xc_adapters c), xc_max_packet_bytes c, xc_max_messages c)"

section \<open>Extraction\<close>

record packet_entry =
  pe_filename :: string
  pe_size :: int
  pe_content :: "string option"

definition entry_is_dir :: "packet_entry \<Rightarrow> bool" where
  "entry_is_dir e \<longleftrightarrow> ends_with ''/'' (pe_filename e)"

text \<open>The loop over the entries before anything is written; \<open>counted\<close> is the sum of the declared sizes. \<open>os.path.abspath\<close>
  is \<open>member_target\<close>, and no path starts with \<open>//\<close>, so nothing is accepted when the destination is the root.\<close>

fun check_entries :: "place \<Rightarrow> int \<Rightarrow> int \<Rightarrow> packet_entry list \<Rightarrow> exchange_error + unit" where
  "check_entries dest limit counted [] = Inr ()"
| "check_entries dest limit counted (e # es) = (let name = pe_filename e in
     if starts_with ''/'' name \<or> ''..'' \<in> set (split_on (CHR ''/'') name) \<or> CHR 0x5C \<in> set name then Inl (exchange_error ''unsafe archive path'')
     else if entry_is_dir e then check_entries dest limit counted es
     else if limit < counted + pe_size e then Inl (exchange_error ''archive size limit exceeded'')
     else if dest = [] \<or> \<not> strictly_inside dest (member_target dest name) then Inl (exchange_error ''archive escape'')
     else check_entries dest limit (counted + pe_size e) es)"

text \<open>\<open>ZipFile.extractall\<close>: a name stands for its last entry, and \<open>''\<close>, \<open>.\<close> and \<open>..\<close> are dropped from a path.\<close>

definition entry_named :: "packet_entry list \<Rightarrow> string \<Rightarrow> packet_entry" where
  "entry_named infos name = the (map_of (rev (map (\<lambda>e. (pe_filename e, e)) infos)) name)"

definition parts :: "string \<Rightarrow> place" where
  "parts name = filter (\<lambda>p. p \<notin> {'''', ''.'', ''..''}) (split_on (CHR ''/'') name)"

type_synonym 'a xprog = "(tree, exchange_error, 'a) prog"

definition files :: "(tree \<Rightarrow> message + tree) \<Rightarrow> unit xprog" where
  "files = file_step OSError"

definition extract_member :: "place \<Rightarrow> packet_entry \<Rightarrow> unit xprog" where
  "extract_member staging e = (let target = staging @ parts (pe_filename e) in
     if entry_is_dir e then files (make_dirs target)
     else andThen (files (make_dirs (butlast target))) (case pe_content e of
         None \<Rightarrow> raise (BadZipFile [pe_filename e])
       | Some c \<Rightarrow> files (put_file target c)))"

definition extract_all :: "place \<Rightarrow> packet_entry list \<Rightarrow> unit xprog" where
  "extract_all staging infos = for_each infos (\<lambda>e. extract_member staging (entry_named infos (pe_filename e)))"

text \<open>The files below the staging directory, moved in the order in which \<open>os.walk\<close> gives them.\<close>

definition staged :: "place \<Rightarrow> tree \<Rightarrow> place list" where
  "staged staging t = map (\<lambda>(p, n). drop (length staging) p) (filter (\<lambda>(p, n). beneath staging p \<and> n \<noteq> Folder) t)"

definition move_out :: "place \<Rightarrow> place \<Rightarrow> place \<Rightarrow> unit xprog" where
  "move_out staging dest rel = andThen (files (make_dirs (dest @ butlast rel))) (files (replace_file (staging @ rel) (dest @ rel)))"

definition stage_and_move :: "(place list \<Rightarrow> place list) \<Rightarrow> place \<Rightarrow> place \<Rightarrow> packet_entry list \<Rightarrow> unit xprog" where
  "stage_and_move walk staging dest infos = finally_do
     (andThen (extract_all staging infos) (bind (gets (staged staging)) (\<lambda>rels. for_each (walk rels) (move_out staging dest))))
     (remove_tree staging)"

definition staging_name :: "string \<Rightarrow> string" where
  "staging_name temp = ''.ubb-exchange-'' @ temp"

definition safe_extract_zip :: "string \<Rightarrow> (place list \<Rightarrow> place list) \<Rightarrow> packet_entry list option \<Rightarrow> place \<Rightarrow> int \<Rightarrow> int \<Rightarrow> unit xprog" where
  "safe_extract_zip temp walk source dest max_files max_bytes =
     andThen (files (make_dirs dest)) (case source of
         None \<Rightarrow> raise (BadZipFile [])
       | Some infos \<Rightarrow>
           andThen (raise_if (max_files < int (length infos)) (exchange_error ''archive file-count limit exceeded''))
          (case check_entries dest max_bytes 0 infos of
               Inl e \<Rightarrow> raise e
             | Inr u \<Rightarrow> (let staging = dest @ [staging_name temp] in
                 andThen (modify (AList.update staging Folder))
                  (stage_and_move walk staging dest infos))))"

text \<open>\<open>packet_checksum\<close>: the digest of the whole content, read in pieces.\<close>

definition packet_checksum :: "tools \<Rightarrow> string \<Rightarrow> string" where
  "packet_checksum kit content = sha256 kit content"

end
