(* ===== verification/Exchange_Facts.thy ===== *)
theory Exchange_Facts
  imports Exchange "HOL-Library.Multiset"
begin

text \<open>
  What the extraction of a packet does to the tree: everything it writes lies below the destination, at the place its
  entry names, and the staging directory is gone at the end whatever happened.
\<close>

section \<open>The check of the entries\<close>

definition file_entries :: "packet_entry list \<Rightarrow> packet_entry list" where
  "file_entries infos = filter (\<lambda>e. \<not> entry_is_dir e) infos"

lemma check_entries_ok: "check_entries dest limit n infos = Inr () \<Longrightarrow>
  (\<forall>e \<in> set infos. \<not> starts_with ''/'' (pe_filename e) \<and> ''..'' \<notin> set (split_on (CHR ''/'') (pe_filename e))) \<and>
  (file_entries infos \<noteq> [] \<longrightarrow> dest \<noteq> [] \<and> n + sum_list (map pe_size (file_entries infos)) \<le> limit) \<and>
  (\<forall>e \<in> set (file_entries infos). strictly_inside dest (member_target dest (pe_filename e)))"
proof (induction infos arbitrary: n)
  case (Cons e es)
  show ?case
  proof (cases "entry_is_dir e")
    case True
    with Cons show ?thesis by (auto simp: file_entries_def Let_def split: if_splits)
  next
    case False
    with Cons.prems have ok: "check_entries dest limit (n + pe_size e) es = Inr ()" "n + pe_size e \<le> limit" "dest \<noteq> []"
      "\<not> starts_with ''/'' (pe_filename e)" "''..'' \<notin> set (split_on (CHR ''/'') (pe_filename e))"
      "strictly_inside dest (member_target dest (pe_filename e))"
      by (auto simp: Let_def split: if_splits)
    from Cons.IH[OF ok(1)] ok(2-) False show ?thesis
      by (cases "file_entries es = []") (auto simp: file_entries_def algebra_simps)
  qed
qed (simp add: file_entries_def)

lemma normalize_plain: "''..'' \<notin> set ps \<Longrightarrow> normalize acc ps = rev acc @ filter (\<lambda>p. p \<notin> {'''', ''.'', ''..''}) ps"
  by (induction acc ps rule: normalize.induct) auto

lemma member_target_parts: "\<not> starts_with ''/'' name \<Longrightarrow> ''..'' \<notin> set (split_on (CHR ''/'') name) \<Longrightarrow>
  member_target root name = root @ parts name"
  by (simp add: member_target_def parts_def normalize_plain)

lemma file_parts: "check_entries dest limit n infos = Inr () \<Longrightarrow> e \<in> set (file_entries infos) \<Longrightarrow> parts (pe_filename e) \<noteq> []"
  using check_entries_ok[of dest limit n infos] member_target_parts[of "pe_filename e" dest]
  by (auto simp: file_entries_def strictly_inside_def)

lemma entry_named_in: "e \<in> set infos \<Longrightarrow> entry_named infos (pe_filename e) \<in> set infos \<and> pe_filename (entry_named infos (pe_filename e)) = pe_filename e"
proof -
  assume "e \<in> set infos"
  then have "pe_filename e \<in> fst ` set (map (\<lambda>e. (pe_filename e, e)) (rev infos))" by (simp add: image_image)
  then obtain e' where e': "map_of (map (\<lambda>e. (pe_filename e, e)) (rev infos)) (pe_filename e) = Some e'"
    by (metis map_of_eq_None_iff not_None_eq)
  from map_of_SomeD[OF this] have "e' \<in> set infos" "pe_filename e' = pe_filename e" by auto
  with e' show ?thesis by (simp add: entry_named_def rev_map)
qed

section \<open>Staging\<close>

definition staged_ok :: "place \<Rightarrow> tree \<Rightarrow> packet_entry list \<Rightarrow> tree \<Rightarrow> bool" where
  "staged_ok s t infos u \<longleftrightarrow> wf_dict u \<and> (\<forall>p. \<not> beneath s p \<longrightarrow> map_of u p = map_of t p) \<and>
     (\<forall>p. beneath p s \<and> p \<noteq> [] \<longrightarrow> map_of u p = Some Folder) \<and>
     (\<forall>rel c. map_of u (s @ rel) = Some (File c) \<longrightarrow> (\<exists>e \<in> set (file_entries infos). parts (pe_filename e) = rel \<and> pe_content e = Some c))"

lemma beneath_prefix_cases: "beneath p (s @ q) \<Longrightarrow> beneath s p \<or> beneath p s"
  by (auto simp: beneath_iff append_eq_append_conv2)

lemma staging_started:
  assumes wf: "wf_dict t" and above: "\<And>p. beneath p dest \<Longrightarrow> p \<noteq> [] \<Longrightarrow> map_of t p = Some Folder"
    and gone: "\<And>p. beneath (dest @ [x]) p \<Longrightarrow> map_of t p = None"
  shows "staged_ok (dest @ [x]) t infos (AList.update (dest @ [x]) Folder t)" (is "staged_ok ?s t infos ?u")
  unfolding staged_ok_def
proof (intro conjI allI impI)
  show "map_of ?u p = map_of t p" if "\<not> beneath ?s p" for p using that by (auto simp: beneath_iff)
  show "map_of ?u p = Some Folder" if "beneath p ?s \<and> p \<noteq> []" for p
    using that above[of p] by (auto simp: beneath_iff append_eq_append_conv2 append_eq_Cons_conv Cons_eq_append_conv)
  show "\<exists>e \<in> set (file_entries infos). parts (pe_filename e) = rel \<and> pe_content e = Some c" if "map_of ?u (?s @ rel) = Some (File c)" for rel c
    using that gone[OF beneath_append[of ?s rel]] by (auto split: if_splits)
qed (use wf in simp)

lemma staged_make_dirs:
  assumes ok: "staged_ok s t infos u" and made: "make_dirs (s @ q) u = Inr u'"
  shows "staged_ok s t infos u' \<and> is_dir u' (s @ q) \<and> (\<forall>p. is_file u p \<longrightarrow> is_file u' p)"
proof -
  note m = make_dirs_Inr[OF made]
  have out: "map_of u' p = map_of u p" if "\<not> beneath s p" for p
    using m[of p] that ok beneath_prefix_cases[of p s q] by (auto simp: staged_ok_def)
  have "map_of u' (s @ rel) = Some (File c) \<longleftrightarrow> map_of u (s @ rel) = Some (File c)" for rel c
    using m[of "s @ rel"] by auto
  moreover have "map_of u' p = Some Folder" if "beneath p s" "p \<noteq> []" for p
    using m[of p] that ok by (auto simp: staged_ok_def)
  moreover have "is_file u' p" if "is_file u p" for p
    using m[of p] that by (auto simp: is_file_def split: option.splits)
  ultimately show ?thesis using ok out make_dirs_is_dir[OF made] m by (auto simp: staged_ok_def)
qed

definition entry_placed :: "place \<Rightarrow> packet_entry \<Rightarrow> tree \<Rightarrow> bool" where
  "entry_placed s e u \<longleftrightarrow> entry_is_dir e \<or> is_file u (s @ parts (pe_filename e))"

lemma staged_make_dirs_placed: "staged_ok s t infos u \<Longrightarrow> make_dirs (s @ q) u = Inr u' \<Longrightarrow> \<forall>d \<in> D. entry_placed s d u \<Longrightarrow>
  staged_ok s t infos u' \<and> (\<forall>d \<in> D. entry_placed s d u')"
  using staged_make_dirs[of s t infos u q u'] by (auto simp: entry_placed_def)

lemma staged_put_file:
  assumes ok: "staged_ok s t infos u" and put: "put_file (s @ rel) c u = Inr u'" and rel: "rel \<noteq> []"
    and e: "e \<in> set (file_entries infos)" "parts (pe_filename e) = rel" "pe_content e = Some c"
  shows "staged_ok s t infos u' \<and> is_file u' (s @ rel) \<and> (\<forall>p. is_file u p \<longrightarrow> is_file u' p)"
proof -
  have m: "map_of u' = (map_of u)(s @ rel \<mapsto> File c)" "wf_dict u'"
    using put_file_Inr[OF put] ok by (auto simp: staged_ok_def)
  have "map_of u' p = map_of t p" if "\<not> beneath s p" for p
    using that ok m(1) by (auto simp: staged_ok_def beneath_append)
  moreover have "map_of u' p = Some Folder" if "beneath p s" "p \<noteq> []" for p
  proof -
    have "p \<noteq> s @ rel" using that(1) rel by (auto simp: beneath_iff)
    with that ok m(1) show ?thesis by (simp add: staged_ok_def)
  qed
  moreover have "\<exists>e \<in> set (file_entries infos). parts (pe_filename e) = r \<and> pe_content e = Some d" if "map_of u' (s @ r) = Some (File d)" for r d
    using that ok m(1) e by (cases "r = rel") (auto simp: staged_ok_def)
  ultimately show ?thesis using m by (simp add: staged_ok_def is_file_def)
qed

lemma extract_member_staged:
  assumes "check_entries dest limit 0 infos = Inr ()" and "e \<in> set infos"
  shows "hoare False (\<lambda>u. staged_ok s t infos u \<and> (\<forall>d \<in> D. entry_placed s d u)) (extract_member s e)
     (\<lambda>_ u. staged_ok s t infos u \<and> (\<forall>d \<in> insert e D. entry_placed s d u)) (\<lambda>_. staged_ok s t infos)"
proof (cases "entry_is_dir e")
  case True
  have "hoare False (\<lambda>u. staged_ok s t infos u \<and> (\<forall>d \<in> D. entry_placed s d u)) (files (make_dirs (s @ parts (pe_filename e))))
     (\<lambda>_ u. staged_ok s t infos u \<and> (\<forall>d \<in> D. entry_placed s d u)) (\<lambda>_. staged_ok s t infos)"
    unfolding files_def by (rule hoare_file_step) (use staged_make_dirs_placed in blast)+
  then show ?thesis by (simp add: extract_member_def True entry_placed_def)
next
  case False
  then have e: "e \<in> set (file_entries infos)" "parts (pe_filename e) \<noteq> []"
    using assms file_parts[OF assms(1)] by (auto simp: file_entries_def)
  then have bl: "butlast (s @ parts (pe_filename e)) = s @ butlast (parts (pe_filename e))" by (simp add: butlast_append)
  have dirs: "hoare False (\<lambda>u. staged_ok s t infos u \<and> (\<forall>d \<in> D. entry_placed s d u)) (files (make_dirs (s @ butlast (parts (pe_filename e)))))
     (\<lambda>_ u. staged_ok s t infos u \<and> (\<forall>d \<in> D. entry_placed s d u)) (\<lambda>_. staged_ok s t infos)"
    unfolding files_def by (rule hoare_file_step) (use staged_make_dirs_placed in blast)+
  show ?thesis
  proof (cases "pe_content e")
    case None
    show ?thesis unfolding extract_member_def Let_def None bl if_not_P[OF False] option.case
      by (rule hoare_andThen[OF dirs hoare_raise]) blast
  next
    case (Some c)
    have "hoare False (\<lambda>u. staged_ok s t infos u \<and> (\<forall>d \<in> D. entry_placed s d u)) (files (put_file (s @ parts (pe_filename e)) c))
       (\<lambda>_ u. staged_ok s t infos u \<and> (\<forall>d \<in> insert e D. entry_placed s d u)) (\<lambda>_. staged_ok s t infos)"
      unfolding files_def
      by (rule hoare_file_step) (use staged_put_file[OF _ _ e(2,1) refl Some] in \<open>auto simp: entry_placed_def\<close>)
    then show ?thesis unfolding extract_member_def Let_def Some bl if_not_P[OF False] option.case
      by (rule hoare_andThen[OF dirs])
  qed
qed

lemma extract_all_staged:
  assumes "check_entries dest limit 0 infos = Inr ()"
  shows "hoare False (staged_ok s t infos) (extract_all s infos)
     (\<lambda>_ u. staged_ok s t infos u \<and> (\<forall>e \<in> set (file_entries infos). is_file u (s @ parts (pe_filename e)))) (\<lambda>_. staged_ok s t infos)"
proof -
  let ?n = "\<lambda>e :: packet_entry. entry_named infos (pe_filename e)"
  let ?I = "\<lambda>ys u. staged_ok s t infos u \<and> (\<forall>d \<in> ?n ` set ys. entry_placed s d u)"
  have "hoare False (?I []) (extract_all s infos) (\<lambda>_. ?I infos) (\<lambda>_. staged_ok s t infos)"
    unfolding extract_all_def
  proof (rule hoare_for_each[where I = ?I and xs = infos])
    fix ys x zs assume "infos = ys @ x # zs"
    then have "?n x \<in> set infos" using entry_named_in by (metis in_set_conv_decomp)
    from extract_member_staged[OF assms this, of s t "?n ` set ys"]
    show "hoare False (?I ys) (extract_member s (?n x)) (\<lambda>_. ?I (ys @ [x])) (\<lambda>_. staged_ok s t infos)" by simp
  qed
  then show ?thesis
  proof (rule hoare_conseq)
    fix x u assume u: "?I infos u"
    have "is_file u (s @ parts (pe_filename e))" if "e \<in> set (file_entries infos)" for e
      using u that entry_named_in[of e infos] by (fastforce simp: file_entries_def entry_placed_def entry_is_dir_def)
    with u show "staged_ok s t infos u \<and> (\<forall>e \<in> set (file_entries infos). is_file u (s @ parts (pe_filename e)))" by blast
  qed simp_all
qed

section \<open>Moving into place\<close>

text \<open>What holds of the tree from the staging on, in every outcome: outside the staging directory and the destination nothing
  differs, a new content is that of an entry, and no file is lost.\<close>

definition confined :: "place \<Rightarrow> place \<Rightarrow> packet_entry list \<Rightarrow> tree \<Rightarrow> tree \<Rightarrow> bool" where
  "confined s dest infos t v \<longleftrightarrow> (\<forall>p. \<not> beneath s p \<longrightarrow>
     (\<not> strictly_inside dest p \<longrightarrow> map_of v p = map_of t p) \<and> (is_file t p \<longrightarrow> is_file v p) \<and>
     (\<forall>c. map_of v p = Some (File c) \<longrightarrow> map_of t p = Some (File c) \<or>
       (\<exists>e \<in> set (file_entries infos). p = dest @ parts (pe_filename e) \<and> pe_content e = Some c)))"

lemma staged_confined: "staged_ok s t infos u \<Longrightarrow> confined s dest infos t u"
  by (auto simp: staged_ok_def confined_def is_file_def)

definition moved :: "place \<Rightarrow> string \<Rightarrow> packet_entry list \<Rightarrow> tree \<Rightarrow> tree \<Rightarrow> place set \<Rightarrow> place set \<Rightarrow> tree \<Rightarrow> bool" where
  "moved dest x infos t u todo ready v \<longleftrightarrow> confined (dest @ [x]) dest infos t v \<and>
     (\<forall>rel \<in> ready. map_of v (dest @ rel) = map_of u (dest @ x # rel)) \<and>
     (\<forall>rel \<in> todo. map_of v (dest @ x # rel) = map_of u (dest @ x # rel)) \<and>
     (\<forall>p. beneath p dest \<and> p \<noteq> [] \<longrightarrow> map_of v p = Some Folder)"

lemma moved_step:
  assumes pre: "moved dest x infos t u (insert rel todo) ready v" and rel: "rel \<notin> ready" "rel \<notin> todo" "rel \<noteq> []"
    and src: "\<forall>r \<in> insert rel (todo \<union> ready). hd r \<noteq> x \<and> r \<noteq> [] \<and> is_file u (dest @ x # r)"
    and from_entry: "\<forall>c. map_of u (dest @ x # rel) = Some (File c) \<longrightarrow>
       (\<exists>e \<in> set (file_entries infos). parts (pe_filename e) = rel \<and> pe_content e = Some c)"
    and made: "make_dirs (dest @ butlast rel) v = Inr v1"
  shows "moved dest x infos t u (insert rel todo) ready v1"
    and "replace_file (dest @ x # rel) (dest @ rel) v1 = Inr v2 \<Longrightarrow> moved dest x infos t u todo (insert rel ready) v2"
proof -
  note m = make_dirs_Inr[OF made]
  have inside: "strictly_inside dest p" if "map_of v1 p \<noteq> map_of v p" for p
  proof -
    from m[of p] that have p: "map_of v p = None" "p \<noteq> []" "beneath p (dest @ butlast rel)" by (auto split: if_splits)
    with pre have "\<not> beneath p dest" by (auto simp: moved_def)
    with beneath_prefix_cases[OF p(3)] obtain r where "p = dest @ r" "r \<noteq> []" by (auto simp: beneath_iff)
    then show ?thesis by (simp add: strictly_inside_def)
  qed
  have files: "map_of v1 p = Some (File c) \<longleftrightarrow> map_of v p = Some (File c)" for p c using m[of p] by auto
  have is_file1: "is_file v1 p \<longleftrightarrow> is_file v p" for p
    using files[of p] by (simp add: is_file_iff)
  have c1: "confined (dest @ [x]) dest infos t v1"
    unfolding confined_def
  proof (intro allI impI conjI)
    fix p assume p: "\<not> beneath (dest @ [x]) p" and "\<not> strictly_inside dest p"
    then show "map_of v1 p = map_of t p" using inside[of p] pre by (auto simp: moved_def confined_def)
  qed (use pre files is_file1 in \<open>auto simp: moved_def confined_def\<close>)
  have keep: "map_of v1 q = map_of u p" if "map_of v q = map_of u p" "is_file u p" for p q
    using that files[of q] by (auto simp: is_file_def split: option.splits node.splits)
  have ready1: "map_of v1 (dest @ r) = map_of u (dest @ x # r)" if "r \<in> ready" for r
    using that pre src by (intro keep) (auto simp: moved_def)
  have todo1: "map_of v1 (dest @ x # r) = map_of u (dest @ x # r)" if "r \<in> insert rel todo" for r
    using that pre src by (intro keep) (auto simp: moved_def)
  have dest1: "map_of v1 p = Some Folder" if "beneath p dest" "p \<noteq> []" for p
    using that pre m[of p] by (auto simp: moved_def)
  show "moved dest x infos t u (insert rel todo) ready v1"
    unfolding moved_def using c1 ready1 todo1 dest1 by blast
  assume rep: "replace_file (dest @ x # rel) (dest @ rel) v1 = Inr v2"
  have "dest @ x # rel \<noteq> dest @ rel" by (metis list.distinct(1) not_Cons_self2 same_append_eq)
  from replace_file_Inr[OF rep this] obtain c where c: "map_of v1 (dest @ x # rel) = Some (File c)"
    "map_of v2 = (map_of v1)(dest @ rel \<mapsto> File c, dest @ x # rel := None)" by blast
  have uc: "map_of u (dest @ x # rel) = Some (File c)" using todo1[of rel] c(1) by simp
  then obtain e where e: "e \<in> set (file_entries infos)" "parts (pe_filename e) = rel" "pe_content e = Some c" using from_entry by blast
  have hd: "r \<noteq> x # r'" if "r \<in> insert rel (todo \<union> ready)" for r r'
  proof
    assume "r = x # r'"
    then have "hd r = x" by simp
    with src that show False by blast
  qed
  have in_rel: "strictly_inside dest (dest @ rel)" using rel(3) by (simp add: strictly_inside_def)
  have c2: "confined (dest @ [x]) dest infos t v2"
    unfolding confined_def
  proof (intro allI impI)
    fix p assume p: "\<not> beneath (dest @ [x]) p"
    then have ne: "p \<noteq> dest @ x # rel" by (auto simp: beneath_iff)
    show "(\<not> strictly_inside dest p \<longrightarrow> map_of v2 p = map_of t p) \<and> (is_file t p \<longrightarrow> is_file v2 p) \<and>
      (\<forall>c. map_of v2 p = Some (File c) \<longrightarrow> map_of t p = Some (File c) \<or>
        (\<exists>e \<in> set (file_entries infos). p = dest @ parts (pe_filename e) \<and> pe_content e = Some c))"
    proof (cases "p = dest @ rel")
      case True
      with c(2) ne have "map_of v2 p = Some (File c)" by simp
      with True e in_rel show ?thesis by (auto simp: is_file_def)
    next
      case False
      with c(2) ne have "map_of v2 p = map_of v1 p" by simp
      with c1 p show ?thesis by (simp add: confined_def is_file_def)
    qed
  qed
  show "moved dest x infos t u todo (insert rel ready) v2"
    unfolding moved_def
  proof (intro conjI ballI allI impI c2)
    fix r assume r: "r \<in> insert rel ready"
    with c(2) uc ready1[of r] hd[of r rel] rel(1) show "map_of v2 (dest @ r) = map_of u (dest @ x # r)" by auto
  next
    fix r assume r: "r \<in> todo"
    with c(2) todo1[of r] hd[of rel r] rel(2) show "map_of v2 (dest @ x # r) = map_of u (dest @ x # r)" by auto
  next
    fix p assume p: "beneath p dest \<and> p \<noteq> []"
    then have "length p \<le> length dest" by (auto simp: beneath_iff)
    with p c(2) dest1[of p] rel(3) show "map_of v2 p = Some Folder" by auto
  qed
qed

lemma staged_iff: "wf_dict u \<Longrightarrow> rel \<in> set (staged s u) \<longleftrightarrow> is_file u (s @ rel)"
proof
  assume wf: "wf_dict u" and "rel \<in> set (staged s u)"
  then obtain p n where p: "(p, n) \<in> set u" "beneath s p" "n \<noteq> Folder" "rel = drop (length s) p" by (auto simp: staged_def)
  then have "p = s @ rel" by (auto simp: beneath_iff)
  moreover have "map_of u p = Some n" using wf p(1) by (simp add: wf_dict_def)
  ultimately show "is_file u (s @ rel)" using p(3) by (cases n) (auto simp: is_file_iff)
next
  assume "is_file u (s @ rel)"
  then obtain c where "(s @ rel, File c) \<in> set u" by (auto simp: is_file_iff dest: map_of_SomeD)
  then show "rel \<in> set (staged s u)" unfolding staged_def by (force simp: beneath_append)
qed

lemma staged_distinct: "wf_dict u \<Longrightarrow> distinct (staged s u)"
proof -
  assume "wf_dict u"
  then have "distinct (map fst (filter (\<lambda>(p, n). beneath s p \<and> n \<noteq> Folder) u))" by (simp add: wf_dict_def distinct_map_filter)
  moreover have "staged s u = map (drop (length s)) (map fst (filter (\<lambda>(p, n). beneath s p \<and> n \<noteq> Folder) u))"
    by (auto simp: staged_def)
  moreover have "inj_on (drop (length s)) (set (map fst (filter (\<lambda>(p, n). beneath s p \<and> n \<noteq> Folder) u)))"
    by (rule inj_onI) (auto simp: beneath_iff)
  ultimately show ?thesis by (simp add: distinct_map comp_inj_on)
qed

lemma move_all_moved:
  assumes ok: "staged_ok (dest @ [x]) t infos u" and xs: "mset xs = mset (staged (dest @ [x]) u)"
    and fresh: "\<forall>e \<in> set infos. x \<notin> set (parts (pe_filename e))"
    and checked: "check_entries dest limit 0 infos = Inr ()"
  shows "hoare False (\<lambda>v. v = u) (for_each xs (move_out (dest @ [x]) dest)) (\<lambda>_. moved dest x infos t u {} (set xs)) (\<lambda>_. confined (dest @ [x]) dest infos t)"
proof -
  have wf: "wf_dict u" using ok by (simp add: staged_ok_def)
  have d: "distinct xs" using staged_distinct[OF wf] xs by (metis card_distinct distinct_card mset_eq_length mset_eq_setD)
  have src: "is_file u (dest @ x # r)" if "r \<in> set xs" for r
    using that staged_iff[OF wf, of r "dest @ [x]"] mset_eq_setD[OF xs] by simp
  have entry: "\<exists>e \<in> set (file_entries infos). parts (pe_filename e) = r \<and> pe_content e = Some c"
    if "map_of u (dest @ x # r) = Some (File c)" for r c
    using ok that by (auto simp: staged_ok_def)
  have plain: "hd r \<noteq> x \<and> r \<noteq> []" if r: "r \<in> set xs" for r
  proof -
    from src[OF r] obtain c where "map_of u (dest @ x # r) = Some (File c)" by (auto simp: is_file_iff)
    from entry[OF this] obtain e where e: "e \<in> set (file_entries infos)" "parts (pe_filename e) = r" by blast
    then have "r \<noteq> []" using file_parts[OF checked] by blast
    moreover have "x \<notin> set r" using fresh e by (auto simp: file_entries_def)
    ultimately show ?thesis by (cases r) auto
  qed
  let ?I = "\<lambda>ys v. moved dest x infos t u (set xs - set ys) (set ys) v"
  have "hoare False (?I []) (for_each xs (move_out (dest @ [x]) dest)) (\<lambda>_. ?I xs) (\<lambda>_. confined (dest @ [x]) dest infos t)"
  proof (rule hoare_for_each[where I = ?I and xs = xs])
    fix ys r zs assume split: "xs = ys @ r # zs"
    with d have todo: "set xs - set ys = insert r (set zs)" "set xs - set (ys @ [r]) = set zs" "r \<notin> set ys" "r \<notin> set zs" by auto
    have rs: "\<forall>q \<in> insert r (set zs \<union> set ys). hd q \<noteq> x \<and> q \<noteq> [] \<and> is_file u (dest @ x # q)"
      using plain src split by auto
    have rne: "r \<noteq> []" using rs by blast
    note step = moved_step[OF _ todo(3,4) rne rs]
    show "hoare False (?I ys) (move_out (dest @ [x]) dest r) (\<lambda>_. ?I (ys @ [r])) (\<lambda>_. confined (dest @ [x]) dest infos t)"
      unfolding move_out_def files_def todo(1,2)
    proof (rule hoare_andThen[where R = "\<lambda>v1. \<exists>v. moved dest x infos t u (insert r (set zs)) (set ys) v \<and> make_dirs (dest @ butlast r) v = Inr v1"])
      show "hoare False (moved dest x infos t u (insert r (set zs)) (set ys)) (file_step OSError (make_dirs (dest @ butlast r)))
         (\<lambda>_ v1. \<exists>v. moved dest x infos t u (insert r (set zs)) (set ys) v \<and> make_dirs (dest @ butlast r) v = Inr v1)
         (\<lambda>_. confined (dest @ [x]) dest infos t)"
        by (rule hoare_file_step) (auto simp: moved_def)
      show "hoare False (\<lambda>v1. \<exists>v. moved dest x infos t u (insert r (set zs)) (set ys) v \<and> make_dirs (dest @ butlast r) v = Inr v1)
         (file_step OSError (replace_file ((dest @ [x]) @ r) (dest @ r))) (\<lambda>_. moved dest x infos t u (set zs) (set (ys @ [r])))
         (\<lambda>_. confined (dest @ [x]) dest infos t)"
      proof (rule hoare_file_step)
        fix v1 e assume "\<exists>v. moved dest x infos t u (insert r (set zs)) (set ys) v \<and> make_dirs (dest @ butlast r) v = Inr v1"
        then obtain v where v: "moved dest x infos t u (insert r (set zs)) (set ys) v" "make_dirs (dest @ butlast r) v = Inr v1" by blast
        from step(1)[OF v(1) _ v(2)] entry show "confined (dest @ [x]) dest infos t v1" by (auto simp: moved_def)
      next
        fix v1 v2 assume "\<exists>v. moved dest x infos t u (insert r (set zs)) (set ys) v \<and> make_dirs (dest @ butlast r) v = Inr v1"
          and rep: "replace_file ((dest @ [x]) @ r) (dest @ r) v1 = Inr v2"
        then obtain v where v: "moved dest x infos t u (insert r (set zs)) (set ys) v" "make_dirs (dest @ butlast r) v = Inr v1" by blast
        from step(2)[OF v(1) _ v(2)] entry rep show "moved dest x infos t u (set zs) (set (ys @ [r])) v2" by auto
      qed
    qed
  qed
  then show ?thesis
  proof (rule hoare_conseq)
    fix v assume "v = u"
    then show "?I [] v"
      using ok staged_confined[OF ok, of dest] by (auto simp: moved_def staged_ok_def beneath_iff)
  qed simp_all
qed

section \<open>The whole extraction\<close>

text \<open>The entry's place and content.\<close>

definition from_entry :: "place \<Rightarrow> packet_entry list \<Rightarrow> place \<Rightarrow> string \<Rightarrow> bool" where
  "from_entry dest infos p c \<longleftrightarrow> (\<exists>e \<in> set (file_entries infos). p = dest @ parts (pe_filename e) \<and> pe_content e = Some c)"

lemma extraction_phase:
  assumes checked: "check_entries dest limit 0 infos = Inr ()"
    and fresh: "\<forall>e \<in> set infos. x \<notin> set (parts (pe_filename e))"
    and walk: "\<forall>xs. mset (walk xs) = mset xs"
  shows "hoare False (staged_ok (dest @ [x]) t infos)
     (stage_and_move walk (dest @ [x]) dest infos)
     (\<lambda>_ v. (\<forall>p. beneath (dest @ [x]) p \<longrightarrow> map_of v p = None) \<and> confined (dest @ [x]) dest infos t v \<and>
        (\<forall>e \<in> set (file_entries infos). \<exists>c. from_entry dest infos (dest @ parts (pe_filename e)) c \<and> map_of v (dest @ parts (pe_filename e)) = Some (File c)))
     (\<lambda>_ v. (\<forall>p. beneath (dest @ [x]) p \<longrightarrow> map_of v p = None) \<and> confined (dest @ [x]) dest infos t v)"
    (is "hoare False _ _ (\<lambda>_. ?Q) (\<lambda>_. ?E)")
proof -
  let ?s = "dest @ [x]"
  let ?P = "\<lambda>v. confined ?s dest infos t v \<and>
        (\<forall>e \<in> set (file_entries infos). \<exists>c. from_entry dest infos (dest @ parts (pe_filename e)) c \<and> map_of v (dest @ parts (pe_filename e)) = Some (File c))"
  have gone: "confined ?s dest infos t (remove_tree ?s v)" if "confined ?s dest infos t v" for v
    using that by (auto simp: confined_def map_of_remove_tree is_file_iff)
  have outside: "\<not> beneath ?s (dest @ parts (pe_filename e))" if "e \<in> set (file_entries infos)" for e
    using fresh that by (auto simp: beneath_iff file_entries_def)
  have moving: "hoare False (\<lambda>u. staged_ok ?s t infos u \<and> (\<forall>e \<in> set (file_entries infos). is_file u (?s @ parts (pe_filename e))))
     (bind (gets (staged ?s)) (\<lambda>rels. for_each (walk rels) (move_out ?s dest))) (\<lambda>_. ?P) (\<lambda>_. confined ?s dest infos t)"
    unfolding hoare_def
  proof (intro allI impI)
    fix u assume u: "staged_ok ?s t infos u \<and> (\<forall>e \<in> set (file_entries infos). is_file u (?s @ parts (pe_filename e)))"
    let ?xs = "walk (staged ?s u)"
    have wf: "wf_dict u" using u by (simp add: staged_ok_def)
    have "hoare False (\<lambda>v. v = u) (for_each ?xs (move_out ?s dest)) (\<lambda>_. moved dest x infos t u {} (set ?xs)) (\<lambda>_. confined ?s dest infos t)"
      using u walk by (intro move_all_moved[OF _ _ fresh checked]) auto
    moreover have "?P v" if v: "moved dest x infos t u {} (set ?xs) v" for v
    proof (intro conjI ballI)
      show "confined ?s dest infos t v" using v by (simp add: moved_def)
      fix e assume e: "e \<in> set (file_entries infos)"
      let ?r = "parts (pe_filename e)"
      have "is_file u (?s @ ?r)" using u e by blast
      then obtain c where c: "map_of u (dest @ x # ?r) = Some (File c)" by (auto simp: is_file_iff)
      have "?r \<in> set ?xs" using staged_iff[OF wf, of ?r ?s] \<open>is_file u (?s @ ?r)\<close> walk by (metis mset_eq_setD)
      with v c have "map_of v (dest @ ?r) = Some (File c)" by (simp add: moved_def)
      moreover obtain d where "d \<in> set (file_entries infos)" "parts (pe_filename d) = ?r" "pe_content d = Some c"
        using u c unfolding staged_ok_def append_assoc append_Cons append_Nil by blast
      then have "from_entry dest infos (dest @ ?r) c" unfolding from_entry_def by metis
      ultimately show "\<exists>c. from_entry dest infos (dest @ ?r) c \<and> map_of v (dest @ ?r) = Some (File c)" by blast
    qed
    ultimately show "case bind (gets (staged ?s)) (\<lambda>rels. for_each (walk rels) (move_out ?s dest)) u of
        (Ret y, v) \<Rightarrow> ?P v | (Raise e, v) \<Rightarrow> confined ?s dest infos t v | (NoFuel, v) \<Rightarrow> False"
      by (auto simp: bind_gets hoare_def split: outcome.splits prod.splits)
  qed
  have all: "hoare False (staged_ok ?s t infos) (andThen (extract_all ?s infos) (bind (gets (staged ?s)) (\<lambda>rels. for_each (walk rels) (move_out ?s dest))))
      (\<lambda>_. ?P) (\<lambda>_. confined ?s dest infos t)"
    by (rule hoare_andThen[OF _ moving], rule hoare_conseq[OF extract_all_staged[OF checked]]) (auto intro: staged_confined)
  show ?thesis
    unfolding stage_and_move_def by (rule hoare_finally, rule hoare_conseq[OF all]) (auto simp: gone map_of_remove_tree outside)
qed

text \<open>Once files are written, the packet is not refused any more.\<close>

lemma files_errors: "triple (\<lambda>_. True) (files f) (\<lambda>_ _. True) (\<lambda>e _. \<forall>m. e \<noteq> ExchangeError m)"
  unfolding files_def by (rule hoare_file_step) auto

lemma for_each_errors:
  assumes "\<And>x. triple (\<lambda>_. True) (f x) (\<lambda>_ _. True) (\<lambda>e _. \<forall>m. e \<noteq> ExchangeError m)"
  shows "triple (\<lambda>_. True) (for_each xs f) (\<lambda>_ _. True) (\<lambda>e _. \<forall>m. e \<noteq> ExchangeError m)"
  by (rule hoare_for_each[where I = "\<lambda>_ _. True"]) (rule assms)

lemma extraction_errors:
  "triple (\<lambda>_. True) (stage_and_move walk s dest infos) (\<lambda>_ _. True) (\<lambda>e _. \<forall>m. e \<noteq> ExchangeError m)"
proof -
  have member: "triple (\<lambda>_. True) (extract_member s e) (\<lambda>_ _. True) (\<lambda>e _. \<forall>m. e \<noteq> ExchangeError m)" for e
    unfolding extract_member_def Let_def
    by (auto intro!: hoare_andThen[OF files_errors] files_errors hoare_raise split: option.split)
  have move: "triple (\<lambda>_. True) (move_out s dest rel) (\<lambda>_ _. True) (\<lambda>e _. \<forall>m. e \<noteq> ExchangeError m)" for rel
    unfolding move_out_def by (rule hoare_andThen[OF files_errors files_errors])
  have "triple (\<lambda>_. True) (bind (gets (staged s)) (\<lambda>rels. for_each (walk rels) (move_out s dest))) (\<lambda>_ _. True) (\<lambda>e _. \<forall>m. e \<noteq> ExchangeError m)"
    by (rule hoare_bind[where R = "\<lambda>_ _. True"]) (auto intro: hoare_gets for_each_errors move)
  then show ?thesis
    unfolding stage_and_move_def extract_all_def by (intro hoare_finally hoare_andThen[where R = "\<lambda>_. True"] for_each_errors member)
qed

lemma safe_extract_cases:
  assumes made: "make_dirs dest t = Inr t1" and run: "safe_extract_zip temp walk source dest max_files max_bytes t = (r, v)"
  obtains (refused) e where "r = Raise e" "v = t1"
  | (extracted) infos where "source = Some infos" "int (length infos) \<le> max_files" "check_entries dest max_bytes 0 infos = Inr ()"
      "stage_and_move walk (dest @ [staging_name temp]) dest infos (AList.update (dest @ [staging_name temp]) Folder t1) = (r, v)"
proof (cases source)
  case None
  with run made have "r = Raise (BadZipFile [])" "v = t1"
    by (simp_all add: safe_extract_zip_def files_def file_step_def andThen_def bind_def raise_def)
  then show ?thesis by (rule refused)
next
  case (Some infos)
  have "andThen (raise_if (max_files < int (length infos)) (exchange_error ''archive file-count limit exceeded''))
      (case check_entries dest max_bytes 0 infos of
           Inl e \<Rightarrow> raise e
         | Inr u \<Rightarrow> andThen (modify (AList.update (dest @ [staging_name temp]) Folder))
             (stage_and_move walk (dest @ [staging_name temp]) dest infos)) t1 = (r, v)"
    using run made unfolding safe_extract_zip_def Let_def files_def Some option.case
    by (subst (asm) andThen_returning[of _ _ "()" t1]) (simp_all add: file_step_def)
  with Some refused extracted show ?thesis
    by (cases "check_entries dest max_bytes 0 infos") (auto simp: andThen_raise_if andThen_modify raise_def split: if_splits)
qed

text \<open>From the tree with the destination made to the tree at the start.\<close>

lemma confined_from_start:
  assumes made: "make_dirs dest t = Inr t1" and c: "confined (dest @ [x]) dest infos t1 v"
    and gone: "\<And>p. beneath (dest @ [x]) p \<Longrightarrow> map_of t1 p = None" "\<And>p. beneath (dest @ [x]) p \<Longrightarrow> map_of v p = None"
  shows "\<not> strictly_inside dest p \<Longrightarrow> \<not> beneath p dest \<Longrightarrow> map_of v p = map_of t p"
    and "is_file t p \<Longrightarrow> is_file v p"
    and "map_of v p = Some (File d) \<Longrightarrow> map_of t p = Some (File d) \<or> from_entry dest infos p d"
proof -
  note files = make_dirs_effect(1)[OF made] and out = make_dirs_effect(2)[OF made]
  have inner: "strictly_inside dest p" if "beneath (dest @ [x]) p" for p using that by (auto simp: beneath_iff strictly_inside_def)
  have c': "\<not> beneath (dest @ [x]) p \<Longrightarrow> \<not> strictly_inside dest p \<Longrightarrow> map_of v p = map_of t1 p"
    "\<not> beneath (dest @ [x]) p \<Longrightarrow> is_file t1 p \<Longrightarrow> is_file v p"
    "\<not> beneath (dest @ [x]) p \<Longrightarrow> map_of v p = Some (File d) \<Longrightarrow> map_of t1 p = Some (File d) \<or> from_entry dest infos p d"
    using c unfolding confined_def from_entry_def by blast+
  show "map_of v p = map_of t p" if "\<not> strictly_inside dest p" "\<not> beneath p dest"
    using that inner[of p] c'(1) out[of p] by auto
  show "is_file v p" if "is_file t p"
    using that gone(1)[of p] c'(2) files[of p] by (force simp: is_file_iff)
  show "map_of t p = Some (File d) \<or> from_entry dest infos p d" if "map_of v p = Some (File d)"
    using that gone(2)[of p] c'(3) files[of p d] by (cases "beneath (dest @ [x]) p") auto
qed

text \<open>C30: extracting a packet into a directory. Whatever comes of it, the staging directory is gone, nothing outside the
  destination changes (the directories above it may be made), no file is lost, and a file that is new or has a new content has
  the content of an entry, at the place the entry names. When it returns, the packet is within both limits and every file entry
  is from_entry; when it refuses the packet, no file has changed. The name of the staging directory is fresh, and the order in
  which the staged files are found is any order.\<close>

theorem packet_extracted:
  assumes wf: "wf_dict t" and fresh: "\<forall>p. beneath (dest @ [staging_name temp]) p \<longrightarrow> map_of t p = None"
    and names: "\<forall>infos. source = Some infos \<longrightarrow> (\<forall>e \<in> set infos. staging_name temp \<notin> set (parts (pe_filename e)))"
    and walk: "\<forall>xs. mset (walk xs) = mset xs"
    and run: "safe_extract_zip temp walk source dest max_files max_bytes t = (r, v)"
  shows "(\<forall>p. beneath (dest @ [staging_name temp]) p \<longrightarrow> map_of v p = None) \<and>
    (\<forall>p. \<not> strictly_inside dest p \<and> \<not> beneath p dest \<longrightarrow> map_of v p = map_of t p) \<and>
    (\<forall>p. is_file t p \<longrightarrow> is_file v p) \<and>
    (\<forall>p c. map_of v p = Some (File c) \<longrightarrow> map_of t p = Some (File c) \<or> (\<exists>infos. source = Some infos \<and> from_entry dest infos p c)) \<and>
    (case r of
       Ret u \<Rightarrow> \<exists>infos. source = Some infos \<and> int (length infos) \<le> max_files \<and>
         (file_entries infos \<noteq> [] \<longrightarrow> sum_list (map pe_size (file_entries infos)) \<le> max_bytes) \<and>
         (\<forall>e \<in> set (file_entries infos). \<exists>c. from_entry dest infos (dest @ parts (pe_filename e)) c \<and> map_of v (dest @ parts (pe_filename e)) = Some (File c))
     | Raise (ExchangeError m) \<Rightarrow> \<forall>p c. map_of v p = Some (File c) \<longleftrightarrow> map_of t p = Some (File c)
     | Raise _ \<Rightarrow> True
     | NoFuel \<Rightarrow> False)"
proof (cases "make_dirs dest t")
  case (Inl e)
  with run fresh show ?thesis by (auto simp: safe_extract_zip_def files_def file_step_def andThen_def bind_def)
next
  case (Inr t1)
  let ?s = "dest @ [staging_name temp]"
  have gone: "map_of t1 p = None" if "beneath ?s p" for p
  proof -
    have "\<not> beneath p dest" using that by (auto simp: beneath_iff)
    with make_dirs_effect(2)[OF Inr] fresh that show ?thesis by simp
  qed
  from Inr run show ?thesis
  proof (cases rule: safe_extract_cases)
    case (refused e)
    then show ?thesis using gone make_dirs_effect(1,2)[OF Inr] by (auto simp: is_file_iff split: exchange_error.splits)
  next
    case (extracted infos)
    have "staged_ok ?s t1 infos (AList.update ?s Folder t1)"
      using make_dirs_Inr[OF Inr] wf make_dirs_effect(3)[OF Inr] gone by (intro staging_started) auto
    moreover have "\<forall>e \<in> set infos. staging_name temp \<notin> set (parts (pe_filename e))" using names extracted(1) by blast
    ultimately have res: "(\<forall>p. beneath ?s p \<longrightarrow> map_of v p = None) \<and> confined ?s dest infos t1 v \<and> (case r of
        Ret u \<Rightarrow> \<forall>e \<in> set (file_entries infos). \<exists>c. from_entry dest infos (dest @ parts (pe_filename e)) c \<and> map_of v (dest @ parts (pe_filename e)) = Some (File c)
      | Raise e \<Rightarrow> True | NoFuel \<Rightarrow> False)"
      using extraction_phase[OF extracted(3) _ walk, of "staging_name temp" t1] extracted(4) unfolding hoare_def
      by (fastforce split: outcome.splits)
    have "\<not> (\<exists>m. r = Raise (ExchangeError m))"
      using hoare_raiseD[OF extraction_errors TrueI] extracted(4) by blast
    moreover have "(\<forall>p. \<not> strictly_inside dest p \<and> \<not> beneath p dest \<longrightarrow> map_of v p = map_of t p) \<and> (\<forall>p. is_file t p \<longrightarrow> is_file v p) \<and>
      (\<forall>p c. map_of v p = Some (File c) \<longrightarrow> map_of t p = Some (File c) \<or> (\<exists>infos. source = Some infos \<and> from_entry dest infos p c))"
      using confined_from_start[OF Inr, of "staging_name temp" infos v] gone res extracted(1) by blast
    moreover have "file_entries infos \<noteq> [] \<longrightarrow> sum_list (map pe_size (file_entries infos)) \<le> max_bytes"
      using check_entries_ok[OF extracted(3)] by simp
    ultimately show ?thesis using res extracted(1,2) by (cases r) (simp_all split: exchange_error.splits)
  qed
qed

definition demo_packet :: "packet_entry list" where
  "demo_packet = [\<lparr>pe_filename = ''conf/'', pe_size = 0, pe_content = Some []\<rparr>,
     \<lparr>pe_filename = ''conf/./msg.dat'', pe_size = 3, pe_content = Some ''abc''\<rparr>]"

theorem packet_extracted_witness:
  "\<exists>v. safe_extract_zip ''x'' id (Some demo_packet) [''mail''] 64 1000 [] = (Ret (), v) \<and>
     map_of v [''mail'', ''conf'', ''msg.dat''] = Some (File ''abc'') \<and> map_of v [''other''] = None"
proof -
  let ?r = "safe_extract_zip ''x'' id (Some demo_packet) [''mail''] 64 1000 []"
  have ret: "fst ?r = Ret ()" by code_simp
  have names: "list_all (\<lambda>e. staging_name ''x'' \<notin> set (parts (pe_filename e))) demo_packet" by code_simp
  have entries: "file_entries demo_packet = [\<lparr>pe_filename = ''conf/./msg.dat'', pe_size = 3, pe_content = Some ''abc''\<rparr>]" by code_simp
  have place: "parts ''conf/./msg.dat'' = [''conf'', ''msg.dat'']" by code_simp
  obtain v where v: "?r = (Ret (), v)" using ret by (cases ?r) auto
  have "\<forall>infos. Some demo_packet = Some infos \<longrightarrow> (\<forall>e \<in> set infos. staging_name ''x'' \<notin> set (parts (pe_filename e)))"
    using names by (simp add: list_all_iff)
  from packet_extracted[OF _ _ this _ v] have "map_of v [''other''] = None" "\<exists>c. from_entry [''mail''] demo_packet [''mail'', ''conf'', ''msg.dat''] c \<and>
      map_of v [''mail'', ''conf'', ''msg.dat''] = Some (File c)"
    by (auto simp: entries place strictly_inside_def beneath_def)
  with v show ?thesis by (auto simp: from_entry_def entries place)
qed

end
