(* ===== verification/Runtime.thy ===== *)
theory Runtime
  imports Drivers
begin

text \<open>
  The runtime adapters (M5): \<open>scripts/ubb_runtime\<close>. An adapter starts, watches and stops the process of a service; the
  supervisor reaches it through \<open>RuntimeDriverBridge\<close>, whose model is a \<open>driver\<close>, and the router through
  \<open>RuntimeManager.open_stream\<close>. The operating system is the record \<open>machine\<close> of the calls that the adapters make.
  The dictionaries of the adapters are one dictionary here, whose keys have the adapter's runtime name first. The lock of
  an adapter makes each call atomic.
\<close>

section \<open>Exceptions, configurations and the machine\<close>

datatype runtime_error =
    RuntimeAdapterError message
  | UnknownRuntimeError message
  | UnsupportedRuntimeError message
  | RuntimeConfigError message
  | RuntimeStartError message
  | RuntimeStopError message
  | RuntimeStreamError message
  | RegistryFault registry_error
  | OSFault string message            \<comment> \<open>an \<open>OSError\<close> or \<open>TimeoutExpired\<close> that is not caught\<close>

text \<open>The configuration of the registry, and whatever other keys the dictionary has.\<close>

record adapter_config = runtime_config +
  rc_extra :: "(string, json) dict"

definition empty_config :: adapter_config where
  "empty_config = \<lparr>rc_executable = None, rc_argv = None, rc_config_file = None, rc_working_directory = None, rc_environment = [],
     rc_inherit_environment = [], rc_pty = False, rc_stop_timeout_us = None, rc_graceful_stop_command = None, rc_readiness = None,
     rc_stream = None, rc_extra = []\<rparr>"

datatype stop_signal = SIGTERM | SIGKILL

datatype stdio = DevNull | Pipes | Terminal int    \<comment> \<open>what the process gets as its standard streams\<close>

text \<open>\<open>Inl\<close> is an \<open>OSError\<close> (or \<open>ValueError\<close>, or for \<open>mc_run\<close> \<open>TimeoutExpired\<close>) with its text.\<close>

record 'w machine =
  mc_is_file :: "string \<Rightarrow> 'w \<Rightarrow> bool"
  mc_is_dir :: "string \<Rightarrow> 'w \<Rightarrow> bool"
  mc_executable :: "string \<Rightarrow> 'w \<Rightarrow> bool"              \<comment> \<open>\<open>os.access(p, os.X_OK)\<close>\<close>
  mc_resolve :: "string \<Rightarrow> 'w \<Rightarrow> string"
  mc_environ :: "(string, string) dict"
  mc_defpath :: string
  mc_identity :: "int \<Rightarrow> 'w \<Rightarrow> (string \<times> string) option"   \<comment> \<open>\<open>/proc/<pid>/exe\<close> and the start time of \<open>/proc/<pid>/stat\<close>\<close>
  mc_openpty :: "'w \<Rightarrow> (message + int \<times> int) \<times> 'w"
  mc_close :: "int \<Rightarrow> 'w \<Rightarrow> 'w"
  mc_dup :: "int \<Rightarrow> 'w \<Rightarrow> (message + int) \<times> 'w"
  mc_spawn :: "string list \<Rightarrow> string \<Rightarrow> (string, string) dict \<Rightarrow> stdio \<Rightarrow> 'w \<Rightarrow> (message + int) \<times> 'w"
  mc_pipe_ends :: "int \<Rightarrow> int \<times> int"                  \<comment> \<open>of a child: what reads its output and what writes its input\<close>
  mc_poll :: "int \<Rightarrow> 'w \<Rightarrow> int option \<times> 'w"            \<comment> \<open>the exit code of a child that has ended\<close>
  mc_wait :: "int \<Rightarrow> 'w \<Rightarrow> int option \<times> 'w"            \<comment> \<open>the same after at most a second\<close>
  mc_killpg :: "int \<Rightarrow> stop_signal \<Rightarrow> 'w \<Rightarrow> probe \<times> 'w"
  mc_run :: "string list \<Rightarrow> string option \<Rightarrow> (string, string) dict option \<Rightarrow> int \<Rightarrow> 'w \<Rightarrow> (message + int) \<times> 'w"
  mc_clock :: "'w \<Rightarrow> int \<times> 'w"
  mc_sleep :: "int \<Rightarrow> 'w \<Rightarrow> 'w"
  mc_connect :: "string \<Rightarrow> int \<Rightarrow> int \<Rightarrow> 'w \<Rightarrow> (message + int) \<times> 'w"
  mc_sha256 :: "string list \<Rightarrow> string"                \<comment> \<open>of the JSON text of the command\<close>

section \<open>The state\<close>

record process =
  pp_pid :: int
  pp_pipes :: bool
  pp_code :: "int option"    \<comment> \<open>\<open>returncode\<close>\<close>

type_synonym owner = "string \<times> string"

text \<open>\<open>rt_fields\<close> is \<open>instance.runtime\<close> of the instance at hand. \<open>rt_signals\<close> are the signals sent so far, which nothing reads.\<close>

record 'w rt =
  rt_world :: 'w
  rt_processes :: "(owner, process) dict"
  rt_masters :: "(owner, int) dict"
  rt_fields :: fields
  rt_signals :: "(int \<times> stop_signal) list"

type_synonym ('w, 'a) rprog = "('w rt, runtime_error, 'a) prog"

definition call :: "('w \<Rightarrow> 'a \<times> 'w) \<Rightarrow> ('w, 'a) rprog" where
  "call f = (\<lambda>s. let (x, w) = f (rt_world s) in (Ret x, s\<lparr>rt_world := w\<rparr>))"

definition command :: "('w \<Rightarrow> 'w) \<Rightarrow> ('w, unit) rprog" where
  "command f = modify (\<lambda>s. s\<lparr>rt_world := f (rt_world s)\<rparr>)"

definition check :: "('w \<Rightarrow> runtime_error + 'a) \<Rightarrow> ('w, 'a) rprog" where
  "check f = (\<lambda>s. case f (rt_world s) of Inl e \<Rightarrow> (Raise e, s) | Inr x \<Rightarrow> (Ret x, s))"

definition set_fields :: "(fields \<Rightarrow> fields) \<Rightarrow> ('w, unit) rprog" where
  "set_fields f = modify (\<lambda>s. s\<lparr>rt_fields := f (rt_fields s)\<rparr>)"

section \<open>Results\<close>

record runtime_status =
  ra_alive :: bool
  ra_pid :: "int option"
  ra_exit_code :: "int option"
  ra_identity_verified :: bool
  ra_reason :: "string option"      \<comment> \<open>\<open>diagnostics\<close>\<close>

definition no_process :: "string option \<Rightarrow> runtime_status" where
  "no_process why = \<lparr>ra_alive = False, ra_pid = None, ra_exit_code = None, ra_identity_verified = False, ra_reason = why\<rparr>"

record start_result =
  sr_started :: bool
  sr_pid :: "int option"
  sr_command :: "string list"
  sr_already_running :: bool

record stop_result =
  sp_stopped :: bool
  sp_forced :: bool
  sp_exit_code :: "int option"

record readiness_result =
  rr_ready :: bool
  rr_strategy :: string
  rr_diagnostic :: "string option"

section \<open>Configuration checks\<close>

text \<open>\<open>^[A-Za-z_][A-Za-z0-9_]*$\<close>\<close>

definition ENVIRONMENT_NAME :: rx where
  "ENVIRONMENT_NAME = Cat (Cls (\<lambda>c. is_lower c \<or> is_upper c \<or> c = CHR ''_'')) (Star (Cls (\<lambda>c. alnum c \<or> c = CHR ''_'')))"

definition FORBIDDEN_ENVIRONMENT :: "string list" where
  "FORBIDDEN_ENVIRONMENT = [''LD_PRELOAD'', ''PYTHONPATH'', ''PYTHONHOME'']"

definition safe_name :: "string \<Rightarrow> bool" where
  "safe_name k \<longleftrightarrow> fullmatch ENVIRONMENT_NAME k \<and> k \<notin> set FORBIDDEN_ENVIRONMENT"

text \<open>\<open>config.get("stream")\<close> when it is not empty.\<close>

definition given_stream :: "'a runtime_config_scheme \<Rightarrow> stream_config option" where
  "given_stream c = (case rc_stream c of
      None \<Rightarrow> None
    | Some s \<Rightarrow> if s = \<lparr>st_type = None, st_host = None, st_port = None, st_connect_timeout_us = None\<rparr> then None else Some s)"

definition stream_type :: "'a runtime_config_scheme \<Rightarrow> string option" where
  "stream_type c = (case rc_stream c of None \<Rightarrow> None | Some s \<Rightarrow> st_type s)"

definition stream_errors :: "'a runtime_config_scheme \<Rightarrow> (bool \<times> runtime_error) list" where
  "stream_errors c = (case given_stream c of None \<Rightarrow> [] | Some s \<Rightarrow>
     [(st_type s \<notin> {Some ''pty'', Some ''tcp'', Some ''stdio''}, RuntimeConfigError [''runtime stream type must be pty, tcp, or stdio'']),
      (rc_pty c \<and> st_type s \<noteq> Some ''pty'', RuntimeConfigError [''pty mode conflicts with non-PTY stream type'']),
      (st_type s = Some ''tcp'' \<and> (\<not> truthy (st_host s) \<or> (case st_port s of None \<Rightarrow> True | Some p \<Rightarrow> \<not> (1 \<le> p \<and> p \<le> 65535))),
       RuntimeConfigError [''runtime TCP stream requires a host and port in 1..65535''])])"

definition absolute :: "string \<Rightarrow> bool" where
  "absolute p \<longleftrightarrow> starts_with ''/'' p"

text \<open>\<open>pathlib.Path(p).parent\<close> of an absolute path\<close>

definition parent_of :: "string \<Rightarrow> string" where
  "parent_of p = CHR ''/'' # join_with (CHR ''/'') (butlast (filter (\<lambda>x. x \<noteq> [] \<and> x \<noteq> ''.'') (split_on (CHR ''/'') p)))"

definition executable_of :: "'a runtime_config_scheme \<Rightarrow> string" where
  "executable_of c = default [] (rc_executable c)"

definition working_of :: "'a runtime_config_scheme \<Rightarrow> string" where
  "working_of c = default (parent_of (executable_of c)) (rc_working_directory c)"

definition validate_process :: "'w machine \<Rightarrow> adapter_config \<Rightarrow> 'w \<Rightarrow> runtime_error + string \<times> string" where
  "validate_process m c w = bindS (first_error
     ([(rc_extra c \<noteq> [], RuntimeConfigError (''unknown runtime_config fields: '' # sort (map fst (rc_extra c)))),
       (\<not> absolute (executable_of c) \<or> \<not> mc_is_file m (executable_of c) w \<or> \<not> mc_executable m (executable_of c) w,
        RuntimeConfigError [''runtime executable must be an absolute executable file'']),
       (\<not> absolute (working_of c) \<or> \<not> mc_is_dir m (working_of c) w,
        RuntimeConfigError [''runtime working_directory must be an existing absolute directory'']),
       (128 < length (rc_environment c) + length (rc_inherit_environment c), RuntimeConfigError [''runtime environment is limited to 128 entries''])]
      @ map (\<lambda>(k, v). (\<not> safe_name k \<or> 8192 < length v, RuntimeConfigError [''unsafe runtime environment entry: '', k])) (rc_environment c)
      @ map (\<lambda>k. (\<not> safe_name k, RuntimeConfigError [''unsafe inherited environment name: '', k])) (rc_inherit_environment c)
      @ stream_errors c
      @ [(rc_graceful_stop_command c = Some [], RuntimeConfigError [''graceful_stop_command must be a non-empty argv array''])]))
     (\<lambda>_. Inr (mc_resolve m (executable_of c) w, mc_resolve m (working_of c) w))"

section \<open>The adapters\<close>

datatype adapter_class = ProcessAdapter | DOSAdapter | FSUAEAdapter | VICEAdapter | QEMUAdapter | SIMHAdapter | UnsupportedAdapter string

fun runtime_name :: "adapter_class \<Rightarrow> string" where
  "runtime_name ProcessAdapter = ''native''"
| "runtime_name DOSAdapter = ''dos''"
| "runtime_name FSUAEAdapter = ''fs_uae''"
| "runtime_name VICEAdapter = ''vice''"
| "runtime_name QEMUAdapter = ''qemu''"
| "runtime_name SIMHAdapter = ''simh''"
| "runtime_name (UnsupportedAdapter n) = n"

definition unsupported_runtime :: "adapter_class \<Rightarrow> runtime_error" where
  "unsupported_runtime a = UnsupportedRuntimeError [''runtime adapter '', runtime_name a, '' is explicitly deferred'']"

definition dos_backend_ok :: "adapter_config \<Rightarrow> bool" where
  "dos_backend_ok c \<longleftrightarrow> (case map_of (rc_extra c) ''dos_backend'' of
      None \<Rightarrow> True
    | Some v \<Rightarrow> v = JNull \<or> v \<in> JStr ` set [''dosemu2'', ''dosbox_x'', ''dosbox_staging'', ''qemu''])"

definition validate_config :: "'w machine \<Rightarrow> adapter_class \<Rightarrow> adapter_config \<Rightarrow> 'w \<Rightarrow> runtime_error + string \<times> string" where
  "validate_config m a c w = bindS (validate_process m c w) (\<lambda>v.
     if a = DOSAdapter \<and> \<not> dos_backend_ok c then Inl (RuntimeConfigError [''unsupported DOS runtime backend'']) else Inr v)"

definition build_command :: "'w machine \<Rightarrow> adapter_class \<Rightarrow> adapter_config \<Rightarrow> 'w \<Rightarrow> runtime_error + string list" where
  "build_command m a c w = bindS (validate_config m a c w) (\<lambda>v.
     let exe = mc_resolve m (executable_of c) w; argv = default [] (rc_argv c) in
     if a = FSUAEAdapter then
       (if \<not> truthy (rc_config_file c) \<or> \<not> mc_is_file m (the (rc_config_file c)) w
        then Inl (RuntimeConfigError [''fs_uae requires an existing absolute config_file''])
        else Inr (exe # mc_resolve m (the (rc_config_file c)) w # argv))
     else if a = SIMHAdapter \<and> truthy (rc_config_file c) then
       (if \<not> mc_is_file m (the (rc_config_file c)) w then Inl (RuntimeConfigError [''simh config_file does not exist''])
        else Inr (exe # argv @ [mc_resolve m (the (rc_config_file c)) w]))
     else Inr (exe # argv))"

definition environment_for :: "'w machine \<Rightarrow> 'a runtime_config_scheme \<Rightarrow> (string, string) dict" where
  "environment_for m c = fold (\<lambda>(k, v). AList.update k v) (rc_environment c)
     (fold (\<lambda>k env. case map_of (mc_environ m) k of None \<Rightarrow> env | Some v \<Rightarrow> AList.update k v env) (rc_inherit_environment c)
       [(''PATH'', mc_defpath m), (''LANG'', ''C.UTF-8'')])"

definition key_of :: "adapter_class \<Rightarrow> string \<Rightarrow> owner" where
  "key_of a i = (runtime_name a, i)"

text \<open>\<open>process.poll()\<close>, which remembers the exit code.\<close>

definition poll_process :: "'w machine \<Rightarrow> owner \<Rightarrow> process \<Rightarrow> ('w, int option) rprog" where
  "poll_process m k p = (case pp_code p of
      Some c \<Rightarrow> ret (Some c)
    | None \<Rightarrow> bind (call (mc_poll m (pp_pid p))) (\<lambda>code.
        andThen (modify (\<lambda>s. s\<lparr>rt_processes := AList.update k (p\<lparr>pp_code := code\<rparr>) (rt_processes s)\<rparr>)) (ret code)))"

definition recorded :: "fields \<Rightarrow> string \<Rightarrow> string" where
  "recorded rt k = (case map_of rt k of Some (JStr v) \<Rightarrow> v | _ \<Rightarrow> [])"

definition identity_matches :: "'w machine \<Rightarrow> fields \<Rightarrow> int \<Rightarrow> 'w \<Rightarrow> bool" where
  "identity_matches m rt pid w \<longleftrightarrow> (case mc_identity m pid w of
      None \<Rightarrow> False
    | Some (exe, ticks) \<Rightarrow> exe \<noteq> [] \<and> ticks \<noteq> [] \<and> exe = recorded rt ''process_executable'' \<and> ticks = recorded rt ''process_start_ticks'')"

definition adapter_status :: "'w machine \<Rightarrow> owner \<Rightarrow> ('w, runtime_status) rprog" where
  "adapter_status m k = bind (gets rt_processes) (\<lambda>ps. case map_of ps k of
      Some p \<Rightarrow> bind (poll_process m k p) (\<lambda>code.
        ret \<lparr>ra_alive = (code = None), ra_pid = Some (pp_pid p), ra_exit_code = code, ra_identity_verified = True, ra_reason = None\<rparr>)
    | None \<Rightarrow> bind (gets rt_fields) (\<lambda>rt. case usable_pid rt of
        None \<Rightarrow> ret (no_process None)
      | Some pid \<Rightarrow> bind (gets (\<lambda>s. identity_matches m rt pid (rt_world s))) (\<lambda>ok.
          ret \<lparr>ra_alive = ok, ra_pid = Some pid, ra_exit_code = None, ra_identity_verified = ok,
            ra_reason = (if ok then None else Some ''recorded process identity cannot be proven'')\<rparr>)))"

definition adapter_prepare :: "'w machine \<Rightarrow> adapter_class \<Rightarrow> adapter_config \<Rightarrow> ('w, string \<times> string) rprog" where
  "adapter_prepare m a c = bind (check (validate_config m a c)) (\<lambda>v.
     andThen (set_fields (\<lambda>rt. if has_key rt ''adapter'' then rt else AList.update ''adapter'' (JStr (runtime_name a)) rt)) (ret v))"

text \<open>The new entries of \<open>instance.runtime\<close>.\<close>

definition started_fields :: "'w machine \<Rightarrow> adapter_class \<Rightarrow> string list \<Rightarrow> int \<Rightarrow> (string \<times> string) option \<Rightarrow> fields \<Rightarrow> fields" where
  "started_fields m a cmd pid who = fold (\<lambda>(k, v). AList.update k v)
     [(''adapter'', JStr (runtime_name a)), (''pid'', JInt pid),
      (''process_executable'', case who of None \<Rightarrow> JNull | Some (exe, ticks) \<Rightarrow> JStr exe),
      (''process_start_ticks'', case who of None \<Rightarrow> JNull | Some (exe, ticks) \<Rightarrow> JStr ticks),
      (''command_sha256'', JStr (mc_sha256 m cmd))]"

definition wants_pty :: "'a runtime_config_scheme \<Rightarrow> bool" where
  "wants_pty c \<longleftrightarrow> rc_pty c \<or> stream_type c = Some ''pty''"

text \<open>The terminal and the process: the \<open>try\<close> block of \<open>start\<close>, with its handler and its \<open>finally\<close>.\<close>

definition open_terminal :: "'w machine \<Rightarrow> 'a runtime_config_scheme \<Rightarrow> ('w, (int \<times> int) option) rprog" where
  "open_terminal m c = (if \<not> wants_pty c then ret None
     else bind (call (mc_openpty m)) (\<lambda>r. case r of
        Inl e \<Rightarrow> raise (RuntimeStartError (''runtime start failed: '' # e))
      | Inr p \<Rightarrow> ret (Some p)))"

definition spawn :: "'w machine \<Rightarrow> string list \<Rightarrow> string \<Rightarrow> adapter_config \<Rightarrow> (int \<times> int) option \<Rightarrow> ('w, int) rprog" where
  "spawn m cmd cwd c pty =
     bind (call (mc_spawn m cmd cwd (environment_for m c)
       (case pty of Some (master, slave) \<Rightarrow> Terminal slave | None \<Rightarrow> if stream_type c = Some ''stdio'' then Pipes else DevNull))) (\<lambda>r.
     case r of
       Inl e \<Rightarrow> andThen (case pty of None \<Rightarrow> ret () | Some (master, slave) \<Rightarrow> andThen (command (mc_close m master)) (command (mc_close m slave)))
         (raise (RuntimeStartError (''runtime start failed: '' # e)))
     | Inr pid \<Rightarrow> andThen (case pty of None \<Rightarrow> ret () | Some (master, slave) \<Rightarrow> command (mc_close m slave)) (ret pid))"

definition adapter_start :: "'w machine \<Rightarrow> adapter_class \<Rightarrow> string \<Rightarrow> adapter_config \<Rightarrow> ('w, start_result) rprog" where
  "adapter_start m a i c = (let k = key_of a i in
     bind (adapter_status m k) (\<lambda>current.
     bind (check (build_command m a c)) (\<lambda>cmd.
     if ra_alive current then ret \<lparr>sr_started = False, sr_pid = ra_pid current, sr_command = cmd, sr_already_running = True\<rparr>
     else bind (check (validate_config m a c)) (\<lambda>prepared.
     bind (open_terminal m c) (\<lambda>pty.
     bind (spawn m cmd (snd prepared) c pty) (\<lambda>pid.
     andThen (modify (\<lambda>s. s\<lparr>rt_processes := AList.update k \<lparr>pp_pid = pid, pp_pipes = (pty = None \<and> stream_type c = Some ''stdio''), pp_code = None\<rparr> (rt_processes s)\<rparr>))
    (andThen (case pty of None \<Rightarrow> ret () | Some (master, slave) \<Rightarrow> modify (\<lambda>s. s\<lparr>rt_masters := AList.update k master (rt_masters s)\<rparr>))
    (bind (gets (\<lambda>s. mc_identity m pid (rt_world s))) (\<lambda>who.
     andThen (set_fields (started_fields m a cmd pid who))
       (ret \<lparr>sr_started = True, sr_pid = Some pid, sr_command = cmd, sr_already_running = False\<rparr>))))))))))"

definition close_pipes :: "'w machine \<Rightarrow> process option \<Rightarrow> ('w, unit) rprog" where
  "close_pipes m p = (case p of
      None \<Rightarrow> ret ()
    | Some p \<Rightarrow> onlyif (pp_pipes p)
        (andThen (command (mc_close m (snd (mc_pipe_ends m (pp_pid p))))) (command (mc_close m (fst (mc_pipe_ends m (pp_pid p)))))))"

definition adapter_cleanup :: "'w machine \<Rightarrow> owner \<Rightarrow> ('w, unit) rprog" where
  "adapter_cleanup m k =
     bind (gets (\<lambda>s. map_of (rt_processes s) k)) (\<lambda>p.
     andThen (modify (\<lambda>s. s\<lparr>rt_processes := AList.delete k (rt_processes s)\<rparr>))
    (andThen (close_pipes m p)
    (bind (gets (\<lambda>s. map_of (rt_masters s) k)) (\<lambda>master.
     andThen (modify (\<lambda>s. s\<lparr>rt_masters := AList.delete k (rt_masters s)\<rparr>))
    (andThen (case master of None \<Rightarrow> ret () | Some fd \<Rightarrow> command (mc_close m fd))
      (set_fields (\<lambda>rt. AList.delete ''process_start_ticks'' (AList.delete ''process_executable'' (AList.delete ''pid'' rt)))))))))"

text \<open>\<open>os.killpg\<close>; it answers whether there was such a process.\<close>

definition signal_group :: "'w machine \<Rightarrow> int \<Rightarrow> stop_signal \<Rightarrow> ('w, bool) rprog" where
  "signal_group m pid sig =
     andThen (modify (\<lambda>s. s\<lparr>rt_signals := rt_signals s @ [(pid, sig)]\<rparr>))
    (bind (call (mc_killpg m pid sig)) (\<lambda>r.
     andThen (raise_if (r = NotPermitted) (OSFault ''PermissionError'' [''operation not permitted'']))
       (ret (r \<noteq> NoSuchProcess))))"

definition stop_timeout :: "'a runtime_config_scheme \<Rightarrow> int" where
  "stop_timeout c = default 5000000 (rc_stop_timeout_us c)"

definition stopped :: "bool \<Rightarrow> int option \<Rightarrow> stop_result" where
  "stopped forced code = \<lparr>sp_stopped = True, sp_forced = forced, sp_exit_code = code\<rparr>"

text \<open>The wait for the process to end; \<open>None\<close> is that the deadline has passed.\<close>

fun wait_stop :: "'w machine \<Rightarrow> owner \<Rightarrow> int \<Rightarrow> nat \<Rightarrow> ('w, stop_result option) rprog" where
  "wait_stop m k deadline 0 = no_fuel"
| "wait_stop m k deadline (Suc fuel) =
     bind (call (mc_clock m)) (\<lambda>now.
     if \<not> now < deadline then ret None
     else bind (gets (\<lambda>s. map_of (rt_processes s) k)) (\<lambda>p.
       bind (case p of
           Some p \<Rightarrow> bind (poll_process m k p) (\<lambda>code. ret (map_option (\<lambda>c. stopped False (Some c)) code))
         | None \<Rightarrow> bind (adapter_status m k) (\<lambda>st. ret (if ra_alive st then None else Some (stopped False None)))) (\<lambda>r.
       case r of
         Some res \<Rightarrow> andThen (adapter_cleanup m k) (ret (Some res))
       | None \<Rightarrow> bind (call (mc_clock m)) (\<lambda>now'.
           andThen (command (mc_sleep m (min 20000 (max 0 (deadline - now'))))) (wait_stop m k deadline fuel)))))"

definition force_stop :: "'w machine \<Rightarrow> owner \<Rightarrow> int \<Rightarrow> ('w, stop_result) rprog" where
  "force_stop m k pid =
     bind (signal_group m pid SIGKILL) (\<lambda>forced.
     bind (gets (\<lambda>s. map_of (rt_processes s) k)) (\<lambda>p.
     bind (case p of None \<Rightarrow> ret None | Some p \<Rightarrow> bind (call (mc_wait m (pp_pid p))) (\<lambda>code. case code of
         None \<Rightarrow> raise (RuntimeStopError [''runtime did not exit after SIGKILL'']) | Some c \<Rightarrow> ret (Some c))) (\<lambda>code.
     andThen (adapter_cleanup m k) (ret (stopped forced code)))))"

definition ask_to_stop :: "'w machine \<Rightarrow> adapter_config \<Rightarrow> ('w, unit) rprog" where
  "ask_to_stop m c = (case rc_graceful_stop_command c of
      None \<Rightarrow> ret ()
    | Some cmd \<Rightarrow> if cmd = [] then ret () else
        bind (call (mc_run m cmd (rc_working_directory c) (Some (environment_for m c)) (stop_timeout c))) (\<lambda>r. ret ()))"

definition adapter_stop :: "'w machine \<Rightarrow> adapter_class \<Rightarrow> string \<Rightarrow> adapter_config \<Rightarrow> nat \<Rightarrow> ('w, stop_result) rprog" where
  "adapter_stop m a i c fuel = (let k = key_of a i in
     bind (adapter_status m k) (\<lambda>st.
     if \<not> ra_alive st then andThen (adapter_cleanup m k) (ret (stopped False (ra_exit_code st)))
     else let pid = the (ra_pid st) in
       andThen (ask_to_stop m c)
      (bind (signal_group m pid SIGTERM) (\<lambda>found.
       bind (call (mc_clock m)) (\<lambda>now.
       bind (wait_stop m k (now + stop_timeout c) fuel) (\<lambda>r. case r of
           Some res \<Rightarrow> ret res
         | None \<Rightarrow> force_stop m k pid))))))"

end
