(* ===== verification/Runtime_Manager.thy ===== *)
theory Runtime_Manager
  imports Runtime
begin

text \<open>
  Around the adapters: \<open>readiness.py\<close>, \<open>streams.py\<close>, the table of adapters in \<open>registry.py\<close> and \<open>manager.py\<close>, which
  picks adapter and configuration of a service from the metadata registry and gives the supervisor its driver.
\<close>

section \<open>Readiness, streams and maintenance\<close>

definition not_ready :: "string \<Rightarrow> string \<Rightarrow> readiness_result" where
  "not_ready kind why = \<lparr>rr_ready = False, rr_strategy = kind, rr_diagnostic = Some why\<rparr>"

definition is_ready :: "string \<Rightarrow> readiness_result" where
  "is_ready kind = \<lparr>rr_ready = True, rr_strategy = kind, rr_diagnostic = None\<rparr>"

text \<open>\<open>check_readiness\<close>. The time limits are those of the machine's calls.\<close>

definition check_readiness :: "'w machine \<Rightarrow> string \<Rightarrow> readiness \<Rightarrow> ('w, runtime_status) rprog \<Rightarrow> ('w, readiness_result) rprog" where
  "check_readiness m kind rd get_status =
     (if kind = ''immediate'' then ret (is_ready kind)
      else if kind = ''process_alive'' then
        bind get_status (\<lambda>st. ret (if ra_alive st then is_ready kind else not_ready kind ''runtime process is not alive''))
      else if kind = ''tcp_port'' then
        (case (rd_host rd, rd_port rd) of
           (Some host, Some port) \<Rightarrow> bind (call (mc_connect m host port 200000)) (\<lambda>r. case r of
               Inl e \<Rightarrow> ret (not_ready kind (concat e))
             | Inr fd \<Rightarrow> andThen (command (mc_close m fd)) (ret (is_ready kind)))
         | _ \<Rightarrow> ret (not_ready kind ''KeyError''))
      else if kind = ''file_exists'' then
        bind (gets (\<lambda>s. mc_is_file m (default [] (rd_path rd)) (rt_world s))) (\<lambda>found.
          ret (if found then is_ready kind else not_ready kind ''configured file does not exist''))
      else if kind = ''command_exit_zero'' then
        (if \<not> truthy (rd_command rd) then ret (not_ready kind ''command is required'')
         else bind (call (mc_run m (the (rd_command rd)) None None 5000000)) (\<lambda>r. case r of
             Inl e \<Rightarrow> ret (not_ready kind (concat e))
           | Inr code \<Rightarrow> ret (if code = 0 then is_ready kind else not_ready kind ''exit'')))
      else ret (not_ready kind ''unsupported readiness strategy''))"

definition process_alive :: readiness where
  "process_alive = \<lparr>rd_type = Some ''process_alive'', rd_command = None, rd_host = None, rd_port = None, rd_path = None\<rparr>"

definition select_readiness :: "'a runtime_config_scheme \<Rightarrow> readiness \<Rightarrow> readiness" where
  "select_readiness c rd = (
     if rd = \<lparr>rd_type = None, rd_command = None, rd_host = None, rd_port = None, rd_path = None\<rparr> \<or> rd_type rd = Some ''driver_specific''
     then default process_alive (rc_readiness c) else rd)"

definition adapter_readiness :: "'w machine \<Rightarrow> owner \<Rightarrow> 'a runtime_config_scheme \<Rightarrow> readiness \<Rightarrow> ('w, readiness_result) rprog" where
  "adapter_readiness m k c rd = (let selected = select_readiness c rd; kind = default ''process_alive'' (rd_type selected) in
     check_readiness m (if kind = ''command_probe'' then ''command_exit_zero'' else kind) selected (adapter_status m k))"

datatype stream_handle = PTYStream int | PipeStream int int | TCPStream int

definition dup :: "'w machine \<Rightarrow> int \<Rightarrow> ('w, int) rprog" where
  "dup m fd = bind (call (mc_dup m fd)) (\<lambda>r. case r of Inl e \<Rightarrow> raise (OSFault ''OSError'' e) | Inr n \<Rightarrow> ret n)"

definition adapter_open_stream :: "'w machine \<Rightarrow> owner \<Rightarrow> 'a runtime_config_scheme \<Rightarrow> ('w, stream_handle) rprog" where
  "adapter_open_stream m k c = (let kind = (case stream_type c of Some t \<Rightarrow> Some t | None \<Rightarrow> if rc_pty c then Some ''pty'' else None) in
     if kind = Some ''pty'' then
       bind (gets (\<lambda>s. map_of (rt_masters s) k)) (\<lambda>master. case master of
           None \<Rightarrow> raise (RuntimeStreamError [''runtime has no active PTY''])
         | Some fd \<Rightarrow> bind (dup m fd) (\<lambda>n. ret (PTYStream n)))
     else if kind = Some ''stdio'' then
       bind (gets (\<lambda>s. map_of (rt_processes s) k)) (\<lambda>p. case p of
           None \<Rightarrow> raise (RuntimeStreamError [''runtime stdio is unavailable after process reconciliation''])
         | Some p \<Rightarrow> if \<not> pp_pipes p then raise (RuntimeStreamError [''runtime stdio is unavailable after process reconciliation''])
             else bind (dup m (fst (mc_pipe_ends m (pp_pid p)))) (\<lambda>r. bind (dup m (snd (mc_pipe_ends m (pp_pid p)))) (\<lambda>w. ret (PipeStream r w))))
     else if kind = Some ''tcp'' then
       (case rc_stream c of
          Some s \<Rightarrow> (case (st_host s, st_port s) of
              (Some host, Some port) \<Rightarrow> bind (call (mc_connect m host port (default 5000000 (st_connect_timeout_us s)))) (\<lambda>r. case r of
                  Inl e \<Rightarrow> raise (RuntimeStreamError (''runtime TCP stream connection failed: '' # e))
                | Inr fd \<Rightarrow> ret (TCPStream fd))
            | _ \<Rightarrow> raise (RuntimeStreamError [''runtime TCP stream requires valid host and port'']))
        | None \<Rightarrow> raise (RuntimeStreamError [''runtime TCP stream requires valid host and port'']))
     else raise (RuntimeStreamError [''runtime_config.stream must select pty, stdio, or tcp'']))"

definition adapter_maintenance :: "'w machine \<Rightarrow> adapter_config \<Rightarrow> job \<Rightarrow> ('w, fields) rprog" where
  "adapter_maintenance m c jb = (if \<not> truthy (jb_command jb) then raise (RuntimeConfigError [''maintenance requires a command argv''])
     else bind (call (mc_run m (the (jb_command jb)) (rc_working_directory c) (Some (environment_for m c)) (1000000 * default 300 (jb_timeout_seconds jb)))) (\<lambda>r.
     case r of
       Inl e \<Rightarrow> raise (OSFault ''OSError'' e)
     | Inr code \<Rightarrow> if code \<noteq> 0 then raise (RuntimeAdapterError [''maintenance command exited'']) else ret [(''ok'', JBool True), (''returncode'', JInt code)]))"

section \<open>The streams\<close>

text \<open>The calls on descriptors and sockets; \<open>Inl\<close> is the \<open>errno\<close> of an \<open>OSError\<close>.\<close>

record 'w stream_io =
  io_read :: "int \<Rightarrow> nat \<Rightarrow> 'w \<Rightarrow> (string + string) \<times> 'w"
  io_write :: "int \<Rightarrow> string \<Rightarrow> 'w \<Rightarrow> (string + nat) \<times> 'w"
  io_recv :: "int \<Rightarrow> nat \<Rightarrow> 'w \<Rightarrow> (string + string) \<times> 'w"
  io_sendall :: "int \<Rightarrow> string \<Rightarrow> 'w \<Rightarrow> (string + unit) \<times> 'w"
  io_shutdown :: "int \<Rightarrow> 'w \<Rightarrow> 'w"
  io_close :: "int \<Rightarrow> 'w \<Rightarrow> 'w"

fun handle_read :: "'w stream_io \<Rightarrow> stream_handle \<Rightarrow> nat \<Rightarrow> 'w \<Rightarrow> (string + string) \<times> 'w" where
  "handle_read io (PTYStream fd) n w = (case io_read io fd n w of
      (Inl e, w') \<Rightarrow> (if e \<in> set [''EIO'', ''EBADF''] then Inr [] else Inl e, w')
    | r \<Rightarrow> r)"
| "handle_read io (PipeStream r q) n w = io_read io r n w"
| "handle_read io (TCPStream fd) n w = io_recv io fd n w"

fun handle_write :: "'w stream_io \<Rightarrow> stream_handle \<Rightarrow> string \<Rightarrow> 'w \<Rightarrow> (string + nat) \<times> 'w" where
  "handle_write io (PTYStream fd) d w = io_write io fd d w"
| "handle_write io (PipeStream r q) d w = io_write io q d w"
| "handle_write io (TCPStream fd) d w = (case io_sendall io fd d w of (Inl e, w') \<Rightarrow> (Inl e, w') | (Inr u, w') \<Rightarrow> (Inr (length d), w'))"

text \<open>The state of a stream is whether it is closed.\<close>

fun handle_close :: "'w stream_io \<Rightarrow> stream_handle \<Rightarrow> bool \<Rightarrow> 'w \<Rightarrow> bool \<times> 'w" where
  "handle_close io h True w = (True, w)"
| "handle_close io (PTYStream fd) False w = (True, io_close io fd w)"
| "handle_close io (PipeStream r q) False w = (True, io_close io q (io_close io r w))"
| "handle_close io (TCPStream fd) False w = (True, io_close io fd (io_shutdown io fd w))"

section \<open>The table of adapters\<close>

definition default_adapters :: "(string, adapter_class) dict" where
  "default_adapters = [(''native'', ProcessAdapter), (''fs_uae'', FSUAEAdapter), (''vice'', VICEAdapter), (''qemu'', QEMUAdapter),
     (''simh'', SIMHAdapter), (''dos'', UnsupportedAdapter ''dos''), (''mame'', UnsupportedAdapter ''mame''),
     (''hatari'', UnsupportedAdapter ''hatari''), (''remote'', UnsupportedAdapter ''remote'')]"

definition adapter_named :: "(string, adapter_class) dict \<Rightarrow> string \<Rightarrow> runtime_error + adapter_class" where
  "adapter_named as n = (case map_of as n of None \<Rightarrow> Inl (UnknownRuntimeError [''unknown runtime adapter: '', n]) | Some a \<Rightarrow> Inr a)"

definition is_unsupported :: "adapter_class \<Rightarrow> bool" where
  "is_unsupported a \<longleftrightarrow> (case a of UnsupportedAdapter n \<Rightarrow> True | _ \<Rightarrow> False)"

definition describe :: "(string, adapter_class) dict \<Rightarrow> (string \<times> bool) list" where
  "describe as = map (\<lambda>(n, a). (n, \<not> is_unsupported a)) (sort_key fst as)"

section \<open>The manager\<close>

definition lift_registry :: "registry_error + 'a \<Rightarrow> runtime_error + 'a" where
  "lift_registry x = (case x of Inl e \<Rightarrow> Inl (RegistryFault e) | Inr v \<Rightarrow> Inr v)"

definition command_config :: "endpoint_view \<Rightarrow> adapter_config" where
  "command_config e = (case ep_command e of
      Some (exe # argv) \<Rightarrow> empty_config\<lparr>rc_executable := Some exe, rc_argv := Some argv\<rparr>
    | _ \<Rightarrow> empty_config)"

definition configuration :: "registry \<Rightarrow> string \<Rightarrow> runtime_error + string \<times> adapter_config" where
  "configuration reg sid =
     bindS (lift_registry (get_service reg sid)) (\<lambda>sv.
     bindS (lift_registry (get_endpoint reg (sv_endpoint_id sv))) (\<lambda>e. let ep = normalized e in
     bindS (if truthy (sv_integration_id sv) then
         bindS (lift_registry (get_integration reg (the (sv_integration_id sv)))) (\<lambda>g.
           Inr (ig_runtime g, case ig_runtime_config g of None \<Rightarrow> empty_config | Some rc \<Rightarrow> runtime_config.extend rc (adapter_config.fields [])))
       else if ep_type ep = ''local_process'' then Inr (''native'', command_config ep)
       else Inl (RuntimeConfigError [''service '', sid, '' has no runtime integration''])) (\<lambda>(runtime, c).
     Inr (runtime, if runtime = ''native'' \<and> c = empty_config \<and> ep_type ep = ''local_process'' then command_config ep else c))))"

definition adapter_for :: "registry \<Rightarrow> string \<Rightarrow> runtime_error + adapter_class" where
  "adapter_for reg sid = bindS (configuration reg sid) (\<lambda>(runtime, c). adapter_named default_adapters runtime)"

definition redacted :: "'a runtime_config_scheme \<Rightarrow> 'a runtime_config_scheme" where
  "redacted c = c\<lparr>rc_environment := map (\<lambda>(k, v). (k, ''<redacted>'')) (rc_environment c)\<rparr>"

definition manager_validate :: "registry \<Rightarrow> 'w machine \<Rightarrow> string \<Rightarrow> ('w, string \<times> adapter_config) rprog" where
  "manager_validate reg m sid = bind (check (\<lambda>w. configuration reg sid)) (\<lambda>(runtime, c).
     bind (check (\<lambda>w. adapter_named default_adapters runtime)) (\<lambda>a.
     andThen (if is_unsupported a then ret () else bind (check (validate_config m a c)) (\<lambda>v. ret ())) (ret (runtime, redacted c))))"

definition manager_open_stream :: "registry \<Rightarrow> 'w machine \<Rightarrow> string \<Rightarrow> string \<Rightarrow> ('w, stream_handle) rprog" where
  "manager_open_stream reg m sid iid = bind (check (\<lambda>w. configuration reg sid)) (\<lambda>(runtime, c).
     bind (check (\<lambda>w. adapter_named default_adapters runtime)) (\<lambda>a.
     if is_unsupported a then raise (unsupported_runtime a) else adapter_open_stream m (key_of a iid) c))"

section \<open>The driver for the supervisor\<close>

fun as_driver_error :: "runtime_error \<Rightarrow> supervisor_error" where
  "as_driver_error (RuntimeAdapterError t) = BuiltinError ''RuntimeAdapterError'' t"
| "as_driver_error (UnknownRuntimeError t) = BuiltinError ''UnknownRuntimeError'' t"
| "as_driver_error (UnsupportedRuntimeError t) = BuiltinError ''UnsupportedRuntimeError'' t"
| "as_driver_error (RuntimeConfigError t) = BuiltinError ''RuntimeConfigError'' t"
| "as_driver_error (RuntimeStartError t) = BuiltinError ''RuntimeStartError'' t"
| "as_driver_error (RuntimeStopError t) = BuiltinError ''RuntimeStopError'' t"
| "as_driver_error (RuntimeStreamError t) = BuiltinError ''RuntimeStreamError'' t"
| "as_driver_error (RegistryFault e) = RegistryFailure e"
| "as_driver_error (OSFault n t) = BuiltinError n t"

text \<open>A method of the bridge as a driver call: the world of the supervisor is the state of the adapters. \<open>NoFuel\<close> stands for
  a call that does not return.\<close>

definition bridge :: "('w, 'a) rprog \<Rightarrow> ('w rt, 'a) driver_call" where
  "bridge p i decl s = (case p (s\<lparr>rt_fields := in_runtime i\<rparr>) of
      (Ret x, s') \<Rightarrow> (Inr x, rt_fields s', s')
    | (Raise e, s') \<Rightarrow> (Inl (as_driver_error e), rt_fields s', s')
    | (NoFuel, s') \<Rightarrow> (Inl (BuiltinError ''NoFuel'' []), rt_fields s', s'))"

definition discard :: "('s, 'e, 'a) prog \<Rightarrow> ('s, 'e, unit) prog" where
  "discard p = bind p (\<lambda>x. ret ())"

text \<open>The fuel is enough for a clock that goes on while the adapter sleeps.\<close>

definition stop_fuel :: "'a runtime_config_scheme \<Rightarrow> nat" where
  "stop_fuel c = nat (stop_timeout c div 20000) + 3"

definition runtime_driver :: "'w machine \<Rightarrow> adapter_class \<Rightarrow> adapter_config \<Rightarrow> 'w rt driver" where
  "runtime_driver m a c = (if is_unsupported a then
     \<lparr>d_start = bridge (raise (unsupported_runtime a)), d_stop = bridge (raise (unsupported_runtime a)), d_status = bridge (ret False),
      d_is_ready = (\<lambda>rd. bridge (raise (unsupported_runtime a))),
      d_run_maintenance = (\<lambda>jb. bridge (raise (OSFault ''AttributeError'' [''run_maintenance''])))\<rparr>
   else
     \<lparr>d_start = (\<lambda>i. bridge (andThen (discard (adapter_prepare m a c)) (discard (adapter_start m a (in_instance i) c))) i),
      d_stop = (\<lambda>i. bridge (discard (adapter_stop m a (in_instance i) c (stop_fuel c))) i),
      d_status = (\<lambda>i. bridge (bind (adapter_status m (key_of a (in_instance i))) (\<lambda>st. ret (ra_alive st))) i),
      d_is_ready = (\<lambda>rd i. bridge (bind (adapter_readiness m (key_of a (in_instance i)) c rd) (\<lambda>r. ret (rr_ready r))) i),
      d_run_maintenance = (\<lambda>jb. bridge (adapter_maintenance m c jb))\<rparr>)"

definition driver_for :: "registry \<Rightarrow> 'w machine \<Rightarrow> service \<Rightarrow> supervisor_error + 'w rt driver" where
  "driver_for reg m sv = (case bindS (configuration reg (sv_id sv)) (\<lambda>(runtime, c). bindS (adapter_named default_adapters runtime) (\<lambda>a.
       Inr (runtime_driver m a c))) of
     Inl e \<Rightarrow> Inl (as_driver_error e) | Inr d \<Rightarrow> Inr d)"

end
