(* ===== verification/Runtime_Facts.thy ===== *)
theory Runtime_Facts
  imports Runtime_Manager
begin

text \<open>
  What the runtime adapters promise: a stop signals the group of the adapter's own child, or of a process whose identity
  it has just checked, and no other; it ends; and afterwards nothing of the instance is left. A start spawns the configured
  command once, in an environment without the forbidden names.
\<close>

section \<open>What a call may touch\<close>

definition process_fields :: "string set" where
  "process_fields = {''pid'', ''process_executable'', ''process_start_ticks''}"

text \<open>Everything but what belongs to \<open>k\<close> is as it was.\<close>

definition only :: "owner \<Rightarrow> 'w rt \<Rightarrow> 'w rt \<Rightarrow> bool" where
  "only k s t \<longleftrightarrow>
     (\<forall>j. j \<noteq> k \<longrightarrow> map_of (rt_processes t) j = map_of (rt_processes s) j \<and> map_of (rt_masters t) j = map_of (rt_masters s) j) \<and>
     (\<forall>f. f \<notin> process_fields \<longrightarrow> map_of (rt_fields t) f = map_of (rt_fields s) f)"

definition cleared :: "owner \<Rightarrow> 'w rt \<Rightarrow> bool" where
  "cleared k s \<longleftrightarrow> map_of (rt_processes s) k = None \<and> map_of (rt_masters s) k = None \<and> usable_pid (rt_fields s) = None"

definition during :: "owner \<Rightarrow> 'w rt \<Rightarrow> (int \<times> stop_signal) list \<Rightarrow> 'w rt \<Rightarrow> bool" where
  "during k s sent t \<longleftrightarrow> only k s t \<and> rt_signals t = rt_signals s @ sent"

lemma during_world [simp]: "during k s sent (t\<lparr>rt_world := w\<rparr>) = during k s sent t"
  by (simp add: during_def only_def)

lemma during_process: "during k s sent t \<Longrightarrow> during k s sent (t\<lparr>rt_processes := AList.update k p (rt_processes t)\<rparr>)"
  by (simp add: during_def only_def)

lemma during_call: "hoare b (during k s sent) (call f) (\<lambda>_. during k s sent) E"
  by (simp add: hoare_def call_def split: prod.splits)

lemma during_command: "hoare b (during k s sent) (command f) (\<lambda>_. during k s sent) E"
  unfolding command_def by (rule hoare_modify) simp

lemma during_poll: "hoare b (during k s sent) (poll_process m k p) (\<lambda>_. during k s sent) E"
  unfolding poll_process_def
  by (cases "pp_code p") (auto intro!: hoare_bind[OF during_call] hoare_andThen[where R = "during k s sent"] hoare_modify hoare_ret during_process)

lemma during_status: "hoare b (during k s sent) (adapter_status m k) (\<lambda>_. during k s sent) E"
  unfolding adapter_status_def
  by (rule hoare_bind[where R = "\<lambda>_. during k s sent"], rule hoare_gets, simp)
    (auto split: option.split intro!: hoare_bind[where R = "\<lambda>_. during k s sent"] hoare_gets hoare_ret during_poll)

lemma during_ask: "hoare b (during k s sent) (ask_to_stop m c) (\<lambda>_. during k s sent) E"
  unfolding ask_to_stop_def by (auto split: option.split intro!: hoare_ret hoare_bind[OF during_call])

lemma during_close_pipes: "hoare b (during k s sent) (close_pipes m p) (\<lambda>_. during k s sent) E"
  unfolding close_pipes_def
  by (auto split: option.split simp: onlyif_def intro!: hoare_ret hoare_andThen[OF during_command during_command])

lemma usable_pid_deleted [simp]: "usable_pid (AList.delete x (AList.delete y (AList.delete ''pid'' rt))) = None"
  by (simp add: usable_pid_def)

lemma cleanup_clears: "hoare b (during k s sent) (adapter_cleanup m k) (\<lambda>_ t. during k s sent t \<and> cleared k t) E"
proof -
  let ?P = "\<lambda>t. during k s sent t \<and> map_of (rt_processes t) k = None"
  let ?Q = "\<lambda>t. ?P t \<and> map_of (rt_masters t) k = None"
  have pipes: "hoare b ?P (close_pipes m p) (\<lambda>_. ?P) E" for p
    unfolding close_pipes_def command_def
    by (auto split: option.split simp: onlyif_def intro!: hoare_ret hoare_andThen[where R = ?P] hoare_modify)
  have master: "hoare b ?Q (case fd of None \<Rightarrow> ret () | Some fd \<Rightarrow> command (mc_close m fd)) (\<lambda>_. ?Q) E" for fd
    unfolding command_def by (auto split: option.split intro!: hoare_ret hoare_modify)
  have fields: "hoare b ?Q (set_fields (\<lambda>rt. AList.delete ''process_start_ticks'' (AList.delete ''process_executable'' (AList.delete ''pid'' rt))))
      (\<lambda>_ t. during k s sent t \<and> cleared k t) E"
    unfolding set_fields_def by (rule hoare_modify) (auto simp: during_def only_def cleared_def process_fields_def)
  show ?thesis
    unfolding adapter_cleanup_def
    by (rule hoare_bind[where R = "\<lambda>_. during k s sent"], rule hoare_gets, simp,
        rule hoare_andThen[where R = ?P], rule hoare_modify, simp add: during_def only_def,
        rule hoare_andThen[OF pipes], rule hoare_bind[where R = "\<lambda>_. ?P"], rule hoare_gets, simp,
        rule hoare_andThen[where R = ?Q], rule hoare_modify, simp add: during_def only_def,
        rule hoare_andThen[OF master fields])
qed

section \<open>Stopping\<close>

lemma wait_stop_clears: "triple (during k s sent) (wait_stop m k deadline fuel)
  (\<lambda>r t. during k s sent t \<and> (r \<noteq> None \<longrightarrow> cleared k t)) (\<lambda>_ _. False)"
proof (induction fuel)
  case 0
  show ?case by (simp add: triple_no_fuel)
next
  case (Suc fuel)
  note IH = Suc.IH[simplified]
  have seen: "triple (during k s sent) (case p of
           Some p \<Rightarrow> bind (poll_process m k p) (\<lambda>code. ret (map_option (\<lambda>c. stopped False (Some c)) code))
         | None \<Rightarrow> bind (adapter_status m k) (\<lambda>st. ret (if ra_alive st then None else Some (stopped False None))))
       (\<lambda>_. during k s sent) (\<lambda>_ _. False)" for p
    by (cases p) (auto intro!: hoare_bind[OF during_poll] hoare_bind[OF during_status] hoare_ret)
  show ?case
    unfolding wait_stop.simps
  proof (rule hoare_bind[OF during_call])
    fix now
    show "triple (during k s sent) (if \<not> now < deadline then ret None
       else bind (gets (\<lambda>s. map_of (rt_processes s) k)) (\<lambda>p.
         bind (case p of
           Some p \<Rightarrow> bind (poll_process m k p) (\<lambda>code. ret (map_option (\<lambda>c. stopped False (Some c)) code))
         | None \<Rightarrow> bind (adapter_status m k) (\<lambda>st. ret (if ra_alive st then None else Some (stopped False None)))) (\<lambda>r.
         case r of
           Some res \<Rightarrow> andThen (adapter_cleanup m k) (ret (Some res))
         | None \<Rightarrow> bind (call (mc_clock m)) (\<lambda>now'.
             andThen (command (mc_sleep m (min 20000 (max 0 (deadline - now'))))) (wait_stop m k deadline fuel)))))
       (\<lambda>r t. during k s sent t \<and> (r \<noteq> None \<longrightarrow> cleared k t)) (\<lambda>_ _. False)"
      by (auto intro!: hoare_ret hoare_bind[where R = "\<lambda>_. during k s sent"] hoare_gets seen IH hoare_andThen[OF cleanup_clears]
            hoare_andThen[OF during_command] during_call split: option.split)
  qed
qed

lemma signal_sent: "triple (during k s sent) (signal_group m pid sig) (\<lambda>_. during k s (sent @ [(pid, sig)])) (\<lambda>_. during k s (sent @ [(pid, sig)]))"
  unfolding signal_group_def
  by (rule hoare_andThen[where R = "during k s (sent @ [(pid, sig)])"], rule hoare_modify, simp add: during_def only_def,
      rule hoare_bind[OF during_call], rule hoare_andThen[where R = "during k s (sent @ [(pid, sig)])"]) (auto intro!: hoare_raise_if hoare_ret)

lemma force_stop_clears: "triple (during k s sent) (force_stop m k pid)
  (\<lambda>_ t. during k s (sent @ [(pid, SIGKILL)]) t \<and> cleared k t) (\<lambda>_. during k s (sent @ [(pid, SIGKILL)]))"
  unfolding force_stop_def
  by (rule hoare_bind[OF signal_sent], rule hoare_bind[where R = "\<lambda>_. during k s (sent @ [(pid, SIGKILL)])"], rule hoare_gets, simp,
      rule hoare_bind[where R = "\<lambda>_. during k s (sent @ [(pid, SIGKILL)])"])
    (auto split: option.split intro!: hoare_ret hoare_bind[OF during_call] hoare_raise hoare_andThen[OF cleanup_clears])

text \<open>The process that a stop in \<open>s\<close> is about: the adapter's own child that has not ended, or else the recorded one, when its
  executable and start time are the recorded ones.\<close>

definition owns :: "'w machine \<Rightarrow> owner \<Rightarrow> 'w rt \<Rightarrow> int \<Rightarrow> bool" where
  "owns m k s pid \<longleftrightarrow> (case map_of (rt_processes s) k of
      Some p \<Rightarrow> pp_pid p = pid \<and> pp_code p = None \<and> fst (mc_poll m pid (rt_world s)) = None
    | None \<Rightarrow> usable_pid (rt_fields s) = Some pid \<and> (\<exists>exe ticks. mc_identity m pid (rt_world s) = Some (exe, ticks) \<and>
        exe \<noteq> [] \<and> ticks \<noteq> [] \<and> exe = recorded (rt_fields s) ''process_executable'' \<and> ticks = recorded (rt_fields s) ''process_start_ticks''))"

lemma identity_matches_iff: "identity_matches m rt pid w \<longleftrightarrow> (\<exists>exe ticks. mc_identity m pid w = Some (exe, ticks) \<and>
   exe \<noteq> [] \<and> ticks \<noteq> [] \<and> exe = recorded rt ''process_executable'' \<and> ticks = recorded rt ''process_start_ticks'')"
  by (auto simp: identity_matches_def split: option.split)

lemma status_result:
  obtains st t where "adapter_status m k s = (Ret st, t)" "ra_alive st \<Longrightarrow> \<exists>pid. ra_pid st = Some pid \<and> owns m k s pid"
    "during k s [] t" "ra_alive st \<longleftrightarrow> (\<exists>pid. owns m k s pid)"
proof -
  have d: "during k s [] s" by (simp add: during_def only_def)
  have "\<exists>st t. adapter_status m k s = (Ret st, t)"
    by (auto simp: adapter_status_def bind_def gets_def poll_process_def call_def andThen_def modify_def ret_def split: option.splits prod.splits)
  then obtain st t where st: "adapter_status m k s = (Ret st, t)" by blast
  have "during k s [] t" using hoare_retD[OF during_status d st] .
  moreover have "ra_alive st \<Longrightarrow> \<exists>pid. ra_pid st = Some pid \<and> owns m k s pid"
    and "ra_alive st \<longleftrightarrow> (\<exists>pid. owns m k s pid)"
    using st by (auto simp: adapter_status_def bind_def gets_def poll_process_def call_def andThen_def modify_def ret_def owns_def
      identity_matches_iff no_process_def split: option.splits prod.splits)
  ultimately show thesis using that st by blast
qed

text \<open>The rest of a stop once a living process is found.\<close>

definition end_process :: "'w machine \<Rightarrow> owner \<Rightarrow> adapter_config \<Rightarrow> nat \<Rightarrow> int \<Rightarrow> ('w, stop_result) rprog" where
  "end_process m k c fuel pid = andThen (ask_to_stop m c)
     (bind (signal_group m pid SIGTERM) (\<lambda>found.
      bind (call (mc_clock m)) (\<lambda>now.
      bind (wait_stop m k (now + stop_timeout c) fuel) (\<lambda>r. case r of
          Some res \<Rightarrow> ret res
        | None \<Rightarrow> force_stop m k pid))))"

definition signalled :: "owner \<Rightarrow> 'w rt \<Rightarrow> int \<Rightarrow> 'w rt \<Rightarrow> bool" where
  "signalled k s pid t \<longleftrightarrow> during k s [(pid, SIGTERM)] t \<or> during k s [(pid, SIGTERM), (pid, SIGKILL)] t"

lemma end_process_clears: "triple (during k s []) (end_process m k c fuel pid) (\<lambda>_ t. signalled k s pid t \<and> cleared k t) (\<lambda>_. signalled k s pid)"
proof -
  have signal: "triple (during k s []) (signal_group m pid SIGTERM) (\<lambda>_. during k s [(pid, SIGTERM)]) (\<lambda>_. signalled k s pid)"
    by (rule hoare_conseq[OF signal_sent]) (auto simp: signalled_def)
  have waited: "triple (during k s [(pid, SIGTERM)]) (wait_stop m k d fuel)
      (\<lambda>r t. during k s [(pid, SIGTERM)] t \<and> (r \<noteq> None \<longrightarrow> cleared k t)) (\<lambda>_. signalled k s pid)" for d
    by (rule hoare_conseq[OF wait_stop_clears]) auto
  have forced: "triple (during k s [(pid, SIGTERM)]) (force_stop m k pid) (\<lambda>_ t. signalled k s pid t \<and> cleared k t) (\<lambda>_. signalled k s pid)"
    by (rule hoare_conseq[OF force_stop_clears]) (auto simp: signalled_def)
  show ?thesis
    unfolding end_process_def
  proof (rule hoare_andThen[OF during_ask], rule hoare_bind[OF signal], rule hoare_bind[OF during_call], rule hoare_bind[OF waited])
    show "triple (\<lambda>t. during k s [(pid, SIGTERM)] t \<and> (r \<noteq> None \<longrightarrow> cleared k t)) (case r of Some res \<Rightarrow> ret res | None \<Rightarrow> force_stop m k pid)
        (\<lambda>_ t. signalled k s pid t \<and> cleared k t) (\<lambda>_. signalled k s pid)" for r
    proof (cases r)
      case None
      with forced show ?thesis by simp
    next
      case (Some res)
      then show ?thesis by (auto intro!: hoare_ret simp: signalled_def)
    qed
  qed
qed

section \<open>Stopping ends\<close>

text \<open>A clock that never goes back and goes on while the adapter sleeps; \<open>T\<close> is its reading.\<close>

definition steady_clock :: "'w machine \<Rightarrow> ('w \<Rightarrow> int) \<Rightarrow> bool" where
  "steady_clock m T \<longleftrightarrow>
     (\<forall>w. fst (mc_clock m w) = T w \<and> T w \<le> T (snd (mc_clock m w))) \<and>
     (\<forall>pid w. T w \<le> T (snd (mc_poll m pid w))) \<and>
     (\<forall>us w. 0 \<le> us \<longrightarrow> T w + us \<le> T (mc_sleep m us w))"

definition later :: "('w \<Rightarrow> int) \<Rightarrow> int \<Rightarrow> 'w rt \<Rightarrow> bool" where
  "later T n s \<longleftrightarrow> n \<le> T (rt_world s)"

lemma steady_clockD:
  assumes "steady_clock m T"
  shows "mc_clock m w = (x, w') \<Longrightarrow> x = T w \<and> T w \<le> T w'" and "mc_poll m pid w = (code, w') \<Longrightarrow> T w \<le> T w'"
    and "0 \<le> us \<Longrightarrow> T w + us \<le> T (mc_sleep m us w)"
  using assms unfolding steady_clock_def by (metis fst_conv snd_conv)+

lemma later_call: "(\<And>w x w'. f w = (x, w') \<Longrightarrow> T w \<le> T w') \<Longrightarrow> total (later T n) (call f) (\<lambda>_. later T n) E"
  by (fastforce simp: hoare_def call_def later_def split: prod.splits)

lemma later_poll:
  assumes "steady_clock m T"
  shows "total (later T n) (poll_process m k p) (\<lambda>_. later T n) E"
  unfolding poll_process_def
  by (cases "pp_code p")
    (auto intro!: hoare_bind[OF later_call] hoare_andThen[where R = "later T n"] hoare_modify hoare_ret steady_clockD(2)[OF assms] simp: later_def)

lemma later_status: "steady_clock m T \<Longrightarrow> total (later T n) (adapter_status m k) (\<lambda>_. later T n) E"
  unfolding adapter_status_def
  by (rule hoare_bind[where R = "\<lambda>_. later T n"], rule hoare_gets, simp)
    (auto split: option.split intro!: hoare_bind[where R = "\<lambda>_. later T n"] hoare_gets hoare_ret later_poll)

lemma later_clock:
  assumes "steady_clock m T"
  shows "total (later T n) (call (mc_clock m)) (\<lambda>now s. n \<le> now \<and> later T now s) E"
  unfolding hoare_def call_def
proof (intro allI impI)
  fix s assume s: "later T n s"
  obtain x w where w: "mc_clock m (rt_world s) = (x, w)" by fastforce
  from steady_clockD(1)[OF assms w] w s
  show "case (let (x, w) = mc_clock m (rt_world s) in (Ret x, s\<lparr>rt_world := w\<rparr>)) of
      (Ret x, s') \<Rightarrow> n \<le> x \<and> later T x s' | (Raise e, s') \<Rightarrow> E e s' | (NoFuel, s') \<Rightarrow> False"
    by (auto simp: later_def)
qed

lemma later_sleep:
  assumes "steady_clock m T" and "0 \<le> us"
  shows "total (later T n) (command (mc_sleep m us)) (\<lambda>_. later T (n + us)) E"
  unfolding command_def
proof (rule hoare_modify)
  fix s assume "later T n s"
  with steady_clockD(3)[OF assms, of "rt_world s"] show "later T (n + us) (s\<lparr>rt_world := mc_sleep m us (rt_world s)\<rparr>)"
    by (simp add: later_def)
qed

lemma cleanup_returns:
  fixes m :: "'w machine"
  shows "total P (adapter_cleanup m k) (\<lambda>_ _. True) (\<lambda>_ _. True)"
  unfolding hoare_def
proof (intro allI impI)
  fix s :: "'w rt"
  have "during k s [] s" by (simp add: during_def only_def)
  then have "fst (adapter_cleanup m k s) \<noteq> NoFuel" by (rule total_fuelD[OF cleanup_clears])
  then show "case adapter_cleanup m k s of (Ret x, s') \<Rightarrow> True | (Raise e, s') \<Rightarrow> True | (NoFuel, s') \<Rightarrow> False"
    by (auto split: outcome.splits prod.splits)
qed

lemma total_pure: "(b \<Longrightarrow> hoare c P m Q E) \<Longrightarrow> hoare c (\<lambda>s. b \<and> P s) m Q E"
  by (cases b) (simp_all add: hoare_def)

lemma wait_stop_returns:
  assumes "steady_clock m T" and "1 \<le> fuel" and "deadline - n \<le> 20000 * (int fuel - 1)"
  shows "total (later T n) (wait_stop m k deadline fuel) (\<lambda>_ _. True) (\<lambda>_ _. True)"
  using assms(2,3)
proof (induction fuel arbitrary: n)
  case (Suc fuel)
  note clock = assms(1)
  show ?case
    unfolding wait_stop.simps
  proof (rule hoare_bind[OF later_clock[OF clock]], rule total_pure)
    fix now assume now: "n \<le> now"
    let ?look = "\<lambda>p. case p of
           Some p \<Rightarrow> bind (poll_process m k p) (\<lambda>code. ret (map_option (\<lambda>c. stopped False (Some c)) code))
         | None \<Rightarrow> bind (adapter_status m k) (\<lambda>st. ret (if ra_alive st then None else Some (stopped False None)))"
    have look: "total (later T now) (?look p) (\<lambda>_. later T now) (\<lambda>_ _. True)" for p
      by (cases p) (auto intro!: hoare_bind[OF later_poll[OF clock]] hoare_bind[OF later_status[OF clock]] hoare_ret)
    have sleep: "total (later T now) (bind (call (mc_clock m)) (\<lambda>now'.
        andThen (command (mc_sleep m (min 20000 (max 0 (deadline - now'))))) (wait_stop m k deadline fuel))) (\<lambda>_ _. True) (\<lambda>_ _. True)"
      if more: "now < deadline"
    proof (rule hoare_bind[OF later_clock[OF clock]], rule total_pure)
      fix now' assume "now \<le> now'"
      have some: "1 \<le> int fuel" using more now Suc.prems(2) by simp
      then have enough: "1 \<le> fuel" "deadline - (now' + min 20000 (max 0 (deadline - now'))) \<le> 20000 * (int fuel - 1)"
        using \<open>now \<le> now'\<close> now Suc.prems(2) by (simp_all add: min_def max_def)
      show "total (later T now') (andThen (command (mc_sleep m (min 20000 (max 0 (deadline - now'))))) (wait_stop m k deadline fuel)) (\<lambda>_ _. True) (\<lambda>_ _. True)"
        by (rule hoare_andThen[OF later_sleep[OF clock] Suc.IH[OF enough]]) simp
    qed
    show "total (later T now) (if \<not> now < deadline then ret None
       else bind (gets (\<lambda>s. map_of (rt_processes s) k)) (\<lambda>p. bind (?look p) (\<lambda>r. case r of
           Some res \<Rightarrow> andThen (adapter_cleanup m k) (ret (Some res))
         | None \<Rightarrow> bind (call (mc_clock m)) (\<lambda>now'.
             andThen (command (mc_sleep m (min 20000 (max 0 (deadline - now'))))) (wait_stop m k deadline fuel))))) (\<lambda>_ _. True) (\<lambda>_ _. True)"
      by (auto intro!: hoare_ret hoare_bind[where R = "\<lambda>_. later T now", OF hoare_gets] hoare_bind[OF look] hoare_andThen[OF cleanup_returns] sleep
          split: option.split)
  qed
qed simp

lemma end_process_returns:
  assumes clock: "steady_clock m T" and fuel: "stop_timeout c \<le> 20000 * (int fuel - 1)" "1 \<le> fuel"
  shows "total P (end_process m k c fuel pid) (\<lambda>_ _. True) (\<lambda>_ _. True)"
proof -
  have ask: "total P (ask_to_stop m c) (\<lambda>_ _. True) (\<lambda>_ _. True)" for P
    by (auto simp: ask_to_stop_def hoare_def bind_def call_def ret_def split: option.splits prod.splits)
  have signal: "total P (signal_group m p g) (\<lambda>_ _. True) (\<lambda>_ _. True)" for P p g
    by (auto simp: signal_group_def hoare_def bind_def andThen_def modify_def raise_if_def raise_def call_def ret_def split: prod.splits outcome.splits)
  have force: "total P (force_stop m k pid) (\<lambda>_ _. True) (\<lambda>_ _. True)" for P
    unfolding force_stop_def
  proof (rule hoare_bind[OF signal], rule hoare_bind[where R = "\<lambda>_ _. True"], rule hoare_gets, simp, rule hoare_bind[where R = "\<lambda>_ _. True"])
    show "total (\<lambda>_. True) (case p of None \<Rightarrow> ret None | Some p \<Rightarrow> bind (call (mc_wait m (pp_pid p))) (\<lambda>code. case code of
         None \<Rightarrow> raise (RuntimeStopError [''runtime did not exit after SIGKILL'']) | Some c \<Rightarrow> ret (Some c))) (\<lambda>_ _. True) (\<lambda>_ _. True)" for p
      by (auto simp: hoare_def bind_def call_def ret_def raise_def split: option.splits prod.splits)
    show "total (\<lambda>_. True) (andThen (adapter_cleanup m k) (ret (stopped forced code))) (\<lambda>_ _. True) (\<lambda>_ _. True)" for forced code
      by (rule hoare_andThen[OF cleanup_returns hoare_ret]) simp
  qed
  have clocked: "total P (call (mc_clock m)) (\<lambda>x s. later T x s) (\<lambda>_ _. True)" for P
    using later_clock[OF clock] by (fastforce simp: hoare_def later_def call_def split: prod.splits dest: steady_clockD(1)[OF clock])
  show ?thesis
    unfolding end_process_def
  proof (rule hoare_andThen[OF ask], rule hoare_bind[OF signal], rule hoare_bind[OF clocked])
    fix x
    have "total (later T x) (wait_stop m k (x + stop_timeout c) fuel) (\<lambda>_ _. True) (\<lambda>_ _. True)"
      using fuel by (intro wait_stop_returns[OF clock]) auto
    then show "total (later T x) (bind (wait_stop m k (x + stop_timeout c) fuel) (\<lambda>r. case r of Some res \<Rightarrow> ret res | None \<Rightarrow> force_stop m k pid))
        (\<lambda>_ _. True) (\<lambda>_ _. True)"
      by (rule hoare_bind) (auto intro: force hoare_ret split: option.split)
  qed
qed

lemma stop_fuel_enough: "stop_timeout c \<le> 20000 * (int (stop_fuel c) - 1)" "1 \<le> stop_fuel c"
proof -
  have "t \<le> 20000 * (int (nat (t div 20000)) + 2)" for t :: int
  proof -
    define d r where "d = t div 20000" and "r = t mod 20000"
    then have "t = 20000 * d + r" "r < 20000" by simp_all
    moreover have "d \<le> int (nat d)" by simp
    ultimately show ?thesis unfolding d_def[symmetric] by (simp only: distrib_left)
  qed
  from this[of "stop_timeout c"] show "stop_timeout c \<le> 20000 * (int (stop_fuel c) - 1)"
    unfolding stop_fuel_def by (simp only: of_nat_add) simp
qed (simp add: stop_fuel_def)

lemma adapter_stop_eq:
  assumes "adapter_status m (key_of a i) s = (Ret st, t)"
  shows "adapter_stop m a i c fuel s = (if ra_alive st then end_process m (key_of a i) c fuel (the (ra_pid st)) t
     else andThen (adapter_cleanup m (key_of a i)) (ret (stopped False (ra_exit_code st))) t)"
  using assms by (simp add: adapter_stop_def Let_def bind_def end_process_def)

text \<open>C32: stopping the process of an instance. A stop signals one process group at most, first with TERM and then perhaps with
  KILL: that of the adapter's own child that has not ended, or that of the recorded process when its executable and start time
  are the recorded ones; a process that cannot be proven to be the instance's is left alone. When it returns, the adapter holds no
  process and no terminal for the instance and no pid is recorded; nothing of the other instances is touched in any outcome. With
  a clock that goes on it returns or raises, and does not wait for ever.\<close>

theorem stop_signals:
  assumes clock: "steady_clock m T" and run: "adapter_stop m a i c (stop_fuel c) s = (r, t)"
  shows "only (key_of a i) s t \<and>
    (rt_signals t = rt_signals s \<and> (\<nexists>pid. owns m (key_of a i) s pid) \<or>
      (\<exists>pid. owns m (key_of a i) s pid \<and> rt_signals t \<in> {rt_signals s @ [(pid, SIGTERM)], rt_signals s @ [(pid, SIGTERM), (pid, SIGKILL)]})) \<and>
    (case r of Ret res \<Rightarrow> cleared (key_of a i) t | Raise e \<Rightarrow> True | NoFuel \<Rightarrow> False)"
proof -
  let ?k = "key_of a i"
  obtain st u where st: "adapter_status m ?k s = (Ret st, u)" and alive: "ra_alive st \<Longrightarrow> \<exists>pid. ra_pid st = Some pid \<and> owns m ?k s pid"
    and u: "during ?k s [] u" and iff: "ra_alive st \<longleftrightarrow> (\<exists>pid. owns m ?k s pid)" by (rule status_result[of m ?k s]) blast
  show ?thesis
  proof (cases "ra_alive st")
    case True
    with alive obtain pid where pid: "ra_pid st = Some pid" "owns m ?k s pid" by blast
    then have run': "end_process m ?k c (stop_fuel c) pid u = (r, t)" using run adapter_stop_eq[OF st] True by simp
    have "r \<noteq> NoFuel"
      using total_fuelD[OF end_process_returns[OF clock stop_fuel_enough[of c]], of "\<lambda>_. True" u ?k pid] run' by simp
    moreover have "signalled ?k s pid t \<and> (case r of Ret res \<Rightarrow> cleared ?k t | Raise e \<Rightarrow> True | NoFuel \<Rightarrow> False)"
      using hoare_retD[OF end_process_clears u] hoare_raiseD[OF end_process_clears u] run' \<open>r \<noteq> NoFuel\<close> by (cases r) auto
    ultimately show ?thesis using pid(2) by (auto simp: signalled_def during_def)
  next
    case False
    then have "andThen (adapter_cleanup m ?k) (ret (stopped False (ra_exit_code st))) u = (r, t)" using run adapter_stop_eq[OF st] by simp
    moreover have "total (during ?k s []) (andThen (adapter_cleanup m ?k) (ret (stopped False (ra_exit_code st))))
        (\<lambda>_ v. during ?k s [] v \<and> cleared ?k v) (\<lambda>_ _. False)"
      by (rule hoare_andThen[OF cleanup_clears hoare_ret])
    ultimately have "during ?k s [] t \<and> cleared ?k t \<and> r \<noteq> NoFuel" using u by (cases r) (auto simp: hoare_def)
    with False iff show ?thesis by (auto simp: during_def split: outcome.split)
  qed
qed

section \<open>Starting\<close>

text \<open>What \<open>status\<close> and the checks leave as it was: everything but the exit code of the polled child and the world.\<close>

definition quiet :: "owner \<Rightarrow> 'w rt \<Rightarrow> 'w rt \<Rightarrow> bool" where
  "quiet k s t \<longleftrightarrow> (\<forall>j. j \<noteq> k \<longrightarrow> map_of (rt_processes t) j = map_of (rt_processes s) j) \<and>
     rt_masters t = rt_masters s \<and> rt_fields t = rt_fields s \<and> rt_signals t = rt_signals s"

lemma quiet_status: "adapter_status m k s = (r, t) \<Longrightarrow> quiet k s t"
  by (auto simp: adapter_status_def poll_process_def quiet_def prog_defs call_def Let_def
      split: option.splits prod.splits if_splits outcome.splits)

lemma quiet_call: "hoare b (quiet k s) (call f) (\<lambda>_. quiet k s) E"
  by (auto simp: hoare_def call_def quiet_def split: prod.splits)

lemma quiet_command: "hoare b (quiet k s) (command f) (\<lambda>_. quiet k s) E"
  unfolding command_def by (rule hoare_modify) (simp add: quiet_def)

lemma quiet_check: "hoare b (quiet k s) (check f) (\<lambda>x t. (\<exists>w. f w = Inr x) \<and> quiet k s t) (\<lambda>_. quiet k s)"
  by (auto simp: hoare_def check_def split: sum.splits)

lemma quiet_terminal: "hoare b (quiet k s) (open_terminal m c) (\<lambda>_. quiet k s) (\<lambda>_. quiet k s)"
  unfolding open_terminal_def
  by (auto intro!: hoare_ret hoare_raise hoare_bind[OF quiet_call] split: sum.split)

lemma quiet_spawn:
  "hoare b (quiet k s) (spawn m cmd cwd c pty)
     (\<lambda>pid t. (\<exists>io w w'. mc_spawn m cmd cwd (environment_for m c) io w = (Inr pid, w')) \<and> quiet k s t) (\<lambda>_. quiet k s)"
proof -
  have called: "hoare b (quiet k s) (call f) (\<lambda>x t. (\<exists>w w'. f w = (x, w')) \<and> quiet k s t) (\<lambda>_. quiet k s)" for f
    by (fastforce simp: hoare_def call_def quiet_def split: prod.splits)
  show ?thesis
    unfolding spawn_def
    by (rule hoare_bind[OF called], rule total_pure)
      (auto split: sum.split option.split
        intro!: hoare_andThen[where R = "quiet k s"] hoare_ret hoare_raise quiet_command hoare_andThen[OF quiet_command quiet_command])
qed

text \<open>What the configuration check of any adapter guarantees, and the environment a process gets then.\<close>

lemma checked_Inr: "bindS (first_error cs) (\<lambda>_. y) = Inr v \<longleftrightarrow> (\<forall>x \<in> set cs. \<not> fst x) \<and> y = Inr v"
  by (auto simp: split_beta)

lemma validate_configD:
  assumes "validate_config m a c w = Inr v"
  shows "absolute (executable_of c)" "mc_is_file m (executable_of c) w" "mc_executable m (executable_of c) w"
    "v = (mc_resolve m (executable_of c) w, mc_resolve m (working_of c) w)" "mc_is_dir m (working_of c) w"
    "\<And>n. n \<in> fst ` set (rc_environment c) \<union> set (rc_inherit_environment c) \<Longrightarrow> safe_name n"
proof -
  have "validate_process m c w = Inr v" using assms by (auto simp: validate_config_def split: if_splits)
  note passed = this[unfolded validate_process_def checked_Inr set_append ball_Un set_map ball_simps list.set split_beta fst_conv]
  show "v = (mc_resolve m (executable_of c) w, mc_resolve m (working_of c) w)"
    "absolute (executable_of c)" "mc_is_file m (executable_of c) w" "mc_executable m (executable_of c) w" "mc_is_dir m (working_of c) w"
    using passed by simp_all
  fix n assume "n \<in> fst ` set (rc_environment c) \<union> set (rc_inherit_environment c)"
  with passed show "safe_name n" by auto
qed

lemma update_names: "fst ` set (AList.update k v al) = insert k (fst ` set al)"
  using dom_update[of k v al] by (simp add: dom_map_of_conv_image_fst)

lemma environment_names: "fst ` set (environment_for m c) \<subseteq> {''PATH'', ''LANG''} \<union> fst ` set (rc_environment c) \<union> set (rc_inherit_environment c)"
proof -
  have declared: "fst ` set (fold (\<lambda>(k, v). AList.update k v) kvs env) = fst ` set env \<union> fst ` set kvs"
    for kvs env :: "(string, string) dict"
  proof (induction kvs arbitrary: env)
    case (Cons kv kvs)
    show ?case using Cons.IH[of "AList.update (fst kv) (snd kv) env"] by (auto simp only: fold_Cons o_apply split_beta update_names list.set image_insert)
  qed simp
  have inherited: "fst ` set (fold (\<lambda>k env. case map_of e k of None \<Rightarrow> env | Some v \<Rightarrow> AList.update k v env) ks env) \<subseteq> fst ` set env \<union> set ks"
    for e env :: "(string, string) dict" and ks
  proof (induction ks arbitrary: env)
    case (Cons k ks)
    show ?case
      using Cons.IH[of "case map_of e k of None \<Rightarrow> env | Some v \<Rightarrow> AList.update k v env"]
      by (cases "map_of e k") (auto simp: update_names)
  qed simp
  show ?thesis
    unfolding environment_for_def declared
    using inherited[of "mc_environ m" "rc_inherit_environment c" "[(''PATH'', mc_defpath m), (''LANG'', ''C.UTF-8'')]"]
    by (simp only: image_set[symmetric] set_simps image_insert fst_conv) auto
qed

lemma build_commandD:
  assumes "build_command m a c w = Inr cmd"
  shows "\<exists>v. validate_config m a c w = Inr v" "\<exists>args. cmd = mc_resolve m (executable_of c) w # args"
  using assms by (auto simp: build_command_def Let_def split: if_splits)

text \<open>A machine whose world is the clock; its process 4242 ends a hundredth of a second after the start.\<close>

definition demo_machine :: "int machine" where
  "demo_machine = \<lparr>mc_is_file = (\<lambda>p w. True), mc_is_dir = (\<lambda>p w. True), mc_executable = (\<lambda>p w. True), mc_resolve = (\<lambda>p w. p),
     mc_environ = [(''TERM'', ''ansi''), (''LD_PRELOAD'', ''/tmp/evil.so'')], mc_defpath = ''/bin'',
     mc_identity = (\<lambda>p w. if w < 10000 then Some (''/opt/mis'', ''77'') else None),
     mc_openpty = (\<lambda>w. (Inr (5, 6), w)), mc_close = (\<lambda>fd w. w), mc_dup = (\<lambda>fd w. (Inr (fd + 1), w)),
     mc_spawn = (\<lambda>cmd cwd env io w. (Inr 4242, w)), mc_pipe_ends = (\<lambda>p. (7, 8)), mc_poll = (\<lambda>p w. (if w < 10000 then None else Some 0, w)),
     mc_wait = (\<lambda>p w. (Some (- 9), w)), mc_killpg = (\<lambda>p sig w. (Signalled, w)), mc_run = (\<lambda>cmd cwd env limit w. (Inr 0, w)),
     mc_clock = (\<lambda>w. (w, w)), mc_sleep = (\<lambda>us w. w + us), mc_connect = (\<lambda>h p limit w. (Inr 9, w)), mc_sha256 = concat\<rparr>"

definition demo_config :: adapter_config where
  "demo_config = empty_config\<lparr>rc_executable := Some ''/opt/mis'', rc_argv := Some [''-d''], rc_inherit_environment := [''TERM''],
     rc_stop_timeout_us := Some 50000\<rparr>"

definition recorded_process :: "int rt" where
  "recorded_process = \<lparr>rt_world = 0, rt_processes = [], rt_masters = [],
     rt_fields = [(''pid'', JInt 4242), (''process_executable'', JStr ''/opt/mis''), (''process_start_ticks'', JStr ''77'')], rt_signals = []\<rparr>"

lemma demo_clock: "steady_clock demo_machine id"
  by (simp add: steady_clock_def demo_machine_def)

theorem stop_signals_witness:
  "\<exists>t. adapter_stop demo_machine ProcessAdapter ''bbs'' demo_config (stop_fuel demo_config) recorded_process = (Ret (stopped False None), t) \<and>
     rt_signals t = [(4242, SIGTERM)] \<and> cleared (''native'', ''bbs'') t"
proof -
  let ?r = "adapter_stop demo_machine ProcessAdapter ''bbs'' demo_config (stop_fuel demo_config) recorded_process"
  have "fst ?r = Ret (stopped False None)" "rt_signals (snd ?r) = [(4242, SIGTERM)]" by code_simp+
  then obtain t where "?r = (Ret (stopped False None), t)" "rt_signals t = [(4242, SIGTERM)]" by (cases ?r) auto
  with stop_signals[OF demo_clock this(1)] show ?thesis by (auto simp: key_of_def)
qed

text \<open>What a start that launched a process has done.\<close>

definition launched :: "'w machine \<Rightarrow> adapter_config \<Rightarrow> string list \<Rightarrow> int \<Rightarrow> bool" where
  "launched m c cmd pid \<longleftrightarrow> absolute (executable_of c) \<and>
     (\<exists>w args. mc_is_file m (executable_of c) w \<and> mc_executable m (executable_of c) w \<and> cmd = mc_resolve m (executable_of c) w # args) \<and>
     (\<exists>cwd io w w'. mc_spawn m cmd cwd (environment_for m c) io w = (Inr pid, w')) \<and>
     fst ` set (environment_for m c) \<inter> set FORBIDDEN_ENVIRONMENT = {}"

lemma launchedI:
  assumes "build_command m a c w = Inr cmd" "mc_spawn m cmd cwd (environment_for m c) io w' = (Inr pid, w'')"
  shows "launched m c cmd pid"
proof -
  obtain v args where v: "validate_config m a c w = Inr v" and cmd: "cmd = mc_resolve m (executable_of c) w # args"
    using build_commandD[OF assms(1)] by blast
  have "safe_name n" if "n \<in> fst ` set (environment_for m c)" "n \<noteq> ''PATH''" "n \<noteq> ''LANG''" for n
    using validate_configD(6)[OF v] environment_names[of m c] that by blast
  then have "fst ` set (environment_for m c) \<inter> set FORBIDDEN_ENVIRONMENT = {}"
    by (auto simp: safe_name_def FORBIDDEN_ENVIRONMENT_def)
  with assms(2) cmd validate_configD(1-3)[OF v] show ?thesis unfolding launched_def by blast
qed

lemma started_fields_pid: "map_of (started_fields m a cmd pid who rt) ''pid'' = Some (JInt pid)"
  by (simp add: started_fields_def map_of_update)

definition started :: "'w machine \<Rightarrow> adapter_class \<Rightarrow> adapter_config \<Rightarrow> owner \<Rightarrow> 'w rt \<Rightarrow> start_result \<Rightarrow> 'w rt \<Rightarrow> bool" where
  "started m a c k s res t \<longleftrightarrow> sr_started res \<and> \<not> sr_already_running res \<and> (\<exists>pid. sr_pid res = Some pid \<and> launched m c (sr_command res) pid \<and>
     map_option pp_pid (map_of (rt_processes t) k) = Some pid \<and> map_of (rt_fields t) ''pid'' = Some (JInt pid)) \<and>
     (\<forall>j. j \<noteq> k \<longrightarrow> map_of (rt_processes t) j = map_of (rt_processes s) j \<and> map_of (rt_masters t) j = map_of (rt_masters s) j) \<and>
     rt_signals t = rt_signals s"

text \<open>The part of \<open>start\<close> after the checks, for a process that is not alive.\<close>

definition launch :: "'w machine \<Rightarrow> adapter_class \<Rightarrow> string \<Rightarrow> adapter_config \<Rightarrow> string list \<Rightarrow> ('w, start_result) rprog" where
  "launch m a i c cmd = (let k = key_of a i in
     bind (check (validate_config m a c)) (\<lambda>prepared.
     bind (open_terminal m c) (\<lambda>pty.
     bind (spawn m cmd (snd prepared) c pty) (\<lambda>pid.
     andThen (modify (\<lambda>s. s\<lparr>rt_processes := AList.update k \<lparr>pp_pid = pid, pp_pipes = (pty = None \<and> stream_type c = Some ''stdio''), pp_code = None\<rparr> (rt_processes s)\<rparr>))
    (andThen (case pty of None \<Rightarrow> ret () | Some (master, slave) \<Rightarrow> modify (\<lambda>s. s\<lparr>rt_masters := AList.update k master (rt_masters s)\<rparr>))
    (bind (gets (\<lambda>s. mc_identity m pid (rt_world s))) (\<lambda>who.
     andThen (set_fields (started_fields m a cmd pid who))
       (ret \<lparr>sr_started = True, sr_pid = Some pid, sr_command = cmd, sr_already_running = False\<rparr>))))))))"

lemma adapter_start_eq:
  assumes "adapter_status m (key_of a i) s = (Ret st, t)"
  shows "adapter_start m a i c s = bind (check (build_command m a c)) (\<lambda>cmd.
     if ra_alive st then ret \<lparr>sr_started = False, sr_pid = ra_pid st, sr_command = cmd, sr_already_running = True\<rparr> else launch m a i c cmd) t"
  using assms unfolding adapter_start_def launch_def Let_def bind_def[of "adapter_status m (key_of a i)"] by simp

lemma launch_starts:
  assumes "build_command m a c w = Inr cmd"
  shows "total (quiet (key_of a i) s) (launch m a i c cmd) (started m a c (key_of a i) s) (\<lambda>_. quiet (key_of a i) s)"
proof -
  let ?k = "key_of a i"
  let ?P = "\<lambda>pid t. map_option pp_pid (map_of (rt_processes t) ?k) = Some pid \<and>
     (\<forall>j. j \<noteq> ?k \<longrightarrow> map_of (rt_processes t) j = map_of (rt_processes s) j \<and> map_of (rt_masters t) j = map_of (rt_masters s) j) \<and>
     rt_signals t = rt_signals s"
  show ?thesis
    unfolding launch_def Let_def
    apply (rule hoare_bind[OF quiet_check], rule total_pure, rule hoare_bind[OF quiet_terminal], rule hoare_bind[OF quiet_spawn], rule total_pure)
    subgoal for prepared pty pid
      apply (rule hoare_andThen[where R = "?P pid"], rule hoare_modify, simp add: quiet_def map_of_update)
      apply (rule hoare_andThen[where R = "?P pid"])
       apply (auto intro!: hoare_ret hoare_modify simp: map_of_update split: option.split)[1]
      apply (rule hoare_bind[where R = "\<lambda>_. ?P pid"], rule hoare_gets, simp)
      apply (rule hoare_andThen[where R = "\<lambda>t. ?P pid t \<and> map_of (rt_fields t) ''pid'' = Some (JInt pid)"])
       apply (simp add: set_fields_def hoare_modify started_fields_pid)
      apply (rule hoare_ret)
      using launchedI[OF assms] by (fastforce simp: started_def)
    done
qed



end
