(* ===== verification/Amiga.thy ===== *)
theory Amiga
  imports Files
begin

text \<open>
  What the museum integrations share: \<open>scripts/ubb_integrations/\<close> (\<open>errors.py\<close>, \<open>models.py\<close>, \<open>registry.py\<close>,
  \<open>profiles.py\<close>, \<open>amiga.py\<close>). A path is resolved before it is used, so a \<open>place\<close> is a resolved path; the tree
  has no links.
\<close>

datatype museum_error =
    IntegrationError message
  | UnknownIntegrationError message
  | ArtifactRequiredError message
  | InstallError message
  | ValueFault message
  | ArchiveFault archive_error
  | OSFault message

section \<open>Results\<close>

datatype qualification_status = PASS | FAIL | HUMAN_REQUIRED | SKIP

record qualification_result =
  qr_check :: string
  qr_status :: qualification_status
  qr_detail :: string
  qr_evidence :: "string list"

record install_result =
  il_artifact_id :: string
  il_artifact_sha256 :: string
  il_release_path :: place
  il_live_path :: place
  il_changed :: bool
  il_manual_evidence_required :: "string list"

section \<open>The registry of integrations\<close>

text \<open>An integration by its id.\<close>

type_synonym 'i integrations = "(string, 'i) dict"

fun integration_registry :: "(string \<times> 'i) list \<Rightarrow> 'i integrations \<Rightarrow> museum_error + 'i integrations" where
  "integration_registry [] items = Inr items"
| "integration_registry ((i, x) # xs) items = (if has_key items i then Inl (ValueFault [''duplicate integration id: '', i])
     else integration_registry xs (AList.update i x items))"

definition integration_named :: "'i integrations \<Rightarrow> string \<Rightarrow> museum_error + 'i" where
  "integration_named items i = (case map_of items i of
      None \<Rightarrow> Inl (UnknownIntegrationError [''unknown integration: '', i]) | Some x \<Rightarrow> Inr x)"

definition list_integrations :: "'i integrations \<Rightarrow> 'i list" where
  "list_integrations items = map snd (sort_key fst items)"

section \<open>Machine profiles\<close>

record amiga_asset =
  am_name :: string
  am_classification :: string
  am_description :: string
  am_required :: bool

record amiga_profile =
  ap_model :: string
  ap_cpu :: string
  ap_chipset :: string
  ap_chip_memory_mb :: int
  ap_fast_memory_mb :: int
  ap_serial_host :: string
  ap_serial_port :: int

record canonical_profile =
  cp_id :: string
  cp_machine :: string
  cp_cpu :: string
  cp_chipset :: string
  cp_kickstart :: string
  cp_operating_system :: string
  cp_chip_memory_mb :: int
  cp_fast_memory_mb :: int
  cp_hard_disk_mb :: int
  cp_fs_uae_model :: string
  cp_assets :: "amiga_asset list"

definition private_asset :: "string \<Rightarrow> string \<Rightarrow> amiga_asset" where
  "private_asset n d = \<lparr>am_name = n, am_classification = ''licensed_private'', am_description = d, am_required = True\<rparr>"

definition PROFILES :: "(string, canonical_profile) dict" where
  "PROFILES =
     [(''amiga-a500-k13'', \<lparr>cp_id = ''amiga-a500-k13'', cp_machine = ''Amiga 500'', cp_cpu = ''68000'', cp_chipset = ''OCS'',
        cp_kickstart = ''1.3'', cp_operating_system = ''Workbench/AmigaOS 1.3'', cp_chip_memory_mb = 1, cp_fast_memory_mb = 2,
        cp_hard_disk_mb = 20, cp_fs_uae_model = ''A500'',
        cp_assets = [private_asset ''kickstart'' ''user-supplied Kickstart 1.3 ROM'',
          private_asset ''amigaos_base_hdf'' ''user-supplied Workbench/AmigaOS 1.3 base image'']\<rparr>),
      (''amiga-a1200-os31'', \<lparr>cp_id = ''amiga-a1200-os31'', cp_machine = ''Amiga 1200'', cp_cpu = ''68020'', cp_chipset = ''AGA'',
        cp_kickstart = ''3.1'', cp_operating_system = ''AmigaOS/Workbench 3.1'', cp_chip_memory_mb = 2, cp_fast_memory_mb = 8,
        cp_hard_disk_mb = 100, cp_fs_uae_model = ''A1200'',
        cp_assets = [private_asset ''kickstart'' ''user-supplied Kickstart 3.1 ROM'',
          private_asset ''amigaos_base_hdf'' ''user-supplied AmigaOS 3.1 base image'']\<rparr>)]"

definition get_profile :: "string \<Rightarrow> museum_error + canonical_profile" where
  "get_profile i = (case map_of PROFILES i of
      None \<Rightarrow> Inl (IntegrationError [''unknown canonical Amiga profile: '', i]) | Some p \<Rightarrow> Inr p)"

definition validate_profiles :: "string list \<Rightarrow> string \<Rightarrow> museum_error + unit" where
  "validate_profiles supported dflt =
     (if supported = [] then Inl (IntegrationError [''an Amiga release must declare at least one supported profile''])
      else bindS (mapS get_profile supported) (\<lambda>_.
        if dflt \<notin> set supported then Inl (IntegrationError [''default profile '', dflt, '' is not in supported profiles'']) else Inr ()))"

definition runtime_profile :: "canonical_profile \<Rightarrow> string \<Rightarrow> int \<Rightarrow> amiga_profile" where
  "runtime_profile p host port = \<lparr>ap_model = cp_fs_uae_model p, ap_cpu = cp_cpu p, ap_chipset = cp_chipset p,
     ap_chip_memory_mb = cp_chip_memory_mb p, ap_fast_memory_mb = cp_fast_memory_mb p, ap_serial_host = host, ap_serial_port = port\<rparr>"

section \<open>Assets, images and the emulator's configuration\<close>

fun resolve_from :: "tree \<Rightarrow> (string, place) dict \<Rightarrow> amiga_asset list \<Rightarrow> (string, place) dict \<Rightarrow> museum_error + (string, place) dict" where
  "resolve_from t given [] resolved = Inr resolved"
| "resolve_from t given (r # rs) resolved = (case map_of given (am_name r) of
      None \<Rightarrow> if am_required r
        then Inl (InstallError [''missing required '', am_name r, '': '', am_description r, '' ('', am_classification r, '')''])
        else resolve_from t given rs resolved
    | Some p \<Rightarrow> if \<not> is_file t p
        then Inl (InstallError [''invalid '', am_name r, '' asset: expected a regular, non-symlink file''])
        else resolve_from t given rs (AList.update (am_name r) p resolved))"

definition resolve_assets :: "tree \<Rightarrow> (string, place) dict \<Rightarrow> amiga_asset list \<Rightarrow> museum_error + (string, place) dict" where
  "resolve_assets t given requirements = resolve_from t given requirements []"

type_synonym 'a tprog = "(tree, museum_error, 'a) prog"

abbreviation step_files :: "(tree \<Rightarrow> message + tree) \<Rightarrow> unit tprog" where
  "step_files \<equiv> file_step OSFault"

definition content_of :: "tree \<Rightarrow> place \<Rightarrow> string" where
  "content_of t p = (case map_of t p of Some (File c) \<Rightarrow> c | _ \<Rightarrow> [])"

definition beside :: "place \<Rightarrow> string \<Rightarrow> place" where
  "beside p n = butlast p @ [n]"

definition drop_file :: "place \<Rightarrow> tree \<Rightarrow> tree" where
  "drop_file p t = (if is_file t p then AList.delete p t else t)"

text \<open>\<open>tmp.write(...)\<close> and \<open>os.replace(tmp, path)\<close>\<close>

definition write_via :: "place \<Rightarrow> place \<Rightarrow> string \<Rightarrow> unit tprog" where
  "write_via tmp p c = andThen (step_files (put_file tmp c)) (step_files (replace_file tmp p))"

definition copy_working_image :: "string \<Rightarrow> place \<Rightarrow> place \<Rightarrow> bool tprog" where
  "copy_working_image pid golden working =
     bind (gets (\<lambda>t. is_file t golden)) (\<lambda>ok.
     andThen (raise_if (\<not> ok) (InstallError [''qualified golden image is missing or unsafe'']))
    (andThen (step_files (make_dirs (butlast working)))
    (bind (gets (\<lambda>t. has_key t working)) (\<lambda>there. if there then ret False
     else let tmp = beside working (''.'' @ last working @ ''.'' @ pid @ ''.tmp'') in
       andThen (finally_do (bind (gets (\<lambda>t. content_of t golden)) (write_via tmp working)) (drop_file tmp)) (ret True)))))"

definition path_text :: "place \<Rightarrow> string" where
  "path_text p = CHR ''/'' # join_with (CHR ''/'') p"

definition fs_uae_config :: "(int \<Rightarrow> string) \<Rightarrow> amiga_profile \<Rightarrow> place \<Rightarrow> place \<Rightarrow> string" where
  "fs_uae_config show p kickstart working_hdf = join_with line_feed (map (\<lambda>(k, v). k @ '' = '' @ v)
     [(''amiga_model'', ap_model p), (''chip_memory'', show (ap_chip_memory_mb p * 1024)),
      (''fast_memory'', show (ap_fast_memory_mb p * 1024)), (''hard_drive_0'', path_text working_hdf),
      (''kickstart_file'', path_text kickstart),
      (''serial_port'', ''tcp://'' @ ap_serial_host p @ '':'' @ show (ap_serial_port p) @ ''/wait'')]) @ [line_feed]"

definition write_fs_uae_config :: "(int \<Rightarrow> string) \<Rightarrow> place \<Rightarrow> amiga_profile \<Rightarrow> place \<Rightarrow> place \<Rightarrow> unit tprog" where
  "write_fs_uae_config show p profile kickstart working_hdf =
     andThen (step_files (make_dirs (butlast p)))
       (write_via (beside p (''.'' @ last p @ ''.tmp'')) p (fs_uae_config show profile kickstart working_hdf))"

section \<open>What they leave\<close>

text \<open>Every file of \<open>s\<close> but those of \<open>ps\<close> is in \<open>t\<close> with the same content.\<close>

definition keeps_files :: "place set \<Rightarrow> tree \<Rightarrow> tree \<Rightarrow> bool" where
  "keeps_files ps s t \<longleftrightarrow> (\<forall>p c. p \<notin> ps \<longrightarrow> map_of s p = Some (File c) \<longrightarrow> map_of t p = Some (File c))"

lemma keeps_files_refl [simp]: "keeps_files ps s s"
  by (simp add: keeps_files_def)

lemma keeps_files_trans: "keeps_files ps s t \<Longrightarrow> keeps_files qs t u \<Longrightarrow> keeps_files (ps \<union> qs) s u"
  by (auto simp: keeps_files_def)

lemma keeps_make_dirs: "keeps_files ps s t \<Longrightarrow> make_dirs q t = Inr u \<Longrightarrow> keeps_files ps s u"
  using make_dirs_effect(1)[of q t u] by (auto simp: keeps_files_def)

lemma keeps_put_file: "keeps_files ps s t \<Longrightarrow> put_file q c t = Inr u \<Longrightarrow> q \<in> ps \<or> (\<forall>c. map_of s q \<noteq> Some (File c)) \<Longrightarrow> keeps_files ps s u"
  by (drule put_file_Inr) (auto simp: keeps_files_def)

lemma keeps_replace: "keeps_files ps s t \<Longrightarrow> replace_file a b t = Inr u \<Longrightarrow> a \<in> ps \<Longrightarrow> a \<noteq> b \<Longrightarrow>
  b \<in> ps \<or> (\<forall>c. map_of s b \<noteq> Some (File c)) \<Longrightarrow> keeps_files ps s u"
  by (drule replace_file_Inr) (auto simp: keeps_files_def)

lemma keeps_drop_file: "keeps_files ps s t \<Longrightarrow> p \<in> ps \<Longrightarrow> keeps_files ps s (drop_file p t)"
  by (auto simp: keeps_files_def drop_file_def)

lemma hoare_make_dirs: "hoare b (keeps_files ps s) (step_files (make_dirs q)) (\<lambda>_. keeps_files ps s) (\<lambda>_. keeps_files ps s)"
  by (rule hoare_file_step) (auto intro: keeps_make_dirs)

lemma hoare_write_via:
  assumes "tmp \<in> ps" "tmp \<noteq> p" "p \<in> ps \<or> (\<forall>c. map_of s p \<noteq> Some (File c))"
  shows "hoare b (keeps_files ps s) (write_via tmp p c) (\<lambda>_. keeps_files ps s) (\<lambda>_. keeps_files ps s)"
  unfolding write_via_def
  by (rule hoare_andThen[where R = "keeps_files ps s"]; rule hoare_file_step) (use assms in \<open>auto intro: keeps_put_file keeps_replace\<close>)

lemma beside_neq: "p \<noteq> [] \<Longrightarrow> n \<noteq> last p \<Longrightarrow> beside p n \<noteq> p"
  unfolding beside_def by (metis append_butlast_last_id last_snoc)

end
