(* ===== verification/Integrations.thy ===== *)
theory Integrations
  imports Amiga Archive_Facts
begin

text \<open>
  The museum integrations: \<open>integrations/bbs/amiexpress\<close>, \<open>abbs\<close> and \<open>mystic\<close> over the preservation archive's model.
  The installation root holds images and trees (\<open>si_tree\<close>), the qualification records and the deployment document, which
  are JSON files that only the integrations write and are kept as values. The extractors are arguments; the installer of
  Mystic, which runs a program of the distribution and arranges symbolic links, is not modelled.
\<close>

section \<open>State\<close>

record deployments =
  dp_current :: "string option"
  dp_previous :: "string option"
  dp_candidates :: "string list"

record site =
  si_archive :: archive
  si_tree :: tree
  si_qualified :: "(string, qualification_result list) dict"   \<comment> \<open>\<open>qualification/<name>.json\<close>\<close>
  si_deployment :: "deployments option"

type_synonym 'a sprog = "(site, museum_error, 'a) prog"

definition in_archive :: "'a aprog \<Rightarrow> 'a sprog" where
  "in_archive m = (\<lambda>s. case m (si_archive s) of
      (Ret x, a) \<Rightarrow> (Ret x, s\<lparr>si_archive := a\<rparr>)
    | (Raise e, a) \<Rightarrow> (Raise (ArchiveFault e), s\<lparr>si_archive := a\<rparr>)
    | (NoFuel, a) \<Rightarrow> (NoFuel, s\<lparr>si_archive := a\<rparr>))"

definition in_tree :: "'a tprog \<Rightarrow> 'a sprog" where
  "in_tree m = (\<lambda>s. let (r, t) = m (si_tree s) in (r, s\<lparr>si_tree := t\<rparr>))"

definition lift_museum :: "museum_error + 'a \<Rightarrow> 'a sprog" where
  "lift_museum x = (case x of Inl e \<Rightarrow> raise e | Inr a \<Rightarrow> ret a)"

text \<open>Both kinds of release. ABBS declares the three digests, AmiExpress may leave some out.\<close>

record release =
  rl_key :: string
  rl_version :: string
  rl_artifact_id :: string
  rl_filename :: string
  rl_source_url :: string
  rl_sha256 :: "string option"
  rl_sha1 :: "string option"
  rl_md5 :: "string option"
  rl_size :: "int option"

record amix_release = release +
  rl_channel :: string
  rl_stability :: string
  rl_purpose :: string
  rl_source_tag :: "string option"
  rl_source_commit :: "string option"
  rl_github_digest :: "string option"
  rl_published_at :: "string option"
  rl_upstream_updated_at :: "string option"

record abbs_release = release +
  rl_supported_profiles :: "string list"
  rl_default_profile :: string
  rl_rights_status :: string
  rl_rights_evidence :: "string list"
  rl_provenance_notes :: string

section \<open>Acquisition\<close>

record acquisition =
  aq_artifact_id :: string
  aq_source_url :: string
  aq_source_name :: string
  aq_original_filename :: "string option"
  aq_provenance :: fields
  aq_ingest :: ingest

text \<open>The local file, by its name, with what reading it gives; or else the response of the server.\<close>

definition acquire_with :: "tools \<Rightarrow> acquisition \<Rightarrow> (string \<times> read_result list option) option \<Rightarrow> response option \<Rightarrow> json sprog" where
  "acquire_with kit q local remote = in_archive (case local of
      Some (name, opened) \<Rightarrow> import_artifact kit (aq_artifact_id q) (aq_source_url q) (aq_source_name q) (aq_original_filename q) name opened
        (aq_provenance q) (aq_ingest q)
    | None \<Rightarrow> acquire_http kit (aq_artifact_id q) (aq_source_url q) (aq_source_name q) (aq_original_filename q) remote
        (aq_provenance q) (aq_ingest q))"

definition opt_json :: "string option \<Rightarrow> json" where
  "opt_json x = (case x of None \<Rightarrow> JNull | Some s \<Rightarrow> JStr s)"

text \<open>\<open>json.dumps\<close> of \<open>str(release.source_commit)\<close>\<close>

definition str_of :: "string option \<Rightarrow> string" where
  "str_of x = (case x of None \<Rightarrow> ''None'' | Some s \<Rightarrow> s)"

section \<open>AmiExpress\<close>

definition amix_releases :: "amix_release list" where
  "amix_releases =
     [\<lparr>rl_key = ''5.6.1'', rl_version = ''5.6.1'', rl_artifact_id = ''amiexpress-amiga-5.6.1-original'', rl_filename = ''Amix561.lha'',
        rl_source_url = ''https://aminet.net/comm/amiex/Amix561.lha'',
        rl_sha256 = Some ''f49d051222a4a951597d241469dab24adb198c6849cdb111734fdd8c03571f4d'',
        rl_sha1 = Some ''ee7986a0d89e15e63c066263fb49884af3f0791d'', rl_md5 = Some ''f4a8d5794bfebaeb359d85d78fca3ae6'', rl_size = Some 1161960,
        rl_channel = ''stable'', rl_stability = ''reference'', rl_purpose = ''museum_reference'', rl_source_tag = None, rl_source_commit = None,
        rl_github_digest = None, rl_published_at = None, rl_upstream_updated_at = None\<rparr>,
      \<lparr>rl_key = ''development-0f344713f30d'', rl_version = ''dev-build'', rl_artifact_id = ''amiexpress-dev-0f344713f30d'',
        rl_filename = ''amiExpress-nightly0f344713f30da7b6a4629643e32b50094cb2bd0b.lha'',
        rl_source_url = ''https://github.com/dmcoles/AmiExpress/releases/download/dev-build/amiExpress-nightly0f344713f30da7b6a4629643e32b50094cb2bd0b.lha'',
        rl_sha256 = Some ''23459a56b086a28f9cad1da59691f0867c2e15f16bc37417723fd10207e42533'', rl_sha1 = None, rl_md5 = None, rl_size = Some 456145,
        rl_channel = ''development'', rl_stability = ''prerelease'', rl_purpose = ''current_operational'', rl_source_tag = Some ''dev-build'',
        rl_source_commit = Some ''0f344713f30da7b6a4629643e32b50094cb2bd0b'',
        rl_github_digest = Some ''sha256:23459a56b086a28f9cad1da59691f0867c2e15f16bc37417723fd10207e42533'',
        rl_published_at = Some ''2023-09-12T10:33:45Z'', rl_upstream_updated_at = Some ''2026-08-10T15:34:27Z''\<rparr>]"

definition amix_default_release :: string where
  "amix_default_release = ''5.6.1''"

definition amix_current_release_key :: string where
  "amix_current_release_key = ''development-0f344713f30d''"

definition amix_manual_evidence :: "string list" where
  "amix_manual_evidence = [''amiexpress_installed'', ''base_configuration_completed'', ''golden_image_qualified'']"

definition amix_profile :: "museum_error + canonical_profile" where
  "amix_profile = bindS (validate_profiles [''amiga-a1200-os31''] ''amiga-a1200-os31'') (\<lambda>_. get_profile ''amiga-a1200-os31'')"

definition amix_select_release :: "string option \<Rightarrow> museum_error + amix_release" where
  "amix_select_release key = (case find (\<lambda>r. rl_key r = (if truthy key then the key else amix_default_release)) amix_releases of
      None \<Rightarrow> Inl (ArtifactRequiredError [''unknown AmiExpress release: '', str_of key]) | Some r \<Rightarrow> Inr r)"

definition amix_releases_by_channel :: "string option \<Rightarrow> amix_release list" where
  "amix_releases_by_channel channel = filter (\<lambda>r. channel = None \<or> channel = Some (rl_channel r)) amix_releases"

definition amix_release_for_artifact :: "string \<Rightarrow> museum_error + amix_release" where
  "amix_release_for_artifact i = (case find (\<lambda>r. rl_artifact_id r = i) amix_releases of
      None \<Rightarrow> Inl (ArtifactRequiredError [''artifact is not a known AmiExpress release: '', i]) | Some r \<Rightarrow> Inr r)"

definition amix_rights_evidence :: string where
  "amix_rights_evidence = ''The bundled read_me grants MIT terms for Darren Coles's rewrite, but the same archive includes Escom AG's licensed Installer and historical LightSpeed documentation. The mixed archive is therefore preservation-only until components are independently reviewed; local installation is allowed, redistribution and publication remain denied.''"

definition amix_args :: "amix_release \<Rightarrow> string option \<Rightarrow> bool \<Rightarrow> acquisition" where
  "amix_args r url private = (let development = rl_channel r = ''development'' in
     \<lparr>aq_artifact_id = rl_artifact_id r, aq_source_url = (if truthy url then the url else rl_source_url r),
      aq_source_name = (if development then ''GitHub dmcoles/AmiExpress dev-build'' else ''Aminet comm/amiex''),
      aq_original_filename = Some (rl_filename r),
      aq_provenance = (if development then
         [(''release_channel'', JStr (rl_channel r)), (''stability'', JStr (rl_stability r)), (''purpose'', JStr (rl_purpose r)),
          (''source_tag'', opt_json (rl_source_tag r)), (''source_commit'', opt_json (rl_source_commit r)),
          (''github_digest'', opt_json (rl_github_digest r)), (''published_at'', opt_json (rl_published_at r)),
          (''upstream_updated_at'', opt_json (rl_upstream_updated_at r))]
        else [(''release_channel'', JStr (rl_channel r)), (''purpose'', JStr (rl_purpose r))]),
      aq_ingest = \<lparr>in_expected_sha256 = (if private then None else rl_sha256 r), in_expected_sha1 = (if private then None else rl_sha1 r),
        in_expected_md5 = (if private then None else rl_md5 r), in_max_bytes = 67108864,
        in_rights_status = (if private then ''licensed_private'' else ''preservation_only''), in_install_locally = True,
        in_redistribute_original = False, in_publish = False, in_no_owner_export = False, in_rights_evidence = Some [amix_rights_evidence],
        in_software_family = Some ''amiexpress'', in_version = Some (rl_version r), in_platform = Some ''m68k-amigaos'',
        in_notes = Some (if development then ''Pinned GitHub dev-build release; tag=dev-build, source_commit='' @ str_of (rl_source_commit r) @ ''.''
          else ''AmiExpress BBS system redeveloped in E; Aminet comm/amiex release 5.6.1.'')\<rparr>\<rparr>)"

definition amix_acquire :: "tools \<Rightarrow> (string \<times> read_result list option) option \<Rightarrow> response option \<Rightarrow> string option \<Rightarrow> string option
    \<Rightarrow> string option \<Rightarrow> bool \<Rightarrow> json sprog" where
  "amix_acquire kit local remote url artifact_id key private =
     bind (lift_museum (case artifact_id of None \<Rightarrow> amix_select_release key | Some i \<Rightarrow> amix_release_for_artifact i)) (\<lambda>r.
     acquire_with kit (amix_args r url private) local remote)"

text \<open>\<open>metadata["rights"].get(k)\<close>; the rights of a valid document are Booleans.\<close>

definition allows :: "json \<Rightarrow> string \<Rightarrow> bool" where
  "allows metadata k \<longleftrightarrow> truth (part metadata [''rights'', k])"

definition amix_accepts :: "amix_release \<Rightarrow> json \<Rightarrow> museum_error + unit" where
  "amix_accepts r metadata = first_error
     [(part metadata [''artifact'', ''software_family''] \<noteq> JStr ''amiexpress'' \<or> part metadata [''artifact'', ''role''] \<noteq> JStr ''preservation_original'',
       ArtifactRequiredError [''AmiExpress requires a classified preservation original'']),
      (\<not> allows metadata ''install_locally'', ArtifactRequiredError [''rights do not permit local installation'']),
      (allows metadata ''redistribute_original'' \<or> allows metadata ''publish_to_bbs_filebase'',
       ArtifactRequiredError [''AmiExpress redistribution/publication is denied without explicit evidence'']),
      (truthy (rl_sha256 r) \<and> part metadata [''artifact'', ''sha256''] \<noteq> opt_json (rl_sha256 r) \<and>
         part metadata [''rights'', ''status''] \<noteq> JStr ''licensed_private'',
       ArtifactRequiredError [''artifact does not match the selected AmiExpress release''])]"

definition amix_verify :: "tools \<Rightarrow> string \<Rightarrow> json sprog" where
  "amix_verify kit i = bind (lift_museum (amix_release_for_artifact i)) (\<lambda>r.
     bind (in_archive (verify_one kit i)) (\<lambda>metadata.
     andThen (lift_museum (amix_accepts r metadata)) (ret metadata)))"

section \<open>ABBS\<close>

definition abbs_releases :: "abbs_release list" where
  "abbs_releases =
     [\<lparr>rl_key = ''3.2-999'', rl_version = ''3.2'', rl_artifact_id = ''abbs-amiga-3.2-999-original'', rl_filename = ''ABBS320_999.lha'',
        rl_source_url = ''https://aminet.net/comm/bbs/ABBS320_999.lha'',
        rl_sha256 = Some ''5e9fd4cbf871a2bbd4579a3f9b35a0cd2187676cab8886b16adbfe8b038380e4'',
        rl_sha1 = Some ''742354e4a4e68c28a5ec80622d5b844aab43aeca'', rl_md5 = Some ''ac5c8633bb33f936ab38535d0c994178'', rl_size = Some 751581,
        rl_supported_profiles = [''amiga-a1200-os31''], rl_default_profile = ''amiga-a1200-os31'', rl_rights_status = ''freeware'',
        rl_rights_evidence = [''Public archive availability is recorded, but no explicit redistribution licence was found; redistribution remains denied.''],
        rl_provenance_notes = ''''\<rparr>,
      \<lparr>rl_key = ''1.1'', rl_version = ''1.1'', rl_artifact_id = ''abbs-amiga-1.1-original'', rl_filename = ''abbs1_1.lha'',
        rl_source_url = ''https://aminet.net/comm/bbs/abbs1_1.lha'',
        rl_sha256 = Some ''bd7e857788ffb326533d64f096535c183377a33b5d68ff3172a8eeb87ef453a'',
        rl_sha1 = Some ''fa82702ac2934dd949bbf2e948cd0390e7847873'', rl_md5 = Some ''6904f29a69eb34dd958b95f3e6fc3bcb'', rl_size = Some 369000,
        rl_supported_profiles = [''amiga-a1200-os31''], rl_default_profile = ''amiga-a1200-os31'', rl_rights_status = ''freeware'',
        rl_rights_evidence = [''Aminet describes comm/bbs/abbs1_1.lha as the full version of ABBS v1.1. Public availability does not establish redistribution permission, so publication remains denied.''],
        rl_provenance_notes = ''Aminet comm/bbs/abbs1_1.lha; published 1997-11-10; exact release requirements require operator verification.''\<rparr>]"

definition abbs_default_release :: string where
  "abbs_default_release = ''3.2-999''"

definition abbs_manual_evidence :: "string list" where
  "abbs_manual_evidence = [''abbs_installed'', ''confignode_completed'', ''config_bbs_completed'', ''golden_image_qualified'']"

definition abbs_profile_for :: "abbs_release \<Rightarrow> museum_error + canonical_profile" where
  "abbs_profile_for r = bindS (validate_profiles (rl_supported_profiles r) (rl_default_profile r)) (\<lambda>_. get_profile (rl_default_profile r))"

definition abbs_select_release :: "string option \<Rightarrow> museum_error + abbs_release" where
  "abbs_select_release key = (case find (\<lambda>r. rl_key r = (if truthy key then the key else abbs_default_release)) abbs_releases of
      None \<Rightarrow> Inl (ArtifactRequiredError [''unknown ABBS release: '', str_of key]) | Some r \<Rightarrow> Inr r)"

definition abbs_release_for_artifact :: "string \<Rightarrow> museum_error + abbs_release" where
  "abbs_release_for_artifact i = (case find (\<lambda>r. rl_artifact_id r = i) abbs_releases of
      None \<Rightarrow> Inl (ArtifactRequiredError [''artifact is not a known ABBS release: '', i]) | Some r \<Rightarrow> Inr r)"

definition abbs_args :: "abbs_release \<Rightarrow> string option \<Rightarrow> bool \<Rightarrow> acquisition" where
  "abbs_args r url private =
     \<lparr>aq_artifact_id = rl_artifact_id r, aq_source_url = (if truthy url then the url else rl_source_url r), aq_source_name = ''Aminet comm/bbs'',
      aq_original_filename = Some (rl_filename r), aq_provenance = [],
      aq_ingest = \<lparr>in_expected_sha256 = (if private then None else rl_sha256 r), in_expected_sha1 = (if private then None else rl_sha1 r),
        in_expected_md5 = (if private then None else rl_md5 r), in_max_bytes = 67108864,
        in_rights_status = (if private then ''licensed_private'' else rl_rights_status r), in_install_locally = True,
        in_redistribute_original = False, in_publish = False, in_no_owner_export = False, in_rights_evidence = Some (rl_rights_evidence r),
        in_software_family = Some ''abbs'', in_version = Some (rl_version r), in_platform = Some ''m68k-amigaos'',
        in_notes = Some (if rl_provenance_notes r \<noteq> [] then rl_provenance_notes r
          else ''ABBS family distribution; original release identity is recorded separately from derived media.'')\<rparr>\<rparr>"

definition abbs_acquire :: "tools \<Rightarrow> (string \<times> read_result list option) option \<Rightarrow> response option \<Rightarrow> string option \<Rightarrow> string option
    \<Rightarrow> string option \<Rightarrow> bool \<Rightarrow> json sprog" where
  "abbs_acquire kit local remote url artifact_id key private =
     bind (lift_museum (case artifact_id of None \<Rightarrow> abbs_select_release key | Some i \<Rightarrow> abbs_release_for_artifact i)) (\<lambda>r.
     acquire_with kit (abbs_args r url private) local remote)"

definition abbs_accepts :: "abbs_release \<Rightarrow> json \<Rightarrow> museum_error + unit" where
  "abbs_accepts r metadata = first_error
     [(part metadata [''artifact'', ''software_family''] \<noteq> JStr ''abbs'' \<or> part metadata [''artifact'', ''role''] \<noteq> JStr ''preservation_original'',
       ArtifactRequiredError [''ABBS installation requires a classified preservation original'']),
      (allows metadata ''publish_to_bbs_filebase'' \<or> allows metadata ''redistribute_original'',
       ArtifactRequiredError [''ABBS reference rights must remain deny-by-default'']),
      (\<not> allows metadata ''install_locally'', ArtifactRequiredError [''rights do not permit local installation'']),
      (part metadata [''artifact'', ''sha256''] \<noteq> opt_json (rl_sha256 r) \<and> part metadata [''rights'', ''status''] \<noteq> JStr ''licensed_private'',
       ArtifactRequiredError [''artifact does not match the selected authentic release''])]"

definition abbs_verify :: "tools \<Rightarrow> string \<Rightarrow> json sprog" where
  "abbs_verify kit i = bind (lift_museum (abbs_release_for_artifact i)) (\<lambda>r.
     bind (in_archive (verify_one kit i)) (\<lambda>metadata.
     andThen (lift_museum (abbs_accepts r metadata)) (ret metadata)))"

end
