(* ===== verification/Integrations_Install.thy ===== *)
theory Integrations_Install
  imports Integrations
begin

text \<open>
  Preparing, installing and qualifying the Amiga integrations, promoting AmiExpress builds, and what Mystic shares with
  them. ABBS and AmiExpress have the same preparation and installation but for their names, which are arguments of
  \<open>host_prepare\<close> and \<open>host_install\<close>.
\<close>

section \<open>Extraction\<close>

record tar_member =
  tm_name :: string
  tm_is_dir :: bool
  tm_is_link :: bool      \<comment> \<open>symbolic or hard\<close>
  tm_content :: string

text \<open>What the extractor program leaves in an empty directory.\<close>

datatype extraction = Missing | Exited int | Extracted tree

record extractors =
  ex_tar :: "string \<Rightarrow> tar_member list option"     \<comment> \<open>\<open>None\<close>: \<open>tarfile.is_tarfile\<close> is false\<close>
  ex_lha :: "string \<Rightarrow> extraction"
  ex_bundle :: "tree \<Rightarrow> string"                    \<comment> \<open>the deterministic tar file of a tree\<close>

definition unsafe_member :: "tar_member \<Rightarrow> bool" where
  "unsafe_member m \<longleftrightarrow> starts_with ''/'' (tm_name m) \<or> ''..'' \<in> set (split_on (CHR ''/'') (tm_name m)) \<or> tm_is_link m"

definition member_place :: "tar_member \<Rightarrow> place" where
  "member_place m = filter (\<lambda>x. x \<noteq> [] \<and> x \<noteq> ''.'') (split_on (CHR ''/'') (tm_name m))"

text \<open>\<open>archive.extractall(destination, filter="data")\<close> into an empty directory\<close>

fun extract_tar :: "tar_member list \<Rightarrow> tree \<Rightarrow> message + tree" where
  "extract_tar [] t = Inr t"
| "extract_tar (m # ms) t = bindS (if tm_is_dir m then make_dirs (member_place m) t
     else bindS (make_dirs (butlast (member_place m)) t) (put_file (member_place m) (tm_content m))) (extract_tar ms)"

definition extract_install :: "extractors \<Rightarrow> string \<Rightarrow> museum_error + tree" where
  "extract_install ex bytes = (case ex_tar ex bytes of
      Some ms \<Rightarrow> if list_ex unsafe_member ms then Inl (InstallError [''archive contains unsafe paths or links''])
        else (case extract_tar ms [] of Inl e \<Rightarrow> Inl (OSFault e) | Inr t \<Rightarrow> Inr t)
    | None \<Rightarrow> (case ex_lha ex bytes of
        Missing \<Rightarrow> Inl (InstallError [''preparation requires the lha extractor''])
      | Exited n \<Rightarrow> Inl (InstallError [''lha extractor exited''])
      | Extracted t \<Rightarrow> Inr t))"

text \<open>\<open>shutil.copytree(extracted, workspace, dirs_exist_ok=True)\<close>\<close>

fun copy_tree :: "(place \<times> node) list \<Rightarrow> place \<Rightarrow> tree \<Rightarrow> message + tree" where
  "copy_tree [] q t = Inr t"
| "copy_tree ((p, Folder) # ns) q t = bindS (make_dirs (q @ p) t) (copy_tree ns q)"
| "copy_tree ((p, File c) # ns) q t = bindS (make_dirs (q @ butlast p) t) (\<lambda>u. bindS (put_file (q @ p) c u) (copy_tree ns q))"

section \<open>Preparation\<close>

definition source_bytes :: "string \<Rightarrow> string sprog" where
  "source_bytes d = in_archive (bind (lift_archive (object_key d)) (\<lambda>key.
     bind (gets (\<lambda>a. map_of (ar_objects a) key)) (\<lambda>found. case found of
         None \<Rightarrow> raise (archive_error.OSError [''No such file or directory'']) | Some b \<Rightarrow> ret b)))"

text \<open>\<open>except (FileNotFoundError, ArchiveError)\<close>\<close>

fun archive_failure :: "museum_error \<Rightarrow> bool" where
  "archive_failure (ArchiveFault e) = is_archive_error e"
| "archive_failure _ = False"

text \<open>The reads of a file. It is read a megabyte at a time, which only its length matters for.\<close>

definition file_reads :: "string \<Rightarrow> read_result list" where
  "file_reads b = (if b = [] then [] else [Data b])"

definition install_tree :: "string \<Rightarrow> string" where
  "install_tree i = i @ ''-install-tree''"

definition derived_ingest :: "ingest \<Rightarrow> ingest" where
  "derived_ingest a = a\<lparr>in_expected_sha256 := None, in_expected_sha1 := None, in_expected_md5 := None\<rparr>"

definition host_prepare :: "tools \<Rightarrow> extractors \<Rightarrow> json sprog \<Rightarrow> (museum_error + acquisition) \<Rightarrow> string \<Rightarrow> string \<Rightarrow> string \<Rightarrow> string
    \<Rightarrow> place \<Rightarrow> string option \<Rightarrow> json sprog" where
  "host_prepare kit ex verify args bundle_name action note i root derived =
     bind verify (\<lambda>metadata.
     let digest = text_of (part metadata [''artifact'', ''sha256'']);
         derived_id = (if truthy derived then the derived else install_tree i);
         workspace = root @ [''installation'', digest] in
     bind (attempt (in_archive (verify_one kit derived_id))) (\<lambda>r. case r of
       Inr doc \<Rightarrow> ret doc
     | Inl e \<Rightarrow> if \<not> archive_failure e then raise e else
         andThen (in_tree (step_files (make_dirs workspace)))
        (bind (source_bytes digest) (\<lambda>bytes.
         bind (lift_museum (extract_install ex bytes)) (\<lambda>extracted.
         andThen (in_tree (step_files (copy_tree extracted workspace)))
        (bind (lift_museum args) (\<lambda>q.
         bind (in_archive (derive kit derived_id [i] ''derived_install_media'' action (Some ''lha/tar'') (Some bundle_name) bundle_name
           (Some (file_reads (ex_bundle ex extracted))) ((derived_ingest (aq_ingest q))\<lparr>in_notes := Some note\<rparr>))) (\<lambda>result.
         bind (source_bytes digest) (\<lambda>after.
         andThen (raise_if (sha256 kit after \<noteq> sha256 kit bytes) (InstallError [''preservation object changed during preparation'']))
         (ret result))))))))))"

definition amix_prepare :: "tools \<Rightarrow> extractors \<Rightarrow> string \<Rightarrow> place \<Rightarrow> string option \<Rightarrow> json sprog" where
  "amix_prepare kit ex i root derived = host_prepare kit ex (amix_verify kit i)
     (bindS (amix_release_for_artifact i) (\<lambda>r. Inr (amix_args r None False))) ''amiexpress-install-tree.tar''
     ''extract AmiExpress archive into deterministic installation tree'' ''Host preparation only; Workbench installation remains assisted.'' i root derived"

definition abbs_prepare :: "tools \<Rightarrow> extractors \<Rightarrow> string \<Rightarrow> place \<Rightarrow> string option \<Rightarrow> json sprog" where
  "abbs_prepare kit ex i root derived = host_prepare kit ex (abbs_verify kit i)
     (bindS (abbs_release_for_artifact i) (\<lambda>r. Inr (abbs_args r None False))) ''abbs-install-tree.tar''
     ''extract LHA into deterministic installation tree'' ''Host-side preparation only; Amiga installation remains assisted.'' i root derived"

section \<open>Installation\<close>

text \<open>The golden image is made once, from the operator's base image, when the evidence says so.\<close>

definition make_golden :: "place \<Rightarrow> place \<Rightarrow> string list \<Rightarrow> unit tprog" where
  "make_golden golden base evidence = bind (gets (\<lambda>t. has_key t golden)) (\<lambda>there.
     onlyif (''golden_image_qualified'' \<in> set evidence \<and> \<not> there)
       (bind (gets (\<lambda>t. content_of t base)) (\<lambda>c. step_files (put_file golden c))))"

definition host_install :: "tools \<Rightarrow> json sprog \<Rightarrow> json sprog \<Rightarrow> (museum_error + canonical_profile) \<Rightarrow> string \<Rightarrow> int \<Rightarrow> string list
    \<Rightarrow> string \<Rightarrow> place \<Rightarrow> (string, place) dict \<Rightarrow> string list \<Rightarrow> install_result sprog" where
  "host_install kit verify prepare profile name port manual i root given evidence =
     bind verify (\<lambda>metadata.
     andThen prepare
    (bind (lift_museum profile) (\<lambda>prof.
     bind (gets si_tree) (\<lambda>t.
     bind (lift_museum (resolve_assets t given (cp_assets prof))) (\<lambda>resolved.
     let golden = root @ [''golden'', name @ ''.hdf'']; working = root @ [''live'', name @ ''-working.hdf''] in
     andThen (in_tree (step_files (make_dirs (butlast golden))))
    (andThen (in_tree (make_golden golden (the (map_of resolved ''amigaos_base_hdf'')) evidence))
    (bind (gets (\<lambda>s. has_key (si_tree s) golden)) (\<lambda>golden_there.
     bind (if golden_there then in_tree (copy_working_image (process_id kit) golden working) else ret False) (\<lambda>changed.
     andThen (onlyif golden_there (in_tree (write_fs_uae_config (show_int kit) (root @ [''runtime'', name @ ''.fs-uae''])
        (runtime_profile prof ''127.0.0.1'' port) (the (map_of resolved ''kickstart'')) working)))
     (ret \<lparr>il_artifact_id = i, il_artifact_sha256 = text_of (part metadata [''artifact'', ''sha256'']), il_release_path = golden,
        il_live_path = working, il_changed = changed, il_manual_evidence_required = manual\<rparr>))))))))))"

definition amix_install :: "tools \<Rightarrow> extractors \<Rightarrow> string \<Rightarrow> place \<Rightarrow> (string, place) dict \<Rightarrow> string list \<Rightarrow> install_result sprog" where
  "amix_install kit ex i root given evidence = host_install kit (amix_verify kit i) (amix_prepare kit ex i root None) amix_profile
     ''amiexpress'' 6403 amix_manual_evidence i root given evidence"

definition abbs_install :: "tools \<Rightarrow> extractors \<Rightarrow> string \<Rightarrow> place \<Rightarrow> (string, place) dict \<Rightarrow> string list \<Rightarrow> install_result sprog" where
  "abbs_install kit ex i root given evidence = host_install kit (abbs_verify kit i) (abbs_prepare kit ex i root None)
     (bindS (abbs_release_for_artifact i) abbs_profile_for) ''abbs'' 6402 abbs_manual_evidence i root given evidence"

section \<open>Qualification\<close>

definition amix_configure :: "string list \<Rightarrow> qualification_result" where
  "amix_configure evidence = \<lparr>qr_check = ''assisted_amiexpress_install'',
     qr_status = (if list_all (\<lambda>x. x \<in> set evidence) amix_manual_evidence then PASS else HUMAN_REQUIRED),
     qr_detail = ''Install the prepared tree in Workbench, complete base AmiExpress configuration, remove private data, and approve a golden image.'',
     qr_evidence = evidence\<rparr>"

definition abbs_configure :: "string list \<Rightarrow> qualification_result" where
  "abbs_configure evidence = \<lparr>qr_check = ''assisted_amiga_install'',
     qr_status = (if list_all (\<lambda>x. x \<in> set evidence) abbs_manual_evidence then PASS else HUMAN_REQUIRED),
     qr_detail = ''Install from installation workspace in AmigaOS, run ConfigNode for serial.device nullmodem mode, then Config BBS; preserve a secret-free golden HDF.'',
     qr_evidence = evidence\<rparr>"

definition finding :: "string \<Rightarrow> qualification_status \<Rightarrow> string \<Rightarrow> qualification_result" where
  "finding check status detail = \<lparr>qr_check = check, qr_status = status, qr_detail = detail, qr_evidence = []\<rparr>"

text \<open>\<open>observations.get(check)\<close>\<close>

definition observed :: "(string, bool) dict \<Rightarrow> string \<Rightarrow> qualification_result" where
  "observed observations check = (case map_of observations check of
      Some True \<Rightarrow> finding check PASS ''observed''
    | Some False \<Rightarrow> finding check FAIL ''observed''
    | None \<Rightarrow> finding check HUMAN_REQUIRED ''requires licensed assets and operator observation'')"

definition names_parent :: "json \<Rightarrow> string \<Rightarrow> bool" where
  "names_parent derived i \<longleftrightarrow> (case part derived [''preservation'', ''lineage'', ''parents''] of
      JList ps \<Rightarrow> list_ex (\<lambda>p. part p [''artifact_id''] = JStr i) ps | _ \<Rightarrow> False)"

definition lineage_finding :: "json \<Rightarrow> string \<Rightarrow> qualification_result" where
  "lineage_finding derived i = finding ''derived_lineage'' (if names_parent derived i then PASS else FAIL)
     ''derived installation tree names its immutable parent''"

fun museum_text :: "museum_error \<Rightarrow> string" where
  "museum_text (IntegrationError m) = concat m"
| "museum_text (UnknownIntegrationError m) = concat m"
| "museum_text (ArtifactRequiredError m) = concat m"
| "museum_text (InstallError m) = concat m"
| "museum_text (ValueFault m) = concat m"
| "museum_text (OSFault m) = concat m"
| "museum_text (ArchiveFault e) = (case e of
      ArchiveError m \<Rightarrow> concat m | DuplicateArtifact m \<Rightarrow> concat m | VerificationError m \<Rightarrow> concat m | KeyError m \<Rightarrow> concat m
    | TypeError m \<Rightarrow> concat m | ValueError m \<Rightarrow> concat m | AttributeError m \<Rightarrow> concat m | archive_error.OSError m \<Rightarrow> concat m)"

definition store_results :: "string list \<Rightarrow> qualification_result list \<Rightarrow> qualification_result list sprog" where
  "store_results names results = andThen (modify (\<lambda>s. s\<lparr>si_qualified := fold (\<lambda>n. AList.update n results) names (si_qualified s)\<rparr>)) (ret results)"

definition amix_checks :: "string list" where
  "amix_checks = [''amiga_boot'', ''amiexpress_start'', ''meaningful_readiness'', ''route_connectivity'', ''terminal_roundtrip'',
     ''login_menu'', ''clean_stop'', ''clean_restart'', ''living_state_survives'', ''on_demand'', ''always_on'', ''scheduled_maintenance'']"

definition amix_qualify :: "tools \<Rightarrow> string \<Rightarrow> string list \<Rightarrow> (string, bool) dict \<Rightarrow> qualification_result list sprog" where
  "amix_qualify kit i evidence observations =
     bind (attempt (bind (amix_verify kit i) (\<lambda>metadata. bind (in_archive (verify_one kit (install_tree i))) (\<lambda>derived.
       ret [finding ''artifact_integrity'' PASS (text_of (part metadata [''artifact'', ''sha256''])), lineage_finding derived i])))) (\<lambda>r. case r of
       Inl e \<Rightarrow> store_results [''latest'', i] [finding ''artifact_integrity'' FAIL (museum_text e)]
     | Inr results \<Rightarrow> store_results [''latest'', i] (results @ [amix_configure evidence] @ map (observed observations) amix_checks))"

definition abbs_checks :: "string list" where
  "abbs_checks = [''amiga_boot'', ''abbs_start'', ''meaningful_readiness'', ''route_connectivity'', ''terminal_roundtrip'',
     ''login_menu'', ''clean_stop'', ''clean_restart'', ''living_state_survives'', ''on_demand'', ''always_on'']"

text \<open>Here the finding of a verified artifact stays when the derived tree cannot be verified.\<close>

definition abbs_qualify :: "tools \<Rightarrow> string \<Rightarrow> string list \<Rightarrow> (string, bool) dict \<Rightarrow> qualification_result list sprog" where
  "abbs_qualify kit i evidence observations =
     bind (attempt (abbs_verify kit i)) (\<lambda>r. case r of
       Inl e \<Rightarrow> store_results [''latest''] [finding ''artifact_integrity'' FAIL (museum_text e)]
     | Inr metadata \<Rightarrow>
       let good = finding ''artifact_integrity'' PASS (text_of (part metadata [''artifact'', ''sha256''])) in
       bind (attempt (in_archive (verify_one kit (install_tree i)))) (\<lambda>r. case r of
         Inl e \<Rightarrow> store_results [''latest''] [good, finding ''artifact_integrity'' FAIL (museum_text e)]
       | Inr derived \<Rightarrow> store_results [''latest''] ([good, lineage_finding derived i, abbs_configure evidence] @ map (observed observations) abbs_checks)))"

section \<open>Builds of AmiExpress\<close>

text \<open>A release of the GitHub API.\<close>

record github_asset =
  ga_name :: string
  ga_digest :: "string option"
  ga_url :: "string option"
  ga_size :: "int option"

record github_release =
  gr_tag_name :: "string option"
  gr_draft :: bool
  gr_prerelease :: bool
  gr_assets :: "github_asset list"

definition remove_prefix :: "string \<Rightarrow> string \<Rightarrow> string" where
  "remove_prefix p s = (if starts_with p s then drop (length p) s else s)"

definition remove_suffix :: "string \<Rightarrow> string \<Rightarrow> string" where
  "remove_suffix p s = (if ends_with p s then take (length s - length p) s else s)"

text \<open>The commit and the asset with its digest.\<close>

definition parse_github_release :: "github_release \<Rightarrow> museum_error + string \<times> github_asset" where
  "parse_github_release d =
     (if gr_tag_name d \<noteq> Some ''dev-build'' \<or> gr_draft d \<or> \<not> gr_prerelease d
      then Inl (ArtifactRequiredError [''GitHub metadata is not the expected published dev-build prerelease''])
      else case filter (\<lambda>a. ends_with ''.lha'' (lower (ga_name a))) (gr_assets d) of
        [a] \<Rightarrow> let commit = remove_suffix ''.lha'' (remove_prefix ''amiExpress-nightly'' (ga_name a)) in
          if (case ga_digest a of None \<Rightarrow> True | Some g \<Rightarrow> \<not> starts_with ''sha256:'' g \<or> length g \<noteq> 71)
          then Inl (ArtifactRequiredError [''GitHub dev-build asset lacks a valid SHA-256 digest''])
          else if length commit \<noteq> 40 \<or> list_ex (\<lambda>c. \<not> lower_hex_char c) (lower commit)
          then Inl (ArtifactRequiredError [''dev-build asset does not carry a verifiable 40-character commit identity''])
          else Inr (commit, a)
      | _ \<Rightarrow> Inl (ArtifactRequiredError [''GitHub dev-build must contain exactly one LHA asset'']))"

datatype update_status = DIGEST_MISMATCH | NO_CHANGE | NEW_BUILD_AVAILABLE | INVALID_UPSTREAM_METADATA

text \<open>\<open>None\<close>: the document cannot be fetched or is no JSON.\<close>

definition check_updates :: "github_release option \<Rightarrow> update_status" where
  "check_updates document = (case document of
      None \<Rightarrow> INVALID_UPSTREAM_METADATA
    | Some d \<Rightarrow> (case parse_github_release d of
        Inl e \<Rightarrow> INVALID_UPSTREAM_METADATA
      | Inr (commit, a) \<Rightarrow> (case amix_select_release (Some amix_current_release_key) of
          Inl e \<Rightarrow> INVALID_UPSTREAM_METADATA
        | Inr current \<Rightarrow>
            if Some commit = rl_source_commit current \<and> ga_digest a \<noteq> rl_github_digest current then DIGEST_MISMATCH
            else if Some commit = rl_source_commit current \<and> ga_digest a = rl_github_digest current then NO_CHANGE
            else NEW_BUILD_AVAILABLE)))"

definition deployment_status :: "site \<Rightarrow> deployments" where
  "deployment_status s = default \<lparr>dp_current = None, dp_previous = None, dp_candidates = []\<rparr> (si_deployment s)"

definition promote :: "string \<Rightarrow> bool \<Rightarrow> deployments sprog" where
  "promote i approved =
     bind (lift_museum (amix_release_for_artifact i)) (\<lambda>r.
     andThen (raise_if (rl_channel r \<noteq> ''development'') (ArtifactRequiredError [''only development-channel releases can be promoted as current'']))
    (bind (gets (\<lambda>s. map_of (si_qualified s) i)) (\<lambda>q. case q of
       None \<Rightarrow> raise (ArtifactRequiredError [''release has no qualification record''])
     | Some results \<Rightarrow>
         andThen (raise_if (list_ex (\<lambda>x. qr_status x = FAIL) results) (ArtifactRequiredError [''failed release cannot be promoted'']))
        (andThen (raise_if (\<not> approved \<and> list_ex (\<lambda>x. qr_status x = HUMAN_REQUIRED) results)
           (ArtifactRequiredError [''operator approval is required for HUMAN_REQUIRED checks'']))
        (bind (gets deployment_status) (\<lambda>d.
         let d' = \<lparr>dp_current = Some i, dp_previous = dp_current d, dp_candidates = filter (\<lambda>c. c \<noteq> i) (dp_candidates d)\<rparr> in
         andThen (modify (\<lambda>s. s\<lparr>si_deployment := Some d'\<rparr>)) (ret d')))))))"

definition rollback :: "deployments sprog" where
  "rollback =
     bind (gets deployment_status) (\<lambda>d.
     andThen (raise_if (\<not> truthy (dp_previous d)) (ArtifactRequiredError [''no previous qualified AmiExpress release is available for rollback'']))
     (let d' = d\<lparr>dp_current := dp_previous d, dp_previous := dp_current d\<rparr> in
      andThen (modify (\<lambda>s. s\<lparr>si_deployment := Some d'\<rparr>)) (ret d')))"

end
