(* ===== verification/Integrations_Facts.thy ===== *)
theory Integrations_Facts
  imports Integrations_Install
begin

text \<open>
  What the museum integrations promise: an installation never overwrites the golden image, the working image or a preserved
  object; only verified artifacts with the rights are installed; promotions and rollbacks of AmiExpress; and the pinned
  release of ABBS that cannot be acquired.
\<close>

section \<open>What an installation touches\<close>

text \<open>Outside \<open>ps\<close> no file of \<open>s\<close> changes, the archive stays in order and only grows, the records stay.\<close>

definition within :: "tools \<Rightarrow> place set \<Rightarrow> site \<Rightarrow> site \<Rightarrow> bool" where
  "within kit ps s t \<longleftrightarrow> keeps_files ps (si_tree s) (si_tree t) \<and> archive_ok kit (si_archive t) \<and> extends (si_archive s) (si_archive t) \<and>
     si_qualified t = si_qualified s \<and> si_deployment t = si_deployment s"

lemma keeps_in_archive: "ingests kit m \<Longrightarrow> keeps (within kit ps s) (in_archive m)"
  unfolding keeps_def in_archive_def within_def ingests_def
  by (auto split: prod.splits outcome.splits) (metis extends_trans snd_conv)+

lemma keeps_in_tree: "keeps (keeps_files ps (si_tree s)) m \<Longrightarrow> keeps (within kit ps s) (in_tree m)"
  unfolding keeps_def in_tree_def within_def by (auto split: prod.splits)

lemma keeps_lift_museum: "keeps I (lift_museum x)"
  by (auto simp: lift_museum_def intro: keeps_rules split: sum.split)

lemma keeps_step_files: "(\<And>t u. keeps_files ps s t \<Longrightarrow> f t = Inr u \<Longrightarrow> keeps_files ps s u) \<Longrightarrow> keeps (keeps_files ps s) (step_files f)"
  by (auto simp: keeps_def file_step_def split: sum.splits)

lemma keeps_finally: "keeps I m \<Longrightarrow> (\<And>s. I s \<Longrightarrow> I (f s)) \<Longrightarrow> keeps I (finally_do m f)"
  by (auto simp: keeps_def finally_do_def Let_def split: prod.splits)

lemma ingests_derive: "proper_hashes kit \<Longrightarrow> ingests kit (derive kit i parents role action tool orig path opened a)"
  unfolding ingests_def using archive_step_ok[OF _ step_derive] by (metis prod.collapse)

lemma keeps_copy_tree:
  "keeps_files ps s t \<Longrightarrow> copy_tree ns q t = Inr u \<Longrightarrow> (\<And>p. q @ p \<in> ps) \<Longrightarrow> keeps_files ps s u"
proof (induction ns q t rule: copy_tree.induct)
  case (3 p c ns q t)
  from "3.prems"(2) obtain v w where v: "make_dirs (q @ butlast p) t = Inr v" and w: "put_file (q @ p) c v = Inr w"
    and rest: "copy_tree ns q w = Inr u" by auto
  have "keeps_files ps s w" by (rule keeps_put_file[OF keeps_make_dirs[OF "3.prems"(1) v] w]) (simp add: "3.prems"(3))
  from "3.IH"[OF this rest "3.prems"(3)] show ?case .
next
  case (2 p ns q t)
  from "2.prems"(2) obtain v where v: "make_dirs (q @ p) t = Inr v" and rest: "copy_tree ns q v = Inr u" by auto
  from "2.IH"[OF keeps_make_dirs[OF "2.prems"(1) v] rest "2.prems"(3)] show ?case .
qed simp

lemma keeps_source_bytes: "keeps (within kit ps s) (source_bytes d)"
  unfolding source_bytes_def
  by (rule keeps_in_archive) (auto intro!: ingests_rules split: option.split)

lemma keeps_host_prepare:
  assumes hashes: "proper_hashes kit" and verify: "keeps (within kit ps s) verify" and ps: "\<And>d p. root @ [''installation'', d] @ p \<in> ps"
  shows "keeps (within kit ps s) (host_prepare kit ex verify args bundle action note i root derived)"
proof -
  have copy: "keeps (keeps_files ps (si_tree s)) (step_files (copy_tree t (root @ [''installation'', d])))" for t d
    by (rule keeps_step_files, rule keeps_copy_tree) (use ps in auto)
  have dirs: "keeps (keeps_files ps (si_tree s)) (step_files (make_dirs q))" for q
    by (rule keeps_step_files) (rule keeps_make_dirs)
  show ?thesis
    unfolding host_prepare_def Let_def
    by (intro keeps_rules verify keeps_in_archive ingests_verify ingests_derive[OF hashes] keeps_in_tree copy dirs keeps_source_bytes keeps_lift_museum)
qed

text \<open>Writing a file when it is not there.\<close>

lemma keeps_unless_there:
  assumes "p \<notin> ps" and "\<And>there. (\<not> there \<Longrightarrow> \<forall>c. map_of s p \<noteq> Some (File c)) \<Longrightarrow> keeps (keeps_files ps s) (m there)"
  shows "keeps (keeps_files ps s) (bind (gets (\<lambda>t. has_key t p)) m)"
proof (rule keepsI)
  fix t assume t: "keeps_files ps s t"
  then have "\<not> has_key t p \<Longrightarrow> \<forall>c. map_of s p \<noteq> Some (File c)"
    using assms(1) by (auto simp: keeps_files_def has_key_map_of)
  from keepsD[OF assms(2)[OF this] t] show "keeps_files ps s (snd (bind (gets (\<lambda>t. has_key t p)) m t))"
    by (simp add: bind_gets)
qed

lemma keeps_write_via:
  assumes "tmp \<in> ps" "tmp \<noteq> p" "p \<in> ps \<or> (\<forall>c. map_of s p \<noteq> Some (File c))"
  shows "keeps (keeps_files ps s) (write_via tmp p c)"
  unfolding write_via_def
  by (intro keeps_rules keeps_step_files) (use assms in \<open>auto intro: keeps_put_file keeps_replace\<close>)

lemma keeps_make_golden: "golden \<notin> ps \<Longrightarrow> keeps (keeps_files ps s) (make_golden golden base evidence)"
  unfolding make_golden_def
  by (rule keeps_unless_there) (auto simp: onlyif_def intro!: keeps_rules keeps_step_files intro: keeps_put_file)

lemma keeps_working_image:
  assumes "working \<notin> ps" "beside working (''.'' @ last working @ ''.'' @ pid @ ''.tmp'') \<in> ps"
  shows "keeps (keeps_files ps s) (copy_working_image pid golden working)"
proof -
  have neq: "beside working (''.'' @ last working @ ''.'' @ pid @ ''.tmp'') \<noteq> working" using assms by metis
  have dirs: "keeps (keeps_files ps s) (step_files (make_dirs q))" for q
    by (rule keeps_step_files) (rule keeps_make_dirs)
  show ?thesis
    unfolding copy_working_image_def Let_def
    by (intro keeps_rules dirs keeps_unless_there[OF assms(1)])
      (auto intro!: keeps_rules keeps_finally keeps_write_via keeps_drop_file assms(2)[simplified] neq[simplified])
qed

lemma keeps_config:
  assumes "p \<in> ps" "p \<noteq> []" "beside p (''.'' @ last p @ ''.tmp'') \<in> ps"
  shows "keeps (keeps_files ps s) (write_fs_uae_config show p profile kickstart hdf)"
  unfolding write_fs_uae_config_def
proof (intro keeps_rules)
  show "keeps (keeps_files ps s) (step_files (make_dirs (butlast p)))" by (rule keeps_step_files) (rule keeps_make_dirs)
  have "length (''.'' @ last p @ ''.tmp'') \<noteq> length (last p)" by simp
  then have "''.'' @ last p @ ''.tmp'' \<noteq> last p" by metis
  from keeps_write_via[OF assms(3) beside_neq[OF assms(2) this]] assms(1)
  show "keeps (keeps_files ps s) (write_via (beside p (''.'' @ last p @ ''.tmp'')) p c)" for c by blast
qed

text \<open>The files an installation of \<open>name\<close> may replace: below \<open>installation\<close>, the emulator's configuration and the two temporary files.\<close>

definition scratch :: "tools \<Rightarrow> place \<Rightarrow> string \<Rightarrow> place set" where
  "scratch kit root name = {p. beneath (root @ [''installation'']) p} \<union>
     {root @ [''runtime'', name @ ''.fs-uae''], root @ [''runtime'', ''.'' @ name @ ''.fs-uae.tmp''],
      root @ [''live'', ''.'' @ name @ ''-working.hdf.'' @ process_id kit @ ''.tmp'']}"

lemma outside_scratch: "root @ [''golden'', name @ ''.hdf''] \<notin> scratch kit root name" "root @ [''live'', name @ ''-working.hdf''] \<notin> scratch kit root name"
  by (auto simp: scratch_def beneath_iff append_eq_append_conv2 append_eq_Cons_conv Cons_eq_append_conv)

lemma keeps_host_install:
  assumes verify: "keeps (within kit (scratch kit root name) s) verify" and prepare: "keeps (within kit (scratch kit root name) s) prepare"
  shows "keeps (within kit (scratch kit root name) s) (host_install kit verify prepare profile name port manual i root given evidence)"
proof -
  let ?ps = "scratch kit root name"
  have dirs: "keeps (keeps_files ?ps (si_tree s)) (step_files (make_dirs q))" for q
    by (rule keeps_step_files) (rule keeps_make_dirs)
  have image: "keeps (keeps_files ?ps (si_tree s)) (copy_working_image (process_id kit) g (root @ [''live'', name @ ''-working.hdf'']))" for g
    by (rule keeps_working_image[OF outside_scratch(2)]) (simp add: scratch_def beside_def butlast_append)
  have config: "keeps (keeps_files ?ps (si_tree s)) (write_fs_uae_config f (root @ [''runtime'', name @ ''.fs-uae'']) p k h)" for f p k h
    by (rule keeps_config) (simp_all add: scratch_def beside_def butlast_append)
  show ?thesis
    unfolding host_install_def Let_def
    by (intro keeps_rules verify prepare keeps_lift_museum keeps_in_tree dirs image config keeps_make_golden outside_scratch(1))
qed

section \<open>What is installed\<close>

lemma bind_RetD: "bind m f s = (Ret x, t) \<Longrightarrow> \<exists>y u. m s = (Ret y, u) \<and> f y u = (Ret x, t)"
  by (auto simp: bind_def split: prod.splits outcome.splits)

lemma verify_one_returns: "verify_one kit i s = (Ret v, t) \<Longrightarrow> t = s \<and> map_of (ar_metadata s) i = Some (Some v)"
  by (auto simp: verify_one_def load_metadata_def lift_archive_def prog_defs split: option.splits sum.splits if_splits prod.splits outcome.splits)

lemma amix_verify_returns: "amix_verify kit i s = (Ret v, t) \<Longrightarrow> t = s \<and> map_of (ar_metadata (si_archive s)) i = Some (Some v) \<and>
    (\<exists>r. amix_release_for_artifact i = Inr r \<and> amix_accepts r v = Inr ())"
  by (auto simp: amix_verify_def in_archive_def lift_museum_def prog_defs dest: verify_one_returns split: sum.splits prod.splits outcome.splits)

lemma abbs_verify_returns: "abbs_verify kit i s = (Ret v, t) \<Longrightarrow> t = s \<and> map_of (ar_metadata (si_archive s)) i = Some (Some v) \<and>
    (\<exists>r. abbs_release_for_artifact i = Inr r \<and> abbs_accepts r v = Inr ())"
  by (auto simp: abbs_verify_def in_archive_def lift_museum_def prog_defs dest: verify_one_returns split: sum.splits prod.splits outcome.splits)

text \<open>The metadata of an artifact that may be installed, with the digest its release pins.\<close>

definition installable :: "string option \<Rightarrow> json \<Rightarrow> bool" where
  "installable pinned v \<longleftrightarrow> part v [''artifact'', ''role''] = JStr ''preservation_original'' \<and> allows v ''install_locally'' \<and>
     \<not> allows v ''redistribute_original'' \<and> \<not> allows v ''publish_to_bbs_filebase'' \<and>
     (part v [''artifact'', ''sha256''] = opt_json pinned \<or> part v [''rights'', ''status''] = JStr ''licensed_private'')"

lemma find_releases: "find P xs = Some r \<Longrightarrow> r \<in> set xs \<and> P r"
  by (induction xs) (auto split: if_splits)

lemma amix_accepts_installable: "amix_release_for_artifact i = Inr r \<Longrightarrow> amix_accepts r v = Inr () \<Longrightarrow> installable (rl_sha256 r) v"
proof -
  assume r: "amix_release_for_artifact i = Inr r" and accepted: "amix_accepts r v = Inr ()"
  have "r \<in> set amix_releases" using r by (auto simp: amix_release_for_artifact_def split: option.splits dest: find_releases)
  then have "truthy (rl_sha256 r)" by (auto simp: amix_releases_def truthy_def)
  with accepted show ?thesis unfolding amix_accepts_def first_error_Inr by (auto simp: installable_def)
qed

lemma abbs_accepts_installable: "abbs_accepts r v = Inr () \<Longrightarrow> installable (rl_sha256 r) v"
  unfolding abbs_accepts_def first_error_Inr by (auto simp: installable_def)

section \<open>The pinned release of ABBS 1.1\<close>

lemma preserve_never:
  assumes "proper_hashes kit" "archive_ok kit s" "in_expected_sha256 a = Some h" "h \<noteq> []" "length h \<noteq> 64"
  shows "\<not> (\<exists>v t. preserve_stream kit i name rs prov a pv ex s = (Ret v, t))"
proof
  assume "\<exists>v t. preserve_stream kit i name rs prov a pv ex s = (Ret v, t)"
  then obtain v t where run: "preserve_stream kit i name rs prov a pv ex s = (Ret v, t)" by blast
  have fresh: "fresh_for kit i s" using assms(2) by (simp add: archive_ok_def fresh_for_def has_key_def)
  from preserve_stream_outcome[OF assms(1) fresh run] obtain b where "check_expected (digests_of kit b) a = Inr ()" by auto
  with assms(3-5) show False by (auto simp: check_expected_def HASH_RE_iff split: if_splits)
qed

lemma acquire_never:
  assumes "proper_hashes kit" "archive_ok kit (si_archive s)" "in_expected_sha256 (aq_ingest q) = Some h" "h \<noteq> []" "length h \<noteq> 64"
  shows "acquire_with kit q local remote s \<noteq> (Ret v, t)"
proof
  let ?fails = "\<lambda>m. triple (archive_ok kit) m (\<lambda>_ _. False) (\<lambda>_ _. True)"
  have preserve: "?fails (preserve_stream kit i name rs prov (aq_ingest q) pv ex)" for i name rs prov pv ex
    using preserve_never[OF assms(1) _ assms(3-5)] by (fastforce simp: hoare_def split: outcome.splits)
  have lifted: "triple (archive_ok kit) (lift_archive x) (\<lambda>_. archive_ok kit) (\<lambda>_ _. True)" for x :: "archive_error + 'x"
    by (auto simp: lift_archive_def intro!: hoare_ret hoare_raise split: sum.split)
  have raising: "?fails (raise e)" for e by (rule hoare_raise) simp
  have imported: "?fails (import_artifact kit i url src orig path opened extra (aq_ingest q))" for i url src orig path opened extra
    unfolding import_artifact_def
    by (rule hoare_bind[OF lifted]) (auto intro: preserve raising split: option.split prod.split)
  have downloaded: "?fails (acquire_http kit i url src orig opened extra (aq_ingest q))" for i url src orig opened extra
    unfolding acquire_http_def
    by (rule hoare_bind[OF lifted])
      (auto split: option.split prod.split intro!: hoare_catch[where R = "\<lambda>_ _. True"] hoare_raise hoare_andThen[where R = "archive_ok kit"]
        hoare_raise_if hoare_bind[OF lifted] hoare_bind[where R = "\<lambda>_. archive_ok kit"] hoare_ret preserve)
  assume "acquire_with kit q local remote s = (Ret v, t)"
  then show False
    using hoare_retD[OF imported assms(2)] hoare_retD[OF downloaded assms(2)]
    by (auto simp: acquire_with_def in_archive_def split: option.splits prod.splits outcome.splits)
qed

text \<open>The release 1.1 of ABBS cannot be acquired. Its pinned SHA-256 has 63 digits, so whatever file or response is offered, an
  acquisition of the release raises; and a copy of it that is in the archive can only be installed when its rights say that it
  is licensed privately, never as the pinned release.\<close>

theorem abbs_11_unobtainable:
  assumes hashes: "proper_hashes kit" and ok: "archive_ok kit (si_archive s)"
  shows "abbs_acquire kit local remote url None (Some ''1.1'') False s \<noteq> (Ret v, t) \<and>
    (abbs_verify kit ''abbs-amiga-1.1-original'' s = (Ret v, t) \<longrightarrow> part v [''rights'', ''status''] = JStr ''licensed_private'')"
proof (intro conjI impI)
  have select: "abbs_select_release (Some ''1.1'') = Inr (abbs_releases ! 1)" "abbs_release_for_artifact ''abbs-amiga-1.1-original'' = Inr (abbs_releases ! 1)"
    by (simp_all add: abbs_select_release_def abbs_release_for_artifact_def abbs_releases_def truthy_def)
  define h where "h = the (rl_sha256 (abbs_releases ! 1))"
  have h: "rl_sha256 (abbs_releases ! 1) = Some h" "h \<noteq> []" "length h \<noteq> 64" by (simp_all add: h_def abbs_releases_def)
  show "abbs_acquire kit local remote url None (Some ''1.1'') False s \<noteq> (Ret v, t)"
    using acquire_never[OF hashes ok, of "abbs_args (abbs_releases ! 1) url False" h] h
    by (simp add: abbs_acquire_def select lift_museum_def bind_ret_left abbs_args_def)
  assume "abbs_verify kit ''abbs-amiga-1.1-original'' s = (Ret v, t)"
  then have known: "map_of (ar_metadata (si_archive s)) ''abbs-amiga-1.1-original'' = Some (Some v)" and "abbs_accepts (abbs_releases ! 1) v = Inr ()"
    using abbs_verify_returns[of kit "''abbs-amiga-1.1-original''" s v t] select by auto
  then have "part v [''artifact'', ''sha256''] = JStr h \<or> part v [''rights'', ''status''] = JStr ''licensed_private''"
    using abbs_accepts_installable[of "abbs_releases ! 1" v] h by (simp add: installable_def opt_json_def)
  moreover have "part v [''artifact'', ''sha256''] \<noteq> JStr h"
    using ok known h(3) hashes by (fastforce simp: archive_ok_def recorded_def proper_hashes_def)
  ultimately show "part v [''rights'', ''status''] = JStr ''licensed_private''" by simp
qed

definition empty_site :: site where
  "empty_site = \<lparr>si_archive = empty_archive\<lparr>ar_ready := True\<rparr>, si_tree = [], si_qualified = [], si_deployment = None\<rparr>"

lemma empty_site_ok: "archive_ok kit (si_archive empty_site)"
  by (simp add: empty_site_def empty_archive_def archive_ok_def content_addressed_def)

theorem abbs_11_unobtainable_witness:
  "\<forall>v t. abbs_acquire demo_kit (Some (''abbs1_1.lha'', Some [Data ''abc''])) None None None (Some ''1.1'') False empty_site \<noteq> (Ret v, t)"
  using abbs_11_unobtainable[OF demo_hashes empty_site_ok] by blast

section \<open>Installations\<close>

lemma host_install_returns:
  assumes "host_install kit verify prepare profile name port manual i root given evidence s = (Ret res, t)"
  shows "\<exists>v u. verify s = (Ret v, u) \<and> il_artifact_sha256 res = text_of (part v [''artifact'', ''sha256''])"
proof -
  obtain rest where host: "host_install kit verify prepare profile name port manual i root given evidence = bind verify rest"
    and rest: "\<And>v. triple (\<lambda>_. True) (rest v) (\<lambda>res _. il_artifact_sha256 res = text_of (part v [''artifact'', ''sha256''])) (\<lambda>_ _. True)"
  proof
    show "host_install kit verify prepare profile name port manual i root given evidence = bind verify
        (\<lambda>metadata. host_install kit (ret metadata) prepare profile name port manual i root given evidence)"
      by (simp add: host_install_def bind_ret_left)
    have any: "triple (\<lambda>_. True) m (\<lambda>_ _. True) (\<lambda>_ _. True)" for m :: "'x sprog"
      by (auto simp: hoare_def split: outcome.splits prod.splits)
    show "triple (\<lambda>_. True) (host_install kit (ret v) prepare profile name port manual i root given evidence)
        (\<lambda>res _. il_artifact_sha256 res = text_of (part v [''artifact'', ''sha256''])) (\<lambda>_ _. True)" for v
      unfolding host_install_def Let_def bind_ret_left
      by (intro hoare_andThen[OF any] hoare_bind[OF any]) (simp add: hoare_ret)
  qed
  from assms[unfolded host] obtain v u where v: "verify s = (Ret v, u)" "rest v u = (Ret res, t)" by (blast dest: bind_RetD)
  with hoare_retD[OF rest _ v(2)] show ?thesis by blast
qed

lemma below_installation: "root @ [''installation'', d] @ p \<in> scratch kit root name"
  by (simp add: scratch_def beneath_iff)

lemma keeps_amix_install: "proper_hashes kit \<Longrightarrow> keeps (within kit (scratch kit root ''amiexpress'') s) (amix_install kit ex i root given evidence)"
  unfolding amix_install_def amix_prepare_def amix_verify_def
  by (intro keeps_host_install keeps_host_prepare below_installation keeps_rules keeps_lift_museum keeps_in_archive ingests_verify)

lemma keeps_abbs_install: "proper_hashes kit \<Longrightarrow> keeps (within kit (scratch kit root ''abbs'') s) (abbs_install kit ex i root given evidence)"
  unfolding abbs_install_def abbs_prepare_def abbs_verify_def
  by (intro keeps_host_install keeps_host_prepare below_installation keeps_rules keeps_lift_museum keeps_in_archive ingests_verify)

lemma installed_artifact:
  assumes "proper_hashes kit" "archive_ok kit (si_archive s)"
    and run: "(if amix then amix_install kit ex i root given evidence s else abbs_install kit ex i root given evidence s) = (Ret res, t)"
  shows "\<exists>v pinned. map_of (ar_metadata (si_archive s)) i = Some (Some v) \<and> installable pinned v \<and>
      pinned \<in> rl_sha256 ` set amix_releases \<union> rl_sha256 ` set abbs_releases \<and> part v [''artifact'', ''sha256''] = JStr (il_artifact_sha256 res)"
proof -
  have known: "part v [''artifact'', ''sha256''] = JStr (text_of (part v [''artifact'', ''sha256'']))"
    if "map_of (ar_metadata (si_archive s)) i = Some (Some v)" for v
    using assms(2) that by (fastforce simp: archive_ok_def recorded_def)
  show ?thesis
  proof (cases amix)
    case True
    with run obtain v u where v: "amix_verify kit i s = (Ret v, u)" and res: "il_artifact_sha256 res = text_of (part v [''artifact'', ''sha256''])"
      using host_install_returns unfolding amix_install_def by (metis (full_types))
    from amix_verify_returns[OF v] obtain r where r: "map_of (ar_metadata (si_archive s)) i = Some (Some v)" "amix_release_for_artifact i = Inr r"
      "amix_accepts r v = Inr ()" by blast
    then have "r \<in> set amix_releases" by (auto simp: amix_release_for_artifact_def split: option.splits dest: find_releases)
    with r amix_accepts_installable[OF r(2,3)] known res show ?thesis by auto
  next
    case False
    with run obtain v u where v: "abbs_verify kit i s = (Ret v, u)" and res: "il_artifact_sha256 res = text_of (part v [''artifact'', ''sha256''])"
      using host_install_returns unfolding abbs_install_def by (metis (full_types))
    from abbs_verify_returns[OF v] obtain r where r: "map_of (ar_metadata (si_archive s)) i = Some (Some v)" "abbs_release_for_artifact i = Inr r"
      "abbs_accepts r v = Inr ()" by blast
    then have "r \<in> set abbs_releases" by (auto simp: abbs_release_for_artifact_def split: option.splits dest: find_releases)
    with r abbs_accepts_installable[OF r(3)] known res show ?thesis by auto
  qed
qed

text \<open>C33: installing ABBS or AmiExpress. Whatever comes of it, the golden image and the working image with the callers' state are
  never overwritten, nor any other file outside the installation workspace, the emulator's configuration and two temporary
  files; nothing preserved changes, and the records of qualification and deployment stay. It only returns when the artifact is
  in the archive with the rights to install it and none to publish it, and is a pinned release or licensed privately.\<close>

theorem install_keeps_living_state:
  assumes hashes: "proper_hashes kit" and ok: "archive_ok kit (si_archive s)"
    and run: "(if amix then amix_install kit ex i root given evidence s else abbs_install kit ex i root given evidence s) = (r, t)"
  shows "let name = (if amix then ''amiexpress'' else ''abbs'') in within kit (scratch kit root name) s t \<and>
    (\<forall>p c. p \<in> {root @ [''golden'', name @ ''.hdf''], root @ [''live'', name @ ''-working.hdf'']} \<longrightarrow>
      map_of (si_tree s) p = Some (File c) \<longrightarrow> map_of (si_tree t) p = Some (File c)) \<and>
    (\<forall>res. r = Ret res \<longrightarrow> (\<exists>v pinned. map_of (ar_metadata (si_archive t)) i = Some (Some v) \<and> installable pinned v \<and>
      pinned \<in> rl_sha256 ` set amix_releases \<union> rl_sha256 ` set abbs_releases \<and> part v [''artifact'', ''sha256''] = JStr (il_artifact_sha256 res)))"
proof -
  let ?name = "if amix then ''amiexpress'' else ''abbs''"
  have "within kit (scratch kit root ?name) s s" using ok by (simp add: within_def)
  with run have kept: "within kit (scratch kit root ?name) s t"
    using keepsD[OF keeps_amix_install[OF hashes]] keepsD[OF keeps_abbs_install[OF hashes]]
    by (cases amix) (auto, (metis snd_conv)+)
  moreover have "map_of (si_tree t) p = Some (File c)"
    if "p \<in> {root @ [''golden'', ?name @ ''.hdf''], root @ [''live'', ?name @ ''-working.hdf'']}" "map_of (si_tree s) p = Some (File c)" for p c
    using kept that outside_scratch[of root ?name] by (auto simp: within_def keeps_files_def)
  moreover have "\<exists>v pinned. map_of (ar_metadata (si_archive t)) i = Some (Some v) \<and> installable pinned v \<and>
      pinned \<in> rl_sha256 ` set amix_releases \<union> rl_sha256 ` set abbs_releases \<and> part v [''artifact'', ''sha256''] = JStr (il_artifact_sha256 res)"
    if "r = Ret res" for res
    using installed_artifact[OF hashes ok run[unfolded that]] extends_metadata kept unfolding within_def by blast
  ultimately show ?thesis unfolding Let_def by blast
qed

lemma validate_id_code [code]: "validate_id v = (if v = [] \<or> \<not> lower_alnum (hd v) \<or> \<not> list_all id_char (tl v)
    then Inl (ArchiveError [''artifact id must match ^[a-z0-9][a-z0-9._-]*$'']) else Inr v)"
  by (simp add: validate_id_def ident_rx_iff)

text \<open>A private copy of AmiExpress, prepared before, is installed where callers have used the working image already.\<close>

definition demo_document :: "string \<Rightarrow> string \<Rightarrow> json" where
  "demo_document i role = JDict [(''kind'', JStr ''artifact''), (''schema_version'', JInt 1), (''id'', JStr i),
     (''artifact'', JDict [(''role'', JStr role), (''original_filename'', JStr ''a.lha''), (''sha256'', JStr (sha256 demo_kit ''abc'')),
        (''size'', JInt 3), (''software_family'', JStr ''amiexpress'')]),
     (''provenance'', JDict [(''acquired_at'', JStr ''now''), (''source'', JStr ''x'')]),
     (''rights'', JDict [(''status'', JStr ''licensed_private''), (''preserve_locally'', JBool True), (''install_locally'', JBool True),
        (''redistribute_original'', JBool False), (''publish_to_bbs_filebase'', JBool False), (''export_from_archive'', JBool True)]),
     (''preservation'', JDict [(''class'', JStr ''original''), (''immutable'', JBool True)])]"

definition demo_amix :: string where
  "demo_amix = ''amiexpress-amiga-5.6.1-original''"

definition demo_site :: site where
  "demo_site = \<lparr>si_archive = empty_archive\<lparr>ar_ready := True, ar_objects := [(sha256 demo_kit ''abc'', ''abc'')],
       ar_metadata := [(demo_amix, Some (demo_document demo_amix ''preservation_original'')),
         (install_tree demo_amix, Some (demo_document (install_tree demo_amix) ''derived_install_media''))]\<rparr>,
     si_tree = [([''rom''], File ''kick''), ([''hdf''], File ''os''), ([''ubb''], Folder), ([''ubb'', ''live''], Folder),
        ([''ubb'', ''live'', ''amiexpress-working.hdf''], File ''callers'')],
     si_qualified = [], si_deployment = None\<rparr>"

lemma demo_site_ok: "archive_ok demo_kit (si_archive demo_site)"
proof -
  have "recorded demo_kit (si_archive demo_site) i (demo_document i role)" if "fullmatch ident_rx i" "validate_metadata (demo_document i role) = Inr ()" for i role
    using that unfolding recorded_def by (auto simp: demo_site_def demo_document_def part_def intro!: exI[of _ "''abc''"])
  moreover have "validate_metadata (demo_document demo_amix ''preservation_original'') = Inr ()"
    "validate_metadata (demo_document (install_tree demo_amix) ''derived_install_media'') = Inr ()" by code_simp+
  moreover have "fullmatch ident_rx demo_amix" "fullmatch ident_rx (install_tree demo_amix)"
    by (simp_all add: ident_rx_iff demo_amix_def install_tree_def class_defs)
  ultimately show ?thesis
    by (auto simp: archive_ok_def content_addressed_def empty_archive_def demo_site_def split: if_splits)
qed

definition demo_extractors :: extractors where
  "demo_extractors = \<lparr>ex_tar = (\<lambda>b. None), ex_lha = (\<lambda>b. Missing), ex_bundle = (\<lambda>t. [])\<rparr>"

definition demo_amix_install :: "install_result sprog" where
  "demo_amix_install = amix_install demo_kit demo_extractors demo_amix [''ubb'']
     [(''kickstart'', [''rom'']), (''amigaos_base_hdf'', [''hdf''])] [''golden_image_qualified'']"

theorem install_keeps_living_state_witness:
  "\<exists>res t. demo_amix_install demo_site = (Ret res, t) \<and>
     map_of (si_tree t) [''ubb'', ''live'', ''amiexpress-working.hdf''] = Some (File ''callers'')"
proof -
  have "(case fst (demo_amix_install demo_site) of Ret res \<Rightarrow> True | _ \<Rightarrow> False)" by code_simp
  then obtain res t where run: "demo_amix_install demo_site = (Ret res, t)" by (cases "demo_amix_install demo_site") (auto split: outcome.splits)
  from install_keeps_living_state[OF demo_hashes demo_site_ok, of True, unfolded if_True, OF this[unfolded demo_amix_install_def]]
  have "map_of (si_tree demo_site) [''ubb'', ''live'', ''amiexpress-working.hdf''] = Some (File ''callers'') \<longrightarrow>
      map_of (si_tree t) [''ubb'', ''live'', ''amiexpress-working.hdf''] = Some (File ''callers'')"
    unfolding Let_def by (simp del: map_of.simps)
  with run show ?thesis by (simp add: demo_site_def)
qed

section \<open>Promotions\<close>

inductive amix_step :: "tools \<Rightarrow> extractors \<Rightarrow> site \<Rightarrow> site \<Rightarrow> bool" for kit ex where
  step_acquired: "amix_acquire kit local remote url artifact key private s = (r, t) \<Longrightarrow> amix_step kit ex s t"
| step_prepared: "amix_prepare kit ex i root derived s = (r, t) \<Longrightarrow> amix_step kit ex s t"
| step_installed: "amix_install kit ex i root given evidence s = (r, t) \<Longrightarrow> amix_step kit ex s t"
| step_qualified: "amix_qualify kit i evidence observations s = (r, t) \<Longrightarrow> amix_step kit ex s t"
| step_promoted: "promote i approved s = (r, t) \<Longrightarrow> amix_step kit ex s t"
| step_rolled_back: "rollback s = (r, t) \<Longrightarrow> amix_step kit ex s t"

inductive_cases amix_stepE: "amix_step kit ex s t"

lemma keeps_deployment:
  "keeps (\<lambda>s. P (si_deployment s)) (in_archive m)" "keeps (\<lambda>s. P (si_deployment s)) (in_tree n)"
  "keeps (\<lambda>s. P (si_deployment s)) (store_results names results)"
  by (auto simp: keeps_def in_archive_def in_tree_def store_results_def prog_defs split: prod.splits outcome.splits)

lemma keeps_deployment_verify: "keeps (\<lambda>s. P (si_deployment s)) (amix_verify kit i)"
  unfolding amix_verify_def by (intro keeps_rules keeps_lift_museum keeps_deployment)

lemma keeps_deployment_prepare: "keeps (\<lambda>s. P (si_deployment s)) (amix_prepare kit ex i root derived)"
  unfolding amix_prepare_def host_prepare_def source_bytes_def Let_def
  by (intro keeps_rules keeps_lift_museum keeps_deployment keeps_deployment_verify)

lemma keeps_deployment_ops:
  "keeps (\<lambda>s. P (si_deployment s)) (amix_acquire kit local remote url artifact key private)"
  "keeps (\<lambda>s. P (si_deployment s)) (amix_install kit ex i root given evidence)"
  "keeps (\<lambda>s. P (si_deployment s)) (amix_qualify kit i evidence observations)"
  unfolding amix_acquire_def acquire_with_def amix_install_def host_install_def amix_qualify_def Let_def
  by (intro keeps_rules keeps_lift_museum keeps_deployment keeps_deployment_verify keeps_deployment_prepare)+

definition dev_build :: string where
  "dev_build = ''amiexpress-dev-0f344713f30d''"

definition dev_only :: "deployments option \<Rightarrow> bool" where
  "dev_only d \<longleftrightarrow> (case d of None \<Rightarrow> True | Some d \<Rightarrow> dp_current d = Some dev_build \<and> dp_previous d \<in> {None, Some dev_build})"

lemma development_release: "amix_release_for_artifact i = Inr r \<Longrightarrow> rl_channel r = ''development'' \<Longrightarrow> i = dev_build"
  by (auto simp: amix_release_for_artifact_def amix_releases_def dev_build_def split: option.splits if_splits)

lemma promote_returns:
  "promote i approved s = (Ret d, t) \<Longrightarrow> i = dev_build \<and> t = s\<lparr>si_deployment := Some d\<rparr> \<and>
     dp_current d = Some dev_build \<and> dp_previous d = dp_current (deployment_status s) \<and>
     (\<exists>results. map_of (si_qualified s) i = Some results \<and> FAIL \<notin> qr_status ` set results \<and> (approved \<or> HUMAN_REQUIRED \<notin> qr_status ` set results))"
  by (auto simp: promote_def lift_museum_def prog_defs Let_def list_ex_iff dest: development_release split: sum.splits option.splits if_splits)

lemma promote_raises: "promote i approved s = (r, t) \<Longrightarrow> (\<exists>d. r = Ret d) \<or> t = s"
  by (auto simp: promote_def lift_museum_def prog_defs Let_def split: sum.splits option.splits if_splits)

lemma rollback_outcome: "dev_only (si_deployment s) \<Longrightarrow> rollback s = (r, t) \<Longrightarrow> (\<exists>d. r = Ret d \<and> d = deployment_status s \<and> t = s\<lparr>si_deployment := Some d\<rparr>) \<or> t = s \<and> (\<forall>d. r \<noteq> Ret d)"
  by (cases "si_deployment s") (auto simp: rollback_def deployment_status_def dev_only_def prog_defs Let_def truthy_def split: if_splits)

lemma promote_dev: "dev_only (si_deployment s) \<Longrightarrow> promote i approved s = (r, t) \<Longrightarrow> dev_only (si_deployment t)"
  using promote_raises[of i approved s r t] promote_returns[of i approved s _ t]
  by (cases "si_deployment s") (auto simp: dev_only_def deployment_status_def)

lemma amix_step_dev: "amix_step kit ex s t \<Longrightarrow> dev_only (si_deployment s) \<Longrightarrow> dev_only (si_deployment t)"
proof (erule amix_stepE)
  fix r assume "dev_only (si_deployment s)" "rollback s = (r, t)"
  with rollback_outcome[of s r t] show "dev_only (si_deployment t)"
    by (cases "si_deployment s") (auto simp: rollback_def dev_only_def deployment_status_def prog_defs split: if_splits)
qed (auto dest: promote_dev keeps_state[OF keeps_deployment_ops(1)] keeps_state[OF keeps_deployment_ops(2)]
  keeps_state[OF keeps_deployment_ops(3)] keeps_state[OF keeps_deployment_prepare])

text \<open>C34: promotions and rollbacks of AmiExpress builds. In every run only the pinned development build is ever promoted, and
  only when its recorded qualification has no failure and the operator approved what needs a human. But since it is the only
  build of its channel, the previous build of a rollback is that build itself: a rollback either is refused or changes nothing.\<close>

theorem promotions:
  assumes "(amix_step kit ex)\<^sup>*\<^sup>* s0 s" and "si_deployment s0 = None"
  shows "(\<forall>i approved d t. promote i approved s = (Ret d, t) \<longrightarrow> i = dev_build \<and> dp_current d = Some dev_build \<and>
      (\<exists>results. map_of (si_qualified s) i = Some results \<and> FAIL \<notin> qr_status ` set results \<and> (approved \<or> HUMAN_REQUIRED \<notin> qr_status ` set results))) \<and>
    (\<forall>d t. rollback s = (Ret d, t) \<longrightarrow> d = deployment_status s \<and> deployment_status t = deployment_status s)"
proof -
  have "dev_only (si_deployment s)"
    using assms by (induction rule: rtranclp_induct) (auto simp: dev_only_def intro: amix_step_dev[unfolded dev_only_def])
  then have "d = deployment_status s \<and> deployment_status t = deployment_status s" if "rollback s = (Ret d, t)" for d t
    using rollback_outcome[OF _ that] by (auto simp: deployment_status_def)
  then show ?thesis using promote_returns by blast
qed

definition demo_promoted :: site where
  "demo_promoted = empty_site\<lparr>si_qualified := [(dev_build, [finding ''login_menu'' HUMAN_REQUIRED ''''])]\<rparr>"

theorem promotions_witness:
  "\<exists>s t d. (amix_step demo_kit demo_extractors)\<^sup>*\<^sup>* demo_promoted s \<and> rollback s = (Ret d, t) \<and> dp_current d = Some dev_build \<and> deployment_status t = deployment_status s"
proof -
  let ?p = "promote dev_build True"
  let ?s1 = "snd (?p demo_promoted)" let ?s2 = "snd (?p ?s1)"
  have "amix_step demo_kit demo_extractors demo_promoted ?s1" "amix_step demo_kit demo_extractors ?s1 ?s2" by (rule step_promoted, rule prod.collapse[symmetric])+
  then have run: "(amix_step demo_kit demo_extractors)\<^sup>*\<^sup>* demo_promoted ?s2" by auto
  have "(case fst (rollback ?s2) of Ret d \<Rightarrow> dp_current d = Some dev_build | _ \<Rightarrow> False)" by code_simp
  then obtain d t where r: "rollback ?s2 = (Ret d, t)" "dp_current d = Some dev_build" by (cases "rollback ?s2") (auto split: outcome.splits)
  moreover have "si_deployment demo_promoted = None" by (simp add: demo_promoted_def empty_site_def)
  ultimately show ?thesis using promotions[OF run] run by blast
qed

end
