(* ===== verification/Mystic.thy ===== *)
theory Mystic
  imports Integrations_Install
begin

text \<open>
  The Mystic integration, \<open>integrations/bbs/mystic/integration.py\<close>: acquisition, verification, extraction and qualification.
  Its installer, which runs a program of the distribution and links the living directories into the release, is not modelled.
\<close>

definition mystic_artifact_id :: string where
  "mystic_artifact_id = ''mystic-linux-1.12.a48-x64-original''"

definition mystic_manual_evidence :: "string list" where
  "mystic_manual_evidence = [''version_screen'', ''configured_message_base'']"

definition mystic_args :: "string \<Rightarrow> string option \<Rightarrow> acquisition" where
  "mystic_args i url =
     \<lparr>aq_artifact_id = i, aq_source_url = (if truthy url then the url else ''https://www.mysticbbs.com/downloads/mys112a48_l64.rar''),
      aq_source_name = ''Mystic BBS official downloads'', aq_original_filename = Some ''mys112a48_l64.rar'', aq_provenance = [],
      aq_ingest = \<lparr>in_expected_sha256 = (if i = mystic_artifact_id then Some ''fb427b57d9627ef93008c561df807991bdd288b4a1fc1757dfb5bb5434f286a3'' else None),
        in_expected_sha1 = None, in_expected_md5 = None, in_max_bytes = 268435456, in_rights_status = ''unknown'', in_install_locally = True,
        in_redistribute_original = False, in_publish = False, in_no_owner_export = False,
        in_rights_evidence = Some [''No authoritative redistribution grant recorded; preserve/install only pending operator license review.''],
        in_software_family = Some ''mystic'', in_version = Some ''1.12.A48'', in_platform = Some ''linux-x64'',
        in_notes = Some ''Official stable Mystic/Linux x64 distribution selected after resolving the stale pre-M7 filename.''\<rparr>\<rparr>"

definition mystic_acquire :: "tools \<Rightarrow> (string \<times> read_result list option) option \<Rightarrow> response option \<Rightarrow> string option \<Rightarrow> string option \<Rightarrow> json sprog" where
  "mystic_acquire kit local remote url artifact_id =
     acquire_with kit (mystic_args (if truthy artifact_id then the artifact_id else mystic_artifact_id) url) local remote"

definition mystic_accepts :: "json \<Rightarrow> museum_error + unit" where
  "mystic_accepts metadata = first_error
     [(part metadata [''artifact'', ''software_family''] \<noteq> JStr ''mystic'', ArtifactRequiredError [''artifact is not classified as Mystic software'']),
      (part metadata [''artifact'', ''role''] \<noteq> JStr ''preservation_original'',
       ArtifactRequiredError [''Mystic install requires a preserved original or an explicitly supported derived source'']),
      (\<not> allows metadata ''install_locally'', ArtifactRequiredError [''rights do not permit local installation''])]"

definition mystic_verify :: "tools \<Rightarrow> string \<Rightarrow> json sprog" where
  "mystic_verify kit i = bind (in_archive (verify_one kit i)) (\<lambda>metadata. andThen (lift_museum (mystic_accepts metadata)) (ret metadata))"

definition safe_member :: "string \<Rightarrow> bool" where
  "safe_member n \<longleftrightarrow> \<not> starts_with ''/'' n \<and> ''..'' \<notin> set (split_on (CHR ''/'') n)"

definition zip_member :: "zip_entry \<Rightarrow> tar_member" where
  "zip_member e = \<lparr>tm_name = ze_filename e, tm_is_dir = ze_is_dir e, tm_is_link = False, tm_content = ze_content e\<rparr>"

text \<open>\<open>except (TarError, BadZipFile, OSError, TimeoutExpired)\<close>\<close>

definition extracted_or :: "message + tree \<Rightarrow> museum_error + tree" where
  "extracted_or r = (case r of Inl e \<Rightarrow> Inl (InstallError (''cannot extract Mystic distribution: '' # e)) | Inr t \<Rightarrow> Inr t)"

text \<open>\<open>unrar\<close> leaves what it extracts in an empty directory; the ZIP members are safe names, which are taken as they are.\<close>

definition mystic_extract :: "tools \<Rightarrow> extractors \<Rightarrow> (string \<Rightarrow> extraction) \<Rightarrow> string \<Rightarrow> string \<Rightarrow> museum_error + tree" where
  "mystic_extract kit ex unrar bytes filename = (case ex_tar ex bytes of
      Some ms \<Rightarrow> if list_ex (\<lambda>m. \<not> safe_member (tm_name m) \<or> tm_is_link m) ms
        then Inl (InstallError [''archive contains unsafe paths or links'']) else extracted_or (extract_tar ms [])
    | None \<Rightarrow>
        if ends_with ''.zip'' (lower filename) then (case zip_directory kit bytes of
            None \<Rightarrow> extracted_or (Inl [''BadZipFile''])
          | Some es \<Rightarrow> if list_ex (\<lambda>e. \<not> safe_member (ze_filename e)) es then Inl (InstallError [''archive contains unsafe paths''])
              else extracted_or (extract_tar (map zip_member es) []))
        else if ends_with ''.rar'' (lower filename) then (case unrar bytes of
            Missing \<Rightarrow> Inl (InstallError [''RAR installation requires /usr/bin/unrar; acquisition and verification remain usable''])
          | Exited n \<Rightarrow> Inl (InstallError [''RAR extractor exited ''])
          | Extracted t \<Rightarrow> Inr t)
        else Inl (InstallError [''unsupported Mystic distribution container: '', filename]))"

definition mystic_configure :: "string list \<Rightarrow> qualification_result" where
  "mystic_configure evidence = (let missing = \<not> list_all (\<lambda>x. x \<in> set evidence) mystic_manual_evidence in
     \<lparr>qr_check = ''first_run_configuration'', qr_status = (if missing then HUMAN_REQUIRED else PASS),
      qr_detail = (if missing then ''Run software/current/mis -cfg; living configuration is retained under live/.'' else ''Required operator evidence recorded.''),
      qr_evidence = sort (remdups evidence)\<rparr>)"

definition exercised :: "string \<times> bool option \<Rightarrow> qualification_result" where
  "exercised c = finding (fst c) (case snd c of Some True \<Rightarrow> PASS | Some False \<Rightarrow> FAIL | None \<Rightarrow> SKIP)
     (if snd c = None then ''not exercised in this qualification run'' else ''observed'')"

definition mystic_qualify :: "tools \<Rightarrow> string \<Rightarrow> place \<Rightarrow> string list \<Rightarrow> bool option \<Rightarrow> bool option \<Rightarrow> bool option \<Rightarrow> bool option
    \<Rightarrow> qualification_result list sprog" where
  "mystic_qualify kit i root evidence runtime_ready route_open clean_stop live_state_survived =
     bind (attempt (mystic_verify kit i)) (\<lambda>r. case r of
       Inl e \<Rightarrow> store_results [''latest''] [finding ''artifact_verified'' FAIL (museum_text e)]
     | Inr metadata \<Rightarrow>
       let digest = text_of (part metadata [''artifact'', ''sha256'']) in
       bind (gets (\<lambda>s. is_file (si_tree s) (root @ [''software'', ''releases'', digest, ''.ubb-install.json'']))) (\<lambda>marked.
       store_results [''latest'']
         ([finding ''artifact_verified'' PASS digest,
           finding ''expected_files'' (if marked then PASS else FAIL) (if marked then ''verified install marker present'' else ''install marker missing''),
           mystic_configure evidence] @
          map exercised [(''runtime_readiness'', runtime_ready), (''route_connectivity'', route_open), (''clean_stop'', clean_stop),
            (''live_state_survives_restart'', live_state_survived)] @
          [\<lparr>qr_check = ''login_menu'', qr_status = HUMAN_REQUIRED, qr_detail = ''Confirm Mystic login/menu behavior after assisted MIS configuration.'',
             qr_evidence = evidence\<rparr>])))"

text \<open>What an extraction of safe members writes lies below the directory it is given: the places are relative and name no parent.\<close>

lemma safe_member_place: "safe_member (tm_name m) \<Longrightarrow> ''..'' \<notin> set (member_place m)"
  by (simp add: safe_member_def member_place_def)

end
