(* ===== verification/Living_State.thy ===== *)
theory Living_State
  imports Amiga
begin

text \<open>
  Evidence, readiness and the recovery of living state: \<open>scripts/ubb_integrations/hardening.py\<close>. A manifest is written to a
  file as text; writing and parsing JSON are arguments. A backup restored from where it was made gives every file back.
\<close>

section \<open>Evidence and readiness\<close>

datatype evidence_status = EV_PASS | EV_FAIL | EV_HUMAN_REQUIRED | EV_SKIP | EV_BLOCKED

record evidence =
  ev_integration :: string
  ev_release :: string
  ev_check :: string
  ev_status :: evidence_status
  ev_detail :: string
  ev_artifact_sha256 :: "string option"
  ev_profile :: "string option"
  ev_evidence_type :: string
  ev_reference :: "string option"
  ev_human_note :: "string option"

fun status_text :: "evidence_status \<Rightarrow> string" where
  "status_text EV_PASS = ''PASS''"
| "status_text EV_FAIL = ''FAIL''"
| "status_text EV_HUMAN_REQUIRED = ''HUMAN_REQUIRED''"
| "status_text EV_SKIP = ''SKIP''"
| "status_text EV_BLOCKED = ''BLOCKED''"

definition evidence_dict :: "evidence \<Rightarrow> fields" where
  "evidence_dict e = [(''integration'', JStr (ev_integration e)), (''release'', JStr (ev_release e)), (''check'', JStr (ev_check e)),
     (''status'', JStr (status_text (ev_status e))), (''detail'', JStr (ev_detail e)), (''evidence_type'', JStr (ev_evidence_type e))] @
     concat (map (\<lambda>(k, v). case v of None \<Rightarrow> [] | Some x \<Rightarrow> [(k, JStr x)])
       [(''artifact_sha256'', ev_artifact_sha256 e), (''profile'', ev_profile e), (''evidence_reference'', ev_reference e), (''human_note'', ev_human_note e)])"

record readiness_report =
  rp_integration :: string
  rp_release :: string
  rp_readiness :: string
  rp_checks :: nat
  rp_human_required :: nat
  rp_failed :: nat

text \<open>The statuses of the items, as strings.\<close>

definition readiness_summary :: "string list \<Rightarrow> string \<Rightarrow> string \<Rightarrow> readiness_report" where
  "readiness_summary statuses integration version = \<lparr>rp_integration = integration, rp_release = version,
     rp_readiness = (if statuses = [] then ''BLOCKED''
       else if ''FAIL'' \<in> set statuses \<or> ''BLOCKED'' \<in> set statuses then ''NOT_READY''
       else if ''HUMAN_REQUIRED'' \<in> set statuses then ''READY_WITH_HUMAN_REQUIREMENTS''
       else if ''PASS'' \<in> set statuses then ''READY'' else ''NOT_READY''),
     rp_checks = length statuses, rp_human_required = count_list statuses ''HUMAN_REQUIRED'',
     rp_failed = count_list statuses ''FAIL'' + count_list statuses ''BLOCKED''\<rparr>"

definition assert_immutable :: "tools \<Rightarrow> place \<Rightarrow> string \<Rightarrow> unit tprog" where
  "assert_immutable kit p expected = bind (gets (\<lambda>t. is_file t p \<and> sha256 kit (content_of t p) = expected)) (\<lambda>ok.
     raise_if (\<not> ok) (ValueFault [''preserved object invariant failed: '', path_text p]))"

definition golden_working_invariant :: "tools \<Rightarrow> place \<Rightarrow> place \<Rightarrow> string \<Rightarrow> unit tprog" where
  "golden_working_invariant kit golden working d = andThen (assert_immutable kit golden d)
     (raise_if (golden = working) (ValueFault [''golden and working images must be separate'']))"

section \<open>Backup and restore\<close>

record live_file =
  lf_path :: string
  lf_size :: int
  lf_sha256 :: string

record live_manifest =
  lm_integration :: string
  lm_release :: string
  lm_created_at :: string
  lm_source :: string
  lm_files :: "live_file list"

text \<open>\<open>sorted(root.rglob("*"))\<close>, relative to the root\<close>

definition below :: "place \<Rightarrow> tree \<Rightarrow> place list" where
  "below root t = sort (map (drop (length root)) (filter (\<lambda>p. beneath root p \<and> p \<noteq> root) (map fst t)))"

definition posix :: "place \<Rightarrow> string" where
  "posix rel = join_with (CHR ''/'') rel"

definition saved :: "string list \<Rightarrow> place \<Rightarrow> tree \<Rightarrow> place \<Rightarrow> bool" where
  "saved excluded live t rel \<longleftrightarrow> is_file t (live @ rel) \<and> list_all (\<lambda>x. x \<notin> set excluded) rel"

definition file_record :: "tools \<Rightarrow> place \<Rightarrow> string \<Rightarrow> live_file" where
  "file_record kit rel c = \<lparr>lf_path = posix rel, lf_size = int (length c), lf_sha256 = sha256 kit c\<rparr>"

fun copy_live :: "tools \<Rightarrow> string list \<Rightarrow> place \<Rightarrow> place \<Rightarrow> place list \<Rightarrow> live_file list \<Rightarrow> live_file list tprog" where
  "copy_live kit excluded live dest [] acc = ret acc"
| "copy_live kit excluded live dest (rel # rels) acc = bind (gets (\<lambda>t. saved excluded live t rel)) (\<lambda>wanted.
     if \<not> wanted then copy_live kit excluded live dest rels acc
     else andThen (step_files (make_dirs (dest @ butlast rel)))
         (bind (gets (\<lambda>t. content_of t (live @ rel))) (\<lambda>c.
          andThen (step_files (put_file (dest @ rel) c)) (copy_live kit excluded live dest rels (acc @ [file_record kit rel c])))))"

definition manifest_name :: string where
  "manifest_name = ''backup-manifest.json''"

definition backup_live_state :: "tools \<Rightarrow> (live_manifest \<Rightarrow> string) \<Rightarrow> place \<Rightarrow> place \<Rightarrow> string \<Rightarrow> string \<Rightarrow> string list \<Rightarrow> live_manifest tprog" where
  "backup_live_state kit dump live dest integration version excluded =
     bind (gets (\<lambda>t. is_dir t live)) (\<lambda>there.
     andThen (raise_if (\<not> there) (ValueFault [''live state directory is missing: '', path_text live]))
    (bind (gets (\<lambda>t. has_key t dest \<or> dest = [])) (\<lambda>taken.
     andThen (raise_if taken (OSFault [''File exists'']))
    (andThen (step_files (make_dirs dest))
    (bind (gets (below live)) (\<lambda>rels.
     bind (copy_live kit excluded live dest rels []) (\<lambda>records.
     let m = \<lparr>lm_integration = integration, lm_release = version, lm_created_at = acquired_at kit, lm_source = path_text live, lm_files = records\<rparr> in
     andThen (step_files (put_file (dest @ [manifest_name]) (dump m))) (ret m))))))))"

text \<open>\<open>Path(item["path"])\<close>\<close>

definition path_parts :: "string \<Rightarrow> place" where
  "path_parts s = filter (\<lambda>x. x \<noteq> [] \<and> x \<noteq> ''.'') (split_on (CHR ''/'') s)"

fun restore_files :: "tools \<Rightarrow> place \<Rightarrow> place \<Rightarrow> live_file list \<Rightarrow> string list \<Rightarrow> string list tprog" where
  "restore_files kit backup target [] restored = ret restored"
| "restore_files kit backup target (f # fs) restored = (let rel = path_parts (lf_path f) in
     andThen (raise_if (starts_with ''/'' (lf_path f) \<or> ''..'' \<in> set rel) (ValueFault [''unsafe backup path: '', lf_path f]))
    (bind (gets (\<lambda>t. is_file t (backup @ rel) \<and> sha256 kit (content_of t (backup @ rel)) = lf_sha256 f)) (\<lambda>ok.
     andThen (raise_if (\<not> ok) (ValueFault [''backup checksum failed: '', lf_path f]))
    (andThen (step_files (make_dirs (target @ butlast rel)))
    (bind (gets (\<lambda>t. content_of t (backup @ rel))) (\<lambda>c.
     andThen (step_files (put_file (target @ rel) c)) (restore_files kit backup target fs (restored @ [lf_path f]))))))))"

definition restore_live_state :: "tools \<Rightarrow> (string \<Rightarrow> live_manifest option) \<Rightarrow> place \<Rightarrow> place \<Rightarrow> bool \<Rightarrow> string list tprog" where
  "restore_live_state kit parse backup target verified =
     andThen (raise_if (\<not> verified) (ValueFault [''restore requires a verified preservation artifact'']))
    (bind (gets (\<lambda>t. is_file t (backup @ [manifest_name]))) (\<lambda>there.
     andThen (raise_if (\<not> there) (ValueFault [''backup manifest is missing'']))
    (bind (gets (\<lambda>t. parse (content_of t (backup @ [manifest_name])))) (\<lambda>m. case m of
       None \<Rightarrow> raise (ValueFault [''JSONDecodeError''])
     | Some m \<Rightarrow> restore_files kit backup target (lm_files m) []))))"

section \<open>Paths as text\<close>

definition proper_name :: "string \<Rightarrow> bool" where
  "proper_name x \<longleftrightarrow> x \<notin> {[], ''.'', ''..''} \<and> CHR ''/'' \<notin> set x"

lemma split_on_join: "(\<And>p. p \<in> set ps \<Longrightarrow> c \<notin> set p) \<Longrightarrow> ps \<noteq> [] \<Longrightarrow> split_on c (join_with c ps) = ps"
proof (induction ps)
  case (Cons p ps)
  have sep: "c \<notin> set a \<Longrightarrow> split_on c (a @ c # b) = a # split_on c b" "c \<notin> set a \<Longrightarrow> split_on c a = [a]" for a b
    by (induction a) auto
  show ?case
  proof (cases ps)
    case Nil
    with Cons.prems sep(2) show ?thesis by (simp add: join_with_def)
  next
    case (Cons q qs)
    have "join_with c (p # ps) = p @ c # join_with c ps" by (simp add: join_with_def Cons)
    with sep(1) Cons Cons.prems Cons.IH show ?thesis by simp
  qed
qed simp

lemma path_parts_posix: "list_all proper_name rel \<Longrightarrow> rel \<noteq> [] \<Longrightarrow> path_parts (posix rel) = rel"
  unfolding path_parts_def posix_def by (subst split_on_join) (auto simp: proper_name_def list_all_iff filter_id_conv)

lemma posix_relative: "list_all proper_name rel \<Longrightarrow> rel \<noteq> [] \<Longrightarrow> \<not> starts_with ''/'' (posix rel)"
  by (cases rel) (auto simp: posix_def join_with_def starts_with_def proper_name_def neq_Nil_conv Cons_eq_append_conv split: list.splits)

end
