(* ===== verification/Living_State_Facts.thy ===== *)
theory Living_State_Facts
  imports Living_State Archive_Facts
begin

text \<open>A backup of living state gives every file back when it is restored, and changes nothing but its own directory.\<close>

section \<open>Backing up\<close>

text \<open>Nothing that is not strictly below \<open>dest\<close> differs.\<close>

definition same_outside :: "place \<Rightarrow> tree \<Rightarrow> tree \<Rightarrow> bool" where
  "same_outside dest s t \<longleftrightarrow> (\<forall>p. \<not> (beneath dest p \<and> p \<noteq> dest) \<longrightarrow> map_of t p = map_of s p)"

definition file_at :: "tree \<Rightarrow> place \<Rightarrow> string \<Rightarrow> bool" where
  "file_at t p c \<longleftrightarrow> map_of t p = Some (File c)"

lemma file_at_content: "file_at t p c \<Longrightarrow> is_file t p \<and> content_of t p = c"
  by (simp add: file_at_def is_file_def content_of_def)

lemma is_file_content: "is_file t p \<Longrightarrow> file_at t p (content_of t p)"
  by (auto simp: file_at_def is_file_iff content_of_def)

lemma below_neq: "rel \<noteq> [] \<Longrightarrow> beneath dest (dest @ rel) \<and> dest @ rel \<noteq> dest"
  by (simp add: beneath_iff)

text \<open>A directory below \<open>dest\<close>, whose own path is there, changes nothing outside.\<close>

lemma same_outside_make_dirs:
  assumes "same_outside dest s t" "\<And>p. beneath p dest \<Longrightarrow> p \<noteq> [] \<Longrightarrow> map_of s p = Some Folder" "make_dirs (dest @ q) t = Inr u"
  shows "same_outside dest s u"
  unfolding same_outside_def
proof (intro allI impI)
  fix p assume p: "\<not> (beneath dest p \<and> p \<noteq> dest)"
  note m = make_dirs_Inr[OF assms(3), of p]
  have "map_of u p = map_of t p"
  proof (cases "map_of t p = None \<and> p \<noteq> [] \<and> beneath p (dest @ q)")
    case True
    then have "beneath p dest" using p by (auto simp: beneath_iff append_eq_append_conv2)
    with assms(2) True assms(1) p show ?thesis by (auto simp: same_outside_def)
  qed (use m in auto)
  with assms(1) p show "map_of u p = map_of s p" by (simp add: same_outside_def)
qed

lemma same_outside_put: "same_outside dest s t \<Longrightarrow> rel \<noteq> [] \<Longrightarrow> put_file (dest @ rel) c t = Inr u \<Longrightarrow> same_outside dest s u"
  using below_neq[of rel dest] by (auto simp: same_outside_def dest!: put_file_Inr)

lemma file_at_make_dirs: "file_at t p c \<Longrightarrow> make_dirs q t = Inr u \<Longrightarrow> file_at u p c"
  using make_dirs_effect(1) by (simp add: file_at_def)

lemma file_at_put: "file_at t p c \<Longrightarrow> put_file q d t = Inr u \<Longrightarrow> p \<noteq> q \<or> c = d \<Longrightarrow> file_at u p c"
  by (auto simp: file_at_def dest!: put_file_Inr)

lemma put_file_at: "put_file q d t = Inr u \<Longrightarrow> file_at u q d"
  by (auto simp: file_at_def dest!: put_file_Inr)

lemma andThen_step_filesD: "andThen (step_files f) n t = (Ret x, u) \<Longrightarrow> \<exists>v. f t = Inr v \<and> n v = (Ret x, u)"
  by (auto simp: file_step_def andThen_def bind_def split: sum.splits)

definition record_at :: "tools \<Rightarrow> place \<Rightarrow> tree \<Rightarrow> place \<Rightarrow> live_file" where
  "record_at kit live s rel = file_record kit rel (content_of s (live @ rel))"

lemma copy_live_copies:
  assumes "\<And>p. beneath p dest \<Longrightarrow> p \<noteq> [] \<Longrightarrow> map_of s p = Some Folder"
  shows "same_outside dest s t \<Longrightarrow> (\<And>rel. rel \<in> D \<Longrightarrow> file_at t (dest @ rel) (content_of s (live @ rel))) \<Longrightarrow>
    (\<And>rel. rel \<in> set rels \<Longrightarrow> rel \<noteq> [] \<and> \<not> (beneath dest (live @ rel) \<and> live @ rel \<noteq> dest)) \<Longrightarrow>
    copy_live kit excluded live dest rels acc t = (Ret fs, u) \<Longrightarrow>
    same_outside dest s u \<and> fs = acc @ map (record_at kit live s) (filter (saved excluded live s) rels) \<and>
    (\<forall>rel \<in> D \<union> set (filter (saved excluded live s) rels). file_at u (dest @ rel) (content_of s (live @ rel)))"
proof (induction rels arbitrary: acc t D)
  case Nil
  then show ?case by (simp add: prog_defs)
next
  case (Cons rel rels)
  have rel: "rel \<noteq> []" "map_of t (live @ rel) = map_of s (live @ rel)" using Cons.prems(1,3) by (auto simp: same_outside_def)
  then have wanted: "saved excluded live t rel = saved excluded live s rel" "content_of t (live @ rel) = content_of s (live @ rel)"
    by (simp_all add: saved_def is_file_def content_of_def)
  show ?case
  proof (cases "saved excluded live s rel")
    case False
    with Cons.prems(4) have "copy_live kit excluded live dest rels acc t = (Ret fs, u)" by (simp add: bind_gets wanted)
    with Cons.IH[OF Cons.prems(1,2)] Cons.prems(3) False show ?thesis by auto
  next
    case True
    let ?c = "content_of s (live @ rel)"
    from Cons.prems(4)[unfolded copy_live.simps bind_gets wanted] True obtain v where v: "make_dirs (dest @ butlast rel) t = Inr v"
      and put: "andThen (step_files (put_file (dest @ rel) (content_of v (live @ rel))))
        (copy_live kit excluded live dest rels (acc @ [file_record kit rel (content_of v (live @ rel))])) v = (Ret fs, u)"
      by (auto dest: andThen_step_filesD)
    from andThen_step_filesD[OF put] obtain w where w: "put_file (dest @ rel) (content_of v (live @ rel)) v = Inr w"
      and rest: "copy_live kit excluded live dest rels (acc @ [file_record kit rel (content_of v (live @ rel))]) w = (Ret fs, u)" by blast
    have "same_outside dest s v" by (rule same_outside_make_dirs[OF Cons.prems(1) assms v])
    moreover then have c: "content_of v (live @ rel) = ?c"
      using Cons.prems(3)[of rel] by (auto simp: same_outside_def content_of_def)
    ultimately have w': "same_outside dest s w" using same_outside_put rel(1) w by blast
    have "file_at w (dest @ r) (content_of s (live @ r))" if "r \<in> insert rel D" for r
      using that put_file_at[OF w] file_at_put[OF file_at_make_dirs[OF Cons.prems(2) v] w] c by (cases "r = rel") auto
    from Cons.IH[OF w' this _ rest] Cons.prems(3) show ?thesis using True c by (auto simp: record_at_def)
  qed
qed

section \<open>Restoring\<close>

lemma andThen_step_files: "andThen (step_files f) n t = (case f t of Inl e \<Rightarrow> (Raise (OSFault e), t) | Inr v \<Rightarrow> n v)"
  by (auto simp: file_step_def andThen_def bind_def split: sum.splits)

text \<open>Two places neither of which lies below the other.\<close>

definition apart :: "place \<Rightarrow> place \<Rightarrow> bool" where
  "apart p q \<longleftrightarrow> \<not> beneath p q \<and> \<not> beneath q p"

lemma apart_beneath: "apart dest target \<Longrightarrow> beneath dest p \<Longrightarrow> \<not> beneath p (target @ q) \<and> p \<noteq> target @ q"
  by (auto simp: apart_def beneath_iff append_eq_append_conv2)

lemma restore_step:
  assumes "list_all proper_name rel" "rel \<noteq> []" "file_at t (backup @ rel) c"
  shows "restore_files kit backup target (file_record kit rel c # fs) acc t = (case make_dirs (target @ butlast rel) t of
      Inl e \<Rightarrow> (Raise (OSFault e), t)
    | Inr v \<Rightarrow> (case put_file (target @ rel) (content_of v (backup @ rel)) v of
        Inl e \<Rightarrow> (Raise (OSFault e), v)
      | Inr w \<Rightarrow> restore_files kit backup target fs (acc @ [posix rel]) w))"
proof -
  have "''..'' \<notin> set rel" using assms(1) by (auto simp: list_all_iff proper_name_def)
  with path_parts_posix[OF assms(1,2)] posix_relative[OF assms(1,2)] file_at_content[OF assms(3)] show ?thesis
    by (simp add: file_record_def Let_def andThen_raise_if bind_gets andThen_step_files split: sum.split)
qed

lemma restore_files_restores:
  assumes "apart dest target"
  shows "(\<And>rel. rel \<in> set rels \<Longrightarrow> list_all proper_name rel \<and> rel \<noteq> [] \<and> file_at s (dest @ rel) (orig rel)) \<Longrightarrow>
    (\<And>p. beneath dest p \<Longrightarrow> map_of t p = map_of s p) \<Longrightarrow> (\<And>rel. rel \<in> D \<Longrightarrow> file_at t (target @ rel) (orig rel)) \<Longrightarrow>
    restore_files kit dest target (map (\<lambda>rel. file_record kit rel (orig rel)) rels) acc t = (r, v) \<Longrightarrow>
    (case r of Ret out \<Rightarrow> \<forall>rel \<in> D \<union> set rels. file_at v (target @ rel) (orig rel) | Raise e \<Rightarrow> \<exists>m. e = OSFault m | NoFuel \<Rightarrow> False)"
proof (induction rels arbitrary: t D acc)
  case Nil
  then show ?case by (auto simp: prog_defs)
next
  case (Cons rel rels)
  have rel: "list_all proper_name rel" "rel \<noteq> []" "file_at t (dest @ rel) (orig rel)"
    using Cons.prems(1)[of rel] Cons.prems(2)[of "dest @ rel"] beneath_append by (auto simp: file_at_def)
  note run = Cons.prems(4)[unfolded list.map restore_step[OF rel]]
  show ?case
  proof (cases "make_dirs (target @ butlast rel) t")
    case (Inl e)
    with run show ?thesis by auto
  next
    case (Inr u)
    have kept_u: "map_of u p = map_of s p" if "beneath dest p" for p
      using make_dirs_effect(2)[OF Inr] apart_beneath[OF assms that] Cons.prems(2)[OF that] by metis
    show ?thesis
    proof (cases "put_file (target @ rel) (content_of u (dest @ rel)) u")
      case (Inl e)
      with run \<open>make_dirs _ t = Inr u\<close> show ?thesis by auto
    next
      case (Inr w)
      have c: "content_of u (dest @ rel) = orig rel"
        using file_at_content[OF file_at_make_dirs[OF rel(3) \<open>make_dirs _ t = Inr u\<close>]] by simp
      have kept: "map_of w p = map_of s p" if "beneath dest p" for p
        using put_file_Inr[OF Inr] kept_u[OF that] apart_beneath[OF assms that] by auto
      have files: "file_at w (target @ x) (orig x)" if "x \<in> insert rel D" for x
        using that put_file_at[OF Inr] c file_at_put[OF file_at_make_dirs[OF Cons.prems(3) \<open>make_dirs _ t = Inr u\<close>] Inr] by (cases "x = rel") auto
      have rest: "restore_files kit dest target (map (\<lambda>rel. file_record kit rel (orig rel)) rels) (acc @ [posix rel]) w = (r, v)"
        using run Inr \<open>make_dirs _ t = Inr u\<close> by simp
      from Cons.IH[where D = "insert rel D", OF _ kept files rest] Cons.prems(1) show ?thesis by (cases r) simp_all
    qed
  qed
qed

section \<open>The round trip\<close>

text \<open>Everything that is there has its parents, which are directories.\<close>

definition rooted :: "tree \<Rightarrow> bool" where
  "rooted t \<longleftrightarrow> (\<forall>p q. has_key t p \<longrightarrow> beneath q p \<longrightarrow> q \<noteq> [] \<longrightarrow> q \<noteq> p \<longrightarrow> map_of t q = Some Folder)"

lemma set_below: "rel \<in> set (below root t) \<longleftrightarrow> rel \<noteq> [] \<and> has_key t (root @ rel)"
proof -
  have "rel \<in> drop (length root) ` {p \<in> fst ` set t. beneath root p \<and> p \<noteq> root} \<longleftrightarrow> rel \<noteq> [] \<and> root @ rel \<in> fst ` set t"
  proof
    assume "rel \<in> drop (length root) ` {p \<in> fst ` set t. beneath root p \<and> p \<noteq> root}"
    then obtain p where p: "p \<in> fst ` set t" "beneath root p" "p \<noteq> root" "rel = drop (length root) p" by blast
    from p(2) obtain r where "p = root @ r" by (rule beneathE)
    with p show "rel \<noteq> [] \<and> root @ rel \<in> fst ` set t" by simp
  next
    assume "rel \<noteq> [] \<and> root @ rel \<in> fst ` set t"
    then show "rel \<in> drop (length root) ` {p \<in> fst ` set t. beneath root p \<and> p \<noteq> root}"
      by (intro image_eqI[where x = "root @ rel"]) (auto simp: beneath_append)
  qed
  then show ?thesis by (simp add: below_def has_key_def)
qed

lemma backup_live_state_returns:
  assumes "rooted s" "backup_live_state kit dump live dest integration version excluded s = (Ret m, t)"
  shows "\<exists>s1 rels u. make_dirs dest s = Inr s1 \<and> same_outside dest s1 u \<and> rels = filter (saved excluded live s1) (below live s1) \<and>
    lm_files m = map (record_at kit live s1) rels \<and> (\<forall>rel \<in> set rels. file_at u (dest @ rel) (content_of s1 (live @ rel))) \<and>
    put_file (dest @ [manifest_name]) (dump m) u = Inr t \<and> \<not> has_key s dest"
proof -
  have new: "\<not> has_key s dest" "dest \<noteq> []" and run: "andThen (step_files (make_dirs dest)) (bind (gets (below live)) (\<lambda>rels.
     bind (copy_live kit excluded live dest rels []) (\<lambda>records.
     let m = \<lparr>lm_integration = integration, lm_release = version, lm_created_at = acquired_at kit, lm_source = path_text live, lm_files = records\<rparr> in
     andThen (step_files (put_file (dest @ [manifest_name]) (dump m))) (ret m)))) s = (Ret m, t)"
    using assms(2) by (auto simp: backup_live_state_def bind_gets andThen_raise_if split: if_splits)
  from andThen_step_filesD[OF run] obtain s1 where s1: "make_dirs dest s = Inr s1"
    and "bind (copy_live kit excluded live dest (below live s1) []) (\<lambda>records.
     let m = \<lparr>lm_integration = integration, lm_release = version, lm_created_at = acquired_at kit, lm_source = path_text live, lm_files = records\<rparr> in
     andThen (step_files (put_file (dest @ [manifest_name]) (dump m))) (ret m)) s1 = (Ret m, t)" by (auto simp: bind_gets)
  then obtain fs u where copy: "copy_live kit excluded live dest (below live s1) [] s1 = (Ret fs, u)"
    and m: "m = \<lparr>lm_integration = integration, lm_release = version, lm_created_at = acquired_at kit, lm_source = path_text live, lm_files = fs\<rparr>"
    and put: "put_file (dest @ [manifest_name]) (dump m) u = Inr t"
    by (auto simp: bind_def Let_def ret_def dest!: andThen_step_filesD split: prod.splits outcome.splits)
  have folders: "map_of s1 p = Some Folder" if "beneath p dest" "p \<noteq> []" for p using make_dirs_effect(3)[OF s1 that] .
  have "\<not> (beneath dest (live @ rel) \<and> live @ rel \<noteq> dest)" if "rel \<in> set (below live s1)" for rel
  proof
    assume b: "beneath dest (live @ rel) \<and> live @ rel \<noteq> dest"
    then have "\<not> beneath (live @ rel) dest" by (auto simp: beneath_iff)
    then have "has_key s (live @ rel)" using that make_dirs_effect(2)[OF s1] by (auto simp: set_below has_key_map_of)
    then have "map_of s dest = Some Folder" using assms(1) b new unfolding rooted_def by metis
    with new show False by (simp add: has_key_map_of)
  qed
  moreover have "same_outside dest s1 s1" by (simp add: same_outside_def)
  moreover note copy_live_copies[of dest s1 s1 "{}" live "below live s1" kit excluded "[]" fs u]
  ultimately have "same_outside dest s1 u \<and> fs = map (record_at kit live s1) (filter (saved excluded live s1) (below live s1)) \<and>
      (\<forall>rel \<in> set (filter (saved excluded live s1) (below live s1)). file_at u (dest @ rel) (content_of s1 (live @ rel)))"
    using folders copy by (simp add: set_below)
  with s1 put new m show ?thesis by auto
qed

text \<open>C35: living state survives its backup. Let a backup be made of a directory whose files have proper names, none of which is a file
  \<open>backup-manifest.json\<close> at the top. The backup changes no file outside its own new directory. However the rest of the disk
  changes afterwards, restoring it to a place apart from it never finds it damaged, and when nothing is in the way every file
  that was not excluded is back with its content.\<close>

theorem living_state_restored:
  assumes rooted: "rooted s" and backup: "backup_live_state kit dump live dest integration version excluded s = (Ret m, t)"
    and json: "parse (dump m) = Some m"
    and names: "\<And>rel. has_key s (live @ rel) \<Longrightarrow> list_all proper_name rel" and clash: "\<not> saved excluded live s [manifest_name]"
    and kept: "\<And>p. beneath dest p \<Longrightarrow> map_of u p = map_of t p" and apart: "apart dest target"
    and restore: "restore_live_state kit parse dest target True u = (r, v)"
  shows "keeps_files {p. beneath dest p} s t \<and>
    (case r of
       Ret out \<Rightarrow> \<forall>rel c. rel \<noteq> [] \<longrightarrow> map_of s (live @ rel) = Some (File c) \<longrightarrow> list_all (\<lambda>x. x \<notin> set excluded) rel \<longrightarrow>
         map_of v (target @ rel) = Some (File c)
     | Raise e \<Rightarrow> \<exists>m. e = OSFault m
     | NoFuel \<Rightarrow> False)"
proof -
  obtain s1 w where s1: "make_dirs dest s = Inr s1" and w: "same_outside dest s1 w" "put_file (dest @ [manifest_name]) (dump m) w = Inr t"
    and records: "lm_files m = map (record_at kit live s1) (filter (saved excluded live s1) (below live s1))"
    and files: "\<And>rel. rel \<in> set (filter (saved excluded live s1) (below live s1)) \<Longrightarrow> file_at w (dest @ rel) (content_of s1 (live @ rel))"
    using backup_live_state_returns[OF rooted backup] by blast
  let ?rels = "filter (saved excluded live s1) (below live s1)"
  have same: "map_of s1 p = Some (File c) \<longleftrightarrow> map_of s p = Some (File c)" for p c using make_dirs_effect(1)[OF s1] .
  then have saved: "saved excluded live s1 rel \<longleftrightarrow> saved excluded live s rel" for rel by (simp add: saved_def is_file_iff)
  have outside: "keeps_files {p. beneath dest p} s t"
    using w same by (auto simp: keeps_files_def same_outside_def beneath_append dest!: put_file_Inr)
  have good: "list_all proper_name rel \<and> rel \<noteq> [] \<and> file_at t (dest @ rel) (content_of s1 (live @ rel))" if "rel \<in> set ?rels" for rel
  proof -
    have "is_file s (live @ rel)" "rel \<noteq> []" "rel \<noteq> [manifest_name]" using that clash saved by (auto simp: set_below saved_def)
    then show ?thesis using names file_at_put[OF files[OF that] w(2)] by (auto simp: is_file_iff has_key_map_of)
  qed
  have manifest: "file_at u (dest @ [manifest_name]) (dump m)"
    using put_file_at[OF w(2)] kept[of "dest @ [manifest_name]"] by (simp add: file_at_def beneath_append)
  have "restore_files kit dest target (map (\<lambda>rel. file_record kit rel (content_of s1 (live @ rel))) ?rels) [] u = (r, v)"
    using restore records file_at_content[OF manifest] json
    by (simp add: restore_live_state_def andThen_raise_if bind_gets record_at_def[abs_def])
  from restore_files_restores[OF apart good kept, of ?rels "{}", OF _ _ _ this]
  have "case r of Ret out \<Rightarrow> \<forall>rel \<in> set ?rels. file_at v (target @ rel) (content_of s1 (live @ rel)) | Raise e \<Rightarrow> \<exists>m. e = OSFault m | NoFuel \<Rightarrow> False"
    by (cases r) simp_all
  moreover have "rel \<in> set ?rels \<and> content_of s1 (live @ rel) = c"
    if "rel \<noteq> []" "map_of s (live @ rel) = Some (File c)" "list_all (\<lambda>x. x \<notin> set excluded) rel" for rel c
  proof -
    have "file_at s1 (live @ rel) c" using that(2) same by (simp add: file_at_def)
    moreover then have "has_key s1 (live @ rel)" by (simp add: file_at_def has_key_map_of)
    ultimately show ?thesis using that(1,3) by (simp add: set_below saved_def file_at_content)
  qed
  ultimately show ?thesis using outside by (cases r) (auto simp: file_at_def)
qed

definition demo_live :: tree where
  "demo_live = [([''live''], Folder), ([''live'', ''users''], File ''bob''), ([''live'', ''software''], Folder), ([''live'', ''software'', ''x''], File ''code'')]"

definition demo_manifest :: live_manifest where
  "demo_manifest = \<lparr>lm_integration = ''abbs'', lm_release = ''1.1'', lm_created_at = ''now'', lm_source = ''/live'',
     lm_files = [file_record demo_kit [''users''] ''bob'']\<rparr>"

theorem living_state_restored_witness:
  "\<exists>out v. restore_live_state demo_kit (\<lambda>x. Some demo_manifest) [''backup''] [''new''] True
      (snd (backup_live_state demo_kit (\<lambda>m. ''{}'') [''live''] [''backup''] ''abbs'' ''1.1'' [''software''] demo_live)) = (Ret out, v) \<and>
     map_of v [''new'', ''users''] = Some (File ''bob'')"
proof -
  let ?b = "backup_live_state demo_kit (\<lambda>m. ''{}'') [''live''] [''backup''] ''abbs'' ''1.1'' [''software''] demo_live"
  let ?r = "restore_live_state demo_kit (\<lambda>x. Some demo_manifest) [''backup''] [''new''] True (snd ?b)"
  have "fst ?b = Ret demo_manifest" by code_simp
  then have b: "?b = (Ret demo_manifest, snd ?b)" by (metis prod.collapse)
  have "(case fst ?r of Ret out \<Rightarrow> True | _ \<Rightarrow> False)" by code_simp
  then obtain out v where r: "?r = (Ret out, v)" by (cases ?r) (auto split: outcome.splits)
  have rooted: "rooted demo_live"
    by (auto simp: rooted_def demo_live_def has_key_map_of beneath_iff Cons_eq_append_conv split: if_splits)
  have names: "has_key demo_live ([''live''] @ rel) \<Longrightarrow> list_all proper_name rel" for rel
    by (auto simp: demo_live_def has_key_map_of proper_name_def split: if_splits)
  have "\<not> saved [''software''] [''live''] demo_live [manifest_name]" by code_simp
  moreover have "apart [''backup''] [''new'']" by (simp add: apart_def beneath_def)
  ultimately show ?thesis
    using living_state_restored[OF rooted b _ names _ refl _ r] r by (fastforce simp: demo_live_def)
qed

text \<open>A living file of the manifest's name is overwritten in the backup, and then no restore of the backup succeeds.\<close>

lemma manifest_clash:
  "fst (restore_live_state demo_kit (\<lambda>x. Some (demo_manifest\<lparr>lm_files := [file_record demo_kit [manifest_name] ''a'']\<rparr>)) [''backup''] [''new''] True
      (snd (backup_live_state demo_kit (\<lambda>m. ''{}'') [''live''] [''backup''] ''abbs'' ''1.1'' [] [([''live''], Folder), ([''live'', manifest_name], File ''a'')])))
     = Raise (ValueFault [''backup checksum failed: '', manifest_name])"
  by code_simp

end
