(* ===== verification/Backups.thy ===== *)
theory Backups
  imports Integrations_Install Living_State_Facts
begin

text \<open>
  The backup manager, \<open>scripts/ubb_backup/manager.py\<close>. A backup is a directory of the manager's root with a manifest, \<open>None\<close> when it
  does not parse, and a payload. Writing and reading tar files are arguments; the random part of an id is one as well.
\<close>

datatype backup_error = BackupError message | BackupFault message   \<comment> \<open>a fault is any other exception\<close>

record backup_manifest =
  bm_backup_id :: string
  bm_target_id :: string
  bm_release :: "string option"
  bm_created_at :: string
  bm_payload :: string
  bm_payload_sha256 :: string
  bm_components :: "string list"
  bm_excluded :: "string list"
  bm_size :: int
  bm_consistency :: string
  bm_verification :: string

record restore_plan =
  pl_backup_id :: string
  pl_target_id :: string
  pl_components :: "string list"
  pl_destination_root :: place

record target_declaration =
  bd_source :: place
  bd_include :: "string list"
  bd_exclude :: "string list"
  bd_consistency :: string

record vault =
  va_tree :: tree
  va_manifests :: "(string, backup_manifest option) dict"
  va_payloads :: "(string, string) dict"
  va_declarations :: "(string, target_declaration) dict"

type_synonym 'a bprog = "(vault, backup_error, 'a) prog"

record tar_io =
  tr_write :: "(place \<times> string) list \<Rightarrow> string"
  tr_read :: "string \<Rightarrow> tar_member list option"
  tr_suffix :: string                         \<comment> \<open>the time stamp and the random part of a new id\<close>
  tr_now :: string

definition declare_target :: "string \<Rightarrow> target_declaration \<Rightarrow> unit bprog" where
  "declare_target target d = modify (\<lambda>s. s\<lparr>va_declarations := AList.update target d (va_declarations s)\<rparr>)"

definition declared :: "string \<Rightarrow> target_declaration bprog" where
  "declared target = bind (gets (\<lambda>s. map_of (va_declarations s) target)) (\<lambda>d. case d of
      None \<Rightarrow> raise (BackupError [''backup target is not registered: '', target]) | Some d \<Rightarrow> ret d)"

text \<open>The files that go into the payload, in the order of their paths.\<close>

definition payload_files :: "target_declaration \<Rightarrow> tree \<Rightarrow> (place \<times> string) list" where
  "payload_files d t = map (\<lambda>rel. (rel, content_of t (bd_source d @ rel))) (filter (saved (bd_exclude d) (bd_source d) t) (below (bd_source d) t))"

definition create_backup :: "tools \<Rightarrow> tar_io \<Rightarrow> string \<Rightarrow> string option \<Rightarrow> int \<Rightarrow> string option \<Rightarrow> backup_manifest bprog" where
  "create_backup kit io target version sessions consistency =
     bind (declared target) (\<lambda>d.
     let mode = (if truthy consistency then the consistency else bd_consistency d); bid = target @ ''-'' @ tr_suffix io in
     andThen (raise_if (mode \<notin> set [''stopped'', ''live_best_effort'']) (BackupError [''invalid consistency mode'']))
    (andThen (raise_if (mode = ''stopped'' \<and> sessions \<noteq> 0) (BackupError [''active callers prevent stopped-consistency backup'']))
    (bind (gets (\<lambda>s. is_dir (va_tree s) (bd_source d))) (\<lambda>there.
     andThen (raise_if (\<not> there) (BackupError [''registered living-state root is missing'']))
    (bind (gets (\<lambda>s. tr_write io (payload_files d (va_tree s)))) (\<lambda>bytes.
     bind (gets (\<lambda>s. has_key (va_payloads s) bid \<or> has_key (va_manifests s) bid)) (\<lambda>taken.
     andThen (raise_if taken (BackupFault [''File exists'']))
    (let m = \<lparr>bm_backup_id = bid, bm_target_id = target, bm_release = version, bm_created_at = tr_now io, bm_payload = ''payload.tar'',
        bm_payload_sha256 = sha256 kit bytes, bm_components = bd_include d, bm_excluded = bd_exclude d, bm_size = int (length bytes),
        bm_consistency = mode, bm_verification = ''READY''\<rparr> in
     andThen (modify (\<lambda>s. s\<lparr>va_payloads := AList.update bid bytes (va_payloads s), va_manifests := AList.update bid (Some m) (va_manifests s)\<rparr>))
     (ret m)))))))))"

definition list_backups :: "string option \<Rightarrow> vault \<Rightarrow> backup_manifest list" where
  "list_backups target s = filter (\<lambda>m. target = None \<or> target = Some (bm_target_id m))
     (concat (map (\<lambda>(i, m). case m of None \<Rightarrow> [] | Some m \<Rightarrow> [m]) (sort_key fst (va_manifests s))))"

definition show_backup :: "string \<Rightarrow> backup_manifest bprog" where
  "show_backup bid = bind (gets (\<lambda>s. map_of (va_manifests s) bid)) (\<lambda>m. case m of
      None \<Rightarrow> raise (BackupError [''backup not found''])
    | Some None \<Rightarrow> raise (BackupFault [''JSONDecodeError''])
    | Some (Some m) \<Rightarrow> ret m)"

definition payload_of :: "string \<Rightarrow> string \<Rightarrow> vault \<Rightarrow> string option" where
  "payload_of bid name s = (if name = ''payload.tar'' then map_of (va_payloads s) bid else None)"

text \<open>\<open>tarfile.open(payload)\<close> and \<open>getmembers()\<close>\<close>

definition read_members :: "tar_io \<Rightarrow> string option \<Rightarrow> tar_member list bprog" where
  "read_members io payload = (case payload of
      None \<Rightarrow> raise (BackupFault [''No such file''])
    | Some b \<Rightarrow> (case tr_read io b of None \<Rightarrow> raise (BackupFault [''ReadError'']) | Some ms \<Rightarrow> ret ms))"

definition verify_backup :: "tools \<Rightarrow> tar_io \<Rightarrow> string \<Rightarrow> backup_manifest bprog" where
  "verify_backup kit io bid =
     bind (show_backup bid) (\<lambda>m.
     bind (gets (payload_of bid (bm_payload m))) (\<lambda>payload.
     andThen (raise_if (case payload of None \<Rightarrow> True | Some b \<Rightarrow> sha256 kit b \<noteq> bm_payload_sha256 m) (BackupError [''backup checksum failed'']))
    (bind (read_members io payload) (\<lambda>ms.
     andThen (raise_if (list_ex unsafe_member ms) (BackupError [''unsafe backup payload'']))
     (ret (m\<lparr>bm_verification := ''PASS''\<rparr>))))))"

definition plan_restore :: "string \<Rightarrow> string \<Rightarrow> place \<Rightarrow> restore_plan bprog" where
  "plan_restore bid target dest = bind (show_backup bid) (\<lambda>m.
     andThen (raise_if (bm_target_id m \<noteq> target) (BackupError [''backup target mismatch'']))
     (ret \<lparr>pl_backup_id = bid, pl_target_id = target, pl_components = bm_components m, pl_destination_root = dest\<rparr>))"

text \<open>\<open>extractall(dest, filter="data")\<close>\<close>

fun extract_under :: "place \<Rightarrow> tar_member list \<Rightarrow> (tree, backup_error, unit) prog" where
  "extract_under dest [] = ret ()"
| "extract_under dest (m # ms) = (let p = dest @ member_place m in
     if tm_is_dir m then andThen (file_step BackupFault (make_dirs p)) (extract_under dest ms)
     else andThen (file_step BackupFault (make_dirs (butlast p)))
         (andThen (file_step BackupFault (put_file p (tm_content m))) (extract_under dest ms)))"

definition on_tree :: "(tree, backup_error, 'a) prog \<Rightarrow> 'a bprog" where
  "on_tree m = (\<lambda>s. let (r, t) = m (va_tree s) in (r, s\<lparr>va_tree := t\<rparr>))"

definition restore_backup :: "tools \<Rightarrow> tar_io \<Rightarrow> string \<Rightarrow> string \<Rightarrow> place \<Rightarrow> bool \<Rightarrow> unit bprog" where
  "restore_backup kit io bid target dest verified =
     andThen (if verified then ret () else bind (verify_backup kit io bid) (\<lambda>m. ret ()))
    (bind (plan_restore bid target dest) (\<lambda>plan.
     andThen (on_tree (file_step BackupFault (make_dirs (pl_destination_root plan))))
    (bind (gets (payload_of bid ''payload.tar'')) (\<lambda>payload.
     bind (read_members io payload) (\<lambda>ms.
     andThen (raise_if (list_ex unsafe_member ms) (BackupError [''unsafe restore payload'']))
     (on_tree (extract_under (pl_destination_root plan) ms)))))))"

section \<open>The round trip\<close>

text \<open>What \<open>tarfile\<close> documents of the members it wrote.\<close>

definition tar_file :: "place \<times> string \<Rightarrow> tar_member" where
  "tar_file f = \<lparr>tm_name = posix (fst f), tm_is_dir = False, tm_is_link = False, tm_content = snd f\<rparr>"

definition proper_tar :: "tar_io \<Rightarrow> (place \<times> string) list \<Rightarrow> bool" where
  "proper_tar io fs \<longleftrightarrow> tr_read io (tr_write io fs) = Some (map tar_file fs)"

lemma tar_file_fields: "\<not> tm_is_dir (tar_file f)" "tm_content (tar_file f) = snd f"
  by (simp_all add: tar_file_def)

lemma tar_file_place: "list_all proper_name rel \<Longrightarrow> rel \<noteq> [] \<Longrightarrow> member_place (tar_file (rel, c)) = rel \<and> \<not> unsafe_member (tar_file (rel, c))"
proof -
  assume rel: "list_all proper_name rel" "rel \<noteq> []"
  have split: "split_on (CHR ''/'') (posix rel) = rel"
    unfolding posix_def using rel by (intro split_on_join) (auto simp: list_all_iff proper_name_def)
  have "filter (\<lambda>x. x \<noteq> [] \<and> x \<noteq> ''.'') rel = rel" "''..'' \<notin> set rel"
    using rel(1) by (auto simp: list_all_iff proper_name_def filter_id_conv)
  with split posix_relative[OF rel] show ?thesis by (simp add: member_place_def unsafe_member_def tar_file_def)
qed

lemma extract_under_files:
  "(\<And>f. f \<in> set fs \<Longrightarrow> list_all proper_name (fst f) \<and> fst f \<noteq> []) \<Longrightarrow> distinct (map fst fs) \<Longrightarrow>
   (\<And>f. f \<in> D \<Longrightarrow> file_at t (dest @ fst f) (snd f) \<and> fst f \<notin> fst ` set fs) \<Longrightarrow> extract_under dest (map tar_file fs) t = (r, v) \<Longrightarrow>
   (case r of Ret x \<Rightarrow> \<forall>f \<in> D \<union> set fs. file_at v (dest @ fst f) (snd f) | Raise e \<Rightarrow> \<exists>m. e = BackupFault m | NoFuel \<Rightarrow> False)"
proof (induction fs arbitrary: t D)
  case (Cons f fs)
  obtain rel c where f: "f = (rel, c)" by (cases f)
  have rel: "list_all proper_name rel" "rel \<noteq> []" using Cons.prems(1)[of f] f by auto
  have run: "andThen (file_step BackupFault (make_dirs (dest @ butlast rel)))
      (andThen (file_step BackupFault (put_file (dest @ rel) c)) (extract_under dest (map tar_file fs))) t = (r, v)"
    using Cons.prems(4) conjunct1[OF tar_file_place[OF rel, of c]] rel(2) tar_file_fields[of "(rel, c)"] by (simp add: f Let_def butlast_append)
  have faults: "file_step BackupFault g u = (case g u of Inl e \<Rightarrow> (Raise (BackupFault e), u) | Inr w \<Rightarrow> (Ret (), w))" for g u
    by (simp add: file_step_def)
  show ?case
  proof (cases "make_dirs (dest @ butlast rel) t")
    case (Inl e)
    with run show ?thesis by (auto simp: andThen_def bind_def faults)
  next
    case u: (Inr u)
    show ?thesis
    proof (cases "put_file (dest @ rel) c u")
      case (Inl e)
      with run u show ?thesis by (auto simp: andThen_def bind_def faults)
    next
      case w: (Inr w)
      have rest: "extract_under dest (map tar_file fs) w = (r, v)" using run u w by (simp add: andThen_def bind_def faults)
      have placed: "file_at w (dest @ fst g) (snd g) \<and> fst g \<notin> fst ` set fs" if "g \<in> insert f D" for g
      proof (cases "g = f")
        case True
        with put_file_at[OF w] f Cons.prems(2) show ?thesis by auto
      next
        case False
        with that have "file_at t (dest @ fst g) (snd g)" "fst g \<notin> fst ` set (f # fs)" using Cons.prems(3)[of g] by auto
        with file_at_put[OF file_at_make_dirs[OF _ u] w] f show ?thesis by auto
      qed
      from Cons.IH[OF _ _ placed rest] Cons.prems(1,2) show ?thesis by (cases r) (simp_all, blast+)
    qed
  qed
qed (auto simp: ret_def)

lemma distinct_below: "wf_dict t \<Longrightarrow> distinct (below root t)"
proof -
  assume "wf_dict t"
  moreover have "inj_on (drop (length root)) {p. beneath root p}"
    by (rule inj_onI) (auto elim!: beneathE)
  ultimately show ?thesis
    unfolding below_def by (auto simp: distinct_map wf_dict_def intro: inj_on_subset)
qed

lemma create_backup_returns:
  assumes "map_of (va_declarations s) target = Some d" "create_backup kit io target version sessions consistency s = (Ret m, t)"
  shows "(let bytes = tr_write io (payload_files d (va_tree s)) in
    bm_payload m = ''payload.tar'' \<and> bm_payload_sha256 m = sha256 kit bytes \<and> bm_target_id m = target \<and> bm_verification m = ''READY'' \<and>
    (bm_consistency m = ''stopped'' \<longrightarrow> sessions = 0) \<and> bm_consistency m \<in> {''stopped'', ''live_best_effort''} \<and> va_tree t = va_tree s \<and>
    map_of (va_payloads t) (bm_backup_id m) = Some bytes \<and> map_of (va_manifests t) (bm_backup_id m) = Some (Some m) \<and>
    \<not> has_key (va_payloads s) (bm_backup_id m))"
  using assms by (auto simp: create_backup_def declared_def prog_defs Let_def split: if_splits)

text \<open>C36: a backup of a registered target. The sources stay as they are and no backup of another id is touched; a backup that
  claims to be consistent was made without callers. Whatever happens to the disk later, as long as the backup itself stays, it
  verifies, and restoring it never finds it damaged; when nothing is in the way, every file of the target that is not excluded is
  back, whether or not it belongs to the components the manifest names.\<close>

theorem backup_restored:
  assumes tar: "proper_tar io (payload_files d (va_tree s))" and wf: "wf_dict (va_tree s)" and target: "map_of (va_declarations s) target = Some d"
    and names: "\<And>rel. has_key (va_tree s) (bd_source d @ rel) \<Longrightarrow> list_all proper_name rel"
    and create: "create_backup kit io target version sessions consistency s = (Ret m, t)"
    and kept: "map_of (va_payloads u) (bm_backup_id m) = map_of (va_payloads t) (bm_backup_id m)"
      "map_of (va_manifests u) (bm_backup_id m) = map_of (va_manifests t) (bm_backup_id m)"
    and restore: "restore_backup kit io (bm_backup_id m) target dest False u = (r, v)"
  shows "va_tree t = va_tree s \<and> (bm_consistency m = ''stopped'' \<longrightarrow> sessions = 0) \<and>
    verify_backup kit io (bm_backup_id m) u = (Ret (m\<lparr>bm_verification := ''PASS''\<rparr>), u) \<and>
    (case r of
       Ret x \<Rightarrow> \<forall>rel c. rel \<noteq> [] \<longrightarrow> map_of (va_tree s) (bd_source d @ rel) = Some (File c) \<longrightarrow> list_all (\<lambda>x. x \<notin> set (bd_exclude d)) rel \<longrightarrow>
         map_of (va_tree v) (dest @ rel) = Some (File c)
     | Raise e \<Rightarrow> \<exists>m. e = BackupFault m
     | NoFuel \<Rightarrow> False)"
proof -
  let ?fs = "payload_files d (va_tree s)" let ?bid = "bm_backup_id m"
  note made = create_backup_returns[OF target create, unfolded Let_def]
  have good: "list_all proper_name (fst f) \<and> fst f \<noteq> []" if "f \<in> set ?fs" for f
    using that names by (auto simp: payload_files_def set_below)
  then have safe: "\<not> list_ex unsafe_member (map tar_file ?fs)"
    using tar_file_place by (fastforce simp: list_ex_iff)
  have members: "read_members io (Some (tr_write io ?fs)) = ret (map tar_file ?fs)" using tar by (simp add: read_members_def proper_tar_def)
  have returned: "ret x v = (Ret x, v)" for x :: backup_manifest and v :: vault by (simp add: ret_def)
  have shown: "show_backup ?bid u = (Ret m, u)" using made kept(2) by (simp add: show_backup_def prog_defs)
  note bind_shown = bind_returning[of "show_backup ?bid" u m u, OF shown]
  have bytes: "payload_of ?bid ''payload.tar'' u = Some (tr_write io ?fs)" using made kept(1) by (simp add: payload_of_def)
  have verified: "verify_backup kit io ?bid u = (Ret (m\<lparr>bm_verification := ''PASS''\<rparr>), u)"
    using made safe by (simp add: verify_backup_def bind_shown bind_gets bytes andThen_raise_if members bind_ret_left returned)
  have planned: "plan_restore ?bid target dest u = (Ret \<lparr>pl_backup_id = ?bid, pl_target_id = target, pl_components = bm_components m,
      pl_destination_root = dest\<rparr>, u)" using made by (simp add: plan_restore_def bind_shown andThen_raise_if ret_def)
  note bind_verified = bind_returning[of "verify_backup kit io ?bid" u _ u, OF verified]
  have "restore_backup kit io ?bid target dest False u = andThen (on_tree (file_step BackupFault (make_dirs dest)))
      (bind (gets (payload_of ?bid ''payload.tar'')) (\<lambda>payload. bind (read_members io payload) (\<lambda>ms.
       andThen (raise_if (list_ex unsafe_member ms) (BackupError [''unsafe restore payload''])) (on_tree (extract_under dest ms))))) u"
    by (simp add: restore_backup_def andThen_def[of "bind (verify_backup _ _ _) _"] bind_assoc bind_verified bind_ret_left
      bind_returning[of "plan_restore ?bid target dest" u _ u, OF planned])
  with restore have run: "andThen (on_tree (file_step BackupFault (make_dirs dest)))
      (bind (gets (payload_of ?bid ''payload.tar'')) (\<lambda>payload. bind (read_members io payload) (\<lambda>ms.
       andThen (raise_if (list_ex unsafe_member ms) (BackupError [''unsafe restore payload''])) (on_tree (extract_under dest ms))))) u = (r, v)" by simp
  have "case r of Ret x \<Rightarrow> \<forall>f \<in> set ?fs. file_at (va_tree v) (dest @ fst f) (snd f) | Raise e \<Rightarrow> \<exists>m. e = BackupFault m | NoFuel \<Rightarrow> False"
  proof (cases "make_dirs dest (va_tree u)")
    case (Inl e)
    with run show ?thesis by (auto simp: andThen_def bind_def on_tree_def file_step_def)
  next
    case (Inr w)
    have stepped: "on_tree (file_step BackupFault (make_dirs dest)) u = (Ret (), u\<lparr>va_tree := w\<rparr>)"
      using Inr by (simp add: on_tree_def file_step_def)
    have "on_tree (extract_under dest (map tar_file ?fs)) (u\<lparr>va_tree := w\<rparr>) = (r, v)"
      using run bytes safe members
      by (simp add: andThen_returning[of "on_tree (file_step BackupFault (make_dirs dest))" u _ "u\<lparr>va_tree := w\<rparr>", OF stepped]
        bind_gets payload_of_def bind_ret_left andThen_raise_if)
    then obtain w' where w': "extract_under dest (map tar_file ?fs) w = (r, w')" "va_tree v = w'"
      by (auto simp: on_tree_def split: prod.splits)
    have "distinct (map fst ?fs)" using distinct_below[OF wf] by (simp add: payload_files_def comp_def)
    from extract_under_files[OF good this _ w'(1), of "{}"] w'(2) show ?thesis by (cases r) simp_all
  qed
  moreover have "(rel, c) \<in> set ?fs"
    if "rel \<noteq> []" "map_of (va_tree s) (bd_source d @ rel) = Some (File c)" "list_all (\<lambda>x. x \<notin> set (bd_exclude d)) rel" for rel c
  proof -
    have "file_at (va_tree s) (bd_source d @ rel) c" using that(2) by (simp add: file_at_def)
    with that show ?thesis by (auto simp: payload_files_def set_below saved_def file_at_content has_key_map_of)
  qed
  ultimately show ?thesis using made verified by (cases r) (fastforce simp: file_at_def)+
qed

definition demo_io :: tar_io where
  "demo_io = \<lparr>tr_write = (\<lambda>fs. concat (map snd fs)), tr_read = (\<lambda>b. Some [tar_file ([''users''], b)]), tr_suffix = ''20260101'', tr_now = ''now''\<rparr>"

definition demo_declaration :: target_declaration where
  "demo_declaration = \<lparr>bd_source = [''live''], bd_include = [''config''], bd_exclude = [''software''], bd_consistency = ''stopped''\<rparr>"

definition demo_vault :: vault where
  "demo_vault = \<lparr>va_tree = demo_live, va_manifests = [], va_payloads = [], va_declarations = [(''abbs'', demo_declaration)]\<rparr>"

theorem backup_restored_witness:
  "\<exists>m t v. create_backup demo_kit demo_io ''abbs'' None 0 None demo_vault = (Ret m, t) \<and>
     restore_backup demo_kit demo_io (bm_backup_id m) ''abbs'' [''new''] False t = (Ret (), v) \<and>
     map_of (va_tree v) [''new'', ''users''] = Some (File ''bob'')"
proof -
  let ?c = "create_backup demo_kit demo_io ''abbs'' None 0 None demo_vault"
  let ?r = "restore_backup demo_kit demo_io ''abbs-20260101'' ''abbs'' [''new''] False (snd ?c)"
  have "(case fst ?c of Ret m \<Rightarrow> bm_backup_id m = ''abbs-20260101'' | _ \<Rightarrow> False)" "fst ?r = Ret ()" by code_simp+
  then obtain m t where c: "?c = (Ret m, t)" and m: "bm_backup_id m = ''abbs-20260101''" by (cases ?c) (auto split: outcome.splits)
  then obtain v where r: "restore_backup demo_kit demo_io (bm_backup_id m) ''abbs'' [''new''] False t = (Ret (), v)"
    using \<open>fst ?r = Ret ()\<close> by (cases ?r) simp
  have "proper_tar demo_io (payload_files demo_declaration (va_tree demo_vault))" unfolding proper_tar_def by code_simp
  moreover have "wf_dict (va_tree demo_vault)" "map_of (va_declarations demo_vault) ''abbs'' = Some demo_declaration"
    by (simp_all add: wf_dict_def demo_vault_def demo_live_def)
  moreover have "list_all proper_name rel" if "has_key (va_tree demo_vault) (bd_source demo_declaration @ rel)" for rel
    using that by (auto simp: demo_vault_def demo_declaration_def demo_live_def has_key_map_of proper_name_def split: if_splits)
  ultimately have "map_of (va_tree v) [''new'', ''users''] = Some (File ''bob'')"
    using backup_restored[OF _ _ _ _ c refl refl r, of demo_declaration] by (fastforce simp: demo_vault_def demo_declaration_def demo_live_def)
  with c r show ?thesis by blast
qed

end
