(* ===== verification/Deployments.thy ===== *)
theory Deployments
  imports Living_State_Facts Registry_Facts
begin

text \<open>
  The deployment manager, \<open>scripts/ubb_deployment/manager.py\<close>: a preserved artifact is copied into a staging directory, which then
  becomes the deployment. The archive is only read; the file system is a tree. Arguments are the hash functions, the JSON text
  of a manifest, the clock and the name of the staging directory; metadata that parse are objects, and so are their parts. A
  service id is one component of a path.
\<close>

datatype deployment_error = DeploymentError message | DeploymentFault message   \<comment> \<open>a fault is any other exception\<close>

record deployment_manifest =
  dm_schema_version :: int
  dm_service_id :: string
  dm_integration_id :: string
  dm_release :: "string option"
  dm_artifact_id :: string
  dm_artifact_sha256 :: string
  dm_derived_artifact_id :: "string option"
  dm_materialized_at :: string
  dm_materialization_mode :: string
  dm_target_root :: place
  dm_tree_sha256 :: string
  dm_state_scope :: string
  dm_shared_state_id :: "string option"

type_synonym 'a dprog = "(tree, deployment_error, 'a) prog"

record deploy_io =
  dx_raw :: "string \<Rightarrow> string"                             \<comment> \<open>\<open>digest()\<close> of a SHA-256, from its \<open>hexdigest()\<close>\<close>
  dx_dump :: "deployment_manifest \<Rightarrow> string"
  dx_parse :: "string \<Rightarrow> deployment_manifest option"
  dx_now :: string
  dx_staging :: string                                    \<comment> \<open>the name that \<open>mkdtemp\<close> finds\<close>

text \<open>The places of the archive and of the deployments\<close>

record deploy_paths =
  dp_archive :: place
  dp_root :: place

definition tree_digest :: "tools \<Rightarrow> deploy_io \<Rightarrow> place \<Rightarrow> tree \<Rightarrow> string" where
  "tree_digest kit io root t = sha256 kit (concat (map (\<lambda>rel. posix rel @ [CHR 0x00] @ dx_raw io (sha256 kit (content_of t (root @ rel))))
     (filter (\<lambda>rel. is_file t (root @ rel)) (below root t))))"

definition preserved :: "tools \<Rightarrow> archive \<Rightarrow> string \<Rightarrow> deployment_error + json \<times> string \<times> string" where
  "preserved kit a artifact_id = (case map_of (ar_metadata a) artifact_id of
      Some (Some doc) \<Rightarrow>
        if part doc [''rights'', ''install_locally''] = JBool False then Inl (DeploymentError [''artifact is not permitted for local installation''])
        else if \<not> truth (part doc [''artifact'', ''sha256'']) then Inl (DeploymentError [''artifact SHA-256 missing''])
        else let digest = text_of (part doc [''artifact'', ''sha256'']) in
          (case object_key digest of
             Inl e \<Rightarrow> Inl (DeploymentFault [''invalid object digest''])
           | Inr key \<Rightarrow> (case map_of (ar_objects a) key of
               None \<Rightarrow> Inl (DeploymentError [''preserved artifact object missing''])
             | Some bytes \<Rightarrow> if sha256 kit bytes \<noteq> digest then Inl (DeploymentError [''preserved artifact verification failed''])
                 else Inr (doc, bytes, digest)))
    | _ \<Rightarrow> Inl (DeploymentError [''preserved artifact metadata unavailable'']))"

definition lift_deployment :: "deployment_error + 'a \<Rightarrow> 'a dprog" where
  "lift_deployment r = (case r of Inl e \<Rightarrow> raise e | Inr x \<Rightarrow> ret x)"

text \<open>\<open>os.replace(src, dst)\<close> of a directory, to a place where nothing is\<close>

definition rename_dir :: "place \<Rightarrow> place \<Rightarrow> tree \<Rightarrow> message + tree" where
  "rename_dir src dst t = (if beneath src dst \<or> list_ex (\<lambda>(p, n). beneath dst p) t \<or> \<not> is_dir t (butlast dst)
     then Inl [''cannot rename the directory'']
     else Inr (map (\<lambda>(p, n). (if beneath src p then dst @ drop (length src) p else p, n)) t))"

text \<open>The \<open>try\<close> block of \<open>materialize\<close>. A preserved object is a file, whose name is its digest.\<close>

definition build_deployment :: "tools \<Rightarrow> deploy_io \<Rightarrow> (string \<Rightarrow> deployment_manifest) \<Rightarrow> string \<Rightarrow> string \<Rightarrow> place \<Rightarrow> place \<Rightarrow> deployment_manifest dprog" where
  "build_deployment kit io manifest_of name bytes staging target =
     andThen (file_step DeploymentFault (make_dirs (staging @ [''assets''])))
    (andThen (file_step DeploymentFault (put_file (staging @ [''assets'', name]) bytes))
    (andThen (file_step DeploymentFault (make_dirs (butlast target)))
    (bind (gets (\<lambda>t. manifest_of (tree_digest kit io (staging @ [''assets'']) t))) (\<lambda>m.
     andThen (file_step DeploymentFault (put_file (staging @ [''deployment-manifest.json'']) (dx_dump io m)))
    (bind (gets (\<lambda>t. has_key t target \<or> target = [])) (\<lambda>there.
     andThen (raise_if there (DeploymentError [''deployment target already exists'']))
    (andThen (file_step DeploymentFault (rename_dir staging target)) (ret m))))))))"

definition make_staging :: "place \<Rightarrow> tree \<Rightarrow> message + tree" where
  "make_staging p t = (if has_key t p then Inl [''File exists''] else if \<not> is_dir t (butlast p) then Inl [''No such file or directory'']
     else Inr (AList.update p Folder t))"

record deployment_request =
  dq_service_id :: string
  dq_integration_id :: string
  dq_artifact_id :: string
  dq_target_root :: place
  dq_release :: "string option"
  dq_derived_artifact_id :: "string option"
  dq_mode :: string
  dq_state_scope :: string
  dq_shared_state_id :: "string option"

definition manifest_for :: "deploy_io \<Rightarrow> deployment_request \<Rightarrow> string \<Rightarrow> string \<Rightarrow> deployment_manifest" where
  "manifest_for io q digest tree =
     \<lparr>dm_schema_version = 1, dm_service_id = dq_service_id q, dm_integration_id = dq_integration_id q, dm_release = dq_release q,
      dm_artifact_id = dq_artifact_id q, dm_artifact_sha256 = digest, dm_derived_artifact_id = dq_derived_artifact_id q,
      dm_materialized_at = dx_now io, dm_materialization_mode = dq_mode q, dm_target_root = dq_target_root q, dm_tree_sha256 = tree,
      dm_state_scope = dq_state_scope q, dm_shared_state_id = dq_shared_state_id q\<rparr>"

definition staging_place :: "deploy_io \<Rightarrow> deploy_paths \<Rightarrow> place" where
  "staging_place io paths = butlast (dp_root paths) @ [''deployment.'' @ dx_staging io]"

definition materialize :: "tools \<Rightarrow> deploy_io \<Rightarrow> deploy_paths \<Rightarrow> archive \<Rightarrow> deployment_request \<Rightarrow> deployment_manifest dprog" where
  "materialize kit io paths a q =
     andThen (raise_if (dq_state_scope q \<notin> set [''per_deployment'', ''shared'']) (DeploymentError [''invalid state scope'']))
    (andThen (raise_if (dq_state_scope q = ''shared'' \<and> \<not> truthy (dq_shared_state_id q)) (DeploymentError [''shared state requires an ID'']))
    (andThen (raise_if (beneath (dp_archive paths) (dq_target_root q)) (DeploymentError [''deployment cannot be inside preservation archive'']))
    (bind (lift_deployment (preserved kit a (dq_artifact_id q))) (\<lambda>(doc, bytes, digest).
     let staging = staging_place io paths in
     andThen (file_step DeploymentFault (make_staging staging))
     (finally_do (build_deployment kit io (manifest_for io q digest) (lower digest) bytes staging (dq_target_root q)) (remove_tree staging))))))"

definition show_deployment :: "deploy_io \<Rightarrow> deploy_paths \<Rightarrow> string \<Rightarrow> tree \<Rightarrow> deployment_manifest option" where
  "show_deployment io paths i t = (case map_of t (dp_root paths @ [i, ''deployment-manifest.json'']) of
      Some (File c) \<Rightarrow> dx_parse io c | _ \<Rightarrow> None)"

definition list_deployments :: "deploy_io \<Rightarrow> deploy_paths \<Rightarrow> tree \<Rightarrow> deployment_manifest list" where
  "list_deployments io paths t = concat (map (\<lambda>rel. case rel of
      [i] \<Rightarrow> if is_dir t (dp_root paths @ [i]) then (case show_deployment io paths i t of None \<Rightarrow> [] | Some m \<Rightarrow> [m]) else []
    | _ \<Rightarrow> []) (below (dp_root paths) t))"

definition verify_deployment :: "tools \<Rightarrow> deploy_io \<Rightarrow> deploy_paths \<Rightarrow> archive \<Rightarrow> string \<Rightarrow> tree \<Rightarrow> deployment_error + bool" where
  "verify_deployment kit io paths a i t = (case show_deployment io paths i t of
      None \<Rightarrow> Inl (DeploymentError [''deployment manifest unavailable''])
    | Some m \<Rightarrow> let target = dm_target_root m in
        if \<not> (has_key t target \<or> target = []) \<or> tree_digest kit io (target @ [''assets'']) t \<noteq> dm_tree_sha256 m
        then Inl (DeploymentError [''deployment tree or digest mismatch''])
        else bindS (preserved kit a (dm_artifact_id m)) (\<lambda>_. Inr True))"

definition provenance :: "tools \<Rightarrow> deploy_io \<Rightarrow> deploy_paths \<Rightarrow> archive \<Rightarrow> string \<Rightarrow> tree \<Rightarrow> deployment_error + deployment_manifest \<times> json" where
  "provenance kit io paths a i t = (case show_deployment io paths i t of
      None \<Rightarrow> Inl (DeploymentError [''deployment unavailable''])
    | Some m \<Rightarrow> bindS (preserved kit a (dm_artifact_id m)) (\<lambda>(doc, _). Inr (m, doc)))"

section \<open>Materializing\<close>

lemma andThen_file_step: "andThen (file_step os f) n t = (case f t of Inl e \<Rightarrow> (Raise (os e), t) | Inr v \<Rightarrow> n v)"
  by (auto simp: file_step_def andThen_def bind_def split: sum.splits)

lemma in_map_keys: "(q, n) \<in> set (map (\<lambda>(p, n). (g p, n)) t) \<longleftrightarrow> (\<exists>p. (p, n) \<in> set t \<and> q = g p)"
  by (induction t) auto

lemma map_of_rename:
  assumes "rename_dir src dst t = Inr u" and wf: "wf_dict t"
  shows "map_of u p = (if beneath dst p then map_of t (src @ drop (length dst) p) else if beneath src p then None else map_of t p)" and "wf_dict u"
proof -
  let ?g = "\<lambda>p. if beneath src p then dst @ drop (length src) p else p"
  have free: "\<not> beneath dst p" if "p \<in> fst ` set t" for p
    using assms(1) that by (auto simp: rename_dir_def list_ex_iff split: if_splits)
  have u: "u = map (\<lambda>(p, n). (?g p, n)) t" and apart: "\<not> beneath src dst"
    using assms(1) by (auto simp: rename_dir_def split: if_splits)
  have g: "?g p = ?g q \<Longrightarrow> p = q" if "p \<in> fst ` set t" "q \<in> fst ` set t" for p q
    using free[OF that(1)] free[OF that(2)] by (auto simp: beneath_iff split: if_splits)
  then have inj: "inj_on ?g (fst ` set t)" by (rule inj_onI)
  have keys: "map fst u = map ?g (map fst t)" by (simp add: u split_beta comp_def)
  show wf_u: "wf_dict u" using wf inj unfolding wf_dict_def keys by (simp add: distinct_map comp_inj_on)
  have entry: "(q, n) \<in> set u \<longleftrightarrow> (\<exists>p. (p, n) \<in> set t \<and> q = ?g p)" for q n unfolding u by (rule in_map_keys)
  have some: "map_of u p = Some n \<longleftrightarrow>
      (if beneath dst p then map_of t (src @ drop (length dst) p) else if beneath src p then None else map_of t p) = Some n" for n
  proof (cases "beneath dst p")
    case True
    then obtain r where p: "p = dst @ r" by (rule beneathE)
    have "map_of u p = Some n \<longleftrightarrow> (\<exists>q. (q, n) \<in> set t \<and> p = ?g q)" by (simp add: wf_u map_of_in_set entry)
    also have "\<dots> \<longleftrightarrow> (src @ r, n) \<in> set t"
    proof
      assume "\<exists>q. (q, n) \<in> set t \<and> p = ?g q"
      then obtain q where q: "(q, n) \<in> set t" "p = ?g q" by blast
      with free[of q] True have "beneath src q" by (force split: if_splits)
      then obtain r' where "q = src @ r'" by (rule beneathE)
      with q p show "(src @ r, n) \<in> set t" by (simp add: beneath_append)
    next
      assume "(src @ r, n) \<in> set t"
      moreover have "p = ?g (src @ r)" by (simp add: p beneath_append)
      ultimately show "\<exists>q. (q, n) \<in> set t \<and> p = ?g q" by blast
    qed
    finally show ?thesis by (simp add: p beneath_append wf map_of_in_set)
  next
    case False
    have "map_of u p = Some n \<longleftrightarrow> (\<exists>q. (q, n) \<in> set t \<and> p = ?g q)" by (simp add: wf_u map_of_in_set entry)
    also have "\<dots> \<longleftrightarrow> (p, n) \<in> set t \<and> \<not> beneath src p"
      using False beneath_append[of dst] by (metis (no_types, lifting))
    finally show ?thesis using False by (simp add: wf map_of_in_set)
  qed
  show "map_of u p = (if beneath dst p then map_of t (src @ drop (length dst) p) else if beneath src p then None else map_of t p)"
    using some by (cases "map_of u p") (metis not_None_eq)+
qed

lemma below_cong:
  assumes "wf_dict t" and "wf_dict u" and "\<And>rel. rel \<noteq> [] \<Longrightarrow> has_key t (a @ rel) \<longleftrightarrow> has_key u (b @ rel)"
  shows "below a t = below b u"
proof -
  have dist: "distinct (below c w)" if "wf_dict w" for c and w :: tree
  proof -
    have "inj_on (drop (length c)) {p. beneath c p}" by (auto simp: inj_on_def beneath_iff)
    then have "inj_on (drop (length c)) (set (filter (\<lambda>p. beneath c p \<and> p \<noteq> c) (map fst w)))" by (rule inj_on_subset) auto
    with that show ?thesis by (simp add: below_def distinct_map wf_dict_def)
  qed
  have "set (below a t) = set (below b u)" using assms(3) by (auto simp: set_below)
  with dist[OF assms(1)] dist[OF assms(2)] show ?thesis
    by (intro sorted_distinct_set_unique) (simp_all add: below_def)
qed

lemma tree_digest_cong:
  assumes "wf_dict t" and "wf_dict u" and "\<And>rel. rel \<noteq> [] \<Longrightarrow> map_of t (a @ rel) = map_of u (b @ rel)"
  shows "tree_digest kit io a t = tree_digest kit io b u"
proof -
  have "below a t = below b u" using assms by (intro below_cong) (simp_all add: has_key_map_of)
  moreover have "is_file t (a @ rel) = is_file u (b @ rel)" "content_of t (a @ rel) = content_of u (b @ rel)" if "rel \<in> set (below b u)" for rel
    using that assms(3)[of rel] by (simp_all add: set_below is_file_def content_of_def)
  ultimately show ?thesis unfolding tree_digest_def
    by (intro arg_cong[where f = "sha256 kit"] arg_cong[where f = concat] map_cong filter_cong) auto
qed

text \<open>The files outside a directory are those of another tree.\<close>

definition same_files :: "place \<Rightarrow> tree \<Rightarrow> tree \<Rightarrow> bool" where
  "same_files root s t \<longleftrightarrow> wf_dict t \<and> (\<forall>p c. \<not> beneath root p \<longrightarrow> (map_of t p = Some (File c) \<longleftrightarrow> map_of s p = Some (File c)))"

lemma same_files_dirs: "same_files root s t \<Longrightarrow> make_dirs q t = Inr u \<Longrightarrow> same_files root s u"
  using make_dirs_effect(1) make_dirs_Inr by (simp add: same_files_def)

lemma same_files_put: "same_files root s t \<Longrightarrow> put_file (root @ q) c t = Inr u \<Longrightarrow> same_files root s u"
  by (auto simp: same_files_def beneath_append dest!: put_file_Inr split: if_splits)

lemma build_states:
  assumes run: "build_deployment kit io mf name bytes staging target t0 = (r, t)" and same: "same_files staging s t0"
  shows "(\<exists>e. r = Raise e \<and> same_files staging s t) \<or>
    (\<exists>t1 t2 t3 t4 m. make_dirs (staging @ [''assets'']) t0 = Inr t1 \<and> put_file (staging @ [''assets'', name]) bytes t1 = Inr t2 \<and>
       make_dirs (butlast target) t2 = Inr t3 \<and> m = mf (tree_digest kit io (staging @ [''assets'']) t3) \<and>
       put_file (staging @ [''deployment-manifest.json'']) (dx_dump io m) t3 = Inr t4 \<and> same_files staging s t4 \<and>
       \<not> has_key t4 target \<and> rename_dir staging target t4 = Inr t \<and> r = Ret m)"
proof (cases "make_dirs (staging @ [''assets'']) t0")
  case (Inl e)
  with run same show ?thesis by (auto simp: build_deployment_def andThen_file_step)
next
  case t1: (Inr t1)
  have same1: "same_files staging s t1" by (rule same_files_dirs[OF same t1])
  show ?thesis
  proof (cases "put_file (staging @ [''assets'', name]) bytes t1")
    case (Inl e)
    with run t1 same1 show ?thesis by (auto simp: build_deployment_def andThen_file_step)
  next
    case t2: (Inr t2)
    have same2: "same_files staging s t2" by (rule same_files_put[OF same1 t2])
    show ?thesis
    proof (cases "make_dirs (butlast target) t2")
      case (Inl e)
      with run t1 t2 same2 show ?thesis by (auto simp: build_deployment_def andThen_file_step)
    next
      case t3: (Inr t3)
      have same3: "same_files staging s t3" by (rule same_files_dirs[OF same2 t3])
      define m where "m = mf (tree_digest kit io (staging @ [''assets'']) t3)"
      show ?thesis
      proof (cases "put_file (staging @ [''deployment-manifest.json'']) (dx_dump io m) t3")
        case (Inl e)
        with run t1 t2 t3 same3 show ?thesis by (auto simp: build_deployment_def andThen_file_step bind_gets m_def[symmetric])
      next
        case t4: (Inr t4)
        have same4: "same_files staging s t4" by (rule same_files_put[OF same3 t4])
        with run t1 t2 t3 t4 m_def show ?thesis
          by (cases "rename_dir staging target t4")
            (auto simp: build_deployment_def andThen_file_step bind_gets andThen_raise_if ret_def split: if_splits)
      qed
    qed
  qed
qed

text \<open>The staging directory moved with all it held.\<close>

lemma beneath_comparable: "beneath a p \<Longrightarrow> beneath b p \<Longrightarrow> beneath a b \<or> beneath b a"
  by (auto simp: beneath_iff append_eq_append_conv2)

lemma built:
  assumes run: "build_deployment kit io mf name bytes staging target t0 = (Ret m, t)" and same: "same_files staging s t0" and staging: "staging \<noteq> []"
  shows "wf_dict t \<and> map_of t target = Some Folder \<and> map_of t (target @ [''deployment-manifest.json'']) = Some (File (dx_dump io m)) \<and>
    map_of t (target @ [''assets'', name]) = Some (File bytes) \<and> m = mf (tree_digest kit io (target @ [''assets'']) t) \<and>
    (\<forall>p c. \<not> beneath target p \<longrightarrow> (map_of t p = Some (File c) \<longleftrightarrow> \<not> beneath staging p \<and> map_of s p = Some (File c))) \<and>
    (\<forall>p c. beneath target p \<longrightarrow> map_of s p \<noteq> Some (File c))"
proof -
  from build_states[OF run same] obtain t1 t2 t3 t4 where t1: "make_dirs (staging @ [''assets'']) t0 = Inr t1"
    and t2: "put_file (staging @ [''assets'', name]) bytes t1 = Inr t2" and t3: "make_dirs (butlast target) t2 = Inr t3"
    and m: "m = mf (tree_digest kit io (staging @ [''assets'']) t3)" and t4: "put_file (staging @ [''deployment-manifest.json'']) (dx_dump io m) t3 = Inr t4"
    and same4: "same_files staging s t4" and mv: "rename_dir staging target t4 = Inr t" by auto
  have wf: "wf_dict t3" "wf_dict t4" using same4 t4 same_files_dirs[OF same_files_put[OF same_files_dirs[OF same t1] t2] t3] by (simp_all add: same_files_def)
  have map4: "map_of t4 = (map_of t3)(staging @ [''deployment-manifest.json''] \<mapsto> File (dx_dump io m))" using put_file_Inr[OF t4] by blast
  have map_t: "map_of t p = (if beneath target p then map_of t4 (staging @ drop (length target) p) else if beneath staging p then None else map_of t4 p)"
    and wf_t: "wf_dict t" for p using map_of_rename[OF mv wf(2)] by blast+
  have moved: "map_of t (target @ rel) = map_of t4 (staging @ rel)" for rel by (simp add: map_t beneath_append)
  have "map_of t2 (staging @ [''assets'', name]) = Some (File bytes)" using put_file_Inr[OF t2] by simp
  then have payload: "map_of t3 (staging @ [''assets'', name]) = Some (File bytes)" using make_dirs_effect(1)[OF t3] by blast
  have "map_of t1 staging = Some Folder" using make_dirs_effect(3)[OF t1, of staging] staging by (simp add: beneath_append)
  then have "map_of t2 staging = Some Folder" using put_file_Inr[OF t2] by simp
  then have "map_of t3 staging = Some Folder" using make_dirs_Inr[OF t3, of staging] by simp
  then have stage: "map_of t4 staging = Some Folder" by (simp add: map4)
  then have root: "map_of t target = Some Folder" using moved[of "[]"] by simp
  have "tree_digest kit io (staging @ [''assets'']) t3 = tree_digest kit io (target @ [''assets'']) t"
    by (rule tree_digest_cong[OF wf(1) wf_t]) (use moved in \<open>simp add: map4\<close>)
  moreover have "(map_of t p = Some (File c)) = (\<not> beneath staging p \<and> map_of s p = Some (File c))" if "\<not> beneath target p" for p c
    using that same4 by (auto simp: map_t same_files_def)
  moreover have "map_of s p \<noteq> Some (File c)" if p: "beneath target p" for p c
  proof
    assume s: "map_of s p = Some (File c)"
    have apart: "\<not> beneath staging target" "q \<in> fst ` set t4 \<Longrightarrow> \<not> beneath target q" for q
      using mv by (auto simp: rename_dir_def list_ex_iff split: if_splits)
    have "staging \<in> fst ` set t4" using map_of_SomeD[OF stage] by force
    with apart p have "\<not> beneath staging p" using beneath_comparable by blast
    with same4 s have "map_of t4 p = Some (File c)" by (simp add: same_files_def)
    then have "p \<in> fst ` set t4" using map_of_SomeD by force
    with apart(2) p show False by blast
  qed
  ultimately show ?thesis using m root wf_t moved[of "[''deployment-manifest.json'']"] moved[of "[''assets'', name]"] payload by (simp add: map4)
qed

lemma staging_moved:
  assumes run: "build_deployment kit io mf name bytes staging target t0 = (Ret m, t)" and same: "same_files staging s t0" and staging: "staging \<noteq> []"
  shows "\<not> beneath staging target" and "\<not> beneath target staging"
proof -
  from build_states[OF run same] obtain t1 t2 t3 t4 where t1: "make_dirs (staging @ [''assets'']) t0 = Inr t1"
    and t2: "put_file (staging @ [''assets'', name]) bytes t1 = Inr t2" and t3: "make_dirs (butlast target) t2 = Inr t3"
    and t4: "put_file (staging @ [''deployment-manifest.json'']) (dx_dump io m) t3 = Inr t4" and mv: "rename_dir staging target t4 = Inr t" by auto
  have "map_of t1 staging = Some Folder" using make_dirs_effect(3)[OF t1, of staging] staging by (simp add: beneath_append)
  then have "map_of t4 staging = Some Folder" using put_file_Inr[OF t2] make_dirs_Inr[OF t3, of staging] put_file_Inr[OF t4] by simp
  then have "staging \<in> fst ` set t4" using map_of_SomeD by force
  with mv show "\<not> beneath staging target" "\<not> beneath target staging" by (auto simp: rename_dir_def list_ex_iff split: if_splits)
qed

lemma bind_lifted: "bind (lift_deployment r) f s = (case r of Inl e \<Rightarrow> (Raise e, s) | Inr x \<Rightarrow> f x s)"
  by (simp add: lift_deployment_def prog_defs split: sum.split)

lemma preserved_Inr:
  assumes "preserved kit a i = Inr (doc, bytes, digest)"
  shows "sha256 kit bytes = digest \<and> map_of (ar_objects a) (lower digest) = Some bytes \<and> part doc [''rights'', ''install_locally''] \<noteq> JBool False"
  using assms by (auto simp: preserved_def object_key_def Let_def split: option.splits if_splits sum.splits)

text \<open>C40: deployments. A materialization that raises leaves every file as it was. One that returns copies the preserved bytes of
  an artifact that may be installed locally into a directory where no file was, and changes no other file, not the archive
  either; as long as that directory stays as it is, whatever happens to the other files, the deployment of a service at its
  place is shown with its manifest, verifies, and names its artifact.\<close>

theorem deployment_verifies:
  assumes wf: "wf_dict s" and rooted: "rooted s" and run: "materialize kit io paths a q s = (r, t)"
  shows "case r of
      Ret m \<Rightarrow> \<exists>doc bytes. preserved kit a (dq_artifact_id q) = Inr (doc, bytes, dm_artifact_sha256 m) \<and> sha256 kit bytes = dm_artifact_sha256 m \<and>
        part doc [''rights'', ''install_locally''] \<noteq> JBool False \<and> \<not> beneath (dp_archive paths) (dq_target_root q) \<and>
        map_of t (dq_target_root q @ [''assets'', lower (dm_artifact_sha256 m)]) = Some (File bytes) \<and>
        (\<forall>p c. \<not> beneath (dq_target_root q) p \<longrightarrow> (map_of t p = Some (File c) \<longleftrightarrow> map_of s p = Some (File c))) \<and>
        (\<forall>p c. beneath (dq_target_root q) p \<longrightarrow> map_of s p \<noteq> Some (File c)) \<and>
        (\<forall>u i. wf_dict u \<and> (\<forall>p. beneath (dq_target_root q) p \<longrightarrow> map_of u p = map_of t p) \<and>
           dq_target_root q = dp_root paths @ [i] \<and> dx_parse io (dx_dump io m) = Some m \<longrightarrow>
           show_deployment io paths i u = Some m \<and> verify_deployment kit io paths a i u = Inr True \<and> provenance kit io paths a i u = Inr (m, doc))
    | Raise e \<Rightarrow> \<forall>p c. map_of t p = Some (File c) \<longleftrightarrow> map_of s p = Some (File c)
    | NoFuel \<Rightarrow> False"
proof -
  define staging where "staging = staging_place io paths"
  let ?target = "dq_target_root q" and ?body = "\<lambda>bytes digest. build_deployment kit io (manifest_for io q digest) (lower digest) bytes staging (dq_target_root q)"
  have outside: "\<not> beneath (dp_archive paths) ?target" if "r = Ret m" for m
    using run that by (auto simp: materialize_def andThen_raise_if split: if_splits)
  have "(\<exists>e. r = Raise e \<and> t = s) \<or> (\<exists>doc bytes digest t0 r' t'. preserved kit a (dq_artifact_id q) = Inr (doc, bytes, digest) \<and>
      make_staging staging s = Inr t0 \<and> ?body bytes digest t0 = (r', t') \<and> r = r' \<and> t = remove_tree staging t')"
    using run by (auto simp: materialize_def andThen_raise_if bind_lifted andThen_file_step finally_do_def Let_def staging_def
        split: if_splits sum.splits prod.splits)
  then show ?thesis
  proof
    assume "\<exists>doc bytes digest t0 r' t'. preserved kit a (dq_artifact_id q) = Inr (doc, bytes, digest) \<and>
      make_staging staging s = Inr t0 \<and> ?body bytes digest t0 = (r', t') \<and> r = r' \<and> t = remove_tree staging t'"
    then obtain doc bytes digest t0 t' where doc: "preserved kit a (dq_artifact_id q) = Inr (doc, bytes, digest)"
      and t0: "make_staging staging s = Inr t0" and body: "?body bytes digest t0 = (r, t')" and t: "t = remove_tree staging t'" by blast
    have new: "\<not> has_key s staging" and t0': "t0 = AList.update staging Folder s" using t0 by (auto simp: make_staging_def split: if_splits)
    have ne: "staging \<noteq> []" by (simp add: staging_def staging_place_def)
    have same: "same_files staging s t0" using wf by (auto simp: same_files_def t0' beneath_def)
    have clean: "map_of s p \<noteq> Some (File c)" if "beneath staging p" for p c
      using rooted new that ne unfolding rooted_def by (metis has_key_map_of option.distinct(1))
    show ?thesis
    proof (cases r)
      case (Raise e)
      with build_states[OF body same] have "same_files staging s t'" by auto
      with clean Raise show ?thesis by (auto simp: t map_of_remove_tree same_files_def)
    next
      case NoFuel
      with build_states[OF body same] show ?thesis by auto
    next
      case (Ret m)
      note law = built[OF body[unfolded Ret] same ne]
      have digest: "dm_artifact_sha256 m = digest" "dm_target_root m = ?target" "dm_artifact_id m = dq_artifact_id q"
        "dm_tree_sha256 m = tree_digest kit io (?target @ [''assets'']) t'" using law by (auto simp: manifest_for_def)
      have "\<not> beneath staging p" if "beneath ?target p" for p
      proof
        assume "beneath staging p"
        with that have "beneath staging ?target \<or> beneath ?target staging" using beneath_comparable by blast
        with staging_moved[OF body[unfolded Ret] same ne] show False by blast
      qed
      then have at: "map_of t p = map_of t' p" if "beneath ?target p" for p using that by (simp add: t map_of_remove_tree)
      have "show_deployment io paths i u = Some m \<and> verify_deployment kit io paths a i u = Inr True \<and> provenance kit io paths a i u = Inr (m, doc)"
        if u: "wf_dict u" "\<forall>p. beneath ?target p \<longrightarrow> map_of u p = map_of t p" "?target = dp_root paths @ [i]" "dx_parse io (dx_dump io m) = Some m" for u i
      proof -
        have eq: "map_of u (?target @ rel) = map_of t' (?target @ rel)" for rel using u(2) at by (simp add: beneath_append)
        have "tree_digest kit io (?target @ [''assets'']) u = tree_digest kit io (?target @ [''assets'']) t'"
          using u(1) law eq by (intro tree_digest_cong) simp_all
        moreover have shown: "show_deployment io paths i u = Some m"
          using eq[of "[''deployment-manifest.json'']"] law u(3,4) by (simp add: show_deployment_def)
        moreover have "has_key u ?target" using eq[of "[]"] law by (simp add: has_key_map_of)
        ultimately show ?thesis using doc by (simp add: verify_deployment_def provenance_def digest)
      qed
      moreover have "map_of t (?target @ [''assets'', lower (dm_artifact_sha256 m)]) = Some (File bytes)"
        unfolding digest(1) at[OF beneath_append] using law by blast
      moreover have "map_of t p = Some (File c) \<longleftrightarrow> map_of s p = Some (File c)" if "\<not> beneath ?target p" for p c
        using that law clean by (auto simp: t map_of_remove_tree)
      moreover have "map_of s p \<noteq> Some (File c)" if "beneath ?target p" for p c using that law by blast
      moreover note doc[folded digest(1)] preserved_Inr[OF doc, folded digest(1)] outside[OF Ret]
      ultimately show ?thesis unfolding Ret outcome.case by (intro exI[of _ doc] exI[of _ bytes]) blast
    qed
  qed auto
qed

section \<open>A deployment\<close>

definition demo_preserved :: archive where
  "demo_preserved = empty_archive\<lparr>ar_objects := [(sha256 demo_kit ''abc'', ''abc'')],
     ar_metadata := [(''d'', Some (JDict [(''artifact'', JDict [(''sha256'', JStr (sha256 demo_kit ''abc''))])]))]\<rparr>"

definition demo_deployment_request :: deployment_request where
  "demo_deployment_request = \<lparr>dq_service_id = ''bbs'', dq_integration_id = ''ig'', dq_artifact_id = ''d'', dq_target_root = [''srv'', ''bbs''],
     dq_release = None, dq_derived_artifact_id = None, dq_mode = ''copy'', dq_state_scope = ''per_deployment'', dq_shared_state_id = None\<rparr>"

definition demo_paths_of :: deploy_paths where
  "demo_paths_of = \<lparr>dp_archive = [''archive''], dp_root = [''srv'']\<rparr>"

definition demo_deploy_io :: "deployment_manifest option \<Rightarrow> deploy_io" where
  "demo_deploy_io m = \<lparr>dx_raw = id, dx_dump = (\<lambda>_. ''m''), dx_parse = (\<lambda>_. m), dx_now = ''now'', dx_staging = ''x''\<rparr>"

definition demo_deployed :: "deployment_manifest option \<Rightarrow> (deployment_error, deployment_manifest) outcome \<times> tree" where
  "demo_deployed m = materialize demo_kit (demo_deploy_io m) demo_paths_of demo_preserved demo_deployment_request []"

theorem deployment_verifies_witness:
  "\<exists>m t. demo_deployed (Some m) = (Ret m, t) \<and> map_of t [''srv'', ''bbs'', ''assets'', sha256 demo_kit ''abc''] = Some (File ''abc'') \<and>
     verify_deployment demo_kit (demo_deploy_io (Some m)) demo_paths_of demo_preserved ''bbs'' t = Inr True"
proof -
  have "case fst (demo_deployed None) of Ret m \<Rightarrow> True | _ \<Rightarrow> False" by code_simp
  then obtain m where m: "fst (demo_deployed None) = Ret m" by (auto split: outcome.splits)
  have same: "demo_deployed (Some m) = demo_deployed None"
    by (simp add: demo_deployed_def materialize_def build_deployment_def tree_digest_def manifest_for_def staging_place_def demo_deploy_io_def)
  define t where "t = snd (demo_deployed None)"
  have run: "materialize demo_kit (demo_deploy_io (Some m)) demo_paths_of demo_preserved demo_deployment_request [] = (Ret m, t)"
    using same m by (simp add: demo_deployed_def t_def prod_eq_iff)
  have tree: "wf_dict t" unfolding t_def by code_simp
  have "rooted []" by (simp add: rooted_def has_key_def)
  note law = deployment_verifies[OF wf_Nil this run, unfolded outcome.case]
  then obtain doc bytes where d: "preserved demo_kit demo_preserved ''d'' = Inr (doc, bytes, dm_artifact_sha256 m)"
    and at: "map_of t [''srv'', ''bbs'', ''assets'', lower (dm_artifact_sha256 m)] = Some (File bytes)"
    and verifies: "verify_deployment demo_kit (demo_deploy_io (Some m)) demo_paths_of demo_preserved ''bbs'' t = Inr True"
    using tree by (auto simp: demo_deployment_request_def demo_paths_of_def demo_deploy_io_def)
  have "bytes = ''abc'' \<and> lower (dm_artifact_sha256 m) = sha256 demo_kit ''abc''"
  proof -
    have "map_sum id snd (preserved demo_kit demo_preserved ''d'') = Inr (''abc'', sha256 demo_kit ''abc'')" by code_simp
    moreover have "lower (sha256 demo_kit ''abc'') = sha256 demo_kit ''abc''" by code_simp
    ultimately show ?thesis using d by auto
  qed
  with at run verifies show ?thesis by (auto simp: demo_deployed_def)
qed

end
