(* ===== verification/Observatory.thy ===== *)
theory Observatory
  imports Registry Archive Integrations
begin

text \<open>
  The observatory, \<open>scripts/ubb_observatory\<close>: the read model that the dashboard and the monitor show. The files it reads are an
  argument, each absent, not readable as JSON, or a JSON object; the fields of the catalog's manifests beyond those of the
  registry's records are arguments as well. What it keeps is the list of the sources that failed.
\<close>

section \<open>What it reads\<close>

datatype doc_file = Absent | Broken | Doc fields

definition read_json :: "doc_file \<Rightarrow> fields option" where
  "read_json f = (case f of Doc d \<Rightarrow> Some d | _ \<Rightarrow> None)"

text \<open>\<open>d.get(k)\<close>, and \<open>d.get(k, {})\<close> and \<open>d.get(k, [])\<close> for fields of those types\<close>

definition field :: "fields \<Rightarrow> string \<Rightarrow> json" where
  "field d k = get_or d k JNull"

fun as_fields :: "json \<Rightarrow> fields" where
  "as_fields (JDict d) = d"
| "as_fields _ = []"

fun as_items :: "json \<Rightarrow> json list" where
  "as_items (JList vs) = vs"
| "as_items _ = []"

definition either :: "json \<Rightarrow> json \<Rightarrow> json" where
  "either a b = (if truth a then a else b)"

record backup_file =
  bf_path :: string
  bf_mtime :: int
  bf_document :: doc_file

record install_root =
  ir_qualified :: "(string, doc_file) dict"     \<comment> \<open>by the name of the file, without \<open>.json\<close>\<close>
  ir_deployment :: doc_file
  ir_backups :: "backup_file list"

text \<open>A journal: the lines of \<open>events.jsonl\<close> in order, \<open>None\<close> for one that is no JSON.\<close>

datatype journal_file = NoJournal | UnreadableJournal | Journal "fields option list"

record router_files =
  rf_sessions :: "fields list option"
  rf_journal :: journal_file

record sources =
  so_integration_doc :: "string \<Rightarrow> fields"
  so_service_version :: "string \<Rightarrow> json"
  so_host_id :: "string \<Rightarrow> string option"        \<comment> \<open>\<open>host_id\<close> of an endpoint\<close>
  so_metadata :: "(string \<Rightarrow> doc_file) option"
  so_instances :: "(string \<Rightarrow> doc_file) option"
  so_supervisor_journal :: "journal_file option"
  so_router :: "router_files option"
  so_backups :: "backup_file list option"
  so_install :: "(string, install_root) dict"

section \<open>Service summaries\<close>

record artifact_summary =
  am_id :: string
  am_filename :: json
  am_sha256 :: json
  am_verified :: bool
  am_rights :: json
  am_source :: json

record backup_summary =
  bs_status :: string
  bs_manifest :: string
  bs_created_at :: json
  bs_coverage :: "nat option"

record known_release =
  kr_key :: string
  kr_version :: string
  kr_artifact_id :: string
  kr_sha256 :: "string option"

record service_summary =
  su_id :: string
  su_title :: string
  su_type :: string
  su_integration :: "string option"
  su_runtime :: "string option"
  su_endpoint :: endpoint_view
  su_policy :: string
  su_recommended_policy :: "string option"
  su_state :: string
  su_active_sessions :: int
  su_maintenance :: bool
  su_readiness :: string
  su_release :: json
  su_profile :: json
  su_artifact :: "artifact_summary option"
  su_deployment :: "fields option"
  su_available_releases :: "known_release list"
  su_backup :: "backup_summary option"
  su_host_health :: string
  su_attention :: bool
  su_maintenance_jobs :: "string list"
  su_health :: string

type_synonym 'a oprog = "(string list, registry_error, 'a) prog"   \<comment> \<open>the state: \<open>degraded\<close>\<close>

definition degrade :: "string \<Rightarrow> unit oprog" where
  "degrade source = modify (\<lambda>ds. ds @ [source])"

definition lift_query :: "registry_error + 'a \<Rightarrow> 'a oprog" where
  "lift_query r = (case r of Inl e \<Rightarrow> raise e | Inr x \<Rightarrow> ret x)"

text \<open>\<open>_instance\<close>, with the \<open>or {}\<close> of its caller\<close>

definition instance_doc :: "sources \<Rightarrow> string \<Rightarrow> fields oprog" where
  "instance_doc so i = (case so_instances so of None \<Rightarrow> ret [] | Some file \<Rightarrow> (case file i of
      Doc d \<Rightarrow> ret d | Broken \<Rightarrow> andThen (degrade ''supervisor'') (ret []) | Absent \<Rightarrow> ret []))"

definition readiness_of :: "json list \<Rightarrow> string" where
  "readiness_of statuses =
     (if JStr ''FAIL'' \<in> set statuses then ''NOT_READY''
      else if JStr ''BLOCKED'' \<in> set statuses then ''BLOCKED''
      else if JStr ''HUMAN_REQUIRED'' \<in> set statuses then ''READY_WITH_HUMAN_REQUIREMENTS''
      else if statuses \<noteq> [] \<and> list_all (\<lambda>x. x \<in> set [JStr ''PASS'', JStr ''SKIP'']) statuses then ''READY''
      else ''UNKNOWN'')"

definition qualification_of :: "sources \<Rightarrow> string \<Rightarrow> string \<Rightarrow> string" where
  "qualification_of so g artifact_id = (case map_of (so_install so) g of
      None \<Rightarrow> ''UNKNOWN''
    | Some root \<Rightarrow> (let file = (\<lambda>n. read_json (get_or (ir_qualified root) n Absent)) in
       case (case file artifact_id of Some d \<Rightarrow> Some d | None \<Rightarrow> file ''latest'') of
         None \<Rightarrow> ''UNKNOWN''
       | Some d \<Rightarrow> if d = [] then ''UNKNOWN''
           else readiness_of (map (\<lambda>x. field (as_fields x) ''status'') (as_items (field d ''results'')))))"

definition artifact_view :: "string \<Rightarrow> fields \<Rightarrow> artifact_summary" where
  "artifact_view i meta = (let sub = (\<lambda>a b. field (as_fields (field meta a)) b) in
     \<lparr>am_id = i, am_filename = sub ''artifact'' ''original_filename'', am_sha256 = sub ''artifact'' ''sha256'',
      am_verified = (sub ''preservation'' ''status'' = JStr ''READY''), am_rights = sub ''rights'' ''status'',
      am_source = sub ''provenance'' ''source_url''\<rparr>)"

fun first_artifact :: "(string \<Rightarrow> doc_file) \<Rightarrow> json list \<Rightarrow> artifact_summary option" where
  "first_artifact meta [] = None"
| "first_artifact meta (x # xs) = (let i = text_of (field (as_fields x) ''artifact_id'') in
     case read_json (meta i) of
       Some d \<Rightarrow> if d \<noteq> [] then Some (artifact_view i d) else first_artifact meta xs
     | None \<Rightarrow> first_artifact meta xs)"

definition artifact_of :: "sources \<Rightarrow> fields \<Rightarrow> artifact_summary option" where
  "artifact_of so integ = (case so_metadata so of None \<Rightarrow> None | Some meta \<Rightarrow> first_artifact meta (as_items (field integ ''artifacts'')))"

text \<open>The newest first; Python's sort is stable, and with \<open>reverse\<close> too.\<close>

definition backup_view :: "backup_file \<Rightarrow> backup_summary" where
  "backup_view f = (case read_json (bf_document f) of
      Some d \<Rightarrow> if d = [] then \<lparr>bs_status = ''UNKNOWN'', bs_manifest = bf_path f, bs_created_at = JNull, bs_coverage = None\<rparr>
        else \<lparr>bs_status = ''verified'', bs_manifest = bf_path f, bs_created_at = field d ''created_at'',
              bs_coverage = Some (length (as_items (field d ''files'')))\<rparr>
    | None \<Rightarrow> \<lparr>bs_status = ''UNKNOWN'', bs_manifest = bf_path f, bs_created_at = JNull, bs_coverage = None\<rparr>)"

definition backup_of :: "sources \<Rightarrow> string \<Rightarrow> backup_summary option" where
  "backup_of so g =
     (let files = (case so_backups so of Some fs \<Rightarrow> Some fs | None \<Rightarrow> map_option ir_backups (map_of (so_install so) g)) in
      case files of None \<Rightarrow> None | Some fs \<Rightarrow> (case sort_key (\<lambda>f. - bf_mtime f) fs of [] \<Rightarrow> None | f # rest \<Rightarrow> Some (backup_view f)))"

text \<open>\<open>IntegrationRegistry.defaults().get(integration_id).releases\<close>; the Mystic integration has no such table.\<close>

definition trusted_releases :: "string option \<Rightarrow> known_release list" where
  "trusted_releases g =
     (if g = Some ''abbs-amiga'' then map (\<lambda>r. \<lparr>kr_key = rl_key r, kr_version = rl_version r, kr_artifact_id = rl_artifact_id r, kr_sha256 = rl_sha256 r\<rparr>) abbs_releases
      else if g = Some ''amiexpress-amiga'' then map (\<lambda>r. \<lparr>kr_key = rl_key r, kr_version = rl_version r, kr_artifact_id = rl_artifact_id r, kr_sha256 = rl_sha256 r\<rparr>) amix_releases
      else [])"

definition health_of :: "bool \<Rightarrow> string \<Rightarrow> string \<Rightarrow> string \<Rightarrow> string" where
  "health_of remote mode state readiness =
     (if remote then ''UNKNOWN''
      else if state = ''failed'' \<or> (mode = ''always_on'' \<and> state \<notin> set [''running'', ''ready'', ''maintenance'']) then ''UNHEALTHY''
      else if state \<in> set [''running'', ''ready'', ''maintenance''] \<and> readiness \<in> set [''NOT_READY'', ''BLOCKED''] then ''DEGRADED''
      else if state = ''unknown'' \<or> readiness = ''UNKNOWN'' then ''UNKNOWN''
      else ''HEALTHY'')"

text \<open>\<open>int(value)\<close> of a count\<close>

fun count_of :: "json \<Rightarrow> int" where
  "count_of (JInt n) = n"
| "count_of (JBool b) = (if b then 1 else 0)"
| "count_of _ = 0"

definition summarize :: "sources \<Rightarrow> resolution \<Rightarrow> fields \<Rightarrow> service_summary" where
  "summarize so rs inst =
     (let s = rs_service rs; g = (if truthy (sv_integration_id s) then sv_integration_id s else None);
          integ = (case rs_integration rs of None \<Rightarrow> [] | Some i \<Rightarrow> so_integration_doc so (ig_id i));
          artifact = artifact_of so integ;
          readiness = (case g of None \<Rightarrow> ''UNKNOWN'' | Some i \<Rightarrow> qualification_of so i (case artifact of None \<Rightarrow> [] | Some a \<Rightarrow> am_id a));
          state = (if has_key inst ''state'' then text_of (field inst ''state'') else ''unknown'');
          remote = ep_location (rs_endpoint rs) = ''remote''
      in \<lparr>su_id = sv_id s, su_title = sv_title s, su_type = sv_type s, su_integration = sv_integration_id s,
          su_runtime = map_option ig_runtime (rs_integration rs), su_endpoint = rs_endpoint rs, su_policy = lc_mode (sv_lifecycle s),
          su_recommended_policy = (case rs_integration rs of None \<Rightarrow> None | Some i \<Rightarrow> ig_recommended_lifecycle i), su_state = state,
          su_active_sessions = count_of (field inst ''active_session_count''),
          su_maintenance = (state = ''maintenance'' \<or> (truth (field inst ''maintenance_results'') \<and> state \<in> set [''running'', ''ready''])),
          su_readiness = readiness,
          su_release = either (either (field integ ''release'') (field integ ''version'')) (so_service_version so (sv_id s)),
          su_profile = either (field integ ''profile'') (field integ ''default_profile''), su_artifact = artifact,
          su_deployment = (case g of None \<Rightarrow> None | Some i \<Rightarrow> (case map_of (so_install so) i of None \<Rightarrow> None | Some r \<Rightarrow> read_json (ir_deployment r))),
          su_available_releases = trusted_releases g, su_backup = (case g of None \<Rightarrow> None | Some i \<Rightarrow> backup_of so i),
          su_host_health = (if remote then ''UNKNOWN'' else ''LOCAL''), su_attention = False,
          su_maintenance_jobs = filter (\<lambda>n. n \<noteq> []) (map jb_name (sv_jobs s)), su_health = health_of remote (lc_mode (sv_lifecycle s)) state readiness\<rparr>)"

fun summaries :: "sources \<Rightarrow> registry \<Rightarrow> service list \<Rightarrow> service_summary list oprog" where
  "summaries so r [] = ret []"
| "summaries so r (s # ss) =
     bind (lift_query (resolve r (sv_id s))) (\<lambda>rs.
     bind (instance_doc so (sv_id s)) (\<lambda>inst.
     bind (summaries so r ss) (\<lambda>rest. ret (summarize so rs inst # rest))))"

definition observed_services :: "sources \<Rightarrow> registry \<Rightarrow> service_summary list oprog" where
  "observed_services so r =
     bind (lift_query (list_services r any_query)) (\<lambda>ss.
     bind (summaries so r ss) (\<lambda>xs. ret (sort_key su_id xs)))"

section \<open>Sessions and activity\<close>

definition SECRETS :: "string list" where
  "SECRETS = [''password'', ''credentials'', ''content'', ''terminal_content'']"

definition without :: "string list \<Rightarrow> fields \<Rightarrow> fields" where
  "without ks d = filter (\<lambda>(k, v). k \<notin> set ks) d"

text \<open>The last event of every session, up to the first line that is no JSON.\<close>

fun last_events :: "(json, fields) dict \<Rightarrow> fields option list \<Rightarrow> bool \<times> (json, fields) dict" where
  "last_events active [] = (True, active)"
| "last_events active (None # ls) = (False, active)"
| "last_events active (Some d # ls) =
     last_events (if truth (field d ''session_id'') then AList.update (field d ''session_id'') d active else active) ls"

definition observed_sessions :: "sources \<Rightarrow> fields list oprog" where
  "observed_sessions so = (case so_router so of None \<Rightarrow> ret [] | Some files \<Rightarrow>
     (case rf_sessions files of
        Some items \<Rightarrow> ret (map (without SECRETS) items)
      | None \<Rightarrow> (case rf_journal files of
          NoJournal \<Rightarrow> ret []
        | UnreadableJournal \<Rightarrow> andThen (degrade ''router'') (ret [])
        | Journal ls \<Rightarrow> (let (good, active) = last_events [] ls in
            andThen (onlyif (\<not> good) (degrade ''router'')) (ret (map (\<lambda>(k, d). without SECRETS d) active))))))"

record activity_event =
  av_timestamp :: string
  av_source :: string
  av_event_type :: string
  av_severity :: string
  av_message :: string
  av_service_id :: "string option"
  av_details :: fields

definition given_text :: "json \<Rightarrow> string option" where
  "given_text v = (if truth v then Some (text_of v) else None)"

definition activity_event_of :: "string \<Rightarrow> fields \<Rightarrow> activity_event" where
  "activity_event_of source d =
     (let service = given_text (either (field d ''service'') (field d ''target_service''));
          et = (case given_text (field d ''event_type'') of Some e \<Rightarrow> e
            | None \<Rightarrow> (case given_text (field d ''new_state'') of Some n \<Rightarrow> ''service_'' @ n | None \<Rightarrow> ''event''))
      in \<lparr>av_timestamp = text_of (field d ''timestamp''), av_source = source, av_event_type = et, av_severity = ''info'',
          av_message = (case service of Some s \<Rightarrow> et @ '' -> '' @ s | None \<Rightarrow> et), av_service_id = service,
          av_details = without ([''timestamp'', ''service'', ''target_service'', ''origin_service'', ''error''] @ SECRETS) d\<rparr>)"

fun events_until :: "fields option list \<Rightarrow> bool \<times> fields list" where
  "events_until [] = (True, [])"
| "events_until (None # ls) = (False, [])"
| "events_until (Some d # ls) = (let (good, ds) = events_until ls in (good, d # ds))"

definition last_lines :: "nat \<Rightarrow> 'a list \<Rightarrow> 'a list" where
  "last_lines n xs = drop (length xs - n) xs"

definition journal_events :: "nat \<Rightarrow> string \<Rightarrow> journal_file option \<Rightarrow> activity_event list oprog" where
  "journal_events limit source file = (case file of
      None \<Rightarrow> ret []
    | Some NoJournal \<Rightarrow> ret []
    | Some UnreadableJournal \<Rightarrow> andThen (degrade source) (ret [])
    | Some (Journal ls) \<Rightarrow> (let (good, ds) = events_until (last_lines (max (limit * 3) 100) ls) in
        andThen (onlyif (\<not> good) (degrade source)) (ret (map (activity_event_of source) ds))))"

definition activity_key :: "activity_event \<Rightarrow> string list" where
  "activity_key e = [av_timestamp e, av_source e, av_event_type e, default [] (av_service_id e)]"

text \<open>\<open>sorted(..., reverse=True)\<close> keeps the order of equal elements.\<close>

definition newest_first :: "activity_event list \<Rightarrow> activity_event list" where
  "newest_first es = rev (sort_key activity_key (rev es))"

definition observed_activity :: "sources \<Rightarrow> nat \<Rightarrow> activity_event list oprog" where
  "observed_activity so limit =
     bind (journal_events limit ''supervisor'' (so_supervisor_journal so)) (\<lambda>es.
     bind (journal_events limit ''router'' (map_option rf_journal (so_router so))) (\<lambda>fs.
     ret (take limit (newest_first (es @ fs)))))"

section \<open>Alerts and hosts\<close>

record observed_alert =
  oa_id :: string
  oa_severity :: string
  oa_service_id :: string
  oa_message :: string

definition alert_if :: "bool \<Rightarrow> string \<Rightarrow> string \<Rightarrow> service_summary \<Rightarrow> string \<Rightarrow> observed_alert list" where
  "alert_if b kind severity s message =
     (if b then [\<lparr>oa_id = kind @ '':'' @ su_id s, oa_severity = severity, oa_service_id = su_id s, oa_message = message\<rparr>] else [])"

definition service_alerts :: "service_summary \<Rightarrow> observed_alert list" where
  "service_alerts s =
     alert_if (su_state s = ''failed'') ''failed'' ''critical'' s ''service is failed'' @
     alert_if (su_policy s = ''always_on'' \<and> su_state s \<notin> set [''running'', ''ready'', ''maintenance'', ''unknown''])
       ''always-on'' ''critical'' s ''always_on service is not running'' @
     alert_if (su_readiness s \<in> set [''NOT_READY'', ''BLOCKED'']) ''readiness'' ''warning'' s (''qualification is '' @ su_readiness s) @
     alert_if (case su_artifact s of None \<Rightarrow> False | Some a \<Rightarrow> \<not> am_verified a) ''artifact'' ''critical'' s ''preservation artifact is not verified'' @
     alert_if (su_backup s = None) ''backup'' ''warning'' s ''no backup evidence recorded'' @
     alert_if (case su_deployment s of None \<Rightarrow> False | Some d \<Rightarrow> truth (field d ''candidate'')) ''update'' ''info'' s ''candidate deployment is available''"

definition severity_rank :: "string \<Rightarrow> nat" where
  "severity_rank v = (if v = ''critical'' then 0 else if v = ''warning'' then 1 else if v = ''info'' then 2 else 3)"

text \<open>\<open>sorted\<close> by rank, then id: a stable sort by the id first and the rank then\<close>

definition observed_alerts :: "service_summary list \<Rightarrow> observed_alert list" where
  "observed_alerts ss = sort_key (severity_rank \<circ> oa_severity) (sort_key oa_id (concat (map service_alerts ss)))"

record host_view =
  ho_id :: string
  ho_location :: string
  ho_health :: string
  ho_services :: "string list"

definition host_name :: "sources \<Rightarrow> service_summary \<Rightarrow> string" where
  "host_name so s = (if truthy (so_host_id so (ep_id (endpoint.truncate (su_endpoint s)))) then the (so_host_id so (ep_id (endpoint.truncate (su_endpoint s))))
     else if truthy (ep_host (endpoint.truncate (su_endpoint s))) then the (ep_host (endpoint.truncate (su_endpoint s))) else ''remote'')"

definition hosts_of :: "sources \<Rightarrow> service_summary list \<Rightarrow> host_view list" where
  "hosts_of so ss =
     (let away = filter (\<lambda>s. su_host_health s = ''UNKNOWN'') ss in
      \<lparr>ho_id = ''local'', ho_location = ''local'', ho_health = ''HEALTHY'', ho_services = map su_id (filter (\<lambda>s. su_host_health s = ''LOCAL'') ss)\<rparr> #
      map (\<lambda>h. \<lparr>ho_id = h, ho_location = ''remote'', ho_health = ''UNKNOWN'', ho_services = map su_id away\<rparr>) (sort (remdups (map (host_name so) away))))"

definition observed_hosts :: "sources \<Rightarrow> registry \<Rightarrow> host_view list oprog" where
  "observed_hosts so r = bind (observed_services so r) (\<lambda>ss. ret (hosts_of so ss))"

record observed_snapshot =
  sn_services :: "service_summary list"
  sn_sessions :: "fields list"
  sn_activity :: "activity_event list"
  sn_alerts :: "observed_alert list"
  sn_hosts :: "host_view list"
  sn_degraded :: "string list"

text \<open>\<open>alerts(services)\<close> observes the services again when there are none, and finds none.\<close>

definition take_snapshot :: "sources \<Rightarrow> registry \<Rightarrow> nat \<Rightarrow> observed_snapshot oprog" where
  "take_snapshot so r limit =
     bind (observed_services so r) (\<lambda>ss.
     bind (observed_sessions so) (\<lambda>xs.
     bind (observed_activity so limit) (\<lambda>es.
     bind (if ss = [] then observed_services so r else ret ss) (\<lambda>again.
     bind (observed_hosts so r) (\<lambda>hs.
     bind (gets (\<lambda>ds. sort (remdups ds))) (\<lambda>ds.
     ret \<lparr>sn_services = ss, sn_sessions = xs, sn_activity = es, sn_alerts = observed_alerts again, sn_hosts = hs, sn_degraded = ds\<rparr>))))))"

end
