(* ===== verification/Monitoring.thy ===== *)
theory Monitoring
  imports Observatory Lifecycle Network
begin

text \<open>
  The monitoring engine, \<open>scripts/ubb_monitoring/engine.py\<close>: the alert records that it keeps over successive snapshots of the
  observatory, and the heartbeats of remote hosts. Times are the ISO texts the code stores and compares; the alerts file is
  either not readable or what the engine wrote.
\<close>

datatype monitoring_error = ValueError message | KeyError message | AttributeError message

section \<open>Alert records\<close>

datatype subject = ServiceSubject string | HostSubject string

record condition =
  cd_severity :: string
  cd_subject :: subject
  cd_summary :: string

datatype alert_state = ALERT_ACTIVE | CLEARED

record alert = condition +
  at_alert_id :: string
  at_state :: alert_state
  at_first_seen :: string
  at_last_seen :: string
  at_occurrence_count :: int
  at_cleared_at :: "string option"

record engine =
  en_root :: bool               \<comment> \<open>whether there is a state directory\<close>
  en_retention :: int
  en_skew :: int                \<comment> \<open>\<open>max_future_skew_seconds\<close>\<close>

definition new_engine :: "bool \<Rightarrow> int \<Rightarrow> int \<Rightarrow> engine" where
  "new_engine root retention skew = \<lparr>en_root = root, en_retention = max 10 retention, en_skew = skew\<rparr>"

record monitor =
  mo_alerts :: "(string, alert) dict option"
  mo_heartbeats :: "(string, json) dict"

type_synonym 'a mprog = "(monitor, monitoring_error, 'a) prog"

definition load_alerts :: "engine \<Rightarrow> monitor \<Rightarrow> (string, alert) dict" where
  "load_alerts en s = (if en_root en then default [] (mo_alerts s) else [])"

text \<open>\<open>_save\<close> writes the records with sorted keys.\<close>

definition save_alerts :: "engine \<Rightarrow> (string, alert) dict \<Rightarrow> unit mprog" where
  "save_alerts en records = onlyif (en_root en) (modify (\<lambda>s. s\<lparr>mo_alerts := Some (sort_key fst records)\<rparr>))"

definition condition_of :: "string \<Rightarrow> subject \<Rightarrow> string \<Rightarrow> condition" where
  "condition_of severity subject summary = \<lparr>cd_severity = severity, cd_subject = subject, cd_summary = summary\<rparr>"

definition service_conditions :: "service_summary \<Rightarrow> (string, condition) dict" where
  "service_conditions s =
     (if su_health s = ''UNHEALTHY'' then [(''health:'' @ su_id s, condition_of ''critical'' (ServiceSubject (su_id s)) ''service health is unhealthy'')]
      else if su_health s = ''DEGRADED'' then [(''health:'' @ su_id s, condition_of ''warning'' (ServiceSubject (su_id s)) ''service health is degraded'')]
      else []) @
     (if su_backup s = None then [(''backup:'' @ su_id s, condition_of ''warning'' (ServiceSubject (su_id s)) ''no backup evidence recorded'')] else []) @
     (if su_readiness s \<in> set [''NOT_READY'', ''BLOCKED'']
      then [(''qualification:'' @ su_id s, condition_of ''warning'' (ServiceSubject (su_id s)) (''qualification is '' @ su_readiness s))] else [])"

definition host_conditions :: "host_view \<Rightarrow> (string, condition) dict" where
  "host_conditions h = (if ho_health h = ''UNKNOWN''
     then [(''host:'' @ ho_id h, condition_of ''warning'' (HostSubject (ho_id h)) ''remote host has no current telemetry'')] else [])"

text \<open>Assigning a list of items to the keys of a dictionary, one after the other\<close>

definition assign_all :: "('a \<times> 'b) list \<Rightarrow> ('a, 'b) dict \<Rightarrow> ('a, 'b) dict" where
  "assign_all kvs d = fold (\<lambda>(k, v). AList.update k v) kvs d"

definition active_conditions :: "observed_snapshot \<Rightarrow> (string, condition) dict" where
  "active_conditions x = assign_all (concat (map service_conditions (sn_services x)) @ concat (map host_conditions (sn_hosts x))) []"

definition refreshed :: "string \<Rightarrow> (string, alert) dict \<Rightarrow> string \<Rightarrow> condition \<Rightarrow> alert" where
  "refreshed now old key c = condition.extend c
     (alert.fields key ALERT_ACTIVE
       (case map_of old key of None \<Rightarrow> now | Some prior \<Rightarrow> at_first_seen prior) now
       ((case map_of old key of None \<Rightarrow> 0 | Some prior \<Rightarrow> at_occurrence_count prior) + 1) None)"

definition settled_alert :: "string \<Rightarrow> alert \<Rightarrow> alert" where
  "settled_alert now prior = (if at_state prior = ALERT_ACTIVE then prior\<lparr>at_state := CLEARED, at_cleared_at := Some now\<rparr> else prior)"

definition merged :: "string \<Rightarrow> (string, alert) dict \<Rightarrow> (string, condition) dict \<Rightarrow> (string, alert) dict" where
  "merged now old active =
     map (\<lambda>(k, c). (k, refreshed now old k c)) active @
     map (\<lambda>(k, prior). (k, settled_alert now prior)) (filter (\<lambda>(k, prior). \<not> has_key active k) old)"

definition cleared_records :: "(string, alert) dict \<Rightarrow> (string, alert) dict" where
  "cleared_records records = filter (\<lambda>(k, a). at_state a = CLEARED) records"

text \<open>The keys that \<open>sorted(cleared, ...)[:-retention]\<close> drops, none when there are no more than the retention\<close>

definition oldest_cleared :: "int \<Rightarrow> (string, alert) dict \<Rightarrow> string list" where
  "oldest_cleared retention records =
     (let cleared = cleared_records records in
      take (length cleared - nat retention) (map fst (sort_key (\<lambda>(k, a). default [] (at_cleared_at a)) cleared)))"

definition pruned :: "int \<Rightarrow> (string, alert) dict \<Rightarrow> (string, alert) dict" where
  "pruned retention records = filter (\<lambda>(k, a). k \<notin> set (oldest_cleared retention records)) records"

definition evaluate :: "engine \<Rightarrow> string \<Rightarrow> observed_snapshot \<Rightarrow> alert list mprog" where
  "evaluate en now x =
     bind (gets (load_alerts en)) (\<lambda>old.
     let records = pruned (en_retention en) (merged now old (active_conditions x)) in
     andThen (save_alerts en records) (ret (map snd records)))"

record alert_query =
  aq_active :: "bool option"
  aq_severity :: "string option"
  aq_service :: "string option"

definition query_selects :: "alert_query \<Rightarrow> alert \<Rightarrow> bool" where
  "query_selects q a \<longleftrightarrow>
     (aq_active q = Some True \<longrightarrow> at_state a = ALERT_ACTIVE) \<and> (aq_active q = Some False \<longrightarrow> at_state a = CLEARED) \<and>
     (truthy (aq_severity q) \<longrightarrow> aq_severity q = Some (cd_severity a)) \<and>
     (truthy (aq_service q) \<longrightarrow> (case cd_subject a of ServiceSubject i \<Rightarrow> aq_service q = Some i | HostSubject h \<Rightarrow> False))"

text \<open>Sorted by severity, then by id: stably by the id first\<close>

definition current_alerts :: "engine \<Rightarrow> string \<Rightarrow> observed_snapshot \<Rightarrow> alert_query \<Rightarrow> alert list mprog" where
  "current_alerts en now x q = bind (evaluate en now x) (\<lambda>as.
     ret (sort_key cd_severity (sort_key at_alert_id (filter (query_selects q) as))))"

text \<open>\<open>health_summary\<close>: counts by health, an unknown value after the four that are always there\<close>

definition health_counts :: "service_summary list \<Rightarrow> (string, int) dict" where
  "health_counts ss = fold (\<lambda>s d. AList.update (su_health s) (get_or d (su_health s) 0 + 1) d) ss
     [(''HEALTHY'', 0), (''DEGRADED'', 0), (''UNHEALTHY'', 0), (''UNKNOWN'', 0)]"

section \<open>Heartbeats\<close>

definition heartbeat_fields :: "string list" where
  "heartbeat_fields = [''schema_version'', ''host_id'', ''observed_at'', ''received_at'', ''health'', ''source'', ''summary'', ''metrics'']"

definition metric_fields :: "string list" where
  "metric_fields = [''load_1m'', ''disk_free_bytes'', ''uptime_seconds'', ''service_count'', ''running_service_count'']"

text \<open>\<open>str(value)\<close>; the text of a list or a dictionary begins with a bracket, which is all that is used of it.\<close>

fun value_text :: "json \<Rightarrow> string" where
  "value_text JNull = ''None''"
| "value_text (JBool b) = (if b then ''True'' else ''False'')"
| "value_text (JInt n) = (if n < 0 then ''-'' @ decimal (nat (- n)) else decimal (nat n))"
| "value_text (JStr s) = s"
| "value_text (JList vs) = ''[''"
| "value_text (JDict d) = ''{''"

definition host_char :: "char \<Rightarrow> bool" where
  "host_char c \<longleftrightarrow> alnum c \<or> c \<in> {CHR ''_'', CHR ''.'', CHR ''-''}"

definition HOST_ID_rx :: rx where
  "HOST_ID_rx = Cat (Cls alnum) (Upto 63 (Cls host_char))"

text \<open>\<open>"observed_at".replace("Z", "+00:00")\<close>\<close>

definition zulu :: "string \<Rightarrow> string" where
  "zulu s = concat (map (\<lambda>c. if c = CHR ''Z'' then ''+00:00'' else [c]) s)"

definition check_heartbeat :: "json \<Rightarrow> monitoring_error + string" where
  "check_heartbeat record = (case record of
      JDict d \<Rightarrow>
        bindS (first_error
          [(\<not> list_all (\<lambda>k. k \<in> set heartbeat_fields) (map fst d) \<or> \<not> json_is_int (field d ''schema_version'') 1, ValueError [''invalid heartbeat schema'']),
           (\<not> fullmatch HOST_ID_rx (value_text (get_or d ''host_id'' (JStr []))), ValueError [''invalid host id'']),
           (field d ''health'' \<notin> set [JStr ''HEALTHY'', JStr ''DEGRADED'', JStr ''UNHEALTHY''], ValueError [''invalid heartbeat health'']),
           (truth (field d ''metrics'') \<and> (case field d ''metrics'' of JDict ms \<Rightarrow> \<not> list_all (\<lambda>k. k \<in> set metric_fields) (map fst ms) | _ \<Rightarrow> True),
            ValueError [''invalid heartbeat metrics''])])
        (\<lambda>_. Inr (value_text (get_or d ''host_id'' (JStr []))))
    | _ \<Rightarrow> Inl (ValueError [''invalid heartbeat schema'']))"

definition observed_time :: "(string \<Rightarrow> datetime option) \<Rightarrow> fields \<Rightarrow> monitoring_error + datetime" where
  "observed_time parse d = (if \<not> has_key d ''observed_at'' then Inl (KeyError [''observed_at''])
     else case field d ''observed_at'' of
       JStr t \<Rightarrow> (case parse (zulu t) of None \<Rightarrow> Inl (ValueError [''Invalid isoformat string'']) | Some x \<Rightarrow> Inr x)
     | _ \<Rightarrow> Inl (AttributeError [''replace'']))"

text \<open>\<open>observed > now.replace(tzinfo=observed.tzinfo) + skew\<close>: both have the same \<open>tzinfo\<close>, so that the comparison is one of wall clocks.\<close>

definition from_future :: "engine \<Rightarrow> datetime \<Rightarrow> datetime \<Rightarrow> bool" where
  "from_future en now observed \<longleftrightarrow> utc (plus_time (now\<lparr>utc_offset := utc_offset observed\<rparr>) (seconds (en_skew en))) < utc observed"

definition liftM :: "monitoring_error + 'a \<Rightarrow> 'a mprog" where
  "liftM r = (case r of Inl e \<Rightarrow> raise e | Inr x \<Rightarrow> ret x)"

definition heartbeat_ingest :: "engine \<Rightarrow> (string \<Rightarrow> datetime option) \<Rightarrow> datetime \<Rightarrow> json \<Rightarrow> json mprog" where
  "heartbeat_ingest en parse now record =
     bind (liftM (check_heartbeat record)) (\<lambda>host.
     bind (liftM (observed_time parse (as_fields record))) (\<lambda>observed.
     andThen (raise_if (from_future en now observed) (ValueError [''heartbeat is from the future'']))
    (andThen (onlyif (en_root en) (modify (\<lambda>s. s\<lparr>mo_heartbeats := AList.update host record (mo_heartbeats s)\<rparr>)))
     (ret record))))"

definition heartbeat :: "engine \<Rightarrow> string \<Rightarrow> monitor \<Rightarrow> json option" where
  "heartbeat en host s = (if en_root en then map_of (mo_heartbeats s) host else None)"

end
