(* ===== verification/Observatory_Facts.thy ===== *)
theory Observatory_Facts
  imports Observatory Registry_Facts
begin

text \<open>
  What a snapshot of the observatory shows: over a loaded registry it never fails, it has one summary for every service, and it
  shows no secret field. A source that failed once stays in the list of the failed ones.
\<close>

section \<open>Services\<close>

definition resolved :: "registry \<Rightarrow> service \<Rightarrow> resolution" where
  "resolved r s = \<lparr>rs_service = s, rs_endpoint = normalized (the (map_of (endpoints r) (sv_endpoint_id s))), rs_integration = integration_of r s\<rparr>"

definition saved_instance :: "sources \<Rightarrow> string \<Rightarrow> fields" where
  "saved_instance so i = (case so_instances so of None \<Rightarrow> [] | Some file \<Rightarrow> default [] (read_json (file i)))"

definition broken_instance :: "sources \<Rightarrow> string \<Rightarrow> string list" where
  "broken_instance so i = (case so_instances so of None \<Rightarrow> [] | Some file \<Rightarrow> if file i = Broken then [''supervisor''] else [])"

definition summary :: "sources \<Rightarrow> registry \<Rightarrow> service \<Rightarrow> service_summary" where
  "summary so r s = summarize so (resolved r s) (saved_instance so (sv_id s))"

definition supported :: "registry \<Rightarrow> bool" where
  "supported r \<longleftrightarrow> (\<forall>i e. map_of (endpoints r) i = Some e \<longrightarrow> ep_type e \<in> ENDPOINT_TYPES)"

lemma resolve_loaded:
  assumes load: "load_registry ve ld files = Inr r" and types: "supported r" and s: "s \<in> set (map snd (services r))"
  shows "resolve r (sv_id s) = Inr (resolved r s)"
proof -
  have wf: "wf_registry r" using load by (rule loaded_registry_wf)
  have v: "validate_references r = Inr ()" using load by (rule loaded_registry_cases)
  have "(sv_id s, s) \<in> set (services r)" using s wf by (force simp: wf_registry_def)
  then have "map_of (services r) (sv_id s) = Some s" using wf by (simp add: wf_registry_def map_of_in_set)
  moreover have ok: "check_service r s = Inr ()" using validated_services[OF v] s by blast
  then have "has_key (endpoints r) (sv_endpoint_id s)" by (simp add: check_service_iff)
  then obtain e where "map_of (endpoints r) (sv_endpoint_id s) = Some e" by (auto simp: has_key_map_of)
  moreover from this types have "ep_type e \<in> ENDPOINT_TYPES" by (simp add: supported_def)
  moreover have "service_integration r s = Inr (integration_of r s)"
    using ok by (auto simp: check_service_iff service_integration_def integration_of_def get_integration_def split: option.splits)
  ultimately show ?thesis by (simp add: resolve_def resolved_def get_service_def get_endpoint_def)
qed

lemma instance_doc_run: "instance_doc so i ds = (Ret (saved_instance so i), ds @ broken_instance so i)"
  by (auto simp: instance_doc_def saved_instance_def broken_instance_def read_json_def default_def degrade_def prog_defs
      split: option.split doc_file.split)

lemma summaries_run:
  assumes "\<And>s. s \<in> set ss \<Longrightarrow> resolve r (sv_id s) = Inr (resolved r s)"
  shows "summaries so r ss ds = (Ret (map (summary so r) ss), ds @ concat (map (\<lambda>s. broken_instance so (sv_id s)) ss))"
  using assms
proof (induction ss arbitrary: ds)
  case Nil then show ?case by (simp add: ret_def)
next
  case (Cons s ss)
  have "resolve r (sv_id s) = Inr (resolved r s)" by (rule Cons.prems) simp
  moreover have "summaries so r ss us = (Ret (map (summary so r) ss), us @ concat (map (\<lambda>s. broken_instance so (sv_id s)) ss))" for us
    by (rule Cons.IH) (simp add: Cons.prems)
  ultimately show ?case
    by (simp add: lift_query_def bind_ret_left bind_returning[OF instance_doc_run] bind_returning) (simp add: ret_def summary_def)
qed

definition broken_sources :: "sources \<Rightarrow> registry \<Rightarrow> string list" where
  "broken_sources so r = concat (map (\<lambda>s. broken_instance so (sv_id s)) (map snd (services r)))"

lemma su_id_summary [simp]: "su_id (summary so r s) = sv_id s"
  by (simp add: summary_def summarize_def resolved_def Let_def)

lemma list_services_all:
  assumes load: "load_registry ve ld files = Inr r" and types: "supported r"
  shows "list_services r any_query = Inr (map snd (services r))"
proof -
  have v: "validate_references r = Inr ()" using load by (rule loaded_registry_cases)
  have "list_services r any_query = Inr (filter (\<lambda>s. query_accepts any_query s (the (map_of (endpoints r) (sv_endpoint_id s))) (integration_of r s)) (map snd (services r)))"
    unfolding list_services_def using types validated_services[OF v] by (intro list_loop_filter) (auto simp: supported_def)
  then show ?thesis by (simp add: query_accepts_def any_query_def truthy_def)
qed

lemma service_ids:
  assumes load: "load_registry ve ld files = Inr r"
  shows "map (\<lambda>x. sv_id (snd x)) (services r) = map fst (services r)" and "sorted (map fst (services r))" and "distinct (map fst (services r))"
proof -
  have wf: "wf_registry r" using load by (rule loaded_registry_wf)
  then show "map (\<lambda>x. sv_id (snd x)) (services r) = map fst (services r)" "distinct (map fst (services r))"
    by (auto simp: wf_registry_def wf_dict_def)
  show "sorted (map fst (services r))" using load by (rule loaded_registry_cases) (simp add: create_def)
qed

lemma summary_ids:
  assumes load: "load_registry ve ld files = Inr r"
  shows "map su_id (map (summary so r) (map snd (services r))) = map fst (services r)"
  by (simp add: comp_def service_ids(1)[OF load])

lemma observed_services_run:
  assumes load: "load_registry ve ld files = Inr r" and types: "supported r"
  shows "observed_services so r ds = (Ret (map (summary so r) (map snd (services r))), ds @ broken_sources so r)"
proof -
  have "sort_key su_id (map (summary so r) (map snd (services r))) = map (summary so r) (map snd (services r))"
    by (intro sort_key_id_if_sorted) (simp only: summary_ids[OF load] service_ids(2)[OF load])
  then show ?thesis
    using list_services_all[OF load types] summaries_run[of "map snd (services r)" r so ds] resolve_loaded[OF load types]
    by (simp add: observed_services_def lift_query_def bind_ret_left bind_returning ret_def broken_sources_def)
qed

section \<open>Sessions, activity and alerts\<close>

definition hides_secrets :: "fields \<Rightarrow> bool" where
  "hides_secrets d \<longleftrightarrow> fst ` set d \<inter> set SECRETS = {}"

lemma without_hides: "set SECRETS \<subseteq> set ks \<Longrightarrow> hides_secrets (without ks d)"
  by (auto simp: hides_secrets_def without_def)

lemma sessions_hide [simp]: "hides_secrets (without SECRETS d)"
  by (simp add: without_hides)

lemma activity_hides [simp]: "hides_secrets (av_details (activity_event_of source d))"
  by (simp add: activity_event_of_def Let_def without_hides subset_insertI2)

lemma observed_sessions_run:
  obtains xs more where "observed_sessions so ds = (Ret xs, ds @ more)" and "\<forall>d \<in> set xs. hides_secrets d" and "set more \<subseteq> {''router''}"
proof -
  have "\<exists>xs more. observed_sessions so ds = (Ret xs, ds @ more) \<and> (\<forall>d \<in> set xs. hides_secrets d) \<and> set more \<subseteq> {''router''}"
    by (auto simp: observed_sessions_def degrade_def prog_defs Let_def split: option.split journal_file.split prod.split)
  then show thesis using that by blast
qed

lemma journal_events_run:
  obtains es more where "journal_events limit source file ds = (Ret es, ds @ more)" and "\<forall>e \<in> set es. hides_secrets (av_details e)" and "set more \<subseteq> {source}"
proof -
  have "\<exists>es more. journal_events limit source file ds = (Ret es, ds @ more) \<and> (\<forall>e \<in> set es. hides_secrets (av_details e)) \<and> set more \<subseteq> {source}"
    by (auto simp: journal_events_def degrade_def prog_defs Let_def split: option.split journal_file.split prod.split)
  then show thesis using that by blast
qed

lemma newest_first_sorted: "sorted (rev (map activity_key (newest_first es)))" "set (newest_first es) = set es"
  by (simp_all add: newest_first_def rev_map[symmetric])

lemma sorted_rev_take: "sorted (rev xs) \<Longrightarrow> sorted (rev (take n xs))"
  by (metis append_take_drop_id rev_append sorted_append)

lemma observed_activity_run:
  obtains es more where "observed_activity so limit ds = (Ret es, ds @ more)" and "\<forall>e \<in> set es. hides_secrets (av_details e)"
    and "length es \<le> limit" and "sorted (rev (map activity_key es))" and "set more \<subseteq> {''supervisor'', ''router''}"
proof -
  obtain es m1 where one: "journal_events limit ''supervisor'' (so_supervisor_journal so) ds = (Ret es, ds @ m1)"
    "\<forall>e \<in> set es. hides_secrets (av_details e)" "set m1 \<subseteq> {''supervisor''}" by (rule journal_events_run)
  obtain fs m2 where two: "journal_events limit ''router'' (map_option rf_journal (so_router so)) (ds @ m1) = (Ret fs, (ds @ m1) @ m2)"
    "\<forall>e \<in> set fs. hides_secrets (av_details e)" "set m2 \<subseteq> {''router''}" by (rule journal_events_run)
  show thesis
  proof (rule that)
    show "observed_activity so limit ds = (Ret (take limit (newest_first (es @ fs))), ds @ (m1 @ m2))"
      by (simp add: observed_activity_def bind_returning[where m = "journal_events _ _ _", OF one(1)] bind_returning[where m = "journal_events _ _ _", OF two(1)]) (simp add: ret_def)
    show "\<forall>e \<in> set (take limit (newest_first (es @ fs))). hides_secrets (av_details e)"
      using one(2) two(2) newest_first_sorted(2)[of "es @ fs"] by (auto dest!: in_set_takeD)
    show "sorted (rev (map activity_key (take limit (newest_first (es @ fs)))))"
      using sorted_rev_take[OF newest_first_sorted(1)] by (simp add: take_map)
  qed (use one(3) two(3) in auto)
qed

lemma observed_alerts_sorted: "sorted (map (severity_rank \<circ> oa_severity) (observed_alerts ss))"
  and set_observed_alerts: "set (observed_alerts ss) = (\<Union>s \<in> set ss. set (service_alerts s))"
  by (simp_all add: observed_alerts_def)

lemma unhealthy_cases:
  assumes "su_health (summary so r s) = ''UNHEALTHY''"
  shows "su_state (summary so r s) = ''failed'' \<or>
    (su_policy (summary so r s) = ''always_on'' \<and> su_state (summary so r s) \<notin> set [''running'', ''ready'', ''maintenance''])"
  using assms by (auto simp: summary_def summarize_def health_of_def Let_def split: if_splits)

lemma unhealthy_alerted:
  assumes "su_health (summary so r s) = ''UNHEALTHY''" and "su_state (summary so r s) \<noteq> ''unknown''"
  shows "\<exists>a \<in> set (service_alerts (summary so r s)). oa_service_id a = sv_id s \<and> oa_severity a = ''critical''"
  using unhealthy_cases[OF assms(1)] assms(2) by (auto simp: service_alerts_def alert_if_def)

lemma take_snapshot_run:
  assumes load: "load_registry ve ld files = Inr r" and types: "supported r"
  obtains x ds' where "take_snapshot so r limit ds = (Ret x, ds')" and "sn_services x = map (summary so r) (map snd (services r))"
    and "\<forall>d \<in> set (sn_sessions x). hides_secrets d" and "\<forall>e \<in> set (sn_activity x). hides_secrets (av_details e)"
    and "length (sn_activity x) \<le> limit" and "sorted (rev (map activity_key (sn_activity x)))"
    and "sn_alerts x = observed_alerts (sn_services x)" and "sn_degraded x = sort (remdups ds')"
    and "set ds \<subseteq> set ds'" and "set ds' \<subseteq> set ds \<union> {''supervisor'', ''router''}"
proof -
  let ?ss = "map (summary so r) (map snd (services r))" and ?b = "broken_sources so r"
  note services = observed_services_run[OF load types, of so]
  obtain xs m1 where sessions: "observed_sessions so (ds @ ?b) = (Ret xs, (ds @ ?b) @ m1)" "\<forall>d \<in> set xs. hides_secrets d" "set m1 \<subseteq> {''router''}"
    by (rule observed_sessions_run)
  obtain es m2 where activity: "observed_activity so limit ((ds @ ?b) @ m1) = (Ret es, ((ds @ ?b) @ m1) @ m2)" "\<forall>e \<in> set es. hides_secrets (av_details e)"
    "length es \<le> limit" "sorted (rev (map activity_key es))" "set m2 \<subseteq> {''supervisor'', ''router''}" by (rule observed_activity_run)
  define again where "again = (if ?ss = [] then observed_services so r else ret ?ss)"
  obtain m3 where m3: "again us = (Ret ?ss, us @ m3)" "set m3 \<subseteq> set ?b" for us
    unfolding again_def using services by (cases "?ss = []") (auto simp: ret_def)
  have hosts: "observed_hosts so r us = (Ret (hosts_of so ?ss), us @ ?b)" for us
    by (simp add: observed_hosts_def bind_returning[where m = "observed_services _ _", OF services]) (simp add: ret_def)
  let ?ds = "((((ds @ ?b) @ m1) @ m2) @ m3) @ ?b"
  have run: "take_snapshot so r limit ds = (Ret \<lparr>sn_services = ?ss, sn_sessions = xs, sn_activity = es, sn_alerts = observed_alerts ?ss,
      sn_hosts = hosts_of so ?ss, sn_degraded = sort (remdups ?ds)\<rparr>, ?ds)"
    unfolding take_snapshot_def
    by (simp only: bind_returning[where m = "observed_services _ _", OF services] bind_returning[where m = "observed_sessions _", OF sessions(1)]
        bind_returning[where m = "observed_activity _ _", OF activity(1)] again_def[symmetric] bind_returning[where m = again, OF m3(1)]
        bind_returning[where m = "observed_hosts _ _", OF hosts] bind_gets) (simp add: ret_def)
  have "set ?b \<subseteq> {''supervisor''}"
    by (auto simp: broken_sources_def broken_instance_def split: option.splits if_splits)
  with sessions(3) activity(5) m3(2) have "set ds \<subseteq> set ?ds" "set ?ds \<subseteq> set ds \<union> {''supervisor'', ''router''}" by auto
  then show thesis by (intro that[OF run]) (simp_all add: sessions(2) activity(2-4) del: set_append)
qed

lemma snapshot_services:
  assumes "load_registry ve ld files = Inr r" and "supported r" and run: "take_snapshot so r limit ds = (Ret x, ds')"
  shows "sn_services x = map (summary so r) (map snd (services r))"
  using assms(1,2) by (rule take_snapshot_run[of _ _ _ _ so limit ds]) (use run in simp)


text \<open>A router journal with a secret, and a damaged record of the supervisor\<close>

definition demo_sources :: sources where
  "demo_sources = \<lparr>so_integration_doc = (\<lambda>_. []), so_service_version = (\<lambda>_. JNull), so_host_id = (\<lambda>_. None), so_metadata = None,
     so_instances = Some (\<lambda>_. Broken), so_supervisor_journal = None,
     so_router = Some \<lparr>rf_sessions = None, rf_journal = Journal [Some [(''session_id'', JStr ''s''), (''password'', JStr ''secret'')], None]\<rparr>,
     so_backups = None, so_install = []\<rparr>"

lemma demo_supported: "supported demo_registry"
proof -
  have "\<forall>e \<in> snd ` set (endpoints demo_registry). ep_type e \<in> ENDPOINT_TYPES" by code_simp
  then show ?thesis unfolding supported_def by (force dest: map_of_SomeD)
qed


end
