(* ===== verification/Monitoring_Facts.thy ===== *)
theory Monitoring_Facts
  imports Monitoring Observatory_Facts
begin

text \<open>
  What the monitoring engine promises: the alert records are what a reader of the whole history of snapshots would write down,
  except that the oldest cleared ones are forgotten; heartbeats are compared with the wall clock.
\<close>

section \<open>The record that a history deserves\<close>

definition raised :: "string \<Rightarrow> string \<times> observed_snapshot \<Rightarrow> bool" where
  "raised k r \<longleftrightarrow> has_key (active_conditions (snd r)) k"

text \<open>The evaluations that found the condition, and those since the last one that did\<close>

definition raising :: "string \<Rightarrow> (string \<times> observed_snapshot) list \<Rightarrow> (string \<times> observed_snapshot) list" where
  "raising k rs = filter (raised k) rs"

definition quiet_since :: "string \<Rightarrow> (string \<times> observed_snapshot) list \<Rightarrow> (string \<times> observed_snapshot) list" where
  "quiet_since k rs = rev (takeWhile (\<lambda>r. \<not> raised k r) (rev rs))"

definition expected :: "string \<Rightarrow> (string \<times> observed_snapshot) list \<Rightarrow> alert option" where
  "expected k rs = (if raising k rs = [] then None else
     Some (condition.extend (the (map_of (active_conditions (snd (last (raising k rs)))) k))
       (alert.fields k (if quiet_since k rs = [] then ALERT_ACTIVE else CLEARED) (fst (hd (raising k rs))) (fst (last (raising k rs)))
         (int (length (raising k rs))) (if quiet_since k rs = [] then None else Some (fst (hd (quiet_since k rs)))))))"

lemma expected_Nil [simp]: "expected k [] = None"
  by (simp add: expected_def raising_def)

lemma expected_raised:
  assumes "raised k (now, x)"
  shows "expected k (rs @ [(now, x)]) = Some (condition.extend (the (map_of (active_conditions x) k))
    (alert.fields k ALERT_ACTIVE (case expected k rs of None \<Rightarrow> now | Some p \<Rightarrow> at_first_seen p) now
      ((case expected k rs of None \<Rightarrow> 0 | Some p \<Rightarrow> at_occurrence_count p) + 1) None))"
  using assms by (simp add: expected_def raising_def quiet_since_def condition.defs alert.defs)

lemma expected_quiet:
  assumes "\<not> raised k (now, x)"
  shows "expected k (rs @ [(now, x)]) = map_option (settled_alert now) (expected k rs)"
  using assms by (simp add: expected_def raising_def quiet_since_def settled_alert_def condition.defs alert.defs)

lemma expected_state:
  assumes "expected k rs = Some a"
  shows "at_state a = ALERT_ACTIVE \<longleftrightarrow> quiet_since k rs = []"
  using assms by (auto simp: expected_def condition.defs alert.defs split: if_splits)

section \<open>One evaluation\<close>

lemma wf_assign_all: "wf_dict d \<Longrightarrow> wf_dict (assign_all kvs d)"
  unfolding assign_all_def by (induction kvs arbitrary: d) auto

lemma wf_conditions [simp]: "wf_dict (active_conditions x)"
  by (simp add: active_conditions_def wf_assign_all)

lemma map_of_mapped: "map_of (map (\<lambda>(k, v). (k, f k v)) d) k = map_option (f k) (map_of d k)"
  by (induction d) auto

lemma map_of_merged:
  assumes "wf_dict old"
  shows "map_of (merged now old active) k = (case map_of active k of
      Some c \<Rightarrow> Some (refreshed now old k c)
    | None \<Rightarrow> map_option (settled_alert now) (map_of old k))"
  using map_of_filter_key[OF assms, of "\<lambda>k. \<not> has_key active k" k]
  by (auto simp: merged_def map_add_def has_key_map_of map_of_mapped split: option.split)

lemma wf_merged:
  assumes "wf_dict old" and "wf_dict active"
  shows "wf_dict (merged now old active)"
proof -
  have keys: "map fst (merged now old active) = map fst active @ map fst (filter (\<lambda>(k, p). \<not> has_key active k) old)"
    by (auto simp: merged_def comp_def split_beta)
  have "fst ` set active \<inter> fst ` set (filter (\<lambda>(k, p). \<not> has_key active k) old) = {}"
    by (auto simp: has_key_def image_iff)
  then show ?thesis
    using assms wf_filter[OF assms(1), of "\<lambda>(k, p). \<not> has_key active k"] by (auto simp: wf_dict_def keys)
qed

lemma wf_pruned [simp]: "wf_dict d \<Longrightarrow> wf_dict (pruned n d)"
  by (simp add: pruned_def)

lemma map_of_pruned: "wf_dict d \<Longrightarrow> map_of (pruned n d) k = (if k \<in> set (oldest_cleared n d) then None else map_of d k)"
  using map_of_filter_key[of d "\<lambda>k. k \<notin> set (oldest_cleared n d)" k] by (simp add: pruned_def)

lemma oldest_cleared_state:
  assumes "wf_dict d" and "k \<in> set (oldest_cleared n d)"
  obtains a where "map_of d k = Some a" and "at_state a = CLEARED"
proof -
  from assms(2) obtain a where "(k, a) \<in> set (cleared_records d)"
    by (auto simp: oldest_cleared_def Let_def dest!: in_set_takeD)
  with assms(1) show thesis by (intro that) (auto simp: cleared_records_def map_of_in_set)
qed

lemma none_dropped: "length (cleared_records d) \<le> nat n \<Longrightarrow> oldest_cleared n d = []"
  by (simp add: oldest_cleared_def Let_def)

text \<open>Of a dictionary, what is left when the first keys in some order are dropped\<close>

lemma dropped_prefix:
  assumes wf: "wf_dict d" and m: "m \<le> length d"
  shows "length (filter (\<lambda>(k, v). k \<notin> set (take m (map fst (sort_key f d)))) d) = length d - m"
    and "e \<in> set d \<Longrightarrow> fst e \<in> set (take m (map fst (sort_key f d))) \<Longrightarrow>
      e' \<in> set d \<Longrightarrow> fst e' \<notin> set (take m (map fst (sort_key f d))) \<Longrightarrow> f e \<le> f e'"
proof -
  define s where "s = sort_key f d"
  have dist: "distinct (map fst s)" and set_s: "set s = set d" and len: "length s = length d" and inj: "inj_on fst (set s)"
    using wf by (auto simp: s_def wf_dict_def distinct_map)
  have first: "fst e \<in> set (take m (map fst s)) \<longleftrightarrow> e \<in> set (take m s)" if "e \<in> set d" for e
    using that inj set_s by (auto simp: take_map dest: in_set_takeD inj_onD)
  have "distinct d" using wf by (auto simp: wf_dict_def distinct_map)
  then have "length (filter (\<lambda>(k, v). k \<notin> set (take m (map fst s))) d) = card (set d - set (take m s))"
    by (subst distinct_card[symmetric]) (auto simp: first[symmetric] split_beta intro!: arg_cong[where f = card])
  also have "\<dots> = length d - m"
    using set_s dist m len distinct_card[OF \<open>distinct d\<close>]
    by (subst card_Diff_subset) (auto simp: distinct_card distinct_map dest: in_set_takeD)
  finally show "length (filter (\<lambda>(k, v). k \<notin> set (take m (map fst (sort_key f d)))) d) = length d - m"
    by (simp add: s_def)
  assume e: "e \<in> set d" "fst e \<in> set (take m (map fst (sort_key f d)))" "e' \<in> set d" "fst e' \<notin> set (take m (map fst (sort_key f d)))"
  then have "e \<in> set (take m s)" "e' \<notin> set (take m s)" using first by (auto simp: s_def)
  moreover have "e' \<in> set (drop m s)"
    using e(3) set_s \<open>e' \<notin> set (take m s)\<close> by (metis Un_iff append_take_drop_id set_append)
  moreover have "sorted (map f (take m s) @ map f (drop m s))"
    by (metis append_take_drop_id map_append s_def sorted_sort_key)
  ultimately show "f e \<le> f e'" by (auto simp: sorted_append)
qed

section \<open>Histories\<close>

definition watch :: "engine \<Rightarrow> (string \<times> observed_snapshot) list \<Rightarrow> monitor \<Rightarrow> monitor" where
  "watch en rs s = fold (\<lambda>(now, x) s. snd (evaluate en now x s)) rs s"

definition kept_records :: "engine \<Rightarrow> string \<Rightarrow> observed_snapshot \<Rightarrow> (string, alert) dict \<Rightarrow> (string, alert) dict" where
  "kept_records en now x old = pruned (en_retention en) (merged now old (active_conditions x))"

lemma evaluate_run: "en_root en \<Longrightarrow> evaluate en now x s =
   (Ret (map snd (kept_records en now x (load_alerts en s))), s\<lparr>mo_alerts := Some (sort_key fst (kept_records en now x (load_alerts en s)))\<rparr>)"
  by (simp add: evaluate_def kept_records_def bind_gets Let_def save_alerts_def onlyif_def andThen_modify ret_def)

lemma watch_snoc: "en_root en \<Longrightarrow>
   load_alerts en (watch en (rs @ [(now, x)]) s) = sort_key fst (kept_records en now x (load_alerts en (watch en rs s)))"
  by (simp add: watch_def evaluate_run load_alerts_def default_def)

lemma wf_kept: "wf_dict old \<Longrightarrow> wf_dict (kept_records en now x old)"
  by (simp add: kept_records_def wf_merged)

lemma map_of_kept:
  assumes "wf_dict old"
  shows "map_of (kept_records en now x old) k =
    (if k \<in> set (oldest_cleared (en_retention en) (merged now old (active_conditions x))) then None
     else case map_of (active_conditions x) k of Some c \<Rightarrow> Some (refreshed now old k c) | None \<Rightarrow> map_option (settled_alert now) (map_of old k))"
  using assms by (simp add: kept_records_def map_of_pruned wf_merged map_of_merged)

lemma never_drops_active:
  assumes "wf_dict old" and "map_of (active_conditions x) k = Some c"
  shows "k \<notin> set (oldest_cleared n (merged now old (active_conditions x)))"
proof
  assume "k \<in> set (oldest_cleared n (merged now old (active_conditions x)))"
  with assms(1) obtain a where "map_of (merged now old (active_conditions x)) k = Some a" "at_state a = CLEARED"
    by (elim oldest_cleared_state[rotated]) (simp_all add: wf_merged)
  with assms show False by (auto simp: map_of_merged refreshed_def alert.defs condition.defs)
qed

text \<open>A record is the expected one for the evaluations since it was last forgotten.\<close>

definition tracked :: "(string \<times> observed_snapshot) list \<Rightarrow> (string, alert) dict \<Rightarrow> bool" where
  "tracked rs d \<longleftrightarrow> wf_dict d \<and> (\<forall>k a. map_of d k = Some a \<longrightarrow> (\<exists>pre us. rs = pre @ us \<and> expected k us = Some a))"

lemma expected_refreshed:
  assumes "map_of (active_conditions x) k = Some c" and "expected k us = map_of old k"
  shows "expected k (us @ [(now, x)]) = Some (refreshed now old k c)"
  using assms by (simp add: expected_raised raised_def has_key_map_of refreshed_def)

lemma expected_settled:
  assumes "map_of (active_conditions x) k = None"
  shows "expected k (us @ [(now, x)]) = map_option (settled_alert now) (expected k us)"
  using assms by (simp add: expected_quiet raised_def has_key_map_of)

lemma tracked_step:
  assumes old: "tracked rs old"
  shows "tracked (rs @ [(now, x)]) (kept_records en now x old)"
  unfolding tracked_def
proof (intro conjI allI impI)
  have wf: "wf_dict old" using old by (simp add: tracked_def)
  then show "wf_dict (kept_records en now x old)" by (rule wf_kept)
  fix k a assume a: "map_of (kept_records en now x old) k = Some a"
  show "\<exists>pre us. rs @ [(now, x)] = pre @ us \<and> expected k us = Some a"
  proof (cases "map_of old k")
    case None
    with a wf obtain c where "map_of (active_conditions x) k = Some c" "a = refreshed now old k c"
      by (auto simp: map_of_kept split: if_splits option.splits)
    then show ?thesis using expected_refreshed[of x k c "[]" old now] None by auto
  next
    case (Some p)
    with old have "\<exists>pre us. rs = pre @ us \<and> expected k us = Some p" unfolding tracked_def by blast
    then obtain pre us where "rs = pre @ us" and us: "expected k us = Some p" by blast
    moreover have "expected k (us @ [(now, x)]) = Some a"
      using a wf us Some expected_settled[of x k us now] expected_refreshed[of x k _ us old now]
      by (auto simp: map_of_kept split: if_splits option.splits)
    ultimately show ?thesis by (intro exI[of _ pre] exI[of _ "us @ [(now, x)]"]) simp
  qed
qed

lemma tracked_watch:
  assumes "en_root en" and "mo_alerts s = None"
  shows "tracked rs (load_alerts en (watch en rs s))"
proof (induction rs rule: rev_induct)
  case Nil
  show ?case using assms by (simp add: tracked_def watch_def load_alerts_def default_def)
next
  case (snoc r rs)
  obtain now x where r: "r = (now, x)" by force
  have "tracked (rs @ [r]) (kept_records en now x (load_alerts en (watch en rs s)))"
    unfolding r by (rule tracked_step) (rule snoc.IH)
  then show ?case by (simp add: r watch_snoc[OF assms(1)] tracked_def map_of_sort_key)
qed

lemma expected_raises: "expected k us = Some a \<Longrightarrow> \<exists>r \<in> set us. raised k r"
  by (auto simp: expected_def raising_def filter_empty_conv split: if_splits)

lemma card_keys: "wf_dict d \<Longrightarrow> card (fst ` set d) = length d"
  using distinct_card[of "map fst d"] by (simp add: wf_dict_def)

lemma tracked_keys:
  assumes "tracked rs d"
  shows "fst ` set d \<subseteq> {k. \<exists>r \<in> set rs. raised k r}"
proof
  fix k assume "k \<in> fst ` set d"
  then obtain a where "map_of d k = Some a" using has_key_map_of[of d k] by (auto simp: has_key_def)
  with assms obtain pre us where "rs = pre @ us" "expected k us = Some a" unfolding tracked_def by blast
  then show "k \<in> {k. \<exists>r \<in> set rs. raised k r}" using expected_raises[of k us a] by auto
qed

lemma merged_keys:
  assumes "fst ` set old \<subseteq> {k. \<exists>r \<in> set rs. raised k r}"
  shows "fst ` set (merged now old (active_conditions x)) \<subseteq> {k. \<exists>r \<in> set (rs @ [(now, x)]). raised k r}"
proof
  fix k assume "k \<in> fst ` set (merged now old (active_conditions x))"
  then have "k \<in> fst ` set (active_conditions x) \<or> k \<in> fst ` set old"
    by (auto simp: merged_def intro: rev_image_eqI)
  then show "k \<in> {k. \<exists>r \<in> set (rs @ [(now, x)]). raised k r}"
  proof
    assume "k \<in> fst ` set (active_conditions x)"
    then have "raised k (now, x)" by (simp add: raised_def has_key_def)
    then show ?thesis by auto
  next
    assume "k \<in> fst ` set old"
    with assms show ?thesis by auto
  qed
qed

text \<open>While no more than the retention were ever raised, nothing is forgotten.\<close>

lemma complete_watch:
  assumes root: "en_root en" and fresh: "mo_alerts s = None"
    and few: "card {k. \<exists>r \<in> set rs. raised k r} \<le> nat (en_retention en)"
  shows "map_of (load_alerts en (watch en rs s)) k = expected k rs"
  using few
proof (induction rs rule: rev_induct)
  case Nil
  show ?case using fresh by (simp add: watch_def load_alerts_def default_def)
next
  case (snoc r rs)
  obtain now x where r: "r = (now, x)" by force
  let ?old = "load_alerts en (watch en rs s)" and ?K = "\<lambda>rs. {k. \<exists>r \<in> set rs. raised k r}"
  have "?K rs' = (\<Union>r \<in> set rs'. fst ` set (active_conditions (snd r)))" for rs' by (auto simp: raised_def has_key_def)
  then have fin: "finite (?K rs')" for rs' by simp
  have "card (?K rs) \<le> card (?K (rs @ [r]))" by (rule card_mono[OF fin]) auto
  with snoc have IH: "map_of ?old k = expected k rs" by simp
  have tracked: "tracked rs ?old" using root fresh by (rule tracked_watch)
  then have wf: "wf_dict ?old" by (simp add: tracked_def)
  let ?m = "merged now ?old (active_conditions x)"
  have "fst ` set ?m \<subseteq> ?K (rs @ [r])"
    using tracked_keys[OF tracked] unfolding r by (rule merged_keys)
  then have "card (fst ` set ?m) \<le> card (?K (rs @ [r]))" by (rule card_mono[OF fin])
  then have "length ?m \<le> card (?K (rs @ [r]))"
    by (simp add: card_keys[OF wf_merged[OF wf wf_conditions]])
  then have none: "oldest_cleared (en_retention en) ?m = []"
    using snoc.prems by (intro none_dropped) (auto simp: cleared_records_def intro: order_trans[OF length_filter_le])
  have step: "map_of (load_alerts en (watch en (rs @ [r]) s)) k = (case map_of (active_conditions x) k of
      Some c \<Rightarrow> Some (refreshed now ?old k c) | None \<Rightarrow> map_option (settled_alert now) (map_of ?old k))"
    unfolding r watch_snoc[OF root] map_of_sort_key[OF wf_kept[OF wf]] map_of_kept[OF wf] none by simp
  show ?case
  proof (cases "map_of (active_conditions x) k")
    case None
    then show ?thesis unfolding step by (simp add: r IH expected_settled)
  next
    case (Some c)
    then show ?thesis using expected_refreshed[OF Some, of rs ?old now] IH unfolding step by (simp add: r)
  qed
qed

text \<open>What an evaluation forgets: nothing before the cleared records exceed the retention, and then the ones cleared first.\<close>

lemma cleared_pruned: "cleared_records (pruned n d) =
   filter (\<lambda>(k, a). k \<notin> set (take (length (cleared_records d) - nat n) (map fst (sort_key (\<lambda>(k, a). default [] (at_cleared_at a)) (cleared_records d)))))
     (cleared_records d)"
  by (simp add: pruned_def cleared_records_def oldest_cleared_def Let_def split_beta conj_commute)

lemma wf_cleared: "wf_dict d \<Longrightarrow> wf_dict (cleared_records d)"
  by (simp add: cleared_records_def)

lemma length_cleared_pruned:
  assumes "wf_dict d"
  shows "length (cleared_records (pruned n d)) = min (length (cleared_records d)) (nat n)"
  unfolding cleared_pruned by (subst dropped_prefix(1)[OF wf_cleared[OF assms]]) (auto simp: min_def)

lemma forgotten:
  assumes wf: "wf_dict d" and a: "map_of d k = Some a" and gone: "map_of (pruned n d) k = None"
  shows "length (cleared_records (pruned n d)) = nat n" and "map_of (pruned n d) k' = Some b \<Longrightarrow> at_state b = CLEARED \<Longrightarrow>
    default [] (at_cleared_at a) \<le> default [] (at_cleared_at b)"
proof -
  have k: "k \<in> set (oldest_cleared n d)" using gone a by (auto simp: map_of_pruned[OF wf] split: if_splits)
  then show "length (cleared_records (pruned n d)) = nat n"
    using none_dropped[of d n] by (cases "length (cleared_records d) \<le> nat n") (auto simp: length_cleared_pruned[OF wf])
  assume b: "map_of (pruned n d) k' = Some b" "at_state b = CLEARED"
  from wf k obtain a' where "map_of d k = Some a'" "at_state a' = CLEARED" by (rule oldest_cleared_state)
  with a wf have mem: "(k, a) \<in> set (cleared_records d)" by (auto simp: cleared_records_def map_of_in_set)
  from b wf have mem': "(k', b) \<in> set (cleared_records d)" "k' \<notin> set (oldest_cleared n d)"
    by (auto simp: cleared_records_def map_of_pruned map_of_in_set split: if_splits)
  show "default [] (at_cleared_at a) \<le> default [] (at_cleared_at b)"
    using dropped_prefix(2)[OF wf_cleared[OF wf] diff_le_self mem _ mem'(1), of "nat n" "\<lambda>(k, a). default [] (at_cleared_at a)"] k mem'(2)
    by (simp add: oldest_cleared_def Let_def)
qed

lemma expected_cleared_at: "expected k us = Some a \<Longrightarrow> default now (at_cleared_at a) = default [] (at_cleared_at (settled_alert now a))"
  by (auto simp: expected_def settled_alert_def condition.defs alert.defs default_def split: if_splits)

text \<open>C38: the alert records tell the history. After any series of evaluations of one engine, the active records are those of the
  conditions that the last snapshot shows. Every record is exactly the one that the evaluations since it was last forgotten
  deserve: when its condition was first and last seen, how often, and when it ended. An evaluation only forgets cleared
  records, only when they exceed the retention, which is 10 at least, and those that were cleared first; as long as no more
  conditions than that were ever seen, no record is forgotten.\<close>

theorem alerts_tracked:
  assumes en: "en = new_engine True retention skew" and fresh: "mo_alerts s = None"
  shows "let history = rs @ [(now, x)]; old = load_alerts en (watch en rs s); d = load_alerts en (watch en history s) in
    (\<forall>k. (\<exists>a. map_of d k = Some a \<and> at_state a = ALERT_ACTIVE) \<longleftrightarrow> has_key (active_conditions x) k) \<and>
    (\<forall>k a. map_of d k = Some a \<longrightarrow> (\<exists>pre us. history = pre @ us \<and> expected k us = Some a)) \<and>
    int (length (cleared_records d)) \<le> max 10 retention \<and>
    (\<forall>k a. map_of old k = Some a \<and> \<not> has_key d k \<longrightarrow> int (length (cleared_records d)) = max 10 retention \<and>
       (\<forall>k' b. map_of d k' = Some b \<and> at_state b = CLEARED \<longrightarrow> default now (at_cleared_at a) \<le> default [] (at_cleared_at b))) \<and>
    (int (card {k. \<exists>r \<in> set history. raised k r}) \<le> max 10 retention \<longrightarrow> (\<forall>k. map_of d k = expected k history))"
proof -
  have root: "en_root en" and ret: "int (nat (en_retention en)) = max 10 retention" using en by (simp_all add: new_engine_def)
  define old where "old = load_alerts en (watch en rs s)"
  define m where "m = merged now old (active_conditions x)"
  define d where "d = load_alerts en (watch en (rs @ [(now, x)]) s)"
  have tracked: "tracked rs old" "tracked (rs @ [(now, x)]) d"
    using tracked_watch[OF root fresh] by (simp_all add: old_def d_def)
  have wf: "wf_dict old" "wf_dict d" "wf_dict m" using tracked by (auto simp: tracked_def m_def wf_merged)
  have d: "d = sort_key fst (pruned (en_retention en) m)"
    by (simp add: d_def watch_snoc[OF root] kept_records_def m_def old_def)
  have map_d: "map_of d = map_of (pruned (en_retention en) m)" unfolding d by (rule map_of_sort_key) (simp add: wf)
  have map_m: "map_of m k = (case map_of (active_conditions x) k of Some c \<Rightarrow> Some (refreshed now old k c)
      | None \<Rightarrow> map_option (settled_alert now) (map_of old k))" for k
    by (simp add: m_def map_of_merged[OF wf(1)])
  have safe: "map_of (active_conditions x) k = Some c \<Longrightarrow> k \<notin> set (oldest_cleared n m)" for k c n
    unfolding m_def by (rule never_drops_active[OF wf(1)])
  have len: "length (cleared_records d) = length (cleared_records (pruned (en_retention en) m))"
    by (simp add: d cleared_records_def filter_sort)
  have "(\<exists>a. map_of d k = Some a \<and> at_state a = ALERT_ACTIVE) \<longleftrightarrow> has_key (active_conditions x) k" for k
    using safe[of k _ "en_retention en"]
    by (cases "map_of (active_conditions x) k"; cases "map_of old k")
      (auto simp: map_d map_of_pruned[OF wf(3)] has_key_map_of map_m refreshed_def settled_alert_def condition.defs alert.defs)
  moreover have "\<forall>k a. map_of d k = Some a \<longrightarrow> (\<exists>pre us. rs @ [(now, x)] = pre @ us \<and> expected k us = Some a)"
    using tracked(2) by (simp add: tracked_def)
  moreover have "int (length (cleared_records d)) \<le> max 10 retention"
    using len length_cleared_pruned[OF wf(3), of "en_retention en"] ret by linarith
  moreover have "int (length (cleared_records d)) = max 10 retention \<and>
      (\<forall>k' b. map_of d k' = Some b \<and> at_state b = CLEARED \<longrightarrow> default now (at_cleared_at a) \<le> default [] (at_cleared_at b))"
    if a: "map_of old k = Some a" and gone: "\<not> has_key d k" for k a
  proof -
    have none: "map_of (pruned (en_retention en) m) k = None" using gone by (simp add: has_key_map_of map_d)
    have "map_of (active_conditions x) k = None"
      using safe[of k _ "en_retention en"] none by (cases "map_of (active_conditions x) k") (auto simp: map_of_pruned[OF wf(3)] map_m)
    then have settled: "map_of m k = Some (settled_alert now a)" using a by (simp add: map_m)
    obtain us where "expected k us = Some a" using tracked(1) a unfolding tracked_def by blast
    then have "default now (at_cleared_at a) = default [] (at_cleared_at (settled_alert now a))" by (rule expected_cleared_at)
    with forgotten(2)[OF wf(3) settled none]
    have "\<forall>k' b. map_of d k' = Some b \<and> at_state b = CLEARED \<longrightarrow> default now (at_cleared_at a) \<le> default [] (at_cleared_at b)"
      unfolding map_d by auto
    moreover have "int (length (cleared_records d)) = max 10 retention"
      using forgotten(1)[OF wf(3) settled none] ret len by simp
    ultimately show ?thesis by blast
  qed
  moreover have "map_of d k = expected k (rs @ [(now, x)])" if "int (card {k. \<exists>r \<in> set (rs @ [(now, x)]). raised k r}) \<le> max 10 retention" for k
    using complete_watch[OF root fresh, of "rs @ [(now, x)]" k] that ret unfolding d_def by linarith
  ultimately show ?thesis unfolding Let_def old_def[symmetric] d_def[symmetric] by blast
qed

text \<open>A remote host without telemetry that disappears\<close>

definition demo_shown :: "host_view list \<Rightarrow> observed_snapshot" where
  "demo_shown hs = \<lparr>sn_services = [], sn_sessions = [], sn_activity = [], sn_alerts = [], sn_hosts = hs, sn_degraded = []\<rparr>"

definition demo_host :: host_view where
  "demo_host = \<lparr>ho_id = ''h'', ho_location = ''remote'', ho_health = ''UNKNOWN'', ho_services = []\<rparr>"

definition empty_monitor :: monitor where
  "empty_monitor = \<lparr>mo_alerts = None, mo_heartbeats = []\<rparr>"

theorem alerts_tracked_witness:
  "\<exists>a. map_of (load_alerts (new_engine True 0 300) (watch (new_engine True 0 300) [(''1'', demo_shown [demo_host]), (''2'', demo_shown [demo_host]), (''3'', demo_shown [])] empty_monitor))
      ''host:h'' = Some a \<and> at_state a = CLEARED \<and> at_first_seen a = ''1'' \<and> at_last_seen a = ''2'' \<and> at_occurrence_count a = 2 \<and> at_cleared_at a = Some ''3''"
proof -
  let ?rs = "[(''1'', demo_shown [demo_host]), (''2'', demo_shown [demo_host])]" and ?r = "(''3'', demo_shown [])"
  have keys: "{k. \<exists>r \<in> set (?rs @ [?r]). raised k r} = {''host:h''}"
    by (auto simp: raised_def active_conditions_def demo_shown_def demo_host_def host_conditions_def assign_all_def has_key_def)
  have "expected ''host:h'' (?rs @ [?r]) = Some \<lparr>cd_severity = ''warning'', cd_subject = HostSubject ''h'', cd_summary = ''remote host has no current telemetry'',
      at_alert_id = ''host:h'', at_state = CLEARED, at_first_seen = ''1'', at_last_seen = ''2'', at_occurrence_count = 2, at_cleared_at = Some ''3''\<rparr>"
    by code_simp
  then show ?thesis
    using alerts_tracked[where retention = 0 and skew = 300 and s = empty_monitor and now = "''3''" and x = "demo_shown []" and rs = ?rs, OF refl] unfolding Let_def keys
    by (simp add: empty_monitor_def)
qed

section \<open>Heartbeats\<close>

lemma HOST_ID_chars:
  assumes "fullmatch HOST_ID_rx h"
  shows "\<exists>c cs. h = c # cs \<and> alnum c \<and> list_all host_char cs"
  using assms by (cases h) (auto simp: fullmatch_iff HOST_ID_rx_def)

lemma host_id_plain:
  assumes "check_heartbeat hb = Inr host"
  shows "CHR ''/'' \<notin> set host \<and> host \<notin> set [[], ''.'', ''..'']"
proof -
  have "fullmatch HOST_ID_rx host"
    using assms unfolding check_heartbeat_def by (cases hb) (auto simp: bindS_def simp del: first_error.simps split: sum.splits)
  then obtain c cs where "host = c # cs" "alnum c" "list_all host_char cs" using HOST_ID_chars by blast
  moreover have "\<not> host_char (CHR ''/'')" "\<not> alnum (CHR ''.'')" "\<not> alnum (CHR ''/'')" by code_simp+
  ultimately show ?thesis by (auto simp: list_all_iff)
qed

text \<open>Heartbeats. A heartbeat that is accepted is the one that is read back for its host, whose id is a plain file name, and
  no other host's is touched; one that is refused changes nothing. Whether a well-formed heartbeat counts as being from the
  future is decided by the wall clocks: when the engine's clock shows UTC, a heartbeat observed this very moment by a host
  whose offset is more than the skew ahead is refused, and one from the future is accepted when its host's offset is behind.\<close>

theorem heartbeats_by_wall_clock:
  assumes root: "en_root en" and run: "heartbeat_ingest en parse now hb s = (r, t)"
  shows "(case r of
      Ret v \<Rightarrow> v = hb \<and> (\<exists>host. check_heartbeat hb = Inr host \<and> CHR ''/'' \<notin> set host \<and> host \<notin> set [[], ''.'', ''..''] \<and>
        heartbeat en host t = Some hb \<and> (\<forall>h. h \<noteq> host \<longrightarrow> heartbeat en h t = heartbeat en h s) \<and> mo_alerts t = mo_alerts s)
    | _ \<Rightarrow> t = s) \<and>
    (\<forall>host observed off. check_heartbeat hb = Inr host \<and> observed_time parse (as_fields hb) = Inr observed \<and>
        utc_offset now = Some 0 \<and> utc_offset observed = Some off \<longrightarrow>
      (r = Ret hb \<longleftrightarrow> utc observed + off \<le> utc now + seconds (en_skew en)) \<and>
      (utc observed = utc now \<and> seconds (en_skew en) < off \<longrightarrow> r = Raise (ValueError [''heartbeat is from the future''])) \<and>
      (\<forall>ahead. utc observed = utc now + ahead \<and> off \<le> seconds (en_skew en) - ahead \<longrightarrow> r = Ret hb))"
proof (cases "check_heartbeat hb")
  case (Inl e)
  then show ?thesis using run by (auto simp: heartbeat_ingest_def liftM_def bind_def raise_def)
next
  case host: (Inr host)
  have plain: "CHR ''/'' \<notin> set host \<and> host \<notin> set [[], ''.'', ''..'']"
    using host_id_plain[OF host] .
  show ?thesis
  proof (cases "observed_time parse (as_fields hb)")
    case (Inl e)
    then show ?thesis using run host by (auto simp: heartbeat_ingest_def liftM_def bind_def raise_def ret_def)
  next
    case (Inr observed)
    have run': "(r, t) = (if from_future en now observed then (Raise (ValueError [''heartbeat is from the future'']), s)
        else (Ret hb, s\<lparr>mo_heartbeats := AList.update host hb (mo_heartbeats s)\<rparr>))"
      using run host Inr root by (auto simp: heartbeat_ingest_def liftM_def prog_defs)
    show ?thesis
      using run' host Inr root plain
      by (auto simp: from_future_def utc_def plus_time_def heartbeat_def split: if_splits)
  qed
qed

text \<open>A host one hour ahead of UTC reports a heartbeat of this very moment.\<close>

definition demo_heartbeat :: json where
  "demo_heartbeat = JDict [(''schema_version'', JInt 1), (''host_id'', JStr ''h''), (''health'', JStr ''HEALTHY''), (''observed_at'', JStr ''1:00+01:00'')]"

definition demo_parse :: "string \<Rightarrow> datetime option" where
  "demo_parse t = (if t = ''1:00+01:00'' then Some \<lparr>wall = seconds 3600, utc_offset = Some (seconds 3600)\<rparr> else None)"

theorem heartbeats_by_wall_clock_witness:
  "fst (heartbeat_ingest (new_engine True 200 300) demo_parse \<lparr>wall = 0, utc_offset = Some 0\<rparr> demo_heartbeat empty_monitor) =
     Raise (ValueError [''heartbeat is from the future'']) \<and>
   heartbeat (new_engine True 200 300) ''h''
     (snd (heartbeat_ingest (new_engine True 200 300) demo_parse \<lparr>wall = seconds 7200, utc_offset = Some 0\<rparr> demo_heartbeat empty_monitor)) = Some demo_heartbeat"
proof -
  let ?ing = "\<lambda>w. heartbeat_ingest (new_engine True 200 300) demo_parse \<lparr>wall = w, utc_offset = Some 0\<rparr> demo_heartbeat empty_monitor"
  have checks: "check_heartbeat demo_heartbeat = Inr ''h''"
    "observed_time demo_parse (as_fields demo_heartbeat) = Inr \<lparr>wall = seconds 3600, utc_offset = Some (seconds 3600)\<rparr>"
    by code_simp+
  note law = heartbeats_by_wall_clock[where en = "new_engine True 200 300" and parse = demo_parse and hb = demo_heartbeat and s = empty_monitor, OF _ surjective_pairing]
  have "fst (?ing 0) = Raise (ValueError [''heartbeat is from the future''])"
    using law[where now = "\<lparr>wall = 0, utc_offset = Some 0\<rparr>"] by (simp add: checks new_engine_def utc_def seconds_def)
  moreover have "fst (?ing (seconds 7200)) = Ret demo_heartbeat"
    using law[where now = "\<lparr>wall = seconds 7200, utc_offset = Some 0\<rparr>"] by (simp add: checks new_engine_def utc_def seconds_def)
  then have "heartbeat (new_engine True 200 300) ''h'' (snd (?ing (seconds 7200))) = Some demo_heartbeat"
    using law[where now = "\<lparr>wall = seconds 7200, utc_offset = Some 0\<rparr>"] by (simp add: checks new_engine_def)
  ultimately show ?thesis by blast
qed

section \<open>From the supervisor's record to the alert\<close>

lemma map_of_assign_all: "map_of (assign_all kvs d) k = Some v \<Longrightarrow> (k, v) \<in> set kvs \<or> map_of d k = Some v"
  unfolding assign_all_def by (induction kvs arbitrary: d) (fastforce split: if_splits)+

lemma keys_assign_all: "fst ` set (assign_all kvs d) = fst ` set kvs \<union> fst ` set d"
  unfolding assign_all_def by (induction kvs arbitrary: d) (simp_all add: split_beta keys_update)

lemma assign_all_unique:
  assumes "(k, v) \<in> set kvs" and "\<And>w. (k, w) \<in> set kvs \<Longrightarrow> w = v"
  shows "map_of (assign_all kvs []) k = Some v"
proof -
  have "has_key (assign_all kvs []) k" using assms(1) by (force simp: has_key_def keys_assign_all)
  then obtain w where "map_of (assign_all kvs []) k = Some w" by (auto simp: has_key_map_of)
  with map_of_assign_all[of kvs "[]" k w] assms(2) show ?thesis by auto
qed

definition health_condition :: "service_summary \<Rightarrow> condition option" where
  "health_condition s =
     (if su_health s = ''UNHEALTHY'' then Some (condition_of ''critical'' (ServiceSubject (su_id s)) ''service health is unhealthy'')
      else if su_health s = ''DEGRADED'' then Some (condition_of ''warning'' (ServiceSubject (su_id s)) ''service health is degraded'')
      else None)"

lemma health_keys:
  "(''health:'' @ i, c) \<in> set (service_conditions s) \<longleftrightarrow> su_id s = i \<and> health_condition s = Some c"
  "(''health:'' @ i, c) \<notin> set (host_conditions h)"
  by (auto simp: service_conditions_def health_condition_def host_conditions_def)

lemma health_condition_active:
  assumes s: "s \<in> set (sn_services x)" and distinct: "distinct (map su_id (sn_services x))"
  shows "map_of (active_conditions x) (''health:'' @ su_id s) = health_condition s"
proof -
  define kvs where "kvs = concat (map service_conditions (sn_services x)) @ concat (map host_conditions (sn_hosts x))"
  define k where "k = ''health:'' @ su_id s"
  have keys: "(k, c) \<in> set (service_conditions s') \<longleftrightarrow> su_id s' = su_id s \<and> health_condition s' = Some c" "(k, c) \<notin> set (host_conditions h)" for c s' h
    unfolding k_def by (rule health_keys)+
  have same: "s' = s" if "s' \<in> set (sn_services x)" "su_id s' = su_id s" for s'
    using that s distinct by (auto simp: distinct_map dest: inj_onD)
  have entry: "(k, c) \<in> set kvs \<longleftrightarrow> health_condition s = Some c" for c
  proof
    assume "(k, c) \<in> set kvs"
    then obtain s' where "s' \<in> set (sn_services x)" "(k, c) \<in> set (service_conditions s')" by (auto simp: kvs_def keys(2))
    with same show "health_condition s = Some c" by (auto simp: keys(1))
  next
    assume "health_condition s = Some c"
    then have "(k, c) \<in> set (service_conditions s)" by (simp add: keys(1))
    with s show "(k, c) \<in> set kvs" by (auto simp: kvs_def)
  qed
  have "map_of (assign_all kvs []) k = health_condition s"
  proof (cases "health_condition s")
    case None
    then show ?thesis using map_of_assign_all[of kvs "[]" k] entry by (cases "map_of (assign_all kvs []) k") auto
  next
    case (Some c)
    with entry have "(k, c) \<in> set kvs" "\<And>w. (k, w) \<in> set kvs \<Longrightarrow> w = c" by simp_all
    then show ?thesis unfolding Some by (rule assign_all_unique)
  qed
  then show ?thesis by (simp only: active_conditions_def kvs_def k_def)
qed

lemma expected_id: "expected k us = Some a \<Longrightarrow> at_alert_id a = k"
  by (auto simp: expected_def alert.defs condition.defs split: if_splits)

lemma settled_state: "at_state (settled_alert now p) = CLEARED"
  by (cases "at_state p") (simp_all add: settled_alert_def)

lemma evaluated_alert:
  assumes root: "en_root en" and fresh: "mo_alerts fresh_state = None" and run: "evaluate en now x (watch en rs fresh_state) = (r, t)"
  obtains as where "r = Ret as" and "\<And>k a. a \<in> set as \<and> at_alert_id a = k \<and> at_state a = ALERT_ACTIVE \<longleftrightarrow>
    (\<exists>c. map_of (active_conditions x) k = Some c \<and> a = refreshed now (load_alerts en (watch en rs fresh_state)) k c)"
proof -
  let ?old = "load_alerts en (watch en rs fresh_state)" and ?d = "kept_records en now x (load_alerts en (watch en rs fresh_state))"
  have tracked: "tracked rs ?old" using root fresh by (rule tracked_watch)
  then have wf: "wf_dict ?old" by (simp add: tracked_def)
  have "tracked (rs @ [(now, x)]) ?d" using tracked by (rule tracked_step)
  then have ids: "map_of ?d k = Some a \<Longrightarrow> at_alert_id a = k" for k a unfolding tracked_def using expected_id by blast
  have "a \<in> set (map snd ?d) \<longleftrightarrow> (\<exists>k. map_of ?d k = Some a)" for a
    using wf_kept[OF wf, of en now x] by (force simp: map_of_in_set)
  then have "a \<in> set (map snd ?d) \<and> at_alert_id a = k \<longleftrightarrow> map_of ?d k = Some a" for k a using ids by blast
  moreover have "map_of ?d k = Some a \<and> at_state a = ALERT_ACTIVE \<longleftrightarrow> (\<exists>c. map_of (active_conditions x) k = Some c \<and> a = refreshed now ?old k c)" for k a
    using never_drops_active[OF wf, of x k _ "en_retention en"]
    by (cases "map_of (active_conditions x) k")
      (auto simp: map_of_kept[OF wf] refreshed_def alert.defs condition.defs settled_state split: if_splits)
  moreover have "r = Ret (map snd ?d)" using run by (simp add: evaluate_run[OF root])
  ultimately show thesis by (intro that) blast+
qed

definition recorded_state :: "sources \<Rightarrow> string \<Rightarrow> string" where
  "recorded_state so i = (let d = saved_instance so i in if has_key d ''state'' then text_of (field d ''state'') else ''unknown'')"

text \<open>C39: from the supervisor's record to the alert. Let the monitor evaluate a snapshot of a loaded registry after any history of
  evaluations. A service has an active critical alert of its health exactly when it is local and its recorded state is failed,
  or it is to be always on and its recorded state is none of running, ready and maintenance; the alert was seen now.\<close>

theorem failures_alerted:
  assumes load: "load_registry ve ld files = Inr r" and types: "supported r" and snap: "take_snapshot so r limit ds = (Ret x, ds')"
    and s: "map_of (services r) i = Some s" and root: "en_root en" and fresh: "mo_alerts fresh_state = None"
    and run: "evaluate en now x (watch en rs fresh_state) = (res, t)"
  shows "\<exists>as. res = Ret as \<and>
    ((\<exists>a \<in> set as. at_alert_id a = ''health:'' @ i \<and> at_state a = ALERT_ACTIVE \<and> cd_severity a = ''critical'' \<and>
        cd_subject a = ServiceSubject i \<and> at_last_seen a = now) \<longleftrightarrow>
     ep_location (normalized (the (map_of (endpoints r) (sv_endpoint_id s)))) \<noteq> ''remote'' \<and>
     (recorded_state so i = ''failed'' \<or>
      (lc_mode (sv_lifecycle s) = ''always_on'' \<and> recorded_state so i \<notin> set [''running'', ''ready'', ''maintenance''])))"
proof -
  have id: "sv_id s = i" using loaded_registry_wf[OF load] s by (rule map_of_registry_wf)
  have services: "sn_services x = map (summary so r) (map snd (services r))" using snapshot_services[OF load types snap] .
  have "summary so r s \<in> set (sn_services x)" using s by (force simp: services dest: map_of_SomeD)
  moreover have "distinct (map su_id (sn_services x))" unfolding services summary_ids[OF load] by (rule service_ids(3)[OF load])
  ultimately have cond: "map_of (active_conditions x) (''health:'' @ i) = health_condition (summary so r s)"
    using health_condition_active[of "summary so r s" x] by (simp add: id)
  from root fresh run obtain as where as: "res = Ret as" "\<And>k a. a \<in> set as \<and> at_alert_id a = k \<and> at_state a = ALERT_ACTIVE \<longleftrightarrow>
    (\<exists>c. map_of (active_conditions x) k = Some c \<and> a = refreshed now (load_alerts en (watch en rs fresh_state)) k c)"
    by (rule evaluated_alert) blast
  define k where "k = ''health:'' @ i"
  have "(\<exists>a \<in> set as. at_alert_id a = k \<and> at_state a = ALERT_ACTIVE \<and> cd_severity a = ''critical'' \<and>
        cd_subject a = ServiceSubject i \<and> at_last_seen a = now) \<longleftrightarrow>
      (\<exists>a. (a \<in> set as \<and> at_alert_id a = k \<and> at_state a = ALERT_ACTIVE) \<and> cd_severity a = ''critical'' \<and> cd_subject a = ServiceSubject i \<and> at_last_seen a = now)"
    by blast
  also have "\<dots> \<longleftrightarrow> (\<exists>c. health_condition (summary so r s) = Some c \<and> cd_severity c = ''critical'' \<and> cd_subject c = ServiceSubject i)"
    unfolding as(2) cond[folded k_def] by (auto simp: refreshed_def alert.defs condition.defs)
  also have "\<dots> \<longleftrightarrow> su_health (summary so r s) = ''UNHEALTHY''"
    by (auto simp: health_condition_def condition_of_def id)
  also have "\<dots> \<longleftrightarrow> ep_location (normalized (the (map_of (endpoints r) (sv_endpoint_id s)))) \<noteq> ''remote'' \<and>
     (recorded_state so i = ''failed'' \<or> (lc_mode (sv_lifecycle s) = ''always_on'' \<and> recorded_state so i \<notin> set [''running'', ''ready'', ''maintenance'']))"
    by (auto simp: summary_def summarize_def resolved_def health_of_def recorded_state_def id Let_def)
  finally show ?thesis using as(1) unfolding k_def by blast
qed

definition demo_failed :: sources where
  "demo_failed = demo_sources\<lparr>so_instances := Some (\<lambda>i. if i = ''bbs'' then Doc [(''state'', JStr ''failed'')] else Absent)\<rparr>"

theorem failures_alerted_witness:
  "\<exists>x as a. fst (take_snapshot demo_failed demo_registry 5 []) = Ret x \<and>
     fst (evaluate (new_engine True 200 300) ''1'' x empty_monitor) = Ret as \<and> a \<in> set as \<and> at_alert_id a = ''health:bbs'' \<and> cd_severity a = ''critical''"
proof -
  obtain x ds' where x: "take_snapshot demo_failed demo_registry 5 [] = (Ret x, ds')"
    using demo_loads demo_supported by (rule take_snapshot_run)
  have bbs: "map_of (services demo_registry) ''bbs'' = Some (demo_bbs\<lparr>sv_source := [''services'', ''b.yml'']\<rparr>)"
    by (simp add: demo_registry_def)
  have state: "recorded_state demo_failed ''bbs'' = ''failed''" by code_simp
  have local_endpoint: "ep_location (normalized (the (map_of (endpoints demo_registry) ''ep''))) \<noteq> ''remote''" by code_simp
  show ?thesis
    using failures_alerted[OF demo_loads demo_supported x bbs, where en = "new_engine True 200 300" and fresh_state = empty_monitor and rs = "[]" and now = "''1''",
        OF _ _ surjective_pairing] x state local_endpoint
    by (fastforce simp: watch_def new_engine_def empty_monitor_def demo_bbs_def)
qed

end
