(* ===== verification/Spec2Isabelle.thy ===== *)
theory Spec2Isabelle
  imports Registry_Facts Supervisor_Restarts Router_Holds Dos_Facts Dashboard_Facts
    Network_Facts Mail_Facts Edge Messaging Exchange_Facts Runtime_Facts
    Integrations_Facts Mystic Backups Deployments Monitoring_Facts
begin

text \<open>
  A verification library of UltimateBBSBox, a control plane for a museum of bulletin board systems. All paths below are
  relative to the root of the repository.

  The parts and how they interact.

  A catalog of YAML manifests is loaded into the metadata registry (\<open>scripts/ubb_registry\<close>), which every other part asks
  about services, endpoints and integrations. The lifecycle supervisor (\<open>scripts/ubb_supervisor\<close>) starts, watches, restarts
  and stops the services, through drivers; a journal and an instance file per service make its state survive a crash. The
  runtime adapters (\<open>scripts/ubb_runtime\<close>) are such drivers, for real processes. The session router (\<open>scripts/ubb_router\<close>)
  connects callers to services: it takes a hold of the supervisor for every session, opens a byte stream, and gives the hold
  back. Software enters through the preservation archive (\<open>scripts/ubb_archive.py\<close>), content addressed and with rights; the DOS
  foundation (\<open>scripts/ubb_dos.py\<close>), the museum integrations (\<open>integrations/bbs\<close>, \<open>scripts/ubb_integrations\<close>) and the
  deployment manager (\<open>scripts/ubb_deployment\<close>) install from it, the backup manager (\<open>scripts/ubb_backup\<close>) saves living state.
  The observatory (\<open>scripts/ubb_observatory\<close>) reads what the others store, the monitoring engine (\<open>scripts/ubb_monitoring\<close>)
  turns its snapshots into alerts, and the dashboard (\<open>scripts/ubb_dashboard.py\<close>) with the administration (\<open>scripts/ubb_admin\<close>)
  lets operators act on the supervisor. The remaining modules validate and render the configuration of networks, mail and
  message exchange.

  How the code is modelled.

  A method that changes state or may raise is a program: a function from a state record to an outcome, \<open>Ret\<close>, \<open>Raise\<close> or
  \<open>NoFuel\<close>, and the state it leaves, mutations before a raise included (\<^theory_text>\<open>UBB_Prelude\<close>). Exceptions are the constructors of one
  datatype per package. Frozen dataclasses are records, their \<open>__post_init__\<close> a check that answers the first error. Dictionaries
  are association lists in insertion order, strings are character lists, regular expressions are values of a datatype with a
  derivative matcher proved against its inductive semantics (\<^theory_text>\<open>Py_Strings\<close>), JSON is a datatype (\<^theory_text>\<open>Json\<close>), times are
  microseconds with an offset, and a file system is a map from paths to nodes (\<^theory_text>\<open>Files\<close>). Arguments of the definitions stand for
  what is not code of the repository: hash functions, \<open>ipaddress\<close>, base64, PBKDF2 and random numbers, \<open>urlsplit\<close>, ZIP, tar and
  LHA readers, JSON text, YAML and the JSON-schema validator, clocks, sockets, processes and the operating system's calls.
  Hypotheses on them say what their documentation says, such as that a hexadecimal digest has its length.

  The theories.

    \<^item> \<^theory_text>\<open>Registry\<close>: \<open>ubb_registry\<close>: documents, \<open>load_registry\<close>, \<open>resolve\<close>, \<open>list_services\<close>. \<^theory_text>\<open>Registry_Facts\<close>: no dangling
      reference after a load, and the linter of \<open>ubb_schema.py\<close> accepts the same catalogs.
    \<^item> \<^theory_text>\<open>Lifecycle\<close>, \<^theory_text>\<open>Scheduler\<close>, \<^theory_text>\<open>Supervisor\<close>, \<^theory_text>\<open>Drivers\<close>: the state graph, persistence, schedules, every method of the
      supervisor, and the drivers and clocks of \<open>ubb_supervisor\<close>. \<^theory_text>\<open>Supervisor_Facts\<close> and \<^theory_text>\<open>Supervisor_Steps\<close>: the invariant of
      every interleaving of its critical sections, with crashes between them. \<^theory_text>\<open>Supervisor_Contract\<close>, \<^theory_text>\<open>Supervisor_Promises\<close>: what
      each operation leaves on return and on a raise. \<^theory_text>\<open>Supervisor_Restarts\<close>: when recovery ends and when it does not.
      \<^theory_text>\<open>Supervisor_Hazards\<close>: what the code does against its documentation.
    \<^item> \<^theory_text>\<open>Runtime\<close>, \<^theory_text>\<open>Runtime_Manager\<close>: the adapters, readiness, streams and the manager of \<open>ubb_runtime\<close>. \<^theory_text>\<open>Runtime_Facts\<close>: what a start
      launches and whom a stop signals.
    \<^item> \<^theory_text>\<open>Transports\<close>, \<^theory_text>\<open>Router\<close>: streams, policy, sessions, opening, handing off and closing in \<open>ubb_router\<close>. \<^theory_text>\<open>Router_Facts\<close>,
      \<^theory_text>\<open>Router_Sessions\<close>, \<^theory_text>\<open>Router_Promises\<close>, \<^theory_text>\<open>Router_Outcomes\<close>: the invariant of every run and the outcome of each operation.
      \<^theory_text>\<open>Router_Supervisor\<close>, \<^theory_text>\<open>Router_Holds\<close>: the interface to the supervisor as the locale \<open>hold_provider\<close>, which the supervisor's
      model is proved to provide, and the conservation of holds over both.
    \<^item> \<^theory_text>\<open>Archive\<close>: ingest, derivation, loading, verification and export of \<open>ubb_archive.py\<close>. \<^theory_text>\<open>Archive_Facts\<close>: recorded artifacts verify in
      every run, and exports obey the rights.
    \<^item> \<^theory_text>\<open>Dos\<close>, \<^theory_text>\<open>Dos_Facts\<close>: profiles, names, nodes and pinned inputs of \<open>ubb_dos.py\<close>.
    \<^item> \<^theory_text>\<open>Amiga\<close>, \<^theory_text>\<open>Integrations\<close>, \<^theory_text>\<open>Integrations_Install\<close>, \<^theory_text>\<open>Mystic\<close>: the integrations. \<^theory_text>\<open>Integrations_Facts\<close>: an installation spares the
      images and the archive, and what promotions and rollbacks can do.
    \<^item> \<^theory_text>\<open>Living_State\<close>, \<^theory_text>\<open>Living_State_Facts\<close>, \<^theory_text>\<open>Backups\<close>: \<open>ubb_integrations/hardening.py\<close> and \<open>ubb_backup\<close>, with their round trips.
    \<^item> \<^theory_text>\<open>Deployments\<close>: \<open>ubb_deployment/manager.py\<close>: what is materialized verifies.
    \<^item> \<^theory_text>\<open>Observatory\<close>, \<^theory_text>\<open>Observatory_Facts\<close>: snapshots over the registry. \<^theory_text>\<open>Monitoring\<close>, \<^theory_text>\<open>Monitoring_Facts\<close>: the alert records refine
      the history of snapshots, and a failed service has its alert; heartbeats.
    \<^item> \<^theory_text>\<open>Admin\<close>, \<^theory_text>\<open>Dashboard\<close>, \<^theory_text>\<open>Admin_Facts\<close>, \<^theory_text>\<open>Dashboard_Facts\<close>: throttle, credentials, web sessions, audit and the HTTP handlers; who may
      act, and what is recorded.
    \<^item> \<^theory_text>\<open>Network\<close>, \<^theory_text>\<open>Mail\<close>, \<^theory_text>\<open>Edge\<close>, \<^theory_text>\<open>Messaging\<close>, \<^theory_text>\<open>Exchange\<close>: the configuration modules and the extraction of mail packets, with
      \<^theory_text>\<open>Network_Facts\<close>, \<^theory_text>\<open>Mail_Facts\<close>, \<^theory_text>\<open>Exchange_Facts\<close>.

  Fuel and bounds.

  The poll loop and the mutual recursion of starting and restarting a service take fuel: a depth of the restart limit beyond the
  polls of one startup is proved enough when the restarts fit into their window, and no depth is when one startup outlasts it.
  The wait for a process to stop gets one unit per 20 ms of its timeout and three more, which is proved enough for a clock that
  goes on while the adapter sleeps. The depth-first search of the inventory gets one unit more than there are services, which is
  proved enough for every inventory. All other loops are structural.

  Not modelled.

  The command lines (\<open>scripts/ubb-*.py\<close>) parse arguments and print. \<open>provision_runtime\<close> and its helpers in \<open>ubb_dos.py\<close> and
  \<open>ubb-dos-serial-qualify.py\<close> drive dpkg, apt, meson, ninja, make and dosemu2 in a pseudo terminal; the installer of the Mystic integration runs a
  program of the distribution and links directories, and the file tree here has no symbolic links. \<open>MonitoringEngine.storage\<close>
  computes floating-point percentages. The HTML and JSON views of the dashboard only read. \<open>ubb_integrations/guard.py\<close> searches
  sources with one regular expression. Durability (\<open>fsync\<close>, modes, the atomicity of a rename), and threads below the granularity of
  the supervisor's and router's locked sections, are outside the model. The playbooks, roles, catalog data, schemas, tests and
  documents of the repository are no part of it.
\<close>

end
